(* ===== verification/Neb_Prelude.thy ===== *)
theory Neb_Prelude
  imports Main
begin

text \<open>
  What every component shares: the exceptions the services throw, asynchronous methods as
  state transformers that may throw, the frame and preservation rules for such methods,
  tables of rows with a key, and decimal numerals as text.

  An \<^emph>\<open>effect\<close> is a method body: it takes the state and returns either the exception it
  threw or the value it returned, together with the state it leaves behind. A thrown
  exception does not undo the writes made before it, as in the code; only
  \<open>transactE\<close>, the model of a database transaction, rolls the state back.
\<close>

section \<open>Exceptions and effects\<close>

datatype exn =
    BadRequest string
  | Unauthorized string
  | Forbidden string
  | NotFound string
  | Conflict string
  | InternalServerError string
  | ServiceUnavailable string
  | JsError string

type_synonym ('s, 'a) eff = "'s \<Rightarrow> (exn + 'a) \<times> 's"

definition returnE :: "'a \<Rightarrow> ('s, 'a) eff" where
  "returnE a = (\<lambda>s. (Inr a, s))"

definition throwE :: "exn \<Rightarrow> ('s, 'a) eff" where
  "throwE e = (\<lambda>s. (Inl e, s))"

definition bindE :: "('s, 'a) eff \<Rightarrow> ('a \<Rightarrow> ('s, 'b) eff) \<Rightarrow> ('s, 'b) eff" where
  "bindE m f = (\<lambda>s. case m s of (Inl e, s') \<Rightarrow> (Inl e, s') | (Inr a, s') \<Rightarrow> f a s')"

definition thenE :: "('s, 'a) eff \<Rightarrow> ('s, 'b) eff \<Rightarrow> ('s, 'b) eff" where
  "thenE m n = bindE m (\<lambda>_. n)"

definition catchE :: "('s, 'a) eff \<Rightarrow> (exn \<Rightarrow> ('s, 'a) eff) \<Rightarrow> ('s, 'a) eff" where
  "catchE m h = (\<lambda>s. case m s of (Inl e, s') \<Rightarrow> h e s' | (Inr a, s') \<Rightarrow> (Inr a, s'))"

definition readE :: "('s \<Rightarrow> 'a) \<Rightarrow> ('s, 'a) eff" where
  "readE f = (\<lambda>s. (Inr (f s), s))"

definition writeE :: "('s \<Rightarrow> 's) \<Rightarrow> ('s, unit) eff" where
  "writeE f = (\<lambda>s. (Inr (), f s))"

definition whenE :: "bool \<Rightarrow> ('s, unit) eff \<Rightarrow> ('s, unit) eff" where
  "whenE b m = (if b then m else returnE ())"

definition liftE :: "exn + 'a \<Rightarrow> ('s, 'a) eff" where
  "liftE r = (\<lambda>s. (r, s))"

definition transactE :: "('s, 'a) eff \<Rightarrow> ('s, 'a) eff" where
  "transactE m = (\<lambda>s. case m s of (Inl e, _) \<Rightarrow> (Inl e, s) | (Inr a, s') \<Rightarrow> (Inr a, s'))"

fun mapE :: "('a \<Rightarrow> ('s, 'b) eff) \<Rightarrow> 'a list \<Rightarrow> ('s, 'b list) eff" where
  "mapE f [] = returnE []"
| "mapE f (x # xs) = bindE (f x) (\<lambda>y. bindE (mapE f xs) (\<lambda>ys. returnE (y # ys)))"

definition forE :: "('a \<Rightarrow> ('s, unit) eff) \<Rightarrow> 'a list \<Rightarrow> ('s, unit) eff" where
  "forE f xs = thenE (mapE f xs) (returnE ())"

subsection \<open>Running an effect\<close>

named_theorems eff_run \<open>equations that run an effect on a state\<close>

lemma run_return [eff_run, simp]: "returnE a s = (Inr a, s)"
  by (simp add: returnE_def)

lemma run_throw [eff_run, simp]: "throwE e s = (Inl e, s)"
  by (simp add: throwE_def)

lemma run_read [eff_run, simp]: "readE f s = (Inr (f s), s)"
  by (simp add: readE_def)

lemma run_write [eff_run, simp]: "writeE f s = (Inr (), f s)"
  by (simp add: writeE_def)

lemma run_lift [eff_run, simp]: "liftE r s = (r, s)"
  by (simp add: liftE_def)

lemma run_bind [eff_run]:
  "bindE m f s = (case m s of (Inl e, s') \<Rightarrow> (Inl e, s') | (Inr a, s') \<Rightarrow> f a s')"
  by (simp add: bindE_def)

lemma run_then [eff_run]:
  "thenE m n s = (case m s of (Inl e, s') \<Rightarrow> (Inl e, s') | (Inr a, s') \<Rightarrow> n s')"
  by (simp add: thenE_def bindE_def)

lemma run_catch [eff_run]:
  "catchE m h s = (case m s of (Inl e, s') \<Rightarrow> h e s' | (Inr a, s') \<Rightarrow> (Inr a, s'))"
  by (simp add: catchE_def)

lemma run_when [eff_run]: "whenE b m s = (if b then m s else (Inr (), s))"
  by (simp add: whenE_def)

lemma run_transact [eff_run]:
  "transactE m s = (case m s of (Inl e, _) \<Rightarrow> (Inl e, s) | (Inr a, s') \<Rightarrow> (Inr a, s'))"
  by (simp add: transactE_def)

lemma run_for_Cons:
  "forE f (x # xs) s = (case f x s of (Inl e, s') \<Rightarrow> (Inl e, s') | (Inr _, s') \<Rightarrow> forE f xs s')"
  by (simp add: forE_def eff_run split: prod.split sum.split)

lemma run_for_Nil: "forE f [] s = (Inr (), s)"
  by (simp add: forE_def eff_run)

lemma bind_run_Inl: "m s = (Inl e, s') \<Longrightarrow> bindE m f s = (Inl e, s')"
  by (simp add: bindE_def)

lemma bind_run_Inr: "m s = (Inr a, s') \<Longrightarrow> bindE m f s = f a s'"
  by (simp add: bindE_def)

lemma then_run_Inr: "m s = (Inr a, s') \<Longrightarrow> thenE m n s = n s'"
  by (simp add: thenE_def bindE_def)

lemma bind_return [simp]: "bindE (returnE a) f = f a"
  by (simp add: bindE_def fun_eq_iff)

lemma bind_throw [simp]: "bindE (throwE e) f = throwE e"
  by (simp add: bindE_def fun_eq_iff)

lemma bind_assoc: "bindE (bindE m f) g = bindE m (\<lambda>x. bindE (f x) g)"
  by (auto simp: bindE_def fun_eq_iff split: prod.splits sum.splits)

lemma transact_atomic: "transactE m s = (Inl e, s') \<Longrightarrow> s' = s"
  by (auto simp: transactE_def split: prod.splits sum.splits)

subsection \<open>What an effect leaves alone, and what it keeps\<close>

text \<open>
  \<open>frame f m\<close>: running \<open>m\<close> does not change the part \<open>f\<close> of the state, however it
  ends. \<open>keeps I m\<close>: if \<open>I\<close> holds before, it holds after, however it ends. Both are
  closed under the combinators, so a method's frame follows from its body's shape.
\<close>

definition frame :: "('s \<Rightarrow> 'f) \<Rightarrow> ('s, 'a) eff \<Rightarrow> bool" where
  "frame f m \<longleftrightarrow> (\<forall>s. f (snd (m s)) = f s)"

definition keeps :: "('s \<Rightarrow> bool) \<Rightarrow> ('s, 'a) eff \<Rightarrow> bool" where
  "keeps I m \<longleftrightarrow> (\<forall>s. I s \<longrightarrow> I (snd (m s)))"

definition no_throw :: "('s, 'a) eff \<Rightarrow> bool" where
  "no_throw m \<longleftrightarrow> (\<forall>s. \<exists>a s'. m s = (Inr a, s'))"

named_theorems frames \<open>frame rules\<close>
named_theorems keeping \<open>preservation rules\<close>

lemma frameD: "frame f m \<Longrightarrow> f (snd (m s)) = f s"
  by (simp add: frame_def)

lemma frame_run: "frame f m \<Longrightarrow> m s = (r, s') \<Longrightarrow> f s' = f s"
  by (metis frame_def snd_conv)

lemma keepsD: "keeps I m \<Longrightarrow> I s \<Longrightarrow> I (snd (m s))"
  by (simp add: keeps_def)

lemma frame_keeps: "frame f m \<Longrightarrow> keeps (\<lambda>s. P (f s)) m"
  by (simp add: frame_def keeps_def)

lemma keeps_return [keeping]: "keeps I (returnE a)"
  by (simp add: keeps_def)

lemma keeps_throw [keeping]: "keeps I (throwE e)"
  by (simp add: keeps_def)

lemma keeps_read [keeping]: "keeps I (readE g)"
  by (simp add: keeps_def)

lemma keeps_lift [keeping]: "keeps I (liftE r)"
  by (simp add: keeps_def)

lemma keeps_write: "(\<And>s. I s \<Longrightarrow> I (g s)) \<Longrightarrow> keeps I (writeE g)"
  by (simp add: keeps_def)

lemma keeps_bind [keeping]:
  assumes "keeps I m" and "\<And>x. keeps I (g x)"
  shows "keeps I (bindE m g)"
  unfolding keeps_def
proof (intro allI impI)
  fix s assume "I s"
  then show "I (snd (bindE m g s))"
    using keepsD [OF assms(1), of s] keepsD [OF assms(2)]
    by (auto simp: run_bind split: prod.splits sum.splits)
qed

lemma keeps_then [keeping]: "keeps I m \<Longrightarrow> keeps I n \<Longrightarrow> keeps I (thenE m n)"
  by (simp add: thenE_def keeps_bind)

lemma keeps_catch [keeping]:
  assumes "keeps I m" and "\<And>x. keeps I (h x)"
  shows "keeps I (catchE m h)"
  unfolding keeps_def
proof (intro allI impI)
  fix s assume "I s"
  then show "I (snd (catchE m h s))"
    using keepsD [OF assms(1), of s] keepsD [OF assms(2)]
    by (auto simp: run_catch split: prod.splits sum.splits)
qed

lemma keeps_when [keeping]: "keeps I m \<Longrightarrow> keeps I (whenE b m)"
  by (simp add: whenE_def keeps_return)

lemma keeps_transact [keeping]: "keeps I m \<Longrightarrow> keeps I (transactE m)"
  unfolding keeps_def
  by (auto simp: transactE_def split: prod.splits sum.splits)

lemma keeps_if [keeping]: "(b \<Longrightarrow> keeps I m) \<Longrightarrow> (\<not> b \<Longrightarrow> keeps I n) \<Longrightarrow> keeps I (if b then m else n)"
  by simp

lemma keeps_option [keeping]:
  "keeps I m \<Longrightarrow> (\<And>x. keeps I (g x)) \<Longrightarrow> keeps I (case v of None \<Rightarrow> m | Some x \<Rightarrow> g x)"
  by (cases v) auto

lemma keeps_pair [keeping]: "(\<And>x y. keeps I (g x y)) \<Longrightarrow> keeps I (case p of (x, y) \<Rightarrow> g x y)"
  by (cases p) simp

lemma keeps_map [keeping]: "(\<And>x. keeps I (g x)) \<Longrightarrow> keeps I (mapE g xs)"
  by (induction xs) (auto intro!: keeping)

lemma keeps_for [keeping]: "(\<And>x. keeps I (g x)) \<Longrightarrow> keeps I (forE g xs)"
  by (simp add: forE_def keeps_then keeps_map keeps_return)

text \<open>A frame is the preservation of every value of the framed part.\<close>

lemma frame_iff_keeps: "frame f m \<longleftrightarrow> (\<forall>v. keeps (\<lambda>s. f s = v) m)"
  by (auto simp: frame_def keeps_def)

lemma frame_write: "(\<And>s. f (g s) = f s) \<Longrightarrow> frame f (writeE g)"
  by (simp add: frame_def)

lemma frame_base [frames]:
  "frame f (returnE a)" "frame f (throwE e)" "frame f (readE g)" "frame f (liftE r)"
  by (simp_all add: frame_def)

lemma frame_bind [frames]: "frame f m \<Longrightarrow> (\<And>x. frame f (g x)) \<Longrightarrow> frame f (bindE m g)"
  by (simp add: frame_iff_keeps keeps_bind)

lemma frame_then [frames]: "frame f m \<Longrightarrow> frame f n \<Longrightarrow> frame f (thenE m n)"
  by (simp add: frame_iff_keeps keeps_then)

lemma frame_catch [frames]: "frame f m \<Longrightarrow> (\<And>x. frame f (h x)) \<Longrightarrow> frame f (catchE m h)"
  by (simp add: frame_iff_keeps keeps_catch)

lemma frame_when [frames]: "frame f m \<Longrightarrow> frame f (whenE b m)"
  by (simp add: frame_iff_keeps keeps_when)

lemma frame_transact [frames]: "frame f m \<Longrightarrow> frame f (transactE m)"
  by (simp add: frame_iff_keeps keeps_transact)

lemma frame_if [frames]: "frame f m \<Longrightarrow> frame f n \<Longrightarrow> frame f (if b then m else n)"
  by simp

lemma frame_option [frames]:
  "frame f m \<Longrightarrow> (\<And>x. frame f (g x)) \<Longrightarrow> frame f (case v of None \<Rightarrow> m | Some x \<Rightarrow> g x)"
  by (cases v) auto

lemma frame_pair [frames]: "(\<And>x y. frame f (g x y)) \<Longrightarrow> frame f (case p of (x, y) \<Rightarrow> g x y)"
  by (cases p) simp

lemma frame_map [frames]: "(\<And>x. frame f (g x)) \<Longrightarrow> frame f (mapE g xs)"
  by (simp add: frame_iff_keeps keeps_map)

lemma frame_for [frames]: "(\<And>x. frame f (g x)) \<Longrightarrow> frame f (forE g xs)"
  by (simp add: frame_iff_keeps keeps_for)

lemma no_throw_bind:
  assumes "no_throw m" and "\<And>x. no_throw (f x)"
  shows "no_throw (bindE m f)"
  unfolding no_throw_def
proof
  fix s
  obtain a s' where "m s = (Inr a, s')" using assms(1) unfolding no_throw_def by blast
  then show "\<exists>a s'. bindE m f s = (Inr a, s')"
    using assms(2) unfolding no_throw_def by (simp add: run_bind)
qed

lemma no_throw_return [simp]: "no_throw (returnE a)"
  by (simp add: no_throw_def)

lemma no_throw_map: "(\<And>x. no_throw (f x)) \<Longrightarrow> no_throw (mapE f xs)"
  by (induction xs) (auto intro!: no_throw_bind)

lemma no_throw_for: "(\<And>x. no_throw (f x)) \<Longrightarrow> no_throw (forE f xs)"
  by (simp add: forE_def thenE_def no_throw_bind no_throw_map)

lemma no_throwE:
  assumes "no_throw m"
  obtains a s' where "m s = (Inr a, s')"
  using assms unfolding no_throw_def by blast

lemma no_throwD: "no_throw m \<Longrightarrow> \<exists>a s'. m s = (Inr a, s')"
  by (simp add: no_throw_def)

lemma no_throw_catch: "no_throw m \<Longrightarrow> catchE m h = m"
proof
  fix s
  assume "no_throw m"
  then obtain a s' where "m s = (Inr a, s')" by (rule no_throwE)
  then show "catchE m h s = m s" by (simp add: catchE_def)
qed

section \<open>Tables of rows\<close>

text \<open>
  A table is the list of its rows in insertion order. \<open>row_find\<close> is the first row with
  a key, \<open>row_put\<close> replaces every row with the key of the new row, as an UPDATE by
  primary key does.
\<close>

definition row_find :: "('r \<Rightarrow> 'k) \<Rightarrow> 'k \<Rightarrow> 'r list \<Rightarrow> 'r option" where
  "row_find key k rs = List.find (\<lambda>r. key r = k) rs"

definition row_put :: "('r \<Rightarrow> 'k) \<Rightarrow> 'r \<Rightarrow> 'r list \<Rightarrow> 'r list" where
  "row_put key r rs = map (\<lambda>x. if key x = key r then r else x) rs"

lemma row_find_Nil [simp]: "row_find key k [] = None"
  by (simp add: row_find_def)

lemma row_find_Cons [simp]:
  "row_find key k (r # rs) = (if key r = k then Some r else row_find key k rs)"
  by (simp add: row_find_def)

lemma row_put_Nil [simp]: "row_put key r [] = []"
  by (simp add: row_put_def)

lemma row_put_Cons [simp]:
  "row_put key r (x # xs) = (if key x = key r then r else x) # row_put key r xs"
  by (simp add: row_put_def)

lemma row_find_SomeD: "row_find key k rs = Some r \<Longrightarrow> key r = k \<and> r \<in> set rs"
  by (induction rs) (auto split: if_splits)

lemma row_find_None_iff: "row_find key k rs = None \<longleftrightarrow> (\<forall>r \<in> set rs. key r \<noteq> k)"
  by (induction rs) auto

lemma row_find_put:
  "row_find key k (row_put key r rs) =
     (if k = key r \<and> row_find key k rs \<noteq> None then Some r else row_find key k rs)"
  by (induction rs) auto

lemma row_find_append:
  "row_find key k (rs @ ts) = (case row_find key k rs of None \<Rightarrow> row_find key k ts | Some r \<Rightarrow> Some r)"
  by (induction rs) auto

lemma row_put_keys [simp]: "map key (row_put key r rs) = map key rs"
  by (induction rs) auto

lemma length_row_put [simp]: "length (row_put key r rs) = length rs"
  by (simp add: row_put_def)

lemma in_row_put: "x \<in> set (row_put key r rs) \<Longrightarrow> x = r \<or> (x \<in> set rs \<and> key x \<noteq> key r)"
  by (induction rs) (auto split: if_splits)

text \<open>\<open>ORDER BY f DESC LIMIT 1\<close>: the row with the greatest \<open>f\<close>, the first of them on a tie.\<close>

fun newest :: "('r \<Rightarrow> int) \<Rightarrow> 'r list \<Rightarrow> 'r option" where
  "newest f [] = None"
| "newest f (r # rs) =
     (case newest f rs of None \<Rightarrow> Some r | Some x \<Rightarrow> if f r < f x then Some x else Some r)"

lemma newest_None [simp]: "newest f rs = None \<longleftrightarrow> rs = []"
  by (cases rs) (auto split: option.splits)

lemma newest_SomeD: "newest f rs = Some r \<Longrightarrow> r \<in> set rs \<and> (\<forall>x \<in> set rs. f x \<le> f r)"
  by (induction rs arbitrary: r) (auto split: option.splits if_splits)

text \<open>
  The contract of a table a repository works on: what a lookup returns after an update,
  and that rows under other keys are not touched. Every repository below provides it for
  its table, and the read-modify-write lemma is proved once, from the contract.
\<close>

locale row_store =
  fixes lookup :: "'k \<Rightarrow> 't \<Rightarrow> 'r option"
    and store :: "'r \<Rightarrow> 't \<Rightarrow> 't"
    and key :: "'r \<Rightarrow> 'k"
  assumes lookup_key: "lookup k t = Some r \<Longrightarrow> key r = k"
    and lookup_store_same: "lookup (key r) t \<noteq> None \<Longrightarrow> lookup (key r) (store r t) = Some r"
    and lookup_store_other: "k \<noteq> key r \<Longrightarrow> lookup k (store r t) = lookup k t"
begin

lemma read_modify_write:
  assumes "lookup k t = Some r" and "key (g r) = key r"
  shows "lookup k (store (g r) t) = Some (g r)"
  using assms lookup_key [OF assms(1)] lookup_store_same [of "g r" t] by auto

lemma store_store:
  assumes "lookup (key r) t \<noteq> None" and "key r' = key r"
  shows "lookup k (store r' (store r t)) = lookup k (store r' t)"
proof (cases "k = key r")
  case True
  have "lookup (key r') (store r t) \<noteq> None"
    using assms lookup_store_same [of r t] by simp
  then show ?thesis
    using True assms lookup_store_same [of r' "store r t"] lookup_store_same [of r' t] by simp
next
  case False
  then show ?thesis
    using assms(2) lookup_store_other [of k r' "store r t"] lookup_store_other [of k r t]
      lookup_store_other [of k r' t] by simp
qed

lemma domain_store:
  "lookup (key r) t \<noteq> None \<Longrightarrow> (lookup k (store r t) = None) = (lookup k t = None)"
  by (cases "k = key r") (auto simp: lookup_store_same lookup_store_other)

end

locale row_store_insert = row_store lookup store key
  for lookup :: "'k \<Rightarrow> 't \<Rightarrow> 'r option" and store :: "'r \<Rightarrow> 't \<Rightarrow> 't" and key :: "'r \<Rightarrow> 'k" +
  fixes insert_row :: "'r \<Rightarrow> 't \<Rightarrow> 't"
  assumes lookup_insert: "lookup (key r) t = None \<Longrightarrow>
    lookup k (insert_row r t) = (if k = key r then Some r else lookup k t)"
begin

lemma insert_then_store:
  assumes "lookup (key r) t = None" and "key r' = key r"
  shows "lookup k (store r' (insert_row r t)) = (if k = key r then Some r' else lookup k t)"
proof (cases "k = key r")
  case True
  have "lookup (key r') (insert_row r t) \<noteq> None"
    using assms lookup_insert [OF assms(1)] by simp
  then show ?thesis using True assms(2) lookup_store_same [of r' "insert_row r t"] by simp
next
  case False
  then show ?thesis
    using assms lookup_store_other [of k r' "insert_row r t"] lookup_insert [OF assms(1)] by simp
qed

end

lemma find_append_single:
  "List.find P (xs @ [y]) =
     (case List.find P xs of None \<Rightarrow> if P y then Some y else None | Some x \<Rightarrow> Some x)"
  by (induction xs) auto

text \<open>
  The contract of an upsert (INSERT ... ON CONFLICT DO UPDATE, or \<open>Map.set\<close>): afterwards the
  key finds the new row and every other key what it found before. A sequence of upserts
  leaves the last row of each key.
\<close>

locale upsert_store =
  fixes lookup :: "'k \<Rightarrow> 't \<Rightarrow> 'r option"
    and upsert :: "'t \<Rightarrow> 'r \<Rightarrow> 't"
    and key :: "'r \<Rightarrow> 'k"
  assumes lookup_upsert: "lookup k (upsert t r) = (if k = key r then Some r else lookup k t)"
begin

lemma lookup_upserts:
  "lookup k (foldl upsert t rs) =
     (case List.find (\<lambda>r. key r = k) (rev rs) of None \<Rightarrow> lookup k t | Some r \<Rightarrow> Some r)"
proof (induction rs arbitrary: t)
  case (Cons r rs)
  have "List.find (\<lambda>x. key x = k) (rev rs @ [r]) =
      (case List.find (\<lambda>x. key x = k) (rev rs) of
         None \<Rightarrow> if key r = k then Some r else None | Some x \<Rightarrow> Some x)"
    by (simp add: find_append_single)
  then show ?case using Cons.IH [of "upsert t r"] by (auto simp: lookup_upsert split: option.split)
qed simp

lemma upsert_again: "lookup k (upsert (upsert t r) r) = lookup k (upsert t r)"
  by (simp add: lookup_upsert)

end

section \<open>Decimal numerals\<close>

definition digit_char :: "nat \<Rightarrow> char" where
  "digit_char d = ''0123456789'' ! d"

definition digit_val :: "char \<Rightarrow> nat option" where
  "digit_val c = map_of (zip ''0123456789'' [0..<10]) c"

fun show_nat :: "nat \<Rightarrow> string" where
  "show_nat n = (if n < 10 then [digit_char n] else show_nat (n div 10) @ [digit_char (n mod 10)])"

declare show_nat.simps [simp del]

fun read_digits :: "nat \<Rightarrow> string \<Rightarrow> nat option" where
  "read_digits acc [] = Some acc"
| "read_digits acc (c # cs) =
     (case digit_val c of None \<Rightarrow> None | Some d \<Rightarrow> read_digits (10 * acc + d) cs)"

definition read_nat :: "string \<Rightarrow> nat option" where
  "read_nat cs = (if cs = [] then None else read_digits 0 cs)"

lemma digit_val_char: "d < 10 \<Longrightarrow> digit_val (digit_char d) = Some d"
proof -
  have "\<forall>e \<in> set [0..<10]. digit_val (digit_char e) = Some e"
    by (simp add: digit_val_def digit_char_def upt_rec)
  then show "d < 10 \<Longrightarrow> digit_val (digit_char d) = Some d" by simp
qed

lemma read_digits_append:
  "read_digits acc (xs @ ys) =
     (case read_digits acc xs of None \<Rightarrow> None | Some n \<Rightarrow> read_digits n ys)"
  by (induction xs arbitrary: acc) (auto split: option.splits)

lemma show_nat_nonempty [simp]: "show_nat n \<noteq> []"
  by (subst show_nat.simps) simp

lemma read_digits_show: "read_digits 0 (show_nat n) = Some n"
proof (induction n rule: show_nat.induct)
  case (1 n)
  show ?case
  proof (cases "n < 10")
    case True
    then show ?thesis by (subst show_nat.simps) (simp add: digit_val_char)
  next
    case False
    with 1 have "read_digits 0 (show_nat (n div 10)) = Some (n div 10)" by simp
    with False show ?thesis
      by (subst show_nat.simps) (simp add: read_digits_append digit_val_char)
  qed
qed

lemma read_show_nat [simp]: "read_nat (show_nat n) = Some n"
  by (simp add: read_nat_def read_digits_show)

lemma show_nat_inject [simp]: "show_nat m = show_nat n \<longleftrightarrow> m = n"
  by (metis option.inject read_show_nat)

section \<open>Joining and splitting text\<close>

text \<open>JavaScript's \<open>split\<close> on, and \<open>join\<close> with, a one-character separator.\<close>

fun split_on :: "char \<Rightarrow> string \<Rightarrow> string list" where
  "split_on sep [] = [[]]"
| "split_on sep (c # cs) =
     (if c = sep then [] # split_on sep cs
      else case split_on sep cs of [] \<Rightarrow> [[c]] | w # ws \<Rightarrow> (c # w) # ws)"

fun join_with :: "char \<Rightarrow> string list \<Rightarrow> string" where
  "join_with sep [] = []"
| "join_with sep [w] = w"
| "join_with sep (w # ws) = w @ sep # join_with sep ws"

lemma split_on_plain: "sep \<notin> set w \<Longrightarrow> split_on sep w = [w]"
  by (induction w) auto

lemma split_on_word: "sep \<notin> set w \<Longrightarrow> split_on sep (w @ sep # cs) = w # split_on sep cs"
  by (induction w) auto

lemma split_join: "ws \<noteq> [] \<Longrightarrow> \<forall>w \<in> set ws. sep \<notin> set w \<Longrightarrow> split_on sep (join_with sep ws) = ws"
  by (induction sep ws rule: join_with.induct) (auto simp: split_on_plain split_on_word)

end
