(* ===== verification/Js_Number.thy ===== *)
theory Js_Number
  imports Complex_Main Neb_Prelude
begin

text \<open>
  The Number type of the language: IEEE 754 binary64 values, with every arithmetic
  operation computed exactly on rationals and then rounded to the nearest double (ties to
  even, gradual underflow, overflow to the infinities). The sign of a zero is not kept: no
  operation the code applies can tell the two zeros apart.

  The laws of the rounding that the fare and distance proofs rest on (monotone, exact on
  small integers, odd) are the locale \<open>rounding\<close>; \<open>fl64\<close> is interpreted below.
\<close>

section \<open>Rounding to binary64\<close>

text \<open>\<open>ilen n\<close>: the number of binary digits of a positive integer.\<close>

function ilen :: "int \<Rightarrow> int" where
  "ilen n = (if n \<le> 0 then 0 else 1 + ilen (n div 2))"
  by pat_completeness auto
termination
  by (relation "measure nat") auto

declare ilen.simps [simp del]

lemma ilen_nonneg: "0 \<le> ilen n"
proof (induction n rule: ilen.induct)
  case (1 n)
  then show ?case by (cases "n \<le> 0") (auto simp: ilen.simps [of n])
qed

lemma ilen_pos: "0 < n \<Longrightarrow> 1 \<le> ilen n"
  using ilen_nonneg [of "n div 2"] by (simp add: ilen.simps [of n])

lemma ilen_bounds: "0 < n \<Longrightarrow> 2 ^ nat (ilen n - 1) \<le> n \<and> n < 2 ^ nat (ilen n)"
proof (induction n rule: ilen.induct)
  case (1 n)
  show ?case
  proof (cases "n = 1")
    case True
    then show ?thesis by (simp add: ilen.simps)
  next
    case False
    with "1.prems" have pos: "0 < n div 2" by linarith
    with 1 have IH: "2 ^ nat (ilen (n div 2) - 1) \<le> n div 2 \<and> n div 2 < 2 ^ nat (ilen (n div 2))"
      by simp
    have e: "ilen n = 1 + ilen (n div 2)" using "1.prems" by (simp add: ilen.simps [of n])
    have l: "1 \<le> ilen (n div 2)" using pos by (rule ilen_pos)
    then have "nat (ilen n - 1) = Suc (nat (ilen (n div 2) - 1))"
      and "nat (ilen n) = Suc (nat (ilen (n div 2)))" using e by linarith+
    with IH have "2 ^ nat (ilen n - 1) = 2 * (2::int) ^ nat (ilen (n div 2) - 1)"
      and "2 ^ nat (ilen n) = 2 * (2::int) ^ nat (ilen (n div 2))" by simp_all
    with IH show ?thesis by linarith
  qed
qed

text \<open>\<open>ilog2 x\<close>: the exponent of a positive rational, the largest \<open>k\<close> with \<open>2\<^sup>k \<le> x\<close>.\<close>

definition ilog2 :: "rat \<Rightarrow> int" where
  "ilog2 x = (if 1 \<le> x then ilen \<lfloor>x\<rfloor> - 1 else - ilen (\<lceil>1 / x\<rceil> - 1))"

lemma powi_nat: "0 \<le> k \<Longrightarrow> (2::rat) powi k = of_int (2 ^ nat k)"
  by (simp add: power_int_def)

lemma ilog2_bounds:
  assumes "0 < x"
  shows "2 powi ilog2 x \<le> x \<and> x < 2 powi (ilog2 x + 1)"
proof (cases "1 \<le> x")
  case True
  let ?n = "\<lfloor>x\<rfloor>"
  from True have n: "0 < ?n" by linarith
  have e: "ilog2 x = ilen ?n - 1" using True by (simp add: ilog2_def)
  from ilen_bounds [OF n] have b: "2 ^ nat (ilen ?n - 1) \<le> ?n" "?n < 2 ^ nat (ilen ?n)" by auto
  have l: "1 \<le> ilen ?n" using n by (rule ilen_pos)
  have "(2::rat) powi (ilen ?n - 1) = of_int (2 ^ nat (ilen ?n - 1))" using l by (intro powi_nat) simp
  also have "\<dots> \<le> of_int ?n" using b(1) by (simp only: of_int_le_iff)
  also have "\<dots> \<le> x" by (rule of_int_floor_le)
  finally have lo: "2 powi (ilen ?n - 1) \<le> x" .
  have "x < of_int (?n + 1)" by linarith
  also have "\<dots> \<le> of_int (2 ^ nat (ilen ?n))" using b(2) by (simp only: of_int_le_iff)
  also have "\<dots> = 2 powi (ilen ?n)" using l by (intro powi_nat [symmetric]) simp
  finally show ?thesis using lo e by simp
next
  case False
  let ?y = "1 / x" and ?n = "\<lceil>1 / x\<rceil> - 1"
  from assms False have y: "1 < ?y" by simp
  then have n: "0 < ?n" by (simp add: less_ceiling_iff)
  have e: "ilog2 x = - ilen ?n" using False by (simp add: ilog2_def)
  from ilen_bounds [OF n] have b: "2 ^ nat (ilen ?n - 1) \<le> ?n" "?n < 2 ^ nat (ilen ?n)" by auto
  have l: "1 \<le> ilen ?n" using n by (rule ilen_pos)
  have "(2::rat) powi (ilen ?n - 1) = of_int (2 ^ nat (ilen ?n - 1))" using l by (intro powi_nat) simp
  also have "\<dots> \<le> of_int ?n" using b(1) by (simp only: of_int_le_iff)
  also have "\<dots> < ?y" by linarith
  finally have lo: "2 powi (ilen ?n - 1) < ?y" .
  have "?y \<le> of_int (?n + 1)" by linarith
  also have "\<dots> \<le> of_int (2 ^ nat (ilen ?n))" using b(2) by (simp only: of_int_le_iff)
  also have "\<dots> = 2 powi (ilen ?n)" using l by (intro powi_nat [symmetric]) simp
  finally have hi: "?y \<le> 2 powi (ilen ?n)" .
  have p: "0 < (2::rat) powi (ilen ?n)" "0 < (2::rat) powi (ilen ?n - 1)" by simp_all
  have "2 powi (- ilen ?n) \<le> x"
    using hi p assms by (simp add: power_int_minus field_simps)
  moreover have "x < 2 powi (- (ilen ?n - 1))"
    using lo p assms unfolding power_int_minus by (simp add: field_simps)
  ultimately show ?thesis using e by simp
qed

lemma powi_le: "a \<le> b \<Longrightarrow> (2::rat) powi a \<le> 2 powi b"
  by (simp add: power_int_increasing)

lemma powi_less_imp: "(2::rat) powi a < 2 powi b \<Longrightarrow> a < b"
  using powi_le [of b a] by linarith

lemma ilog2_mono: "0 < x \<Longrightarrow> x \<le> y \<Longrightarrow> ilog2 x \<le> ilog2 y"
proof -
  assume "0 < x" "x \<le> y"
  then have "2 powi ilog2 x < (2::rat) powi (ilog2 y + 1)"
    using ilog2_bounds [of x] ilog2_bounds [of y] by linarith
  then show ?thesis using powi_less_imp by force
qed

text \<open>Rounding to the nearest integer, ties to even.\<close>

definition rne :: "rat \<Rightarrow> int" where
  "rne x = (let f = \<lfloor>x\<rfloor>; d = 2 * (x - of_int f)
            in if d < 1 then f else if 1 < d then f + 1 else if even f then f else f + 1)"

lemma rne_bounds: "\<lfloor>x\<rfloor> \<le> rne x \<and> rne x \<le> \<lfloor>x\<rfloor> + 1"
  by (simp add: rne_def Let_def)

lemma rne_int [simp]: "rne (of_int n) = n"
  by (simp add: rne_def Let_def)

lemma rne_mono: "x \<le> y \<Longrightarrow> rne x \<le> rne y"
proof -
  assume le: "x \<le> y"
  then have f: "\<lfloor>x\<rfloor> \<le> \<lfloor>y\<rfloor>" by (rule floor_mono)
  show ?thesis
  proof (cases "\<lfloor>x\<rfloor> = \<lfloor>y\<rfloor>")
    case True
    with le show ?thesis by (auto simp: rne_def Let_def)
  next
    case False
    with f rne_bounds [of x] rne_bounds [of y] show ?thesis by linarith
  qed
qed

lemma rne_uminus: "rne (- x) = - rne x"
proof (cases "x = of_int \<lfloor>x\<rfloor>")
  case True
  then have "- x = of_int (- \<lfloor>x\<rfloor>)" by simp
  then show ?thesis by (metis True rne_int)
next
  case False
  define f where "f = \<lfloor>x\<rfloor>"
  have r: "of_int f < x" "x < of_int f + 1"
    using False of_int_floor_le [of x] floor_correct [of x] by (auto simp: f_def order_less_le)
  then have g: "\<lfloor>- x\<rfloor> = - f - 1" by (intro floor_unique) auto
  show ?thesis unfolding rne_def g f_def [symmetric] Let_def
    by (cases "even f") (auto simp: algebra_simps)
qed

lemma rne_near: "\<bar>of_int (rne x) - x\<bar> \<le> 1 / 2"
proof -
  have "of_int \<lfloor>x\<rfloor> \<le> x" "x < of_int \<lfloor>x\<rfloor> + 1" by linarith+
  then show ?thesis by (auto simp: rne_def Let_def)
qed

text \<open>
  A double has 53 significant bits and exponent at least \<open>-1074\<close>: \<open>ulp_exp x\<close> is the
  exponent of the last place of the binade of \<open>x\<close>.
\<close>

definition ulp_exp :: "rat \<Rightarrow> int" where
  "ulp_exp x = max (ilog2 x - 52) (- 1074)"

definition fl64 :: "rat \<Rightarrow> rat" where
  "fl64 x = (if x = 0 then 0
             else let u = 2 powi ulp_exp \<bar>x\<bar> in of_int (rne (x / u)) * u)"

lemma fl64_uminus: "fl64 (- x) = - fl64 x"
  by (simp add: fl64_def Let_def rne_uminus)

lemma scaled_upper: "0 < x \<Longrightarrow> x / 2 powi ulp_exp x < 2 powi 53"
proof -
  assume x: "0 < x"
  have "x < 2 powi (ilog2 x + 1)" using ilog2_bounds [OF x] by simp
  also have "\<dots> \<le> 2 powi (53 + ulp_exp x)" by (rule powi_le) (simp add: ulp_exp_def)
  also have "\<dots> = 2 powi 53 * 2 powi ulp_exp x" by (rule power_int_add) simp
  finally show ?thesis by (simp add: divide_less_eq)
qed

lemma fl64_le_binade: "0 < x \<Longrightarrow> fl64 x \<le> 2 powi (53 + ulp_exp x)"
proof -
  assume x: "0 < x"
  let ?u = "(2::rat) powi ulp_exp x"
  have "x / ?u \<le> of_int (2 ^ 53)"
    using scaled_upper [OF x] by (simp add: power_int_def)
  then have "rne (x / ?u) \<le> 2 ^ 53" by (metis rne_int rne_mono)
  then have "of_int (rne (x / ?u)) \<le> (of_int (2 ^ 53) :: rat)" by (simp only: of_int_le_iff)
  then have "of_int (rne (x / ?u)) * ?u \<le> of_int (2 ^ 53) * ?u"
    by (rule mult_right_mono) simp
  also have "\<dots> = 2 powi (53 + ulp_exp x)"
    by (simp add: power_int_add power_int_def [of _ 53])
  finally show ?thesis using x by (simp add: fl64_def Let_def)
qed

lemma fl64_ge_binade:
  assumes x: "0 < x" and e: "ulp_exp x = ilog2 x - 52"
  shows "2 powi ilog2 x \<le> fl64 x"
proof -
  let ?u = "(2::rat) powi ulp_exp x"
  have split: "2 powi ilog2 x = of_int (2 ^ 52) * ?u"
    using power_int_add [of "2::rat" 52 "ulp_exp x"] e by (simp add: power_int_def [of _ 52])
  then have "of_int (2 ^ 52) \<le> x / ?u"
    using ilog2_bounds [OF x] by (simp add: le_divide_eq)
  then have "2 ^ 52 \<le> rne (x / ?u)" by (metis rne_int rne_mono)
  then have "(of_int (2 ^ 52) :: rat) \<le> of_int (rne (x / ?u))" by (simp only: of_int_le_iff)
  then have "of_int (2 ^ 52) * ?u \<le> of_int (rne (x / ?u)) * ?u"
    by (rule mult_right_mono) simp
  then show ?thesis using x split by (simp add: fl64_def Let_def)
qed

lemma fl64_mono_pos:
  assumes x: "0 < x" and le: "x \<le> y"
  shows "fl64 x \<le> fl64 y"
proof -
  have y: "0 < y" using assms by linarith
  have ee: "ulp_exp x \<le> ulp_exp y" using ilog2_mono [OF x le] by (simp add: ulp_exp_def)
  show ?thesis
  proof (cases "ulp_exp x = ulp_exp y")
    case True
    let ?u = "(2::rat) powi ulp_exp y"
    have "x / ?u \<le> y / ?u" using le by (simp add: divide_right_mono)
    then have "of_int (rne (x / ?u)) * ?u \<le> of_int (rne (y / ?u)) * ?u"
      by (intro mult_right_mono) (simp_all add: rne_mono)
    then show ?thesis using x y True by (simp add: fl64_def Let_def)
  next
    case False
    then have e: "ulp_exp y = ilog2 y - 52" and s: "53 + ulp_exp x \<le> ilog2 y"
      using ee by (auto simp: ulp_exp_def max_def split: if_splits)
    have "fl64 x \<le> 2 powi (53 + ulp_exp x)" using x by (rule fl64_le_binade)
    also have "\<dots> \<le> 2 powi ilog2 y" using s by (rule powi_le)
    also have "\<dots> \<le> fl64 y" using y e by (rule fl64_ge_binade)
    finally show ?thesis .
  qed
qed

lemma fl64_nonneg: "0 \<le> x \<Longrightarrow> 0 \<le> fl64 x"
proof -
  assume "0 \<le> x"
  then have "0 \<le> x / 2 powi ulp_exp \<bar>x\<bar>" by simp
  then have "0 \<le> rne (x / 2 powi ulp_exp \<bar>x\<bar>)" by (metis of_int_0 rne_int rne_mono)
  then show ?thesis by (simp add: fl64_def Let_def)
qed

lemma fl64_mono: "x \<le> y \<Longrightarrow> fl64 x \<le> fl64 y"
proof -
  assume le: "x \<le> y"
  consider "0 < x" | "x \<le> 0" "0 \<le> y" | "y < 0" using le by linarith
  then show ?thesis
  proof cases
    case 1
    then show ?thesis using le by (rule fl64_mono_pos)
  next
    case 2
    have "0 \<le> fl64 (- x)" using 2 by (intro fl64_nonneg) simp
    moreover have "0 \<le> fl64 y" using 2 by (intro fl64_nonneg) simp
    ultimately show ?thesis by (simp add: fl64_uminus)
  next
    case 3
    have "fl64 (- y) \<le> fl64 (- x)" using 3 le by (intro fl64_mono_pos) auto
    then show ?thesis by (simp add: fl64_uminus)
  qed
qed

lemma fl64_int_pos:
  assumes "0 < n" and "n \<le> 2 ^ 53"
  shows "fl64 (of_int n) = of_int n"
proof (cases "n = 2 ^ 53")
  case True
  have i: "ilog2 (of_int n) = 53"
  proof -
    have "2 powi ilog2 (of_int n) < (2::rat) powi 54" and "(2::rat) powi 53 < 2 powi (ilog2 (of_int n) + 1)"
      using ilog2_bounds [of "of_int n"] assms True by (auto simp: power_int_def [of _ 54] power_int_def [of _ 53])
    then have "ilog2 (of_int n) < 54" and "53 < ilog2 (of_int n) + 1" using powi_less_imp by blast+
    then show ?thesis by linarith
  qed
  have u: "ulp_exp (of_int n) = 1" by (simp add: ulp_exp_def i)
  have "(of_int n :: rat) / 2 = of_int (2 ^ 52)" using True by simp
  then have "rne (of_int n / 2) = 2 ^ 52" by (metis rne_int)
  then show ?thesis using True u by (simp add: fl64_def Let_def)
next
  case False
  have "(of_int n :: rat) < of_int (2 ^ 53)" using assms False by (simp only: of_int_less_iff)
  then have "2 powi ilog2 (of_int n) < (2::rat) powi 53"
    using ilog2_bounds [of "of_int n"] assms by (simp add: power_int_def [of _ 53])
  then have "ilog2 (of_int n) < 53" by (rule powi_less_imp)
  then have u: "ulp_exp (of_int n) \<le> 0" by (simp add: ulp_exp_def)
  let ?k = "nat (- ulp_exp (of_int n))"
  have "(2::rat) powi ulp_exp (of_int n) = 1 / 2 ^ ?k"
    using u by (cases "ulp_exp (of_int n) = 0") (simp_all add: power_int_def power_one_over)
  then have "(of_int n :: rat) / 2 powi ulp_exp (of_int n) = of_int (n * 2 ^ ?k)" by simp
  then have "rne (of_int n / 2 powi ulp_exp (of_int n)) = n * 2 ^ ?k" by (metis rne_int)
  moreover have "of_int (n * 2 ^ ?k) * 2 powi ulp_exp (of_int n) = (of_int n :: rat)"
    using \<open>(of_int n :: rat) / 2 powi ulp_exp (of_int n) = of_int (n * 2 ^ ?k)\<close>
    by (metis nonzero_eq_divide_eq power_int_eq_0_iff zero_neq_numeral)
  ultimately show ?thesis using assms by (simp add: fl64_def Let_def)
qed

lemma fl64_int: "\<bar>n\<bar> \<le> 2 ^ 53 \<Longrightarrow> fl64 (of_int n) = of_int n"
proof -
  assume n: "\<bar>n\<bar> \<le> 2 ^ 53"
  consider "n = 0" | "0 < n" | "n < 0" by linarith
  then show ?thesis
  proof cases
    case 1
    then show ?thesis by (simp add: fl64_def)
  next
    case 2
    then show ?thesis using n by (intro fl64_int_pos) auto
  next
    case 3
    then have "fl64 (of_int (- n)) = of_int (- n)" using n by (intro fl64_int_pos) auto
    then show ?thesis by (simp add: fl64_uminus)
  qed
qed

subsection \<open>The laws of a rounding\<close>

locale rounding =
  fixes fl :: "rat \<Rightarrow> rat"
  assumes fl_mono: "x \<le> y \<Longrightarrow> fl x \<le> fl y"
    and fl_odd: "fl (- x) = - fl x"
    and fl_int: "\<bar>n\<bar> \<le> 2 ^ 53 \<Longrightarrow> fl (of_int n) = of_int n"
begin

lemma fl_zero: "fl 0 = 0"
  using fl_int [of 0] by simp

lemma fl_ge0: "0 \<le> x \<Longrightarrow> 0 \<le> fl x"
  using fl_mono [of 0 x] fl_zero by simp

lemma fl_le0: "x \<le> 0 \<Longrightarrow> fl x \<le> 0"
  using fl_mono [of x 0] fl_zero by simp

lemma fl_ge_int: "\<bar>n\<bar> \<le> 2 ^ 53 \<Longrightarrow> of_int n \<le> x \<Longrightarrow> of_int n \<le> fl x"
  using fl_mono [of "of_int n" x] fl_int [of n] by simp

lemma fl_le_int: "\<bar>n\<bar> \<le> 2 ^ 53 \<Longrightarrow> x \<le> of_int n \<Longrightarrow> fl x \<le> of_int n"
  using fl_mono [of x "of_int n"] fl_int [of n] by simp

end

interpretation fl64: rounding fl64
  by unfold_locales (simp_all add: fl64_mono fl64_uminus fl64_int)

section \<open>Numbers and their operations\<close>

datatype jsnum = Fin rat | PInf | NInf | NaN

definition round64 :: "rat \<Rightarrow> jsnum" where
  "round64 x = (let r = fl64 x
                in if 2 ^ 1024 \<le> r then PInf else if r \<le> - (2 ^ 1024) then NInf else Fin r)"

fun js_neg :: "jsnum \<Rightarrow> jsnum" where
  "js_neg (Fin a) = Fin (- a)"
| "js_neg PInf = NInf"
| "js_neg NInf = PInf"
| "js_neg NaN = NaN"

fun js_add :: "jsnum \<Rightarrow> jsnum \<Rightarrow> jsnum" where
  "js_add (Fin a) (Fin b) = round64 (a + b)"
| "js_add NaN _ = NaN"
| "js_add _ NaN = NaN"
| "js_add PInf NInf = NaN"
| "js_add NInf PInf = NaN"
| "js_add PInf _ = PInf"
| "js_add _ PInf = PInf"
| "js_add NInf _ = NInf"
| "js_add _ NInf = NInf"

definition js_sub :: "jsnum \<Rightarrow> jsnum \<Rightarrow> jsnum" where
  "js_sub a b = js_add a (js_neg b)"

definition inf_of_sign :: "rat \<Rightarrow> jsnum" where
  "inf_of_sign a = (if 0 < a then PInf else if a < 0 then NInf else NaN)"

fun js_mul :: "jsnum \<Rightarrow> jsnum \<Rightarrow> jsnum" where
  "js_mul (Fin a) (Fin b) = round64 (a * b)"
| "js_mul NaN _ = NaN"
| "js_mul _ NaN = NaN"
| "js_mul PInf (Fin b) = inf_of_sign b"
| "js_mul (Fin a) PInf = inf_of_sign a"
| "js_mul NInf (Fin b) = inf_of_sign (- b)"
| "js_mul (Fin a) NInf = inf_of_sign (- a)"
| "js_mul PInf PInf = PInf"
| "js_mul NInf NInf = PInf"
| "js_mul PInf NInf = NInf"
| "js_mul NInf PInf = NInf"

fun js_div :: "jsnum \<Rightarrow> jsnum \<Rightarrow> jsnum" where
  "js_div (Fin a) (Fin b) = (if b = 0 then inf_of_sign a else round64 (a / b))"
| "js_div NaN _ = NaN"
| "js_div _ NaN = NaN"
| "js_div PInf (Fin b) = (if 0 \<le> b then PInf else NInf)"
| "js_div NInf (Fin b) = (if 0 \<le> b then NInf else PInf)"
| "js_div (Fin a) _ = Fin 0"
| "js_div _ _ = NaN"

fun is_finite :: "jsnum \<Rightarrow> bool" where
  "is_finite (Fin _) = True"
| "is_finite _ = False"

fun is_nan :: "jsnum \<Rightarrow> bool" where
  "is_nan NaN = True"
| "is_nan _ = False"

text \<open>Every comparison with NaN is false.\<close>

fun js_lt :: "jsnum \<Rightarrow> jsnum \<Rightarrow> bool" where
  "js_lt (Fin a) (Fin b) = (a < b)"
| "js_lt NaN _ = False"
| "js_lt _ NaN = False"
| "js_lt PInf _ = False"
| "js_lt _ NInf = False"
| "js_lt _ _ = True"

fun js_eq :: "jsnum \<Rightarrow> jsnum \<Rightarrow> bool" where
  "js_eq NaN _ = False"
| "js_eq a b = (a = b)"

definition js_le :: "jsnum \<Rightarrow> jsnum \<Rightarrow> bool" where
  "js_le a b = (js_lt a b \<or> js_eq a b)"

definition js_max :: "jsnum \<Rightarrow> jsnum \<Rightarrow> jsnum" where
  "js_max a b = (if is_nan a \<or> is_nan b then NaN else if js_lt a b then b else a)"

definition js_min :: "jsnum \<Rightarrow> jsnum \<Rightarrow> jsnum" where
  "js_min a b = (if is_nan a \<or> is_nan b then NaN else if js_lt b a then b else a)"

text \<open>\<open>Math.round\<close>: the nearest integer, ties towards plus infinity; \<open>Math.floor\<close>.\<close>

fun js_round :: "jsnum \<Rightarrow> jsnum" where
  "js_round (Fin a) = Fin (of_int \<lfloor>a + 1 / 2\<rfloor>)"
| "js_round x = x"

fun js_floor :: "jsnum \<Rightarrow> jsnum" where
  "js_floor (Fin a) = Fin (of_int \<lfloor>a\<rfloor>)"
| "js_floor x = x"

section \<open>Numbers as text\<close>

text \<open>
  The text \<open>toFixed\<close> returns: \<open>Fixed neg n f\<close> is the numeral of \<open>n / 10\<^sup>f\<close> with \<open>f\<close>
  decimals and a minus sign when \<open>neg\<close>; from \<open>10\<^sup>2\<^sup>1\<close> on, and for the values that are not
  finite, \<open>toFixed\<close> returns \<open>String(x)\<close>, which is \<open>Plain x\<close>. \<open>number_of_text\<close> is
  \<open>Number(text)\<close>; on \<open>String(x)\<close> it gives \<open>x\<close> back.
\<close>

datatype numtext = Fixed bool int nat | Plain jsnum

fun to_fixed :: "nat \<Rightarrow> jsnum \<Rightarrow> numtext" where
  "to_fixed f (Fin a) =
     (if 10 ^ 21 \<le> \<bar>a\<bar> then Plain (Fin a) else Fixed (a < 0) \<lfloor>\<bar>a\<bar> * 10 ^ f + 1 / 2\<rfloor> f)"
| "to_fixed f x = Plain x"

fun number_of_text :: "numtext \<Rightarrow> jsnum" where
  "number_of_text (Fixed neg n f) =
     round64 ((if neg then - 1 else 1) * of_int n / 10 ^ f)"
| "number_of_text (Plain x) = x"

definition pad_zeros :: "nat \<Rightarrow> string \<Rightarrow> string" where
  "pad_zeros k cs = replicate (k - length cs) CHR ''0'' @ cs"

definition show_fixed :: "bool \<Rightarrow> int \<Rightarrow> nat \<Rightarrow> string" where
  "show_fixed neg n f =
     (if neg then ''-'' else '''') @
     (if f = 0 then show_nat (nat n)
      else show_nat (nat n div 10 ^ f) @ ''.'' @ pad_zeros f (show_nat (nat n mod 10 ^ f)))"

text \<open>
  \<open>Number(text)\<close> on any string: white space trimmed, the empty string is zero, decimal
  literals with an optional sign, point and exponent, \<open>Infinity\<close>, and unsigned literals
  with a radix prefix; everything else is NaN.
\<close>

definition js_space :: "char \<Rightarrow> bool" where
  "js_space c = (c \<in> {CHR '' '', CHR 0x09, CHR 0x0A, CHR 0x0B, CHR 0x0C, CHR 0x0D})"

definition js_trim :: "string \<Rightarrow> string" where
  "js_trim cs = rev (dropWhile js_space (rev (dropWhile js_space cs)))"

definition is_digit :: "char \<Rightarrow> bool" where
  "is_digit c = (digit_val c \<noteq> None)"

fun split_sign :: "string \<Rightarrow> bool \<times> string" where
  "split_sign (c # cs) =
     (if c = CHR ''-'' then (True, cs) else if c = CHR ''+'' then (False, cs) else (False, c # cs))"
| "split_sign [] = (False, [])"

definition exponent_of :: "string \<Rightarrow> int option" where
  "exponent_of cs = (let (neg, ds) = split_sign cs
     in map_option (\<lambda>n. if neg then - int n else int n) (read_nat ds))"

definition ten_powi :: "int \<Rightarrow> rat" where
  "ten_powi k = (if 0 \<le> k then 10 ^ nat k else 1 / 10 ^ nat (- k))"

definition unsigned_decimal :: "string \<Rightarrow> rat option" where
  "unsigned_decimal cs =
     (let ip = takeWhile is_digit cs; r1 = dropWhile is_digit cs;
          (fp, r2) = (case r1 of [] \<Rightarrow> ([], [])
                      | c # t \<Rightarrow> if c = CHR ''.'' then (takeWhile is_digit t, dropWhile is_digit t)
                                 else ([], r1));
          ex = (case r2 of [] \<Rightarrow> Some 0
                | c # t \<Rightarrow> if c = CHR ''e'' \<or> c = CHR ''E'' then exponent_of t else None)
      in case (read_nat (ip @ fp), ex) of
           (Some n, Some k) \<Rightarrow> Some (of_nat n * ten_powi (k - int (length fp)))
         | _ \<Rightarrow> None)"

definition radix_val :: "nat \<Rightarrow> char \<Rightarrow> nat option" where
  "radix_val b c =
     (case map_of (zip ''0123456789abcdefABCDEF'' ([0..<16] @ [10..<16])) c of
        None \<Rightarrow> None | Some d \<Rightarrow> if d < b then Some d else None)"

fun radix_number :: "nat \<Rightarrow> nat \<Rightarrow> string \<Rightarrow> nat option" where
  "radix_number b acc [] = Some acc"
| "radix_number b acc (c # cs) =
     (case radix_val b c of None \<Rightarrow> None | Some d \<Rightarrow> radix_number b (b * acc + d) cs)"

definition radix_literal :: "string \<Rightarrow> nat option" where
  "radix_literal cs =
     (case cs of
        z # x # d # ds \<Rightarrow>
          if z = CHR ''0'' \<and> (x = CHR ''x'' \<or> x = CHR ''X'') then radix_number 16 0 (d # ds)
          else if z = CHR ''0'' \<and> (x = CHR ''o'' \<or> x = CHR ''O'') then radix_number 8 0 (d # ds)
          else if z = CHR ''0'' \<and> (x = CHR ''b'' \<or> x = CHR ''B'') then radix_number 2 0 (d # ds)
          else None
      | _ \<Rightarrow> None)"

definition number_of_string :: "string \<Rightarrow> jsnum" where
  "number_of_string cs =
     (let t = js_trim cs in
      if t = [] then Fin 0
      else case radix_literal t of
        Some n \<Rightarrow> round64 (of_nat n)
      | None \<Rightarrow>
          (let (neg, u) = split_sign t in
           if u = ''Infinity'' then (if neg then NInf else PInf)
           else case unsigned_decimal u of
             None \<Rightarrow> NaN
           | Some q \<Rightarrow> round64 (if neg then - q else q)))"

text \<open>
  \<open>Number.parseFloat\<close>: the number of the longest prefix that is a decimal literal, after
  leading white space; NaN when there is none.
\<close>

definition decimal_prefix :: "string \<Rightarrow> jsnum option" where
  "decimal_prefix t =
     (let (neg, u) = split_sign t
      in if u = ''Infinity'' then Some (if neg then NInf else PInf)
         else map_option (\<lambda>q. round64 (if neg then - q else q)) (unsigned_decimal u))"

definition parse_float :: "string \<Rightarrow> jsnum" where
  "parse_float cs =
     (let t = dropWhile js_space cs in
      case List.find (\<lambda>n. decimal_prefix (take n t) \<noteq> None) (rev [1..<Suc (length t)]) of
        None \<Rightarrow> NaN
      | Some n \<Rightarrow> the (decimal_prefix (take n t)))"

text \<open>\<open>JSON.stringify\<close> of a number: \<open>null\<close> when it is not finite.\<close>

definition json_number :: "jsnum \<Rightarrow> jsnum option" where
  "json_number x = (if is_finite x then Some x else None)"

section \<open>Facts about the operations\<close>

named_theorems js_simps \<open>facts about numbers used by the fare and distance proofs\<close>

lemma round64_int [js_simps]: "\<bar>n\<bar> \<le> 2 ^ 53 \<Longrightarrow> round64 (of_int n) = Fin (of_int n)"
proof -
  assume n: "\<bar>n\<bar> \<le> 2 ^ 53"
  have b: "\<bar>of_int n :: rat\<bar> < 2 ^ 1024"
  proof -
    have "\<bar>of_int n :: rat\<bar> = of_int \<bar>n\<bar>" by simp
    also have "\<dots> \<le> of_int (2 ^ 53)" using n by (simp only: of_int_le_iff)
    also have "\<dots> < 2 ^ 1024" by simp
    finally show ?thesis .
  qed
  then show ?thesis using fl64_int [OF n] by (auto simp: round64_def Let_def)
qed

lemma round64_zero [simp]: "round64 0 = Fin 0"
  using round64_int [of 0] by simp

lemma round64_not_nan [simp]: "round64 x \<noteq> NaN" "is_nan (round64 x) = False"
  by (auto simp: round64_def Let_def)

text \<open>A finite result of an operation has the sign of the exact one, and keeps integer bounds.\<close>

lemma round64_Fin_eq: "round64 x = Fin y \<Longrightarrow> y = fl64 x"
  by (auto simp: round64_def Let_def split: if_splits)

lemma round64_nonneg: "0 \<le> x \<Longrightarrow> round64 x = Fin y \<Longrightarrow> 0 \<le> y"
  using fl64.fl_ge0 round64_Fin_eq by blast

lemma round64_nonpos: "x \<le> 0 \<Longrightarrow> round64 x = Fin y \<Longrightarrow> y \<le> 0"
  using fl64.fl_le0 round64_Fin_eq by blast

lemma round64_mono: "x \<le> y \<Longrightarrow> round64 x = Fin a \<Longrightarrow> round64 y = Fin b \<Longrightarrow> a \<le> b"
  using fl64_mono round64_Fin_eq by blast

lemma round64_le_int:
  "\<bar>n\<bar> \<le> 2 ^ 53 \<Longrightarrow> x \<le> of_int n \<Longrightarrow> round64 x = Fin y \<Longrightarrow> y \<le> of_int n"
  using fl64.fl_le_int round64_Fin_eq by blast

lemma round64_ge_int:
  "\<bar>n\<bar> \<le> 2 ^ 53 \<Longrightarrow> of_int n \<le> x \<Longrightarrow> round64 x = Fin y \<Longrightarrow> of_int n \<le> y"
  using fl64.fl_ge_int round64_Fin_eq by blast

lemma round64_ge0_cases: "0 \<le> x \<Longrightarrow> round64 x = PInf \<or> (\<exists>y\<ge>0. round64 x = Fin y)"
  using fl64.fl_ge0 [of x] by (auto simp: round64_def Let_def intro: order_trans)

text \<open>
  \<open>js_eval\<close> evaluates the operations on concrete numbers inside the kernel: the floor of a
  fraction of numerals is an integer division.
\<close>

lemma floor_numeral_frac:
  "\<lfloor>numeral a / numeral b :: rat\<rfloor> = numeral a div numeral b"
  "\<lfloor>1 / numeral b :: rat\<rfloor> = 1 div numeral b"
  "\<lfloor>- (numeral a / numeral b) :: rat\<rfloor> = (- numeral a) div numeral b"
  "\<lfloor>- (1 / numeral b) :: rat\<rfloor> = (- 1) div numeral b"
  using floor_divide_of_int_eq [where ?'a = rat, of "numeral a" "numeral b"]
    floor_divide_of_int_eq [where ?'a = rat, of 1 "numeral b"]
    floor_divide_of_int_eq [where ?'a = rat, of "- numeral a" "numeral b"]
    floor_divide_of_int_eq [where ?'a = rat, of "- 1" "numeral b"]
  by simp_all

lemma ceiling_numeral_frac:
  "\<lceil>numeral a / numeral b :: rat\<rceil> = - ((- numeral a) div numeral b)"
  using floor_numeral_frac(3) [of a b] by (simp add: ceiling_def)

lemma powi_two_eval:
  "(2::rat) powi (- numeral k) = 1 / 2 ^ numeral k"
  "(2::rat) powi numeral k = 2 ^ numeral k"
  "(2::rat) powi (- 1) = 1 / 2"
  by (simp_all add: power_int_def power_one_over)

lemma round64_numeral [js_simps]:
  "numeral k \<le> (2 ^ 53 :: int) \<Longrightarrow> round64 (numeral k) = Fin (numeral k)"
  "numeral k \<le> (2 ^ 53 :: int) \<Longrightarrow> round64 (- numeral k) = Fin (- numeral k)"
  "round64 1 = Fin 1"
  using round64_int [of "numeral k"] round64_int [of "- numeral k"] round64_int [of 1] by simp_all

lemmas js_eval = round64_def fl64_def ulp_exp_def ilog2_def ilen.simps rne_def Let_def
  floor_numeral_frac ceiling_numeral_frac powi_two_eval

lemma is_finite_iff: "is_finite x \<longleftrightarrow> (\<exists>a. x = Fin a)"
  by (cases x) auto

section \<open>Amounts in hundredths\<close>

text \<open>
  The relative error of a rounding in the normal range is at most \<open>2\<^sup>-\<^sup>5\<^sup>3\<close>. From it: a
  double that is the rounding of a whole number of hundredths is recovered exactly by
  multiplying with 100 and rounding, and by printing it with two decimals.
\<close>

lemma fl64_rel_error:
  assumes "1 / 2 ^ 1000 \<le> x"
  shows "\<bar>fl64 x - x\<bar> \<le> x / 2 ^ 53"
proof -
  have x: "0 < x" using assms by (rule less_le_trans [rotated]) simp
  have "(2::rat) powi (- 1000) \<le> x" using assms by (simp add: powi_two_eval)
  also have "x < 2 powi (ilog2 x + 1)" using ilog2_bounds [OF x] by simp
  finally have "- 1000 < ilog2 x + 1" by (rule powi_less_imp)
  then have e: "ulp_exp x = ilog2 x - 52" by (simp add: ulp_exp_def)
  let ?u = "(2::rat) powi ulp_exp x"
  have u: "0 < ?u" by simp
  have "?u * 2 ^ 52 = 2 powi ilog2 x"
    using power_int_add [of "2::rat" 52 "ulp_exp x"] e by (simp add: power_int_def [of _ 52])
  then have up: "?u * 2 ^ 52 \<le> x" using ilog2_bounds [OF x] by simp
  have "fl64 x - x = (of_int (rne (x / ?u)) - x / ?u) * ?u"
    using x by (simp add: fl64_def Let_def left_diff_distrib)
  then have "\<bar>fl64 x - x\<bar> = \<bar>of_int (rne (x / ?u)) - x / ?u\<bar> * ?u" by (simp add: abs_mult)
  also have "\<dots> \<le> 1 / 2 * ?u" by (rule mult_right_mono [OF rne_near]) simp
  also have "\<dots> \<le> x / 2 ^ 53" using up by simp
  finally show ?thesis .
qed

lemma fl64_cent_error:
  assumes "0 \<le> n" and "n \<le> 2 ^ 50"
  shows "\<bar>fl64 (of_int n / 100) * 100 - of_int n\<bar> \<le> 1 / 8"
proof (cases "n = 0")
  case True
  then show ?thesis by (simp add: fl64_def)
next
  case False
  then have "(1::rat) \<le> of_int n" using assms(1) by simp
  then have "1 / 2 ^ 1000 \<le> (of_int n / 100 :: rat)" by (simp add: field_simps)
  then have "\<bar>fl64 (of_int n / 100) - of_int n / 100\<bar> \<le> of_int n / 100 / 2 ^ 53"
    by (rule fl64_rel_error)
  then have "\<bar>fl64 (of_int n / 100) - of_int n / 100\<bar> \<le> of_int n / 900719925474099200" by simp
  moreover have "(of_int n :: rat) \<le> 1125899906842624" using assms(2) by simp
  ultimately show ?thesis by linarith
qed

definition cents :: "int \<Rightarrow> jsnum" where
  "cents n = Fin (fl64 (of_int n / 100))"

lemma fl64_upper: "0 \<le> n \<Longrightarrow> n \<le> 2 ^ 50 \<Longrightarrow> fl64 (of_int n / 100) \<le> 2 ^ 50"
proof -
  assume n: "0 \<le> n" "n \<le> 2 ^ 50"
  have "(of_int n :: rat) \<le> of_int (2 ^ 50)" using n(2) by (simp only: of_int_le_iff)
  then have "of_int n / 100 \<le> (of_int (2 ^ 50) :: rat)" using n(1) by simp
  then have "fl64 (of_int n / 100) \<le> of_int (2 ^ 50)" by (rule fl64.fl_le_int [rotated]) simp
  then show ?thesis by simp
qed

lemma round64_cents: "0 \<le> n \<Longrightarrow> n \<le> 2 ^ 50 \<Longrightarrow> round64 (of_int n / 100) = cents n"
  using fl64_upper [of n] fl64.fl_ge0 [of "of_int n / 100"]
  by (auto simp: round64_def Let_def cents_def)

lemma cents_hundred:
  assumes n: "0 \<le> n" "n \<le> 2 ^ 50"
  shows "js_round (js_mul (cents n) (Fin 100)) = Fin (of_int n)"
proof -
  let ?c = "fl64 (of_int n / 100)"
  have near: "\<bar>?c * 100 - of_int n\<bar> \<le> 1 / 8" using n by (rule fl64_cent_error)
  have c0: "0 \<le> ?c" using n(1) by (intro fl64.fl_ge0) simp
  have cb: "?c \<le> 2 ^ 50" using n by (rule fl64_upper)
  have "(of_int n :: rat) \<le> 1125899906842624" using n(2) by simp
  then have "?c * 100 \<le> 2251799813685248" using near by linarith
  then have up: "?c * 100 \<le> 2 ^ 51" by simp
  have r: "round64 (?c * 100) = Fin (fl64 (?c * 100))" and f: "\<bar>fl64 (?c * 100) - ?c * 100\<bar> \<le> 1 / 4"
  proof -
    have "fl64 (?c * 100) \<le> of_int (2 ^ 53)" if "?c * 100 \<le> of_int (2 ^ 53)"
      using that by (rule fl64.fl_le_int [rotated]) simp
    moreover have "0 \<le> fl64 (?c * 100)" using c0 by (intro fl64.fl_ge0) simp
    ultimately show "round64 (?c * 100) = Fin (fl64 (?c * 100))"
      using up by (simp add: round64_def Let_def)
    show "\<bar>fl64 (?c * 100) - ?c * 100\<bar> \<le> 1 / 4"
    proof (cases "n = 0")
      case True
      then show ?thesis by (simp add: fl64_def)
    next
      case False
      then have "(1::rat) \<le> of_int n" using n(1) by simp
      then have "1 / 2 \<le> ?c * 100" using near by linarith
      then have "1 / 2 ^ 1000 \<le> ?c * 100" by (rule order_trans [rotated]) simp
      then have "\<bar>fl64 (?c * 100) - ?c * 100\<bar> \<le> ?c * 100 / 2 ^ 53" by (rule fl64_rel_error)
      then show ?thesis using up by simp
    qed
  qed
  have "\<lfloor>fl64 (?c * 100) + 1 / 2\<rfloor> = n"
    using near f by (intro floor_unique) linarith+
  then show ?thesis using r by (simp add: cents_def)
qed

lemma cents_to_fixed:
  assumes n: "0 \<le> n" "n \<le> 2 ^ 50"
  shows "to_fixed 2 (cents n) = Fixed False n 2"
proof -
  let ?c = "fl64 (of_int n / 100)"
  have near: "\<bar>?c * 100 - of_int n\<bar> \<le> 1 / 8" using n by (rule fl64_cent_error)
  have c0: "0 \<le> ?c" using n(1) by (intro fl64.fl_ge0) simp
  have cb: "?c \<le> 2 ^ 50" using n by (rule fl64_upper)
  then have "?c < 10 ^ 21" by (rule le_less_trans) simp
  moreover have "\<lfloor>?c * 100 + 1 / 2\<rfloor> = n"
    using near by (intro floor_unique) linarith+
  ultimately show ?thesis using c0 by (simp add: cents_def)
qed

lemma number_of_cents_text:
  "0 \<le> n \<Longrightarrow> n \<le> 2 ^ 50 \<Longrightarrow> number_of_text (to_fixed 2 (cents n)) = cents n"
  by (simp add: cents_to_fixed round64_cents)

end
