(* ===== verification/Fare_Engine.thy ===== *)
theory Fare_Engine
  imports Js_Number
begin

text \<open>
  The fare engine (\<open>rides/domain/services/fare-engine.service.ts\<close>): its configuration, the
  fare of a completed ride and the estimate shown before it. All amounts are doubles.
\<close>

section \<open>Configuration\<close>

text \<open>
  What \<open>ConfigService.get\<close> returns for a key: a number, a string, or anything else
  (\<open>COther\<close> covers \<open>undefined\<close> and values of other types).
\<close>

datatype cfg_value = CNum jsnum | CStr string | CBool bool | COther

type_synonym config = "string \<Rightarrow> cfg_value"

definition getNumberConfig :: "config \<Rightarrow> string \<Rightarrow> jsnum \<Rightarrow> jsnum" where
  "getNumberConfig cfg key defaultValue =
     (case cfg key of
        CNum v \<Rightarrow> v
      | CStr v \<Rightarrow>
          (let parsed = number_of_string v
           in if is_finite parsed then parsed else defaultValue)
      | _ \<Rightarrow> defaultValue)"

record fare_engine =
  fareRatePerKm :: jsnum
  appFeePercent :: jsnum
  appFeeMinimumAmount :: jsnum
  appFeeMinimumThreshold :: jsnum

definition new_fare_engine :: "config \<Rightarrow> fare_engine" where
  "new_fare_engine cfg =
     \<lparr>fareRatePerKm = getNumberConfig cfg ''DEFAULT_FARE_RATE_PER_KM'' (Fin 3000),
      appFeePercent = getNumberConfig cfg ''APP_FEE_PERCENT'' (Fin 5),
      appFeeMinimumAmount = getNumberConfig cfg ''APP_FEE_MIN_AMOUNT'' (Fin 3000),
      appFeeMinimumThreshold = getNumberConfig cfg ''APP_FEE_MIN_THRESHOLD'' (Fin 10000)\<rparr>"

section \<open>The fare\<close>

record fare_result =
  roundedDistanceKm :: jsnum
  baseFare :: jsnum
  discountPercent :: jsnum
  discountAmount :: jsnum
  fareAfterDiscount :: jsnum
  appFeeAmount :: jsnum
  finalFare :: jsnum

definition roundDistanceKm :: "jsnum \<Rightarrow> jsnum" where
  "roundDistanceKm distanceKm = number_of_text (to_fixed 3 distanceKm)"

definition calculateMonetaryAmount :: "jsnum \<Rightarrow> jsnum" where
  "calculateMonetaryAmount v =
     (if \<not> is_finite v \<or> js_le v (Fin 0) then Fin 0
      else js_div (js_round (js_mul v (Fin 100))) (Fin 100))"

definition resolveDiscountAmount :: "jsnum \<Rightarrow> jsnum option \<Rightarrow> exn + jsnum" where
  "resolveDiscountAmount base discount =
     (if \<not> is_finite base \<or> js_le base (Fin 0) then Inr (Fin 0)
      else case discount of
        None \<Rightarrow> Inr (Fin 0)
      | Some normalized \<Rightarrow>
          if \<not> is_finite normalized \<or> js_lt normalized (Fin 0)
          then Inl (BadRequest ''Invalid discount amount'')
          else if js_lt base normalized
          then Inl (BadRequest ''Discount amount exceeds calculated fare'')
          else if js_eq normalized (Fin 0) then Inr (Fin 0)
          else Inr (calculateMonetaryAmount normalized))"

definition calculateDiscountPercent :: "jsnum \<Rightarrow> jsnum \<Rightarrow> jsnum" where
  "calculateDiscountPercent base discount =
     (if \<not> is_finite base \<or> js_le base (Fin 0) then Fin 0
      else if \<not> is_finite discount \<or> js_le discount (Fin 0) then Fin 0
      else (let ratio = js_mul (js_div discount base) (Fin 100);
                bounded = js_min (js_max ratio (Fin 0)) (Fin 100)
            in js_div (js_round (js_mul bounded (Fin 100))) (Fin 100)))"

definition calculateAppFee :: "fare_engine \<Rightarrow> jsnum \<Rightarrow> jsnum" where
  "calculateAppFee e fare =
     (if \<not> is_finite fare \<or> js_le fare (Fin 0) then appFeeMinimumAmount e
      else if js_lt fare (appFeeMinimumThreshold e) then appFeeMinimumAmount e
      else calculateMonetaryAmount (js_div (js_mul fare (appFeePercent e)) (Fin 100)))"

definition calculateFare :: "fare_engine \<Rightarrow> jsnum \<Rightarrow> jsnum option \<Rightarrow> exn + fare_result" where
  "calculateFare e distanceKm discount =
     (let rounded = roundDistanceKm distanceKm;
          base = js_max (Fin 0) (js_mul rounded (fareRatePerKm e))
      in case resolveDiscountAmount base discount of
           Inl err \<Rightarrow> Inl err
         | Inr normalizedDiscount \<Rightarrow>
             (let after = calculateMonetaryAmount (js_sub base normalizedDiscount);
                  percent = calculateDiscountPercent base normalizedDiscount;
                  fee = calculateAppFee e after;
                  final = calculateMonetaryAmount (js_add after fee)
              in Inr \<lparr>roundedDistanceKm = rounded, baseFare = base, discountPercent = percent,
                      discountAmount = normalizedDiscount, fareAfterDiscount = after,
                      appFeeAmount = fee, finalFare = final\<rparr>))"

text \<open>The estimate: \<open>None\<close> is the code's \<open>null\<close>, for an absent distance or NaN.\<close>

definition calculateEstimatedFare :: "fare_engine \<Rightarrow> jsnum option \<Rightarrow> numtext option" where
  "calculateEstimatedFare e distanceKm =
     (case distanceKm of
        None \<Rightarrow> None
      | Some d \<Rightarrow> if is_nan d then None else Some (to_fixed 2 (js_mul d (fareRatePerKm e))))"

section \<open>Facts\<close>

text \<open>An amount of money: not NaN and not negative.\<close>

definition amount :: "jsnum \<Rightarrow> bool" where
  "amount x \<longleftrightarrow> (case x of Fin q \<Rightarrow> 0 \<le> q | PInf \<Rightarrow> True | _ \<Rightarrow> False)"

definition engine_ok :: "fare_engine \<Rightarrow> bool" where
  "engine_ok e \<longleftrightarrow> (\<forall>x \<in> {fareRatePerKm e, appFeePercent e, appFeeMinimumAmount e,
     appFeeMinimumThreshold e}. is_finite x \<and> amount x)"

lemma amount_simps [simp]:
  "amount (Fin q) = (0 \<le> q)" "amount PInf" "\<not> amount NInf" "\<not> amount NaN"
  by (auto simp: amount_def)

lemma amount_round64: "0 \<le> x \<Longrightarrow> amount (round64 x)"
  using round64_ge0_cases [of x] by auto

lemma amount_mul: "amount a \<Longrightarrow> amount b \<Longrightarrow> is_finite a \<Longrightarrow> is_finite b \<Longrightarrow> amount (js_mul a b)"
  by (auto simp: is_finite_iff intro!: amount_round64)

lemma amount_div_pos: "amount a \<Longrightarrow> 0 < q \<Longrightarrow> amount (js_div a (Fin q))"
  by (cases a) (auto intro!: amount_round64)

lemma amount_add: "amount a \<Longrightarrow> amount b \<Longrightarrow> amount (js_add a b)"
  by (cases a; cases b) (auto intro!: amount_round64)

lemma amount_round: "amount a \<Longrightarrow> amount (js_round a)"
  by (cases a) auto

lemma monetary_amount [simp]: "amount (calculateMonetaryAmount v)"
proof (cases "\<not> is_finite v \<or> js_le v (Fin 0)")
  case True
  then show ?thesis by (simp add: calculateMonetaryAmount_def)
next
  case False
  then have "amount v" "is_finite v" by (cases v; auto simp: js_le_def)+
  then have "amount (js_div (js_round (js_mul v (Fin 100))) (Fin 100))"
    by (intro amount_div_pos amount_round amount_mul) auto
  then show ?thesis using False by (simp add: calculateMonetaryAmount_def)
qed

lemma monetary_cents:
  "0 \<le> n \<Longrightarrow> n \<le> 2 ^ 50 \<Longrightarrow> calculateMonetaryAmount (cents n) = cents n"
proof -
  assume n: "0 \<le> n" "n \<le> 2 ^ 50"
  have "cents 0 = Fin 0" by (simp add: cents_def fl64_def)
  moreover have "n = 0" if "js_le (cents n) (Fin 0)"
  proof -
    have "js_round (js_mul (cents n) (Fin 100)) = Fin 0"
    proof -
      have "fl64 (of_int n / 100) = 0"
        using that fl64.fl_ge0 [of "of_int n / 100"] n by (auto simp: cents_def js_le_def)
      then show ?thesis by (simp add: cents_def floor_eq_iff)
    qed
    then show ?thesis using cents_hundred [OF n] by simp
  qed
  ultimately show ?thesis
    using cents_hundred [OF n] round64_cents [OF n]
    by (auto simp: calculateMonetaryAmount_def) (auto simp: cents_def)
qed

lemma rounded_distance_sign:
  "0 \<le> d \<Longrightarrow> amount (roundDistanceKm (Fin d))"
  by (auto simp: roundDistanceKm_def intro!: amount_round64 divide_nonneg_nonneg)

lemma base_fare_cases:
  "js_max (Fin 0) x = NaN \<and> x = NaN \<or> amount (js_max (Fin 0) x)"
  by (cases x) (auto simp: js_max_def)

lemma resolve_discount_amount: "resolveDiscountAmount base d = Inr v \<Longrightarrow> amount v"
  by (auto simp: resolveDiscountAmount_def split: if_splits option.splits)

lemma app_fee_amount: "engine_ok e \<Longrightarrow> amount (calculateAppFee e fare)"
  by (auto simp: calculateAppFee_def engine_ok_def)

lemma round_le_nat: "0 \<le> q \<Longrightarrow> q \<le> of_int n \<Longrightarrow> 0 \<le> \<lfloor>q + 1 / 2\<rfloor> \<and> \<lfloor>q + 1 / 2\<rfloor> \<le> (n::int)"
  by (simp add: le_floor_iff floor_le_iff)

lemma clamp_bounds:
  "x \<noteq> NaN \<Longrightarrow> \<exists>q. js_min (js_max x (Fin 0)) (Fin 100) = Fin q \<and> 0 \<le> q \<and> q \<le> 100"
  by (cases x) (auto simp: js_min_def js_max_def)

lemma discount_percent_bounds:
  "\<exists>q. calculateDiscountPercent base d = Fin q \<and> 0 \<le> q \<and> q \<le> 100"
proof (cases "\<not> is_finite base \<or> js_le base (Fin 0) \<or> \<not> is_finite d \<or> js_le d (Fin 0)")
  case True
  then show ?thesis by (auto simp: calculateDiscountPercent_def)
next
  case False
  define b where "b = js_min (js_max (js_mul (js_div d base) (Fin 100)) (Fin 0)) (Fin 100)"
  obtain p r where pr: "base = Fin p" "0 < p" "d = Fin r" "0 < r"
    using False by (auto simp: is_finite_iff js_le_def not_less)
  have "js_mul (js_div d base) (Fin 100) \<noteq> NaN"
    using pr round64_ge0_cases [of "r / p"] by (auto simp: inf_of_sign_def dest: sym)
  then obtain q where q: "b = Fin q" "0 \<le> q" "q \<le> 100"
    using clamp_bounds [of "js_mul (js_div d base) (Fin 100)"] unfolding b_def by blast
  have "round64 (q * 100) = Fin (fl64 (q * 100)) \<and> 0 \<le> fl64 (q * 100) \<and> fl64 (q * 100) \<le> 10000"
    using fl64.fl_ge0 [of "q * 100"] fl64.fl_le_int [of 10000 "q * 100"] q
    by (auto simp: round64_def Let_def)
  moreover have "round64 (of_int m / 100) = Fin (fl64 (of_int m / 100)) \<and>
      0 \<le> fl64 (of_int m / 100) \<and> fl64 (of_int m / 100) \<le> 100" if "0 \<le> m" "m \<le> 10000" for m
    using that fl64.fl_ge0 [of "of_int m / 100"] fl64.fl_le_int [of 100 "of_int m / 100"]
    by (auto simp: round64_def Let_def)
  ultimately show ?thesis
    using False q round_le_nat [of "fl64 (q * 100)" 10000]
    by (auto simp: calculateDiscountPercent_def b_def [symmetric] Let_def)
qed

section \<open>Exactness in hundredths\<close>

text \<open>\<open>upto k x\<close>: a finite amount of at most \<open>k\<close>.\<close>

definition upto :: "int \<Rightarrow> jsnum \<Rightarrow> bool" where
  "upto k x \<longleftrightarrow> (\<exists>q. x = Fin q \<and> 0 \<le> q \<and> q \<le> of_int k)"

lemma upto_mono: "upto j x \<Longrightarrow> j \<le> k \<Longrightarrow> upto k x"
  unfolding upto_def by (metis of_int_le_iff order_trans)

lemma upto_round64: "0 \<le> q \<Longrightarrow> q \<le> of_int k \<Longrightarrow> k \<le> 2 ^ 53 \<Longrightarrow> upto k (round64 q)"
proof -
  assume q: "0 \<le> q" "q \<le> of_int k" "k \<le> 2 ^ 53"
  then have "0 \<le> k" by (metis of_int_0_le_iff order_trans)
  then have b: "0 \<le> fl64 q" "fl64 q \<le> of_int k"
    using q fl64.fl_ge0 [of q] fl64.fl_le_int [of k q] by auto
  have "(of_int k :: rat) \<le> of_int (2 ^ 53)" using q(3) by (simp only: of_int_le_iff)
  then have "fl64 q \<le> 2 ^ 53" using b by simp
  then have "\<not> 2 ^ 1024 \<le> fl64 q" "\<not> fl64 q \<le> - (2 ^ 1024)" using b(1) by auto
  then show ?thesis using b by (simp add: round64_def Let_def upto_def)
qed

lemma upto_add: "upto j x \<Longrightarrow> upto k y \<Longrightarrow> j + k \<le> 2 ^ 53 \<Longrightarrow> upto (j + k) (js_add x y)"
  by (auto simp: upto_def [of j] upto_def [of k] intro!: upto_round64 add_mono)

lemma upto_percent:
  assumes "upto k x" and "upto 100 p" and "k * 100 \<le> 2 ^ 53"
  shows "upto k (js_div (js_mul x p) (Fin 100))"
proof -
  obtain a b where ab: "x = Fin a" "p = Fin b" "0 \<le> a" "a \<le> of_int k" "0 \<le> b" "b \<le> 100"
    using assms by (auto simp: upto_def)
  have "a * b \<le> of_int k * 100" using ab by (intro mult_mono) auto
  then have "upto (k * 100) (round64 (a * b))" using ab assms(3) by (intro upto_round64) auto
  then obtain q where q: "round64 (a * b) = Fin q" "0 \<le> q" "q \<le> of_int k * 100"
    by (auto simp: upto_def)
  have "0 \<le> k" using ab(3,4) by (metis of_int_0_le_iff order_trans)
  then have "upto k (round64 (q / 100))" using q assms(3) by (intro upto_round64) auto
  then show ?thesis using ab q by simp
qed

lemma fl64_small_error:
  assumes "0 \<le> x"
  shows "\<bar>fl64 x - x\<bar> \<le> x / 9007199254740992 + 1 / 1048576"
proof (cases "1 / 2 ^ 1000 \<le> x")
  case True
  from fl64_rel_error [OF this] have "\<bar>fl64 x - x\<bar> \<le> x / 9007199254740992" by simp
  then show ?thesis by linarith
next
  case False
  have "(1::rat) / 2 ^ 1000 \<le> 1 / 2097152" by simp
  then have le: "x \<le> 1 / 2097152" using False by linarith
  have "fl64 (1 / 2097152) = 1 / 2097152" by (simp add: js_eval)
  then have "fl64 x \<le> 1 / 2097152" using fl64_mono [OF le] by simp
  then show ?thesis using le assms fl64.fl_ge0 [of x] by linarith
qed

lemma near_hundredths:
  assumes x: "0 \<le> x" and n: "0 \<le> n" "n \<le> 2 ^ 48" and near: "\<bar>x * 100 - of_int n\<bar> \<le> 3 / 8"
  shows "js_round (js_mul (Fin x) (Fin 100)) = Fin (of_int n)"
proof -
  have nb: "(of_int n :: rat) \<le> 281474976710656" using n(2) by simp
  then have up: "x * 100 \<le> 281474976710657" using near by linarith
  then have "upto 281474976710657 (round64 (x * 100))" using x by (intro upto_round64) auto
  then have r: "round64 (x * 100) = Fin (fl64 (x * 100))"
    using round64_Fin_eq by (auto simp: upto_def)
  have f: "\<bar>fl64 (x * 100) - x * 100\<bar> \<le> 1 / 16"
    using fl64_small_error [of "x * 100"] x up by linarith
  have "\<lfloor>fl64 (x * 100) + 1 / 2\<rfloor> = n"
    using near f by (intro floor_unique) linarith+
  then show ?thesis using r by simp
qed

lemma monetary_hundredths:
  assumes x: "0 \<le> x" "x * 100 \<le> of_int n + 3 / 8" "of_int n - 3 / 8 \<le> x * 100"
    and n: "0 \<le> n" "n \<le> 2 ^ 48"
  shows "calculateMonetaryAmount (Fin x) = cents n"
proof (cases "x = 0")
  case True
  then have "n = 0" using x n by (simp add: field_simps)
  then show ?thesis using True by (simp add: calculateMonetaryAmount_def js_le_def cents_def fl64_def)
next
  case False
  have "js_round (js_mul (Fin x) (Fin 100)) = Fin (of_int n)"
    using x n by (intro near_hundredths) linarith+
  moreover have "n \<le> 2 ^ 50" using n by simp
  ultimately show ?thesis
    using x n False by (simp add: calculateMonetaryAmount_def js_le_def round64_cents)
qed

lemma monetary_is_cents:
  assumes "upto k x" and "k \<le> 2 ^ 40"
  shows "\<exists>n. calculateMonetaryAmount x = cents n \<and> 0 \<le> n \<and> n \<le> k * 100"
proof -
  obtain q where q: "x = Fin q" "0 \<le> q" "q \<le> of_int k" using assms by (auto simp: upto_def)
  have k0: "0 \<le> k" using q by (metis of_int_0_le_iff order_trans)
  have "upto (k * 100) (round64 (q * 100))" using q assms(2) by (intro upto_round64) auto
  then obtain y where y: "round64 (q * 100) = Fin y" "0 \<le> y" "y \<le> of_int (k * 100)"
    by (auto simp: upto_def)
  have n: "0 \<le> \<lfloor>y + 1 / 2\<rfloor> \<and> \<lfloor>y + 1 / 2\<rfloor> \<le> k * 100" using y by (intro round_le_nat) auto
  have "k * 100 \<le> 2 ^ 50" using assms(2) by simp
  then have "round64 (of_int \<lfloor>y + 1 / 2\<rfloor> / 100) = cents \<lfloor>y + 1 / 2\<rfloor>"
    using n by (intro round64_cents) (metis order_trans)+
  then have "calculateMonetaryAmount x = cents \<lfloor>y + 1 / 2\<rfloor>" if "q \<noteq> 0"
    using q y that by (simp add: calculateMonetaryAmount_def js_le_def)
  moreover have "calculateMonetaryAmount x = cents 0" if "q = 0"
    using q that by (simp add: calculateMonetaryAmount_def js_le_def cents_def fl64_def)
  ultimately show ?thesis using n k0 by (cases "q = 0") auto
qed

lemma upto_cents: "0 \<le> n \<Longrightarrow> n \<le> k * 100 \<Longrightarrow> k \<le> 2 ^ 40 \<Longrightarrow> upto k (cents n)"
proof -
  assume n: "0 \<le> n" "n \<le> k * 100" "k \<le> 2 ^ 40"
  have "(of_int n :: rat) \<le> of_int (k * 100)" using n(2) by (simp only: of_int_le_iff)
  then have "upto k (round64 (of_int n / 100))" using n by (intro upto_round64) auto
  then show ?thesis using n by (simp add: round64_cents)
qed

lemma cents_add:
  assumes ab: "0 \<le> a" "0 \<le> b" "a + b \<le> 2 ^ 48"
  shows "calculateMonetaryAmount (js_add (cents a) (cents b)) = cents (a + b)"
proof -
  let ?x = "fl64 (of_int a / 100)" and ?y = "fl64 (of_int b / 100)"
  have abs: "\<bar>?x * 100 - of_int a\<bar> \<le> 1 / 8" "\<bar>?y * 100 - of_int b\<bar> \<le> 1 / 8"
    using ab fl64_cent_error [of a] fl64_cent_error [of b] by simp_all
  have "(of_int (a + b) :: rat) \<le> of_int (2 ^ 48)" using ab(3) by (simp only: of_int_le_iff)
  then have s: "(of_int a + of_int b :: rat) \<le> 281474976710656" by simp
  have pos: "0 \<le> ?x" "0 \<le> ?y" using ab by (auto intro!: fl64.fl_ge0)
  have small: "?x + ?y \<le> 2814749767108" using abs s by linarith
  have near: "\<bar>(?x + ?y) * 100 - (of_int a + of_int b)\<bar> \<le> 1 / 4"
    using abs unfolding abs_le_iff distrib_right by linarith
  have "upto 2814749767108 (round64 (?x + ?y))" using pos small by (intro upto_round64) auto
  then have r: "round64 (?x + ?y) = Fin (fl64 (?x + ?y))" by (auto simp: upto_def round64_Fin_eq)
  have f: "\<bar>fl64 (?x + ?y) - (?x + ?y)\<bar> \<le> 1 / 1024"
  proof (rule order_trans [OF fl64_small_error [OF add_nonneg_nonneg [OF pos]]])
    show "(?x + ?y) / 9007199254740992 + 1 / 1048576 \<le> 1 / 1024"
      using divide_right_mono [OF small, of 9007199254740992] by linarith
  qed
  have "calculateMonetaryAmount (Fin (fl64 (?x + ?y))) = cents (a + b)"
  proof (rule monetary_hundredths)
    show "0 \<le> fl64 (?x + ?y)" using pos by (intro fl64.fl_ge0) simp
    show "fl64 (?x + ?y) * 100 \<le> of_int (a + b) + 3 / 8"
      "of_int (a + b) - 3 / 8 \<le> fl64 (?x + ?y) * 100"
      using near f unfolding abs_le_iff distrib_right of_int_add by linarith+
  qed (use ab in auto)
  then show ?thesis using r by (simp add: cents_def)
qed

lemma upto_amount: "upto k x \<Longrightarrow> is_finite x \<and> amount x"
  by (auto simp: upto_def)

lemma upto_after_discount:
  assumes "upto k base" and "amount v" and "k \<le> 2 ^ 40"
  shows "\<exists>n. calculateMonetaryAmount (js_sub base v) = cents n \<and> 0 \<le> n \<and> n \<le> k * 100"
proof -
  obtain q where q: "base = Fin q" "0 \<le> q" "q \<le> of_int k" using assms by (auto simp: upto_def)
  have k0: "0 \<le> k" using q by (metis of_int_0_le_iff order_trans)
  have z: "cents 0 = Fin 0" by (simp add: cents_def fl64_def)
  show ?thesis
  proof (cases "\<exists>r. v = Fin r \<and> r \<le> q")
    case True
    then obtain r where r: "v = Fin r" "r \<le> q" "0 \<le> r" using assms(2) by auto
    then have "upto k (round64 (q - r))" using q assms(3) by (intro upto_round64) auto
    then show ?thesis using monetary_is_cents q r assms(3) by (auto simp: js_sub_def)
  next
    case False
    have "\<not> is_finite (js_sub base v) \<or> js_le (js_sub base v) (Fin 0)"
    proof (cases v)
      case (Fin r)
      then have "q - r \<le> 0" using False by auto
      from round64_nonpos [OF this] show ?thesis
        using Fin q by (cases "round64 (q - r)") (auto simp: js_sub_def js_le_def le_less)
    qed (use q assms(2) in \<open>auto simp: js_sub_def\<close>)
    then have "calculateMonetaryAmount (js_sub base v) = cents 0"
      using z by (simp add: calculateMonetaryAmount_def)
    then show ?thesis using k0 by (intro exI [of _ 0]) simp
  qed
qed

lemma app_fee_cents:
  assumes "appFeeMinimumAmount e = cents m" "0 \<le> m" "m \<le> k * 100"
    and "upto 100 (appFeePercent e)" and "upto k fare" and "k \<le> 2 ^ 40"
  shows "\<exists>n. calculateAppFee e fare = cents n \<and> 0 \<le> n \<and> n \<le> k * 100"
  using assms monetary_is_cents [OF upto_percent [OF assms(5,4)]]
  by (auto simp: calculateAppFee_def)

section \<open>Properties\<close>

text \<open>
  C9. The fare of a ride is exact money arithmetic on doubles: while the base fare and the
  configured minimum fee are at most \<open>2\<^sup>4\<^sup>0\<close> and the minimum fee is a whole number of
  hundredths, the fare after discount and the app fee are whole numbers of hundredths
  \<open>a\<close> and \<open>f\<close>, the final fare is exactly their sum, and printing it with two decimals (what
  is stored on the ride and sent to the payment provider) prints exactly \<open>a + f\<close>.
\<close>

theorem calculateFare_exact:
  assumes "calculateFare e d disc = Inr r"
    and "upto (2 ^ 40) (baseFare r)"
    and "upto 100 (appFeePercent e)"
    and "appFeeMinimumAmount e = cents m" and "0 \<le> m" and "m \<le> 2 ^ 46"
  shows "\<exists>a f. fareAfterDiscount r = cents a \<and> appFeeAmount r = cents f \<and>
      finalFare r = cents (a + f) \<and> 0 \<le> a \<and> 0 \<le> f \<and>
      to_fixed 2 (finalFare r) = Fixed False (a + f) 2 \<and>
      number_of_text (to_fixed 2 (finalFare r)) = finalFare r"
proof -
  obtain v where v: "resolveDiscountAmount (baseFare r) disc = Inr v"
    and r: "fareAfterDiscount r = calculateMonetaryAmount (js_sub (baseFare r) v)"
      "appFeeAmount r = calculateAppFee e (fareAfterDiscount r)"
      "finalFare r = calculateMonetaryAmount (js_add (fareAfterDiscount r) (appFeeAmount r))"
    using assms(1) by (auto simp: calculateFare_def Let_def split: sum.splits)
  obtain a where a: "fareAfterDiscount r = cents a" "0 \<le> a" "a \<le> 2 ^ 40 * 100"
    using upto_after_discount [OF assms(2) resolve_discount_amount [OF v]] r by auto
  have "upto (2 ^ 40) (cents a)" using a by (intro upto_cents) auto
  then obtain f where f: "appFeeAmount r = cents f" "0 \<le> f" "f \<le> 2 ^ 40 * 100"
    using app_fee_cents [OF assms(4,5) _ assms(3), of "2 ^ 40"] assms(6) a r by auto
  have af: "0 \<le> a + f" "a + f \<le> 2 ^ 48" "a + f \<le> 2 ^ 50" using a f by auto
  have "finalFare r = cents (a + f)" using r(3) a f cents_add [OF a(2) f(2) af(2)] by simp
  then show ?thesis
    using a f af cents_to_fixed [OF af(1,3)] round64_cents [OF af(1,3)] by auto
qed

lemma fare_example:
  "calculateFare (new_fare_engine (\<lambda>_. COther)) (Fin (5 / 2)) (Some (Fin 1000)) =
     Inr \<lparr>roundedDistanceKm = Fin (5 / 2), baseFare = Fin 7500, discountPercent = cents 1333,
          discountAmount = Fin 1000, fareAfterDiscount = Fin 6500, appFeeAmount = Fin 3000,
          finalFare = Fin 9500\<rparr>"
  by (simp add: calculateFare_def new_fare_engine_def getNumberConfig_def roundDistanceKm_def
      resolveDiscountAmount_def calculateMonetaryAmount_def calculateDiscountPercent_def
      calculateAppFee_def js_le_def js_max_def js_min_def js_sub_def cents_def js_eval)

theorem calculateFare_exact_witness:
  "\<exists>a f. (Fin 6500 = cents a \<and> Fin 3000 = cents f \<and> Fin 9500 = cents (a + f)) \<and> 0 \<le> a \<and> 0 \<le> f \<and>
     to_fixed 2 (Fin 9500) = Fixed False (a + f) 2"
proof -
  have m: "appFeeMinimumAmount (new_fare_engine (\<lambda>_. COther)) = cents 300000"
    by (simp add: new_fare_engine_def getNumberConfig_def cents_def js_eval)
  show ?thesis
    using calculateFare_exact [OF fare_example _ _ m]
    by (simp add: upto_def new_fare_engine_def getNumberConfig_def) blast
qed

text \<open>
  When a fare is refused: exactly when the base fare is finite and positive and a
  discount is given that is not finite, negative, or larger than the base fare. An absent
  discount, and any discount on a ride whose base fare is zero, is accepted.
\<close>

theorem calculateFare_refused:
  "(\<exists>err. calculateFare e d disc = Inl err) \<longleftrightarrow>
     (let base = js_max (Fin 0) (js_mul (roundDistanceKm d) (fareRatePerKm e))
      in is_finite base \<and> js_lt (Fin 0) base \<and>
         (\<exists>v. disc = Some v \<and> (if is_finite v then js_lt v (Fin 0) \<or> js_lt base v else True)))"
proof -
  have pos: "js_lt (Fin 0) b \<longleftrightarrow> \<not> js_le b (Fin 0)" if "is_finite b" for b
    using that by (auto simp: is_finite_iff js_le_def)
  show ?thesis
    by (auto simp: calculateFare_def Let_def resolveDiscountAmount_def pos
        split: sum.splits if_splits option.splits)
qed



end
