(* ===== verification/Ride_Types.thy ===== *)
theory Ride_Types
  imports Fare_Engine
begin

text \<open>
  The data of the rides module: the enumerations under \<open>rides/domain/constants\<close>, the
  entities under \<open>rides/domain/entities\<close>, the values stored in Redis by the trip tracking,
  the notifications handed to the publisher, and the record \<open>world\<close> of everything the
  services read and write.

  Identifiers are strings, as in the entities: the text of a bigint. The SQL casts
  \<open>$1::bigint\<close> are the identity on the canonical decimal texts the database returns. A
  nullable column is an option; a \<open>numeric\<close> column holds the text of \<open>toFixed\<close>. A
  table is the list of its rows in insertion order with the counter of its serial primary
  key. \<open>clock\<close> is the time \<open>NOW()\<close> and \<open>new Date()\<close> return during an operation.
\<close>

section \<open>Enumerations\<close>

datatype ride_status =
    NYSTART | REQUESTED | CANDIDATES_COMPUTED | ASSIGNED | ACCEPTED | ENROUTE
  | TRIP_STARTED | COMPLETED | CANCELED

datatype candidate_status = INVITED | CAccepted | DECLINED | CONFIRMED | CCanceled

datatype payment_status = PayPending | ON_PROCESS | PAID

datatype detail_status =
    DPending | DQueued | DInitiated | DFailed | DCapture | DSettlement | DSuccess | DCompleted
  | DDeny | DCancel | DCancelled | DExpired | DExpire | DFailure | DAuthorized | DAuthorize
  | DChallenge | DUnknown

datatype outbox_status = OPending | OProcessing | OCompleted | OFailed

datatype client_type = RIDER | DRIVER

text \<open>The literals of the enumerations.\<close>

fun ride_status_text :: "ride_status \<Rightarrow> string" where
  "ride_status_text NYSTART = ''ny_start''"
| "ride_status_text REQUESTED = ''requested''"
| "ride_status_text CANDIDATES_COMPUTED = ''candidates_computed''"
| "ride_status_text ASSIGNED = ''assigned''"
| "ride_status_text ACCEPTED = ''accepted''"
| "ride_status_text ENROUTE = ''enroute''"
| "ride_status_text TRIP_STARTED = ''trip_started''"
| "ride_status_text COMPLETED = ''completed''"
| "ride_status_text CANCELED = ''canceled''"

fun detail_status_text :: "detail_status \<Rightarrow> string" where
  "detail_status_text DPending = ''pending''"
| "detail_status_text DQueued = ''queued''"
| "detail_status_text DInitiated = ''initiated''"
| "detail_status_text DFailed = ''failed''"
| "detail_status_text DCapture = ''capture''"
| "detail_status_text DSettlement = ''settlement''"
| "detail_status_text DSuccess = ''success''"
| "detail_status_text DCompleted = ''completed''"
| "detail_status_text DDeny = ''deny''"
| "detail_status_text DCancel = ''cancel''"
| "detail_status_text DCancelled = ''cancelled''"
| "detail_status_text DExpired = ''expired''"
| "detail_status_text DExpire = ''expire''"
| "detail_status_text DFailure = ''failure''"
| "detail_status_text DAuthorized = ''authorized''"
| "detail_status_text DAuthorize = ''authorize''"
| "detail_status_text DChallenge = ''challenge''"
| "detail_status_text DUnknown = ''unknown''"

section \<open>Entities\<close>

record ride =
  ride_id :: string
  riderId :: string
  driverId :: "string option"
  pickupLongitude :: jsnum
  pickupLatitude :: jsnum
  dropoffLongitude :: jsnum
  dropoffLatitude :: jsnum
  status :: ride_status
  fareEstimated :: "numtext option"
  fareFinal :: "numtext option"
  ride_discountPercent :: "jsnum option"
  ride_discountAmount :: "numtext option"
  ride_appFeeAmount :: "numtext option"
  distanceEstimatedKm :: "jsnum option"
  durationEstimatedSeconds :: "jsnum option"
  distanceActualKm :: "jsnum option"
  paymentUrl :: "string option"
  paymentStatus :: "payment_status option"
  ride_note :: "string option"
  cancelReason :: "string option"
  createdAt :: int
  updatedAt :: int
  deletedAt :: "int option"

record candidate =
  cand_id :: string
  cand_rideId :: string
  cand_driverId :: string
  cand_status :: candidate_status
  distanceMeters :: "jsnum option"
  reason :: "string option"
  respondedAt :: "int option"
  cand_createdAt :: int
  cand_updatedAt :: int

record status_history =
  hist_id :: string
  hist_rideId :: string
  fromStatus :: "ride_status option"
  toStatus :: ride_status
  hist_context :: "string option"
  hist_createdAt :: int

text \<open>
  JSON documents of the payment integration. \<open>request_payload\<close> is what
  \<open>buildPaymentRequestPayload\<close> builds; the provider's response is a list of members, of
  which the code reads strings.
\<close>

datatype json = JNull | JBool bool | JNumber jsnum | JString string | JOther

record request_payload =
  order_id :: string
  gross_amount :: jsnum
  first_name :: string
  email :: string
  phone :: string

record payment_notification =
  pn_order_id :: string
  transaction_status :: "string option"
  transaction_id :: "string option"
  other_fields :: "(string \<times> string) list"

record payment_detail =
  pd_id :: string
  pd_rideId :: string
  provider :: string
  pd_status :: detail_status
  token :: "string option"
  redirectUrl :: "string option"
  orderId :: "string option"
  providerTransactionId :: "string option"
  requestPayload :: "request_payload option"
  responsePayload :: "(string \<times> json) list option"
  notificationPayload :: "payment_notification option"
  pd_createdAt :: int
  pd_updatedAt :: int

record payment_outbox =
  ob_id :: string
  ob_rideId :: string
  paymentDetailId :: string
  ob_orderId :: string
  ob_status :: outbox_status
  attempts :: nat
  jobId :: "string option"
  ob_requestPayload :: request_payload
  lastError :: "string option"
  lastAttemptedAt :: "int option"
  processedAt :: "int option"
  ob_createdAt :: int
  ob_updatedAt :: int

section \<open>Trip tracking data\<close>

record location =
  longitude :: jsnum
  latitude :: jsnum
  accuracyMeters :: "jsnum option"
  recordedAt :: string

record trip_state =
  lastDriverLocation :: "location option"
  lastRiderLocation :: "location option"
  totalDistanceMeters :: jsnum
  trip_completed :: bool

text \<open>
  The JSON text of a trip state: \<open>JSON.stringify\<close> writes a number that is not finite as
  \<open>null\<close>, here \<open>None\<close>.
\<close>

record trip_state_json =
  sj_lastDriverLocation :: "location option"
  sj_lastRiderLocation :: "location option"
  sj_totalDistanceMeters :: "jsnum option"
  sj_completed :: bool

record track_event =
  ev_role :: client_type
  ev_clientId :: string
  ev_location :: location
  distanceDeltaMeters :: jsnum
  ev_totalDistanceMeters :: "jsnum option"

record trip_track =
  tt_rideId :: string
  tt_clientId :: string
  tt_clientRole :: client_type
  tt_longitude :: jsnum
  tt_latitude :: jsnum
  tt_distanceDeltaMeters :: jsnum
  tt_totalDistanceMeters :: "jsnum option"
  tt_recordedAt :: string

record trip_summary =
  ts_rideId :: string
  ts_clientId :: string
  ts_clientRole :: client_type
  locationPayload :: location
  ts_totalDistanceMeters :: "jsnum option"

text \<open>A JSON text stored in Redis: the value it parses to, or a text that does not parse.\<close>

datatype 'a stored = Parsed 'a | Unparsable

section \<open>Notifications\<close>

datatype target = ToDriver | ToRider

text \<open>The parts of a template literal: its text and the substituted values.\<close>

datatype text_part = Lit string | NumT numtext

record candidate_payload =
  cp_driverId :: string
  cp_status :: candidate_status
  cp_reason :: "string option"
  cp_distanceMeters :: "jsnum option"
  cp_respondedAt :: "int option"
  cp_createdAt :: int

record route_estimates =
  distanceKm :: jsnum
  durationSeconds :: jsnum

record fare_summary =
  fs_baseFare :: numtext
  fs_discountPercent :: jsnum
  fs_discountAmount :: numtext
  fs_finalFare :: numtext
  fs_appFee :: numtext

datatype extra =
    Candidate candidate_payload
  | Route route_estimates
  | RejectionReason "string option"
  | CancellationReason "string option"
  | Summary fare_summary
  | PaymentReference string

record notification =
  n_target :: target
  n_targetId :: string
  n_event :: string
  n_rideId :: string
  n_riderId :: string
  n_driverId :: "string option"
  n_status :: ride_status
  n_message :: "text_part list"
  n_extras :: "extra list"

section \<open>The world\<close>

record world =
  clock :: int
  rides :: "ride list"
  rideSeq :: nat
  candidates :: "candidate list"
  candidateSeq :: nat
  history :: "status_history list"
  historySeq :: nat
  details :: "payment_detail list"
  detailSeq :: nat
  outboxes :: "payment_outbox list"
  outboxSeq :: nat
  whitelist :: "string list"
  tripTracks :: "trip_track list"
  tripSummaries :: "trip_summary list"
  tripActive :: "string list"
  tripStates :: "string \<Rightarrow> trip_state_json stored option"
  tripEvents :: "string \<Rightarrow> track_event stored list"
  published :: "notification list"
  rideJobs :: "string list"
  tripJobs :: "string list"
  paymentJobs :: "(string \<times> string) list"

definition empty_world :: world where
  "empty_world = \<lparr>clock = 0, rides = [], rideSeq = 1, candidates = [], candidateSeq = 1,
     history = [], historySeq = 1, details = [], detailSeq = 1, outboxes = [], outboxSeq = 1,
     whitelist = [], tripTracks = [], tripSummaries = [], tripActive = [],
     tripStates = (\<lambda>_. None), tripEvents = (\<lambda>_. []), published = [],
     rideJobs = [], tripJobs = [], paymentJobs = []\<rparr>"

text \<open>JavaScript truthiness of an optional string.\<close>

definition truthy :: "string option \<Rightarrow> bool" where
  "truthy x \<longleftrightarrow> x \<noteq> None \<and> x \<noteq> Some []"

lemma truthy_simps [simp]: "\<not> truthy None" "truthy (Some v) \<longleftrightarrow> v \<noteq> []"
  by (auto simp: truthy_def)

lemma truthyE: "truthy x \<Longrightarrow> (\<And>v. x = Some v \<Longrightarrow> v \<noteq> [] \<Longrightarrow> P) \<Longrightarrow> P"
  by (cases x) auto

end
