(* ===== verification/Ride_Repositories.thy ===== *)
theory Ride_Repositories
  imports Ride_Types
begin

text \<open>
  The repositories of the rides, their driver candidates and their status history
  (\<open>rides/infrastructure/repositories\<close>). Each method is the SQL statement it sends,
  applied to the tables of the world; \<open>UPDATE ... RETURNING\<close> returns the updated rows.
\<close>

type_synonym 'a weff = "(world, 'a) eff"

section \<open>RideRepository\<close>

definition findRideById :: "string \<Rightarrow> ride option weff" where
  "findRideById k = readE (\<lambda>s. row_find ride_id k (rides s))"

definition findUnfinishedRideByRiderId :: "string \<Rightarrow> ride option weff" where
  "findUnfinishedRideByRiderId rider =
     readE (\<lambda>s. newest createdAt
       (filter (\<lambda>r. riderId r = rider \<and> status r \<notin> {COMPLETED, CANCELED}) (rides s)))"

text \<open>
  \<open>mergeRideData\<close> overwrites with every member of \<open>changes\<close> that is not
  \<open>undefined\<close>. A ride read from the table has \<open>undefined\<close> (not \<open>null\<close>) for the
  absent estimated fare, final fare, discount amount and app fee, so these keep their
  current value.
\<close>

definition or_current :: "'a option \<Rightarrow> 'a option \<Rightarrow> 'a option" where
  "or_current changed current = (case changed of None \<Rightarrow> current | Some v \<Rightarrow> Some v)"

definition mergeRideData :: "ride \<Rightarrow> ride \<Rightarrow> ride" where
  "mergeRideData current changes =
     changes\<lparr>fareEstimated := or_current (fareEstimated changes) (fareEstimated current),
             fareFinal := or_current (fareFinal changes) (fareFinal current),
             ride_discountAmount :=
               or_current (ride_discountAmount changes) (ride_discountAmount current),
             ride_appFeeAmount :=
               or_current (ride_appFeeAmount changes) (ride_appFeeAmount current)\<rparr>"

text \<open>The row after the UPDATE: the columns it sets, from the merged entity.\<close>

definition updated_row :: "int \<Rightarrow> ride \<Rightarrow> ride \<Rightarrow> ride" where
  "updated_row now current merged =
     merged\<lparr>ride_id := ride_id current, createdAt := createdAt current,
            deletedAt := deletedAt current, updatedAt := now\<rparr>"

definition updateRide :: "ride \<Rightarrow> ride weff" where
  "updateRide r =
     (if ride_id r = [] then throwE (JsError ''Ride id is required for updates'')
      else bindE (findRideById (ride_id r)) (\<lambda>found. case found of
          None \<Rightarrow> throwE (JsError ''Ride not found while updating'')
        | Some current \<Rightarrow>
            thenE (writeE (\<lambda>s. s\<lparr>rides :=
                row_put ride_id (updated_row (clock s) current (mergeRideData current r)) (rides s)\<rparr>))
              (bindE (findRideById (ride_id r)) (\<lambda>persisted. case persisted of
                 None \<Rightarrow> throwE (JsError ''Ride not found after update'')
               | Some p \<Rightarrow> returnE p))))"

definition claimDriver :: "string \<Rightarrow> string \<Rightarrow> bool weff" where
  "claimDriver k driver =
     transactE (bindE (findRideById k) (\<lambda>row. case row of
         None \<Rightarrow> throwE (JsError ''Ride not found'')
       | Some r \<Rightarrow>
           if truthy (driverId r) then throwE (JsError ''Ride already claimed'')
           else if driverId r = None
           then thenE (writeE (\<lambda>s. s\<lparr>rides :=
                    row_put ride_id (r\<lparr>driverId := Some driver, updatedAt := clock s\<rparr>) (rides s)\<rparr>))
                  (returnE True)
           else returnE False))"

definition removeRide :: "ride \<Rightarrow> ride weff" where
  "removeRide r =
     (if ride_id r = [] then returnE r
      else thenE (writeE (\<lambda>s. s\<lparr>rides := filter (\<lambda>x. ride_id x \<noteq> ride_id r) (rides s)\<rparr>)) (returnE r))"

subsection \<open>Creating a ride with its candidates and history\<close>

record nearby_driver =
  nd_driverId :: string
  nd_distanceMeters :: "jsnum option"

record history_input =
  hi_from :: "ride_status option"
  hi_to :: ride_status
  hi_context :: "string option"

record ride_creation =
  rc_riderId :: string
  rc_pickup :: "jsnum \<times> jsnum"
  rc_dropoff :: "jsnum \<times> jsnum"
  rc_status :: ride_status
  rc_fareEstimated :: "numtext option"
  rc_distanceEstimatedKm :: "jsnum option"
  rc_durationEstimatedSeconds :: "jsnum option"
  rc_note :: "string option"
  rc_nearbyDrivers :: "nearby_driver list"
  rc_historyEntries :: "history_input list"

definition insertRideRow :: "ride_creation \<Rightarrow> string weff" where
  "insertRideRow opt = (\<lambda>s.
     (Inr (show_nat (rideSeq s)),
      s\<lparr>rides := rides s @
          [\<lparr>ride_id = show_nat (rideSeq s), riderId = rc_riderId opt, driverId = None,
            pickupLongitude = fst (rc_pickup opt), pickupLatitude = snd (rc_pickup opt),
            dropoffLongitude = fst (rc_dropoff opt), dropoffLatitude = snd (rc_dropoff opt),
            status = rc_status opt, fareEstimated = rc_fareEstimated opt, fareFinal = None,
            ride_discountPercent = None, ride_discountAmount = None, ride_appFeeAmount = None,
            distanceEstimatedKm = rc_distanceEstimatedKm opt,
            durationEstimatedSeconds = rc_durationEstimatedSeconds opt,
            distanceActualKm = None, paymentUrl = None, paymentStatus = None,
            ride_note = rc_note opt, cancelReason = None,
            createdAt = clock s, updatedAt = clock s, deletedAt = None\<rparr>],
        rideSeq := Suc (rideSeq s)\<rparr>))"

definition insertCandidateRow ::
  "string \<Rightarrow> string \<Rightarrow> candidate_status \<Rightarrow> jsnum option \<Rightarrow> string option \<Rightarrow> int option \<Rightarrow>
    candidate weff" where
  "insertCandidateRow k driver st metres why responded = (\<lambda>s.
     let c = \<lparr>cand_id = show_nat (candidateSeq s), cand_rideId = k, cand_driverId = driver,
              cand_status = st, distanceMeters = metres, reason = why, respondedAt = responded,
              cand_createdAt = clock s, cand_updatedAt = clock s\<rparr>
     in (Inr c, s\<lparr>candidates := candidates s @ [c], candidateSeq := Suc (candidateSeq s)\<rparr>))"

definition insertHistoryRow ::
  "string \<Rightarrow> ride_status option \<Rightarrow> ride_status \<Rightarrow> string option \<Rightarrow> status_history weff" where
  "insertHistoryRow k from_st to_st ctx = (\<lambda>s.
     let h = \<lparr>hist_id = show_nat (historySeq s), hist_rideId = k, fromStatus = from_st,
              toStatus = to_st, hist_context = ctx, hist_createdAt = clock s\<rparr>
     in (Inr h, s\<lparr>history := history s @ [h], historySeq := Suc (historySeq s)\<rparr>))"

definition createRideWithDetails :: "ride_creation \<Rightarrow> (ride \<times> candidate list) weff" where
  "createRideWithDetails opt =
     bindE (transactE
       (bindE (insertRideRow opt) (\<lambda>k.
        bindE (mapE (\<lambda>d. insertCandidateRow k (nd_driverId d) INVITED
                          (map_option js_round (nd_distanceMeters d)) None None)
                (rc_nearbyDrivers opt)) (\<lambda>cs.
        thenE (mapE (\<lambda>e. insertHistoryRow k (hi_from e) (hi_to e) (hi_context e))
                (rc_historyEntries opt))
          (returnE (k, cs))))))
       (\<lambda>(k, cs). bindE (findRideById k) (\<lambda>found. case found of
            None \<Rightarrow> throwE (JsError ''Failed to load ride after creation'')
          | Some r \<Rightarrow> returnE (r, cs)))"

text \<open>\<open>(await findById(id)) ?? fallback\<close>\<close>

definition refresh :: "string \<Rightarrow> ride \<Rightarrow> ride weff" where
  "refresh k fallback =
     bindE (findRideById k) (\<lambda>found. returnE (case found of None \<Rightarrow> fallback | Some r \<Rightarrow> r))"

section \<open>RideDriverCandidateRepository\<close>

definition candidatesOfRide :: "string \<Rightarrow> candidate list \<Rightarrow> candidate list" where
  "candidatesOfRide k cs = filter (\<lambda>c. cand_rideId c = k) cs"

definition findCandidatesByRideId :: "string \<Rightarrow> candidate list weff" where
  "findCandidatesByRideId k = readE (\<lambda>s. candidatesOfRide k (candidates s))"

definition findByRideAndDriver :: "string \<Rightarrow> string \<Rightarrow> candidate option weff" where
  "findByRideAndDriver k driver =
     readE (\<lambda>s. List.find (\<lambda>c. cand_rideId c = k \<and> cand_driverId c = driver) (candidates s))"

definition getRideId :: "candidate \<Rightarrow> string option \<Rightarrow> exn + string" where
  "getRideId c provided =
     (case provided of
        Some k \<Rightarrow> if k \<noteq> [] then Inr k
                   else if cand_rideId c \<noteq> [] then Inr (cand_rideId c)
                   else Inl (JsError ''Ride id is required for ride driver candidates'')
      | None \<Rightarrow> if cand_rideId c \<noteq> [] then Inr (cand_rideId c)
                else Inl (JsError ''Ride id is required for ride driver candidates''))"

definition insertCandidate :: "candidate \<Rightarrow> string option \<Rightarrow> candidate weff" where
  "insertCandidate c provided =
     bindE (liftE (getRideId c provided)) (\<lambda>k.
       insertCandidateRow k (cand_driverId c) (cand_status c) (distanceMeters c) (reason c)
         (respondedAt c))"

definition updateCandidate :: "candidate \<Rightarrow> string option \<Rightarrow> candidate weff" where
  "updateCandidate c provided =
     (if cand_id c = [] then throwE (JsError ''Candidate id is required for updates'')
      else bindE (liftE (getRideId c provided)) (\<lambda>k.
        bindE (readE (\<lambda>s. (clock s, row_find cand_id (cand_id c) (candidates s))))
          (\<lambda>(now, found). case found of
             None \<Rightarrow> throwE (JsError ''Ride driver candidate not found while updating'')
           | Some current \<Rightarrow>
               (let row = current\<lparr>cand_rideId := k, cand_status := cand_status c,
                                  reason := reason c, distanceMeters := distanceMeters c,
                                  respondedAt := respondedAt c, cand_updatedAt := now\<rparr>
                in thenE (writeE (\<lambda>s. s\<lparr>candidates := row_put cand_id row (candidates s)\<rparr>))
                     (returnE row)))))"

definition saveCandidate :: "candidate \<Rightarrow> string option \<Rightarrow> candidate weff" where
  "saveCandidate c provided =
     (if cand_id c \<noteq> [] then updateCandidate c provided else insertCandidate c provided)"

definition saveManyCandidates :: "candidate list \<Rightarrow> string option \<Rightarrow> candidate list weff" where
  "saveManyCandidates cs provided = mapE (\<lambda>c. saveCandidate c provided) cs"

section \<open>RideStatusHistoryRepository\<close>

definition saveHistory ::
  "string \<Rightarrow> ride_status option \<Rightarrow> ride_status \<Rightarrow> string option \<Rightarrow> status_history weff" where
  "saveHistory k from_st to_st ctx = insertHistoryRow k from_st to_st ctx"

section \<open>What the repositories do\<close>

subsection \<open>The tables keep the contract of a row store\<close>

interpretation ride_rows: row_store_insert
    "row_find ride_id" "row_put ride_id" ride_id "\<lambda>r rs. rs @ [r]"
  by unfold_locales (auto simp: row_find_put row_find_append dest: row_find_SomeD split: option.splits)

interpretation candidate_rows: row_store_insert
    "row_find cand_id" "row_put cand_id" cand_id "\<lambda>c cs. cs @ [c]"
  by unfold_locales (auto simp: row_find_put row_find_append dest: row_find_SomeD split: option.splits)

subsection \<open>Closed forms\<close>

lemma run_findRideById [eff_run]: "findRideById k s = (Inr (row_find ride_id k (rides s)), s)"
  by (simp add: findRideById_def)

lemma run_refresh [eff_run]:
  "refresh k r s = (Inr (case row_find ride_id k (rides s) of None \<Rightarrow> r | Some x \<Rightarrow> x), s)"
  by (simp add: refresh_def eff_run)

lemma run_findCandidates [eff_run]:
  "findCandidatesByRideId k s = (Inr (candidatesOfRide k (candidates s)), s)"
  by (simp add: findCandidatesByRideId_def)

lemma run_findByRideAndDriver [eff_run]:
  "findByRideAndDriver k d s =
     (Inr (List.find (\<lambda>c. cand_rideId c = k \<and> cand_driverId c = d) (candidates s)), s)"
  by (simp add: findByRideAndDriver_def)

lemma run_saveHistory [eff_run]:
  "saveHistory k f t c s =
     (let h = \<lparr>hist_id = show_nat (historySeq s), hist_rideId = k, fromStatus = f, toStatus = t,
               hist_context = c, hist_createdAt = clock s\<rparr>
      in (Inr h, s\<lparr>history := history s @ [h], historySeq := Suc (historySeq s)\<rparr>))"
  by (simp add: saveHistory_def insertHistoryRow_def)

lemma updated_row_simps [simp]:
  "ride_id (updated_row now c m) = ride_id c"
  "status (updated_row now c m) = status m"
  "driverId (updated_row now c m) = driverId m"
  "riderId (updated_row now c m) = riderId m"
  "cancelReason (updated_row now c m) = cancelReason m"
  "fareFinal (updated_row now c m) = fareFinal m"
  "paymentStatus (updated_row now c m) = paymentStatus m"
  by (simp_all add: updated_row_def)

lemma merge_simps [simp]:
  "ride_id (mergeRideData c m) = ride_id m"
  "status (mergeRideData c m) = status m"
  "driverId (mergeRideData c m) = driverId m"
  "riderId (mergeRideData c m) = riderId m"
  "cancelReason (mergeRideData c m) = cancelReason m"
  "fareFinal (mergeRideData c m) = or_current (fareFinal m) (fareFinal c)"
  "paymentStatus (mergeRideData c m) = paymentStatus m"
  by (simp_all add: mergeRideData_def)

lemma or_current_simps [simp]: "or_current (Some v) c = Some v" "or_current None c = c"
  by (simp_all add: or_current_def)

definition saved_ride :: "int \<Rightarrow> ride \<Rightarrow> ride \<Rightarrow> ride" where
  "saved_ride now current r = updated_row now current (mergeRideData current r)"

lemma saved_ride_simps [simp]:
  "ride_id (saved_ride now c r) = ride_id c"
  "status (saved_ride now c r) = status r"
  "driverId (saved_ride now c r) = driverId r"
  "riderId (saved_ride now c r) = riderId r"
  "cancelReason (saved_ride now c r) = cancelReason r"
  "fareFinal (saved_ride now c r) = or_current (fareFinal r) (fareFinal c)"
  "paymentStatus (saved_ride now c r) = paymentStatus r"
  by (simp_all add: saved_ride_def)

lemma updateRide_run:
  assumes "row_find ride_id (ride_id r) (rides s) = Some c" and "ride_id r \<noteq> []"
  shows "updateRide r s =
    (Inr (saved_ride (clock s) c r), s\<lparr>rides := row_put ride_id (saved_ride (clock s) c r) (rides s)\<rparr>)"
proof -
  have "ride_id c = ride_id r" using assms(1) by (auto dest: row_find_SomeD)
  then show ?thesis
    using assms by (simp add: updateRide_def eff_run row_find_put saved_ride_def)
qed

lemma claimDriver_run:
  "claimDriver k d s =
     (case row_find ride_id k (rides s) of
        None \<Rightarrow> (Inl (JsError ''Ride not found''), s)
      | Some r \<Rightarrow>
          if truthy (driverId r) then (Inl (JsError ''Ride already claimed''), s)
          else if driverId r = None
          then (Inr True, s\<lparr>rides :=
                 row_put ride_id (r\<lparr>driverId := Some d, updatedAt := clock s\<rparr>) (rides s)\<rparr>)
          else (Inr False, s))"
  by (simp add: claimDriver_def eff_run split: option.splits)

definition saved_candidate :: "int \<Rightarrow> candidate \<Rightarrow> candidate \<Rightarrow> candidate" where
  "saved_candidate now current c =
     current\<lparr>cand_rideId := cand_rideId c, cand_status := cand_status c, reason := reason c,
             distanceMeters := distanceMeters c, respondedAt := respondedAt c,
             cand_updatedAt := now\<rparr>"

lemma saveCandidate_run:
  assumes "row_find cand_id (cand_id c) (candidates s) = Some cur"
    and "cand_id c \<noteq> []" and "cand_rideId c \<noteq> []"
  shows "saveCandidate c None s =
    (Inr (saved_candidate (clock s) cur c),
     s\<lparr>candidates := row_put cand_id (saved_candidate (clock s) cur c) (candidates s)\<rparr>)"
  using assms
  by (simp add: saveCandidate_def updateCandidate_def getRideId_def eff_run saved_candidate_def Let_def)

text \<open>
  Saving the entities obtained by changing the rows that satisfy \<open>Q\<close>, one after the
  other, changes exactly these rows of the table.
\<close>

definition save_where ::
  "int \<Rightarrow> (candidate \<Rightarrow> bool) \<Rightarrow> (candidate \<Rightarrow> candidate) \<Rightarrow> candidate \<Rightarrow> candidate" where
  "save_where now Q f c = (if Q c then saved_candidate now c (f c) else c)"

lemma save_where_id [simp]: "cand_id (save_where now Q f c) = cand_id c"
  by (simp add: save_where_def saved_candidate_def)

lemma row_find_middle:
  "distinct (map key (xs @ y # ys)) \<Longrightarrow> (\<And>x. key (g x) = key x) \<Longrightarrow>
     row_find key (key y) (map g xs @ y # ys) = Some y"
  by (induction xs) auto

lemma row_put_absent: "\<forall>x \<in> set ys. key x \<noteq> key z \<Longrightarrow> row_put key z ys = ys"
  by (induction ys) auto

lemma row_put_middle:
  "distinct (map key (xs @ y # ys)) \<Longrightarrow> (\<And>x. key (g x) = key x) \<Longrightarrow> key z = key y \<Longrightarrow>
     row_put key z (map g xs @ y # ys) = map g xs @ z # ys"
proof (induction xs)
  case Nil
  then have "\<forall>x \<in> set ys. key x \<noteq> key z" by simp (metis image_eqI)
  then show ?case using Nil by (simp add: row_put_absent)
next
  case (Cons x xs)
  then show ?case by auto
qed

lemma saveMany_suffix:
  assumes "candidates s = map (save_where now Q f) xs @ ys" and "clock s = now"
    and "distinct (map cand_id (xs @ ys))"
    and "\<forall>c \<in> set ys. cand_id c \<noteq> [] \<and> (Q c \<longrightarrow> cand_rideId (f c) \<noteq> [])"
    and f: "\<And>c. cand_id (f c) = cand_id c"
  shows "saveManyCandidates (map f (filter Q ys)) None s =
    (Inr (map (save_where now Q f) (filter Q ys)),
     s\<lparr>candidates := map (save_where now Q f) (xs @ ys)\<rparr>)"
  using assms(1-4)
proof (induction ys arbitrary: xs s)
  case Nil
  then show ?case by (simp add: saveManyCandidates_def)
next
  case (Cons y ys)
  let ?u = "save_where now Q f"
  show ?case
  proof (cases "Q y")
    case False
    then have "?u y = y" by (simp add: save_where_def)
    then show ?thesis using Cons.IH [of s "xs @ [y]"] Cons.prems False by simp
  next
    case True
    let ?s = "s\<lparr>candidates := map ?u xs @ ?u y # ys\<rparr>"
    have find: "row_find cand_id (cand_id (f y)) (candidates s) = Some y"
      using Cons.prems row_find_middle [of cand_id xs y ys ?u] f by simp
    have put: "row_put cand_id (?u y) (candidates s) = map ?u xs @ ?u y # ys"
      using Cons.prems row_put_middle [of cand_id xs y ys ?u "?u y"] by simp
    have "saveCandidate (f y) None s = (Inr (?u y), ?s)"
      using saveCandidate_run [OF find] Cons.prems True f put by (simp add: save_where_def)
    moreover have "saveManyCandidates (map f (filter Q ys)) None ?s =
        (Inr (map ?u (filter Q ys)), ?s\<lparr>candidates := map ?u ((xs @ [y]) @ ys)\<rparr>)"
      using Cons.prems by (intro Cons.IH) simp_all
    ultimately show ?thesis using True by (simp add: saveManyCandidates_def run_bind)
  qed
qed

lemma saveMany_run:
  assumes "distinct (map cand_id (candidates s))"
    and "\<forall>c \<in> set (candidates s). cand_id c \<noteq> [] \<and> (Q c \<longrightarrow> cand_rideId (f c) \<noteq> [])"
    and "\<And>c. cand_id (f c) = cand_id c"
  shows "saveManyCandidates (map f (filter Q (candidates s))) None s =
    (Inr (map (save_where (clock s) Q f) (filter Q (candidates s))),
     s\<lparr>candidates := map (save_where (clock s) Q f) (candidates s)\<rparr>)"
  using saveMany_suffix [of s "clock s" Q f "[]" "candidates s"] assms by simp

end
