(* ===== verification/Ride_Notification.thy ===== *)
theory Ride_Notification
  imports Ride_Repositories
begin

text \<open>
  \<open>RideNotificationService\<close> (\<open>rides/domain/services/ride-notification.service.ts\<close>): which
  notification goes to whom. The publisher port is the log of what was emitted; its
  answer (whether a client was connected) is only logged by the code.
\<close>

section \<open>The publisher port and the dispatcher\<close>

definition emit :: "notification \<Rightarrow> unit weff" where
  "emit n = writeE (\<lambda>s. s\<lparr>published := published s @ [n]\<rparr>)"

definition buildPayload ::
  "target \<Rightarrow> string \<Rightarrow> string \<Rightarrow> ride \<Rightarrow> text_part list \<Rightarrow> extra list \<Rightarrow> notification" where
  "buildPayload t targetId event r message extras =
     \<lparr>n_target = t, n_targetId = targetId, n_event = event, n_rideId = ride_id r,
      n_riderId = riderId r, n_driverId = driverId r, n_status = status r,
      n_message = message, n_extras = extras\<rparr>"

definition dispatchNotification ::
  "target \<Rightarrow> string \<Rightarrow> string \<Rightarrow> ride \<Rightarrow> text_part list \<Rightarrow> extra list \<Rightarrow> unit weff" where
  "dispatchNotification t targetId event r message extras =
     (if targetId = [] then returnE ()
      else emit (buildPayload t targetId event r message extras))"

definition buildCandidatePayload :: "candidate \<Rightarrow> candidate_payload" where
  "buildCandidatePayload c =
     \<lparr>cp_driverId = cand_driverId c, cp_status = cand_status c, cp_reason = reason c,
      cp_distanceMeters = distanceMeters c, cp_respondedAt = respondedAt c,
      cp_createdAt = cand_createdAt c\<rparr>"

section \<open>The notifications\<close>

definition notifyRideMatched :: "ride \<Rightarrow> unit weff" where
  "notifyRideMatched r =
     dispatchNotification ToRider (riderId r) ''ride.candidates.invited'' r
       [Lit ''awaiting driver responses''] []"

definition notifyRideOffered :: "ride \<Rightarrow> candidate \<Rightarrow> route_estimates \<Rightarrow> unit weff" where
  "notifyRideOffered r c route =
     dispatchNotification ToDriver (cand_driverId c) ''ride.offer'' r
       [Lit ''New ride requested near you''] [Candidate (buildCandidatePayload c), Route route]"

definition notifyDriverAccepted :: "ride \<Rightarrow> candidate \<Rightarrow> unit weff" where
  "notifyDriverAccepted r c =
     dispatchNotification ToRider (riderId r) ''ride.driver.accepted'' r
       [Lit ''Driver '', Lit (cand_driverId c), Lit '' accepted ride '', Lit (ride_id r)]
       [Candidate (buildCandidatePayload c)]"

definition notifyDriverDeclined :: "ride \<Rightarrow> candidate \<Rightarrow> unit weff" where
  "notifyDriverDeclined r c =
     dispatchNotification ToRider (riderId r) ''ride.driver.declined'' r
       [Lit ''Driver '', Lit (cand_driverId c), Lit '' declined ride '', Lit (ride_id r)]
       [Candidate (buildCandidatePayload c)]"

definition notifyRiderConfirmed :: "ride \<Rightarrow> candidate \<Rightarrow> unit weff" where
  "notifyRiderConfirmed r c =
     (case driverId r of
        None \<Rightarrow> returnE ()
      | Some d \<Rightarrow>
          if d = [] then returnE ()
          else dispatchNotification ToDriver d ''ride.rider.confirmed'' r
            [Lit ''Rider '', Lit (riderId r), Lit '' confirmed ride '', Lit (ride_id r)]
            [Candidate (buildCandidatePayload c)])"

text \<open>\<open>reason ? `: ${reason}` : ''\<close>\<close>

definition because :: "string option \<Rightarrow> text_part list" where
  "because why = (case why of None \<Rightarrow> [] | Some v \<Rightarrow> if v = [] then [] else [Lit '': '', Lit v])"

definition notifyRiderRejectedDriver :: "ride \<Rightarrow> candidate \<Rightarrow> string option \<Rightarrow> unit weff" where
  "notifyRiderRejectedDriver r c why =
     dispatchNotification ToDriver (cand_driverId c) ''ride.rider.rejected'' r
       ([Lit ''Rider '', Lit (riderId r), Lit '' rejected ride '', Lit (ride_id r)] @ because why)
       [Candidate (buildCandidatePayload c), RejectionReason why]"

definition notifyCandidateSuperseded :: "ride \<Rightarrow> candidate \<Rightarrow> unit weff" where
  "notifyCandidateSuperseded r c =
     dispatchNotification ToDriver (cand_driverId c) ''ride.driver.not_selected'' r
       [Lit ''Ride '', Lit (ride_id r), Lit '' is no longer available'']
       [Candidate (buildCandidatePayload c)]"

definition notifyRideCanceledForCandidate :: "ride \<Rightarrow> candidate \<Rightarrow> string option \<Rightarrow> unit weff" where
  "notifyRideCanceledForCandidate r c why =
     dispatchNotification ToDriver (cand_driverId c) ''ride.cancelled'' r
       ([Lit ''Ride '', Lit (ride_id r), Lit '' was cancelled by rider '', Lit (riderId r)]
         @ because why)
       [Candidate (buildCandidatePayload c), CancellationReason why]"

definition notifyRideStarted :: "ride \<Rightarrow> unit weff" where
  "notifyRideStarted r =
     (let toRider = dispatchNotification ToRider (riderId r) ''ride.started.rider'' r
            [Lit ''Ride '', Lit (ride_id r), Lit '' has started.''] []
      in if \<not> truthy (driverId r) then toRider
         else thenE toRider
           (dispatchNotification ToDriver (the (driverId r)) ''ride.started.driver'' r
             [Lit ''Ride '', Lit (ride_id r), Lit '' is now in progress.''] []))"

definition notifyRideCompleted :: "ride \<Rightarrow> fare_summary \<Rightarrow> unit weff" where
  "notifyRideCompleted r summary =
     (let toRider = dispatchNotification ToRider (riderId r) ''ride.completed.rider'' r
            [Lit ''Ride '', Lit (ride_id r), Lit '' completed. Fare due: Rp '',
             NumT (fs_finalFare summary), Lit ''.''] [Summary summary]
      in if \<not> truthy (driverId r) then toRider
         else thenE toRider
           (dispatchNotification ToDriver (the (driverId r)) ''ride.completed.driver'' r
             [Lit ''Ride '', Lit (ride_id r), Lit '' completed. Fare: Rp '',
              NumT (fs_finalFare summary), Lit ''.''] [Summary summary]))"

definition notifyRidePaid :: "ride \<Rightarrow> string option \<Rightarrow> unit weff" where
  "notifyRidePaid r paymentReference =
     (let extras = (if truthy paymentReference then [PaymentReference (the paymentReference)] else []);
          toRider = dispatchNotification ToRider (riderId r) ''ride.payment.completed.rider'' r
            [Lit ''Payment for ride '', Lit (ride_id r), Lit '' confirmed.''] extras
      in if \<not> truthy (driverId r) then toRider
         else thenE toRider
           (dispatchNotification ToDriver (the (driverId r)) ''ride.payment.completed.driver'' r
             [Lit ''Ride '', Lit (ride_id r), Lit '' payment has been received.''] extras))"

section \<open>The contract of the notifier\<close>

text \<open>
  What the ride services rely on: a notification never throws and only adds to what was
  published. \<open>only_publishes m\<close> states it of a method, and a client lemma lifts it to
  \<open>Promise.all\<close> over a list.
\<close>

definition only_publishes :: "'a weff \<Rightarrow> bool" where
  "only_publishes m \<longleftrightarrow> (\<forall>s. \<exists>a ns. m s = (Inr a, s\<lparr>published := published s @ ns\<rparr>))"

lemma same_publish:
  assumes "only_publishes m"
  shows "rides (snd (m s)) = rides s" and "candidates (snd (m s)) = candidates s"
    and "details (snd (m s)) = details s" and "outboxes (snd (m s)) = outboxes s"
proof -
  obtain a ns where "m s = (Inr a, s\<lparr>published := published s @ ns\<rparr>)" using assms unfolding only_publishes_def by blast
  then show "rides (snd (m s)) = rides s" "candidates (snd (m s)) = candidates s"
    "details (snd (m s)) = details s" "outboxes (snd (m s)) = outboxes s" by simp_all
qed

locale notifier =
  fixes notify :: "'a \<Rightarrow> unit weff"
  assumes publishes: "only_publishes (notify a)"
begin

lemma run_one: "\<exists>ns. notify a s = (Inr (), s\<lparr>published := published s @ ns\<rparr>)"
  using publishes [of a] unfolding only_publishes_def by simp

lemma run_all: "\<exists>ns. forE notify as s = (Inr (), s\<lparr>published := published s @ ns\<rparr>)"
proof (induction as arbitrary: s)
  case Nil
  show ?case by (intro exI [of _ "[]"]) (simp add: forE_def eff_run)
next
  case (Cons a as)
  obtain n1 where 1: "notify a s = (Inr (), s\<lparr>published := published s @ n1\<rparr>)"
    using run_one by blast
  obtain n2 where "forE notify as (s\<lparr>published := published s @ n1\<rparr>) =
      (Inr (), s\<lparr>published := (published s @ n1) @ n2\<rparr>)"
    using Cons.IH [of "s\<lparr>published := published s @ n1\<rparr>"] by auto
  then show ?case using 1
    by (intro exI [of _ "n1 @ n2"]) (auto simp: forE_def eff_run split: prod.splits sum.splits)
qed

end

lemma publishes_return [intro!]: "only_publishes (returnE a)"
  unfolding only_publishes_def by (intro allI exI [of _ a] exI [of _ "[]"]) simp

lemma publishes_dispatch [intro!]: "only_publishes (dispatchNotification t i e r m x)"
  by (auto simp: dispatchNotification_def emit_def) (auto simp: only_publishes_def)

lemma publishes_then [intro]:
  assumes "only_publishes m" and "only_publishes n"
  shows "only_publishes (thenE m n)"
  unfolding only_publishes_def
proof
  fix s
  obtain a n1 where 1: "m s = (Inr a, s\<lparr>published := published s @ n1\<rparr>)"
    using assms(1) unfolding only_publishes_def by blast
  obtain b n2 where "n (s\<lparr>published := published s @ n1\<rparr>) =
      (Inr b, s\<lparr>published := (published s @ n1) @ n2\<rparr>)"
    using assms(2) [unfolded only_publishes_def, rule_format, of "s\<lparr>published := published s @ n1\<rparr>"]
    by auto
  then show "\<exists>a ns. thenE m n s = (Inr a, s\<lparr>published := published s @ ns\<rparr>)"
    using 1 by (auto simp: run_then)
qed

lemmas notify_defs = notifyRideMatched_def notifyRideOffered_def notifyDriverAccepted_def
  notifyDriverDeclined_def notifyRiderConfirmed_def notifyRiderRejectedDriver_def
  notifyCandidateSuperseded_def notifyRideCanceledForCandidate_def notifyRideStarted_def
  notifyRideCompleted_def notifyRidePaid_def

interpretation matched: notifier notifyRideMatched
  by unfold_locales (auto simp: notify_defs)

interpretation offered: notifier "\<lambda>c. notifyRideOffered r c route" for r route
  by unfold_locales (auto simp: notify_defs)

interpretation accepted: notifier "notifyDriverAccepted r" for r
  by unfold_locales (auto simp: notify_defs)

interpretation declined: notifier "notifyDriverDeclined r" for r
  by unfold_locales (auto simp: notify_defs)

interpretation confirmed: notifier "notifyRiderConfirmed r" for r
  by unfold_locales (auto simp: notify_defs split: option.split)

interpretation rejected: notifier "\<lambda>c. notifyRiderRejectedDriver r c why" for r why
  by unfold_locales (auto simp: notify_defs)

interpretation superseded: notifier "notifyCandidateSuperseded r" for r
  by unfold_locales (auto simp: notify_defs)

interpretation cancelled: notifier "\<lambda>c. notifyRideCanceledForCandidate r c why" for r why
  by unfold_locales (auto simp: notify_defs)

interpretation started: notifier notifyRideStarted
  by unfold_locales (auto simp: notify_defs Let_def)

interpretation completed: notifier "\<lambda>r. notifyRideCompleted r summary" for summary
  by unfold_locales (auto simp: notify_defs Let_def)

interpretation paid: notifier "\<lambda>r. notifyRidePaid r ref" for ref
  by unfold_locales (auto simp: notify_defs Let_def)

end
