(* ===== verification/Rides_Management.thy ===== *)
theory Rides_Management
  imports Ride_Notification
begin

text \<open>
  \<open>RidesManagementService\<close> (\<open>rides/domain/services/rides-management.service.ts\<close>):
  creating, cancelling, accepting, declining, confirming and rejecting a ride, and the
  status transition all of them go through.

  What lies outside the repository is in \<open>ride_env\<close>: what waiting for the route
  estimation job gives (\<open>None\<close> when it fails or times out), the drivers the location
  service finds near a point, and the jobs BullMQ refuses to remove because a worker holds
  their lock.
\<close>

section \<open>Requests and environment\<close>

record requesting_client =
  req_id :: string
  req_role :: "client_type option"

record create_ride_input =
  ci_pickup :: "jsnum \<times> jsnum"
  ci_dropoff :: "jsnum \<times> jsnum"
  ci_note :: "string option"
  ci_maxDrivers :: "jsnum option"

record ride_env =
  route_result :: "string \<Rightarrow> jsnum \<times> jsnum \<Rightarrow> jsnum \<times> jsnum \<Rightarrow> route_estimates option"
  nearby :: "jsnum \<Rightarrow> jsnum \<Rightarrow> jsnum \<Rightarrow> exn + nearby_driver list"
  job_locked :: "string \<Rightarrow> bool"
  engine :: fare_engine

section \<open>Transitions\<close>

definition recordStatusChange ::
  "string \<Rightarrow> ride_status option \<Rightarrow> ride_status \<Rightarrow> string option \<Rightarrow> unit weff" where
  "recordStatusChange k from_st to_st ctx =
     (if k = [] then throwE (BadRequest ''Ride identifier missing when recording status change'')
      else thenE (saveHistory k from_st to_st ctx) (returnE ()))"

definition transitionRideStatus ::
  "string \<Rightarrow> ride_status list \<Rightarrow> ride_status \<Rightarrow> string option \<Rightarrow> (ride \<times> bool) weff" where
  "transitionRideStatus k allowed next ctx =
     bindE (findRideById k) (\<lambda>found. case found of
         None \<Rightarrow> throwE (NotFound ''Ride not found'')
       | Some r \<Rightarrow>
           if status r \<notin> set allowed then returnE (r, False)
           else if status r = next then returnE (r, False)
           else (let previous = status r;
                     r1 = r\<lparr>status := next\<rparr>;
                     r2 = (if truthy ctx \<and> next = CANCELED then r1\<lparr>cancelReason := ctx\<rparr> else r1)
                 in bindE (updateRide r2) (\<lambda>saved.
                    thenE (recordStatusChange (ride_id saved) (Some previous) next ctx)
                      (returnE (saved, True)))))"

section \<open>Creating a ride\<close>

definition buildRouteEstimationJobId :: "string \<Rightarrow> string" where
  "buildRouteEstimationJobId k = ''ride-'' @ k @ ''-route-estimation''"

definition routeJobId :: "string \<Rightarrow> int \<Rightarrow> string" where
  "routeJobId rider now = buildRouteEstimationJobId (''request-'' @ rider @ ''-'' @ show_nat (nat now))"

definition removeRideJob :: "ride_env \<Rightarrow> string \<Rightarrow> unit weff" where
  "removeRideJob env job =
     writeE (\<lambda>s. if job_locked env job then s else s\<lparr>rideJobs := removeAll job (rideJobs s)\<rparr>)"

definition removePendingJobs :: "ride_env \<Rightarrow> string \<Rightarrow> unit weff" where
  "removePendingJobs env k = removeRideJob env (buildRouteEstimationJobId k)"

text \<open>
  A job that completes is removed by the queue (\<open>removeOnComplete\<close>), one that fails or is
  not finished in time stays; adding an id that is already queued changes nothing.
\<close>

definition requestRouteEstimatesThroughQueue ::
  "ride_env \<Rightarrow> string \<Rightarrow> jsnum \<times> jsnum \<Rightarrow> jsnum \<times> jsnum \<Rightarrow> route_estimates weff" where
  "requestRouteEstimatesThroughQueue env job pickup dropoff =
     thenE (removeRideJob env job)
    (thenE (writeE (\<lambda>s. s\<lparr>rideJobs := List.insert job (rideJobs s)\<rparr>))
       (case route_result env job pickup dropoff of
          Some route \<Rightarrow> thenE (writeE (\<lambda>s. s\<lparr>rideJobs := removeAll job (rideJobs s)\<rparr>)) (returnE route)
        | None \<Rightarrow> throwE (BadRequest
            ''Unable to calculate route distance at this time. Please try again later.'')))"

definition resolveCandidateLimit :: "jsnum option \<Rightarrow> jsnum" where
  "resolveCandidateLimit requested =
     (case requested of
        None \<Rightarrow> Fin 20
      | Some n \<Rightarrow> if is_nan n \<or> n = Fin 0 \<or> js_lt (Fin 50) n then Fin 20 else n)"

text \<open>The inputs built here are not used by the call that follows in the code.\<close>

fun driverCandidateInputs :: "string list \<Rightarrow> nearby_driver list \<Rightarrow> (string \<times> jsnum option) list" where
  "driverCandidateInputs seen [] = []"
| "driverCandidateInputs seen (d # ds) =
     (if nd_driverId d = [] \<or> nd_driverId d \<in> set seen then driverCandidateInputs seen ds
      else (nd_driverId d, map_option js_round (nd_distanceMeters d)) #
        driverCandidateInputs (nd_driverId d # seen) ds)"

definition buildDriverCandidateInputs :: "nearby_driver list \<Rightarrow> (string \<times> jsnum option) list" where
  "buildDriverCandidateInputs ds = driverCandidateInputs [] ds"

definition buildInitialHistoryEntries :: "nat \<Rightarrow> history_input list" where
  "buildInitialHistoryEntries invitedCount =
     [\<lparr>hi_from = None, hi_to = REQUESTED, hi_context = Some ''Ride requested by rider''\<rparr>,
      \<lparr>hi_from = Some REQUESTED, hi_to = CANDIDATES_COMPUTED,
       hi_context = Some (''Invited '' @ show_nat invitedCount @ '' drivers'')\<rparr>]"

fun exn_message :: "exn \<Rightarrow> string" where
  "exn_message (BadRequest m) = m"
| "exn_message (Unauthorized m) = m"
| "exn_message (Forbidden m) = m"
| "exn_message (NotFound m) = m"
| "exn_message (Conflict m) = m"
| "exn_message (InternalServerError m) = m"
| "exn_message (ServiceUnavailable m) = m"
| "exn_message (JsError m) = m"

fun is_bad_request :: "exn \<Rightarrow> bool" where
  "is_bad_request (BadRequest _) = True"
| "is_bad_request _ = False"

definition no_driver :: string where
  "no_driver = ''unable to find driver, try again later''"

definition ride_details ::
  "ride_env \<Rightarrow> string \<Rightarrow> create_ride_input \<Rightarrow> route_estimates \<Rightarrow> nearby_driver list \<Rightarrow> ride_creation" where
  "ride_details env rider payload route drivers =
     \<lparr>rc_riderId = rider, rc_pickup = ci_pickup payload, rc_dropoff = ci_dropoff payload,
      rc_status = CANDIDATES_COMPUTED,
      rc_fareEstimated = calculateEstimatedFare (engine env) (Some (distanceKm route)),
      rc_distanceEstimatedKm = Some (distanceKm route),
      rc_durationEstimatedSeconds = Some (durationSeconds route),
      rc_note = ci_note payload, rc_nearbyDrivers = drivers,
      rc_historyEntries = buildInitialHistoryEntries (length drivers)\<rparr>"

text \<open>The body of the \<open>try\<close> and its \<open>catch\<close>.\<close>

definition createMatchedRide ::
  "ride_env \<Rightarrow> string \<Rightarrow> create_ride_input \<Rightarrow> string \<Rightarrow> (ride \<times> candidate list) weff" where
  "createMatchedRide env rider payload job =
     catchE
       (bindE (requestRouteEstimatesThroughQueue env job (ci_pickup payload) (ci_dropoff payload))
         (\<lambda>route.
        bindE (liftE (nearby env (fst (ci_pickup payload)) (snd (ci_pickup payload))
                       (resolveCandidateLimit (ci_maxDrivers payload)))) (\<lambda>drivers.
        if drivers = [] then throwE (JsError no_driver)
        else bindE (createRideWithDetails (ride_details env rider payload route drivers))
          (\<lambda>(created, cands).
           thenE (forE (\<lambda>c. notifyRideOffered created c route) cands)
          (thenE (notifyRideMatched created)
            (returnE (created, cands)))))))
       (\<lambda>err. thenE (removeRideJob env job)
          (if is_bad_request err \<or> exn_message err = no_driver then throwE err
           else throwE (InternalServerError ''error when creating ride'')))"

definition createRide ::
  "ride_env \<Rightarrow> string \<Rightarrow> create_ride_input \<Rightarrow> (ride \<times> candidate list) weff" where
  "createRide env rider payload =
     (if rider = [] then throwE (BadRequest ''Rider id is required to create a ride'')
      else bindE (findUnfinishedRideByRiderId rider) (\<lambda>existing.
        if existing \<noteq> None
        then throwE (Conflict ''You already have an active ride. Please finish or cancel it before creating a new one.'')
        else bindE (readE clock) (\<lambda>now. createMatchedRide env rider payload (routeJobId rider now))))"

section \<open>Reading a ride\<close>

definition ensureRequesterCanAccessRide :: "ride \<Rightarrow> requesting_client \<Rightarrow> exn + unit" where
  "ensureRequesterCanAccessRide r req =
     (if req_id req = [] then Inl (BadRequest ''Requester identifier is required'')
      else if req_role req = None then Inr ()
      else if req_role req = Some RIDER \<and> riderId r \<noteq> req_id req
      then Inl (NotFound ''Ride not found'')
      else if req_role req = Some DRIVER \<and> driverId r \<noteq> Some (req_id req)
      then Inl (NotFound ''Ride not found'')
      else Inr ())"

definition getRideById :: "string \<Rightarrow> requesting_client \<Rightarrow> ride weff" where
  "getRideById k req =
     bindE (findRideById k) (\<lambda>found. case found of
         None \<Rightarrow> throwE (NotFound ''Ride not found'')
       | Some r \<Rightarrow> thenE (liftE (ensureRequesterCanAccessRide r req)) (returnE r))"

definition listRideCandidates :: "string \<Rightarrow> candidate list weff" where
  "listRideCandidates k = findCandidatesByRideId k"

section \<open>Cancelling\<close>

definition zero_fare :: numtext where
  "zero_fare = Fixed False 0 2"

definition with_response ::
  "candidate_status \<Rightarrow> string option \<Rightarrow> int \<Rightarrow> candidate \<Rightarrow> candidate" where
  "with_response st why now c = c\<lparr>cand_status := st, reason := why, respondedAt := Some now\<rparr>"

definition default_reason :: "string option \<Rightarrow> string \<Rightarrow> string option" where
  "default_reason why d = (case why of None \<Rightarrow> Some d | Some v \<Rightarrow> Some v)"

definition cancelCandidates :: "ride \<Rightarrow> string option \<Rightarrow> int \<Rightarrow> candidate list \<Rightarrow> unit weff" where
  "cancelCandidates updated why now cs =
     (let toUpdate = map (with_response CCanceled
                          (default_reason why ''Ride cancelled by rider'') now)
                      (filter (\<lambda>c. cand_status c \<noteq> CCanceled) cs)
      in whenE (toUpdate \<noteq> [])
           (bindE (saveManyCandidates toUpdate None) (\<lambda>_.
              forE (\<lambda>c. notifyRideCanceledForCandidate updated c why) toUpdate)))"

definition cancelRide ::
  "ride_env \<Rightarrow> string \<Rightarrow> requesting_client \<Rightarrow> string option \<Rightarrow> ride weff" where
  "cancelRide env k req why =
     bindE (findRideById k) (\<lambda>found. case found of
         None \<Rightarrow> throwE (NotFound ''Ride not found'')
       | Some r \<Rightarrow>
           if riderId r \<noteq> req_id req then throwE (NotFound ''Ride not found'')
           else if status r = COMPLETED
           then throwE (BadRequest ''Completed ride cannot be cancelled'')
           else if status r = CANCELED then returnE r
           else thenE (removePendingJobs env (ride_id r))
             (bindE (transitionRideStatus (ride_id r)
                      [REQUESTED, CANDIDATES_COMPUTED, ASSIGNED, ACCEPTED, ENROUTE] CANCELED
                      (default_reason why ''Ride cancelled by rider'')) (\<lambda>(updated0, _).
              let updated1 = (if truthy why then updated0\<lparr>cancelReason := why\<rparr> else updated0);
                  updated = updated1\<lparr>fareFinal := Some zero_fare\<rparr>
              in bindE (updateRide updated) (\<lambda>_.
                 bindE (findCandidatesByRideId (ride_id updated)) (\<lambda>cs.
                 bindE (readE clock) (\<lambda>now.
                 thenE (cancelCandidates updated why now cs)
                   (refresh (ride_id updated) updated)))))))"

section \<open>The driver's answers\<close>

definition markCandidateSuperseded :: "candidate \<Rightarrow> int \<Rightarrow> ride \<Rightarrow> unit weff" where
  "markCandidateSuperseded c now current =
     (let c' = with_response CCanceled (Some ''Another driver already accepted this ride'') now c
      in bindE (saveCandidate c' None) (\<lambda>_. notifyCandidateSuperseded current c'))"

text \<open>The claim of a ride that has no driver yet.\<close>

definition takeRide :: "candidate \<Rightarrow> int \<Rightarrow> string \<Rightarrow> ride \<Rightarrow> ride weff" where
  "takeRide c now driver r =
     (if truthy (driverId r) then returnE r
      else bindE (claimDriver (ride_id r) driver) (\<lambda>claimed.
        if claimed then returnE (r\<lparr>driverId := Some driver\<rparr>)
        else bindE (refresh (ride_id r) r) (\<lambda>r1.
          if truthy (driverId r1) \<and> driverId r1 \<noteq> Some driver
          then thenE (markCandidateSuperseded c now r1)
                 (throwE (Conflict ''Ride already accepted by another driver''))
          else returnE r1)))"

definition acceptRideByDriver :: "string \<Rightarrow> string \<Rightarrow> ride weff" where
  "acceptRideByDriver k driver =
     bindE (findRideById k) (\<lambda>found. case found of
         None \<Rightarrow> throwE (NotFound ''Ride not found'')
       | Some r \<Rightarrow>
           if status r = CANCELED then throwE (BadRequest ''Cancelled ride cannot be accepted'')
           else if status r = COMPLETED
           then throwE (BadRequest ''Completed ride cannot be accepted'')
           else bindE (findByRideAndDriver k driver) (\<lambda>cfound. case cfound of
               None \<Rightarrow> throwE (NotFound ''Ride not available for this driver'')
             | Some c \<Rightarrow>
                 if cand_status c = CCanceled
                 then throwE (Conflict ''Ride invitation is no longer active'')
                 else if cand_status c = DECLINED
                 then throwE (BadRequest ''Ride already declined by driver'')
                 else if cand_status c = CONFIRMED \<or>
                   (cand_status c = CAccepted \<and> driverId r = Some driver \<and>
                     (status r = ACCEPTED \<or> status r = ENROUTE))
                 then returnE r
                 else bindE (readE clock) (\<lambda>now.
                   if truthy (driverId r) \<and> driverId r \<noteq> Some driver
                   then thenE (markCandidateSuperseded c now r)
                          (throwE (Conflict ''Ride already accepted by another driver''))
                   else bindE
                     (takeRide c now driver r)
                     (\<lambda>r2.
                      let c' = with_response CAccepted None now c
                      in bindE (saveCandidate c' None) (\<lambda>_.
                         bindE (transitionRideStatus (ride_id r2) [REQUESTED, CANDIDATES_COMPUTED]
                                  ASSIGNED (Some ''Driver responded to invitation''))
                           (\<lambda>(assigned, _).
                         bindE (transitionRideStatus (ride_id assigned)
                                  [ASSIGNED, CANDIDATES_COMPUTED] ACCEPTED
                                  (Some ''Driver accepted ride request'')) (\<lambda>(accepted, _).
                         thenE (notifyDriverAccepted accepted c')
                           (refresh (ride_id assigned) accepted))))))))"

definition rejectRideByDriver :: "string \<Rightarrow> string \<Rightarrow> string option \<Rightarrow> ride weff" where
  "rejectRideByDriver k driver why =
     bindE (findRideById k) (\<lambda>found. case found of
         None \<Rightarrow> throwE (NotFound ''Ride not found'')
       | Some r \<Rightarrow>
           if status r = CANCELED then returnE r
           else if status r = COMPLETED
           then throwE (BadRequest ''Completed ride cannot be declined'')
           else if status r = ENROUTE then throwE (BadRequest ''Ride already in progress'')
           else bindE (findByRideAndDriver k driver) (\<lambda>cfound. case cfound of
               None \<Rightarrow> throwE (NotFound ''Ride not available for this driver'')
             | Some c \<Rightarrow>
                 if cand_status c = DECLINED \<or> cand_status c = CCanceled then returnE r
                 else bindE (readE clock) (\<lambda>now.
                   let rejection = default_reason why ''Driver declined the ride invitation'';
                       c' = with_response DECLINED rejection now c
                   in bindE (saveCandidate c' None) (\<lambda>_.
                      bindE
                        (if driverId r = Some driver
                         then bindE (updateRide (r\<lparr>driverId := None\<rparr>)) (\<lambda>r1.
                           bindE (transitionRideStatus (ride_id r1) [ACCEPTED, ASSIGNED]
                                    CANDIDATES_COMPUTED rejection) (\<lambda>(reverted, _).
                             returnE reverted))
                         else returnE r)
                        (\<lambda>r2. thenE (notifyDriverDeclined r2 c') (refresh (ride_id r2) r2))))))"

section \<open>The rider's answers\<close>

definition confirmed_candidate :: "string \<Rightarrow> int \<Rightarrow> candidate \<Rightarrow> candidate" where
  "confirmed_candidate driver now c =
     (if cand_driverId c = driver then with_response CONFIRMED None now c
      else with_response CCanceled (Some ''Ride confirmed with another driver'') now c)"

definition affected_by_confirmation :: "string \<Rightarrow> candidate \<Rightarrow> bool" where
  "affected_by_confirmation driver c \<longleftrightarrow>
     cand_driverId c = driver \<or> cand_status c = INVITED \<or> cand_status c = CAccepted"

definition confirmDriverAcceptance :: "string \<Rightarrow> string \<Rightarrow> ride weff" where
  "confirmDriverAcceptance k rider =
     bindE (findRideById k) (\<lambda>found. case found of
         None \<Rightarrow> throwE (NotFound ''Ride not found'')
       | Some r \<Rightarrow>
           if riderId r \<noteq> rider then throwE (NotFound ''Ride not found'')
           else if \<not> truthy (driverId r)
           then throwE (BadRequest ''Ride does not have an assigned driver'')
           else if status r = CANCELED
           then throwE (BadRequest ''Cancelled ride cannot be confirmed'')
           else if status r = COMPLETED then returnE r
           else if status r = ASSIGNED \<or> status r = REQUESTED
           then throwE (BadRequest ''Driver has not accepted this ride yet'')
           else if status r = ENROUTE then returnE r
           else (let driver = the (driverId r) in
             bindE (findByRideAndDriver k driver) (\<lambda>cfound. case cfound of
               None \<Rightarrow> throwE (Conflict ''Selected driver is no longer available'')
             | Some c \<Rightarrow>
                 if cand_status c \<noteq> CAccepted
                 then throwE (BadRequest ''Driver has not confirmed availability'')
                 else bindE (transitionRideStatus (ride_id r) [ACCEPTED] ENROUTE
                        (Some ''Rider accepted driver confirmation'')) (\<lambda>(updated, _).
                   bindE (findCandidatesByRideId k) (\<lambda>cs.
                   bindE (readE clock) (\<lambda>now.
                   let toUpdate = map (confirmed_candidate driver now)
                                    (filter (affected_by_confirmation driver) cs);
                       losers = filter (\<lambda>x. cand_driverId x \<noteq> driver) toUpdate
                   in thenE
                     (whenE (toUpdate \<noteq> [])
                       (bindE (saveManyCandidates toUpdate None) (\<lambda>_. returnE ())))
                     (thenE (notifyRiderConfirmed updated c)
                     (thenE (forE (notifyCandidateSuperseded updated) losers)
                       (refresh (ride_id updated) updated)))))))))"

definition rejectDriverAcceptance :: "string \<Rightarrow> string \<Rightarrow> string option \<Rightarrow> ride weff" where
  "rejectDriverAcceptance k rider why =
     bindE (findRideById k) (\<lambda>found. case found of
         None \<Rightarrow> throwE (NotFound ''Ride not found'')
       | Some r \<Rightarrow>
           if riderId r \<noteq> rider then throwE (NotFound ''Ride not found'')
           else if \<not> truthy (driverId r)
           then throwE (BadRequest ''Ride does not have an assigned driver'')
           else if status r = CANCELED then returnE r
           else if status r = COMPLETED
           then throwE (BadRequest ''Completed ride cannot be rejected'')
           else if status r = ENROUTE then throwE (BadRequest ''Ride already in progress'')
           else if status r = ASSIGNED \<or> status r = REQUESTED
           then throwE (BadRequest ''Driver has not accepted this ride yet'')
           else bindE (findByRideAndDriver k (the (driverId r))) (\<lambda>cfound. case cfound of
               None \<Rightarrow> throwE (Conflict ''Driver invitation is no longer active'')
             | Some c \<Rightarrow>
                 bindE (readE clock) (\<lambda>now.
                   let rejection = default_reason why ''Rider rejected the driver acceptance'';
                       c' = with_response CCanceled rejection now c
                   in bindE (saveCandidate c' None) (\<lambda>_.
                      bindE (updateRide (r\<lparr>driverId := None\<rparr>)) (\<lambda>_.
                      bindE (transitionRideStatus (ride_id r) [ACCEPTED, ASSIGNED]
                               CANDIDATES_COMPUTED rejection) (\<lambda>(reverted, _).
                      thenE (notifyRiderRejectedDriver reverted c' why)
                        (refresh (ride_id reverted) reverted)))))))"

end
