(* ===== verification/Ride_Protocol.thy ===== *)
theory Ride_Protocol
  imports Ride_Types
begin

text \<open>
  The life of one ride as a protocol, the specification the services are refined against:
  who may move a ride from which status to which, what each answer does to the driver and
  to the invitations, and the trail of status changes. The invariants of the protocol are
  proved by rule induction over its steps.
\<close>

section \<open>The state of a ride\<close>

record aride =
  a_rider :: string
  a_driver :: "string option"
  a_status :: ride_status
  a_cands :: "(string \<times> candidate_status) list"
  a_trail :: "(ride_status option \<times> ride_status) list"

definition a_cand :: "string \<Rightarrow> aride \<Rightarrow> candidate_status option" where
  "a_cand d a = map_of (a_cands a) d"

definition a_update_cands ::
  "(string \<Rightarrow> candidate_status \<Rightarrow> candidate_status) \<Rightarrow> aride \<Rightarrow> aride" where
  "a_update_cands f a = a\<lparr>a_cands := map (\<lambda>(d, x). (d, f d x)) (a_cands a)\<rparr>"

definition a_answer :: "string \<Rightarrow> candidate_status \<Rightarrow> aride \<Rightarrow> aride" where
  "a_answer d st = a_update_cands (\<lambda>d' x. if d' = d then st else x)"

definition a_transition :: "ride_status list \<Rightarrow> ride_status \<Rightarrow> aride \<Rightarrow> aride" where
  "a_transition allowed next a =
     (if a_status a \<in> set allowed \<and> a_status a \<noteq> next
      then a\<lparr>a_status := next, a_trail := a_trail a @ [(Some (a_status a), next)]\<rparr>
      else a)"

abbreviation closed :: "aride \<Rightarrow> bool" where
  "closed a \<equiv> a_status a = COMPLETED \<or> a_status a = CANCELED"

section \<open>The moves\<close>

definition spec_create :: "string \<Rightarrow> string list \<Rightarrow> aride" where
  "spec_create rider drivers =
     \<lparr>a_rider = rider, a_driver = None, a_status = CANDIDATES_COMPUTED,
      a_cands = map (\<lambda>d. (d, INVITED)) drivers,
      a_trail = [(None, REQUESTED), (Some REQUESTED, CANDIDATES_COMPUTED)]\<rparr>"

definition spec_accept :: "string \<Rightarrow> aride \<Rightarrow> aride" where
  "spec_accept d a =
     (if closed a then a
      else case a_cand d a of
        None \<Rightarrow> a
      | Some st \<Rightarrow>
          if st = CCanceled \<or> st = DECLINED \<or> st = CONFIRMED \<or>
             (st = CAccepted \<and> a_driver a = Some d \<and> (a_status a = ACCEPTED \<or> a_status a = ENROUTE))
          then a
          else if a_driver a \<noteq> None \<and> a_driver a \<noteq> Some d then a_answer d CCanceled a
          else a_transition [ASSIGNED, CANDIDATES_COMPUTED] ACCEPTED
                 (a_transition [REQUESTED, CANDIDATES_COMPUTED] ASSIGNED
                   (a_answer d CAccepted (a\<lparr>a_driver := Some d\<rparr>))))"

definition spec_decline :: "string \<Rightarrow> aride \<Rightarrow> aride" where
  "spec_decline d a =
     (if closed a \<or> a_status a = ENROUTE then a
      else case a_cand d a of
        None \<Rightarrow> a
      | Some st \<Rightarrow>
          if st = CCanceled \<or> st = DECLINED then a
          else if a_driver a = Some d
          then a_transition [ACCEPTED, ASSIGNED] CANDIDATES_COMPUTED
                 ((a_answer d DECLINED a)\<lparr>a_driver := None\<rparr>)
          else a_answer d DECLINED a)"

definition confirm_status :: "string \<Rightarrow> string \<Rightarrow> candidate_status \<Rightarrow> candidate_status" where
  "confirm_status d d' x =
     (if d' = d then CONFIRMED else if x = INVITED \<or> x = CAccepted then CCanceled else x)"

definition spec_confirm :: "string \<Rightarrow> aride \<Rightarrow> aride" where
  "spec_confirm rider a =
     (if a_rider a \<noteq> rider \<or> closed a \<or> a_status a \<in> {ASSIGNED, REQUESTED, ENROUTE} then a
      else case a_driver a of
        None \<Rightarrow> a
      | Some d \<Rightarrow>
          if a_cand d a = Some CAccepted
          then a_update_cands (confirm_status d) (a_transition [ACCEPTED] ENROUTE a)
          else a)"

definition spec_turn_down :: "string \<Rightarrow> aride \<Rightarrow> aride" where
  "spec_turn_down rider a =
     (if a_rider a \<noteq> rider \<or> closed a \<or> a_status a \<in> {ASSIGNED, REQUESTED, ENROUTE} then a
      else case a_driver a of
        None \<Rightarrow> a
      | Some d \<Rightarrow>
          if a_cand d a = None then a
          else a_transition [ACCEPTED, ASSIGNED] CANDIDATES_COMPUTED
                 ((a_answer d CCanceled a)\<lparr>a_driver := None\<rparr>))"

definition spec_cancel :: "string \<Rightarrow> aride \<Rightarrow> aride" where
  "spec_cancel rider a =
     (if a_rider a \<noteq> rider \<or> closed a then a
      else a_update_cands (\<lambda>_ _. CCanceled)
             (a_transition [REQUESTED, CANDIDATES_COMPUTED, ASSIGNED, ACCEPTED, ENROUTE] CANCELED a))"

definition spec_start :: "string \<Rightarrow> aride \<Rightarrow> aride" where
  "spec_start d a =
     (if a_driver a = Some d then a_transition [ENROUTE, TRIP_STARTED] TRIP_STARTED a else a)"

definition spec_complete :: "string \<Rightarrow> aride \<Rightarrow> aride" where
  "spec_complete d a =
     (if a_driver a = Some d
      then a_transition [ENROUTE, ACCEPTED, ASSIGNED, TRIP_STARTED] COMPLETED a else a)"

section \<open>The refusals\<close>

text \<open>
  What each request answers instead of a ride, from the state of the ride (\<open>None\<close>: there is
  no such ride); \<open>None\<close> when the request is not refused.
\<close>

fun accept_refusal :: "string \<Rightarrow> aride option \<Rightarrow> exn option" where
  "accept_refusal d None = Some (NotFound ''Ride not found'')"
| "accept_refusal d (Some a) =
     (if a_status a = CANCELED then Some (BadRequest ''Cancelled ride cannot be accepted'')
      else if a_status a = COMPLETED then Some (BadRequest ''Completed ride cannot be accepted'')
      else case a_cand d a of
          None \<Rightarrow> Some (NotFound ''Ride not available for this driver'')
        | Some st \<Rightarrow>
            if st = CCanceled then Some (Conflict ''Ride invitation is no longer active'')
            else if st = DECLINED then Some (BadRequest ''Ride already declined by driver'')
            else if st = CONFIRMED then None
            else if a_driver a \<noteq> None \<and> a_driver a \<noteq> Some d
            then Some (Conflict ''Ride already accepted by another driver'')
            else None)"

fun decline_refusal :: "string \<Rightarrow> aride option \<Rightarrow> exn option" where
  "decline_refusal d None = Some (NotFound ''Ride not found'')"
| "decline_refusal d (Some a) =
     (if a_status a = CANCELED then None
      else if a_status a = COMPLETED then Some (BadRequest ''Completed ride cannot be declined'')
      else if a_status a = ENROUTE then Some (BadRequest ''Ride already in progress'')
      else if a_cand d a = None then Some (NotFound ''Ride not available for this driver'')
      else None)"

fun confirm_refusal :: "string \<Rightarrow> aride option \<Rightarrow> exn option" where
  "confirm_refusal rider None = Some (NotFound ''Ride not found'')"
| "confirm_refusal rider (Some a) =
     (if a_rider a \<noteq> rider then Some (NotFound ''Ride not found'')
      else case a_driver a of
        None \<Rightarrow> Some (BadRequest ''Ride does not have an assigned driver'')
      | Some d \<Rightarrow>
          if a_status a = CANCELED then Some (BadRequest ''Cancelled ride cannot be confirmed'')
          else if a_status a = COMPLETED then None
          else if a_status a = ASSIGNED \<or> a_status a = REQUESTED
          then Some (BadRequest ''Driver has not accepted this ride yet'')
          else if a_status a = ENROUTE then None
          else case a_cand d a of
              None \<Rightarrow> Some (Conflict ''Selected driver is no longer available'')
            | Some st \<Rightarrow>
                if st \<noteq> CAccepted then Some (BadRequest ''Driver has not confirmed availability'')
                else None)"

fun turn_down_refusal :: "string \<Rightarrow> aride option \<Rightarrow> exn option" where
  "turn_down_refusal rider None = Some (NotFound ''Ride not found'')"
| "turn_down_refusal rider (Some a) =
     (if a_rider a \<noteq> rider then Some (NotFound ''Ride not found'')
      else case a_driver a of
        None \<Rightarrow> Some (BadRequest ''Ride does not have an assigned driver'')
      | Some d \<Rightarrow>
          if a_status a = CANCELED then None
          else if a_status a = COMPLETED then Some (BadRequest ''Completed ride cannot be rejected'')
          else if a_status a = ENROUTE then Some (BadRequest ''Ride already in progress'')
          else if a_status a = ASSIGNED \<or> a_status a = REQUESTED
          then Some (BadRequest ''Driver has not accepted this ride yet'')
          else if a_cand d a = None
          then Some (Conflict ''Driver invitation is no longer active'')
          else None)"

fun cancel_refusal :: "string \<Rightarrow> aride option \<Rightarrow> exn option" where
  "cancel_refusal rider None = Some (NotFound ''Ride not found'')"
| "cancel_refusal rider (Some a) =
     (if a_rider a \<noteq> rider then Some (NotFound ''Ride not found'')
      else if a_status a = COMPLETED then Some (BadRequest ''Completed ride cannot be cancelled'')
      else None)"

section \<open>The lives of a ride\<close>

inductive protocol :: "aride \<Rightarrow> aride \<Rightarrow> bool" where
  p_accept: "d \<noteq> [] \<Longrightarrow> protocol a (spec_accept d a)"
| p_decline: "protocol a (spec_decline d a)"
| p_confirm: "protocol a (spec_confirm r a)"
| p_turn_down: "protocol a (spec_turn_down r a)"
| p_cancel: "protocol a (spec_cancel r a)"
| p_start: "protocol a (spec_start d a)"
| p_complete: "protocol a (spec_complete d a)"

inductive life :: "aride \<Rightarrow> bool" where
  l_create: "distinct ds \<Longrightarrow> [] \<notin> set ds \<Longrightarrow> life (spec_create r ds)"
| l_step: "life a \<Longrightarrow> protocol a b \<Longrightarrow> life b"

section \<open>Invariants\<close>

text \<open>The status changes a trail may contain.\<close>

fun edge :: "ride_status \<Rightarrow> ride_status \<Rightarrow> bool" where
  "edge REQUESTED y = (y = CANDIDATES_COMPUTED)"
| "edge CANDIDATES_COMPUTED y = (y \<in> {ASSIGNED, CANCELED})"
| "edge ASSIGNED y = (y = ACCEPTED)"
| "edge ACCEPTED y = (y \<in> {CANDIDATES_COMPUTED, ENROUTE, COMPLETED, CANCELED})"
| "edge ENROUTE y = (y \<in> {TRIP_STARTED, COMPLETED, CANCELED})"
| "edge TRIP_STARTED y = (y = COMPLETED)"
| "edge _ y = False"

text \<open>
  A trail is a chain: it starts with \<open>None \<rightarrow> REQUESTED\<close>, each change starts where the
  one before it ended, and every later change is an edge.
\<close>

fun chain :: "ride_status \<Rightarrow> (ride_status option \<times> ride_status) list \<Rightarrow> ride_status \<Rightarrow> bool" where
  "chain x [] z \<longleftrightarrow> x = z"
| "chain x ((f, y) # t) z \<longleftrightarrow> f = Some x \<and> edge x y \<and> chain y t z"

fun trail_ok :: "(ride_status option \<times> ride_status) list \<Rightarrow> ride_status \<Rightarrow> bool" where
  "trail_ok ((None, REQUESTED) # t) z = chain REQUESTED t z"
| "trail_ok _ z = False"

lemma chain_append: "chain x (t @ u) z \<longleftrightarrow> (\<exists>y. chain x t y \<and> chain y u z)"
  by (induction t arbitrary: x) auto

lemma trail_ok_extend: "trail_ok t x \<Longrightarrow> edge x y \<Longrightarrow> trail_ok (t @ [(Some x, y)]) y"
  by (induction t x rule: trail_ok.induct) (auto simp: chain_append)

definition resting :: "ride_status \<Rightarrow> bool" where
  "resting st \<longleftrightarrow> st \<in> {CANDIDATES_COMPUTED, ACCEPTED, ENROUTE, TRIP_STARTED, COMPLETED, CANCELED}"

definition life_inv :: "aride \<Rightarrow> bool" where
  "life_inv a \<longleftrightarrow>
     resting (a_status a) \<and> trail_ok (a_trail a) (a_status a) \<and>
     distinct (map fst (a_cands a)) \<and> [] \<notin> fst ` set (a_cands a) \<and> a_driver a \<noteq> Some [] \<and>
     (a_status a = CANDIDATES_COMPUTED \<longrightarrow> a_driver a = None) \<and>
     (a_status a \<in> {ACCEPTED, ENROUTE, COMPLETED} \<longrightarrow> a_driver a \<noteq> None) \<and>
     (\<forall>d st. (d, st) \<in> set (a_cands a) \<longrightarrow> st = CAccepted \<or> st = CONFIRMED \<longrightarrow> a_driver a = Some d) \<and>
     (\<forall>d. a_status a = ACCEPTED \<longrightarrow> a_driver a = Some d \<longrightarrow> a_cand d a = Some CAccepted) \<and>
     (\<forall>d. a_status a = ENROUTE \<longrightarrow> a_driver a = Some d \<longrightarrow> a_cand d a = Some CONFIRMED)"

lemma a_update_simps [simp]:
  "a_rider (a_update_cands f a) = a_rider a" "a_driver (a_update_cands f a) = a_driver a"
  "a_status (a_update_cands f a) = a_status a" "a_trail (a_update_cands f a) = a_trail a"
  "map fst (a_cands (a_update_cands f a)) = map fst (a_cands a)"
  "fst ` set (a_cands (a_update_cands f a)) = fst ` set (a_cands a)"
  by (force simp: a_update_cands_def)+

lemma a_answer_simps [simp]:
  "a_rider (a_answer d st a) = a_rider a" "a_driver (a_answer d st a) = a_driver a"
  "a_status (a_answer d st a) = a_status a" "a_trail (a_answer d st a) = a_trail a"
  "map fst (a_cands (a_answer d st a)) = map fst (a_cands a)"
  "fst ` set (a_cands (a_answer d st a)) = fst ` set (a_cands a)"
  by (simp_all add: a_answer_def)

lemma a_transition_simps [simp]:
  "a_rider (a_transition al nx a) = a_rider a" "a_driver (a_transition al nx a) = a_driver a"
  "a_cands (a_transition al nx a) = a_cands a" "a_cand d (a_transition al nx a) = a_cand d a"
  by (simp_all add: a_transition_def a_cand_def)

lemma a_transition_status:
  "a_status (a_transition al nx a) = (if a_status a \<in> set al then nx else a_status a)"
  by (simp add: a_transition_def)

lemma a_cand_update: "a_cand d (a_update_cands f a) = map_option (f d) (a_cand d a)"
proof -
  have "map_of (map (\<lambda>(d, x). (d, f d x)) xs) d = map_option (f d) (map_of xs d)" for xs
    by (induction xs) auto
  then show ?thesis by (simp add: a_cand_def a_update_cands_def)
qed

lemma in_update_cands:
  "(d, y) \<in> set (a_cands (a_update_cands f a)) \<longleftrightarrow> (\<exists>x. (d, x) \<in> set (a_cands a) \<and> y = f d x)"
  by (force simp: a_update_cands_def)

lemma a_cand_other [simp]:
  "a_cand d (a\<lparr>a_driver := v\<rparr>) = a_cand d a"
  "a_cand d (a\<lparr>a_status := x\<rparr>) = a_cand d a"
  "a_cand d (a\<lparr>a_trail := t\<rparr>) = a_cand d a"
  by (simp_all add: a_cand_def)

lemma update_driver_comm [simp]:
  "a_update_cands f (a\<lparr>a_driver := v\<rparr>) = (a_update_cands f a)\<lparr>a_driver := v\<rparr>"
  by (simp add: a_update_cands_def)

lemma trail_ok_extend2:
  "trail_ok t x \<Longrightarrow> edge x y \<Longrightarrow> edge y z \<Longrightarrow> trail_ok (t @ [(Some x, y), (Some y, z)]) z"
  using trail_ok_extend [OF trail_ok_extend [of t x y]] by simp

lemmas protocol_simps = a_transition_def a_answer_def a_cand_update in_update_cands resting_def
  trail_ok_extend trail_ok_extend2

lemma a_cand_in: "a_cand d a = Some st \<Longrightarrow> (d, st) \<in> set (a_cands a)"
  by (simp add: a_cand_def map_of_SomeD)

lemma in_a_cand: "distinct (map fst (a_cands a)) \<Longrightarrow> (d, st) \<in> set (a_cands a) \<Longrightarrow> a_cand d a = Some st"
  by (simp add: a_cand_def)

lemma inv_create: "distinct ds \<Longrightarrow> [] \<notin> set ds \<Longrightarrow> life_inv (spec_create r ds)"
  by (auto simp: life_inv_def spec_create_def resting_def comp_def)

lemma inv_other_answer:
  assumes "life_inv a" and "a_driver a \<noteq> Some d" and "st \<noteq> CAccepted" and "st \<noteq> CONFIRMED"
  shows "life_inv (a_answer d st a)"
  using assms by (auto simp: life_inv_def a_answer_def a_cand_update in_update_cands)

lemma life_inv_taker:
  "life_inv a \<Longrightarrow> (d, st) \<in> set (a_cands a) \<Longrightarrow> st = CAccepted \<or> st = CONFIRMED \<Longrightarrow>
     a_driver a = Some d"
  unfolding life_inv_def by blast

lemma only_taker:
  assumes "life_inv a" and "a_driver a = None \<or> a_driver a = Some d"
    and "(d', x) \<in> set (a_cands (a_answer d CAccepted a))" and "x = CAccepted \<or> x = CONFIRMED"
  shows "d' = d"
proof (rule ccontr)
  assume "d' \<noteq> d"
  then have "(d', x) \<in> set (a_cands a)" using assms(3) by (auto simp: a_answer_def in_update_cands)
  then have "a_driver a = Some d'" using life_inv_taker [OF assms(1)] assms(4) by blast
  then show False using assms(2) \<open>d' \<noteq> d\<close> by simp
qed

lemma inv_taken:
  assumes "life_inv a" and "a_status a = CANDIDATES_COMPUTED" and "a_cand d a = Some st" and "d \<noteq> []"
  shows "life_inv (a\<lparr>a_driver := Some d, a_status := ACCEPTED,
      a_cands := a_cands (a_answer d CAccepted a),
      a_trail := a_trail a @ [(Some CANDIDATES_COMPUTED, ASSIGNED), (Some ASSIGNED, ACCEPTED)]\<rparr>)"
    (is "life_inv ?b")
proof -
  have new: "a_cand d ?b = Some CAccepted"
    using assms(3) a_cand_update [of d "\<lambda>d' x. if d' = d then CAccepted else x" a]
    by (simp add: a_cand_def a_answer_def)
  have "a_driver a = None" using assms(1,2) by (simp add: life_inv_def)
  then have taken: "d' = d" if "(d', x) \<in> set (a_cands (a_answer d CAccepted a))"
      "x = CAccepted \<or> x = CONFIRMED" for d' x
    using only_taker [OF assms(1)] that by blast
  have "trail_ok (a_trail a) CANDIDATES_COMPUTED" using assms(1,2) by (simp add: life_inv_def)
  then have "trail_ok (a_trail ?b) ACCEPTED" by (simp add: trail_ok_extend2)
  then show ?thesis
    using assms(1,4) new taken unfolding life_inv_def by (simp add: resting_def) blast
qed

lemma inv_retaken:
  assumes "life_inv a" and "a_status a = TRIP_STARTED" and "a_driver a = None \<or> a_driver a = Some d"
    and "d \<noteq> []"
  shows "life_inv ((a_answer d CAccepted a)\<lparr>a_driver := Some d\<rparr>)"
proof -
  have taken: "d' = d" if "(d', x) \<in> set (a_cands (a_answer d CAccepted a))"
      "x = CAccepted \<or> x = CONFIRMED" for d' x
    using only_taker [OF assms(1,3)] that by blast
  show ?thesis
    using assms(1,2,4) taken unfolding life_inv_def by (simp add: resting_def) blast
qed

lemma inv_accept:
  assumes inv: "life_inv a" and d: "d \<noteq> []"
  shows "life_inv (spec_accept d a)"
proof (cases "closed a \<or> spec_accept d a = a \<or> (a_driver a \<noteq> None \<and> a_driver a \<noteq> Some d)")
  case True
  then show ?thesis
    using inv inv_other_answer [OF inv, of d CCanceled]
    by (auto simp: spec_accept_def split: option.splits if_splits)
next
  case False
  then obtain st where st: "a_cand d a = Some st"
    by (auto simp: spec_accept_def split: option.splits)
  have "a_status a = CANDIDATES_COMPUTED \<or> a_status a = TRIP_STARTED"
    using inv False st by (auto simp: life_inv_def resting_def spec_accept_def)
  then show ?thesis
  proof
    assume cc: "a_status a = CANDIDATES_COMPUTED"
    then have "a_driver a = None" using inv by (simp add: life_inv_def)
    then have "spec_accept d a = a\<lparr>a_driver := Some d, a_status := ACCEPTED,
      a_cands := a_cands (a_answer d CAccepted a),
      a_trail := a_trail a @ [(Some CANDIDATES_COMPUTED, ASSIGNED), (Some ASSIGNED, ACCEPTED)]\<rparr>"
      using False st cc
      by (auto simp: spec_accept_def a_transition_def a_answer_def a_update_cands_def split: if_splits)
    then show ?thesis using inv_taken [OF inv cc st d] by simp
  next
    assume ts: "a_status a = TRIP_STARTED"
    then have "spec_accept d a = (a_answer d CAccepted a)\<lparr>a_driver := Some d\<rparr>"
      using False st by (auto simp: spec_accept_def a_transition_def a_answer_def split: if_splits)
    then show ?thesis using inv_retaken [OF inv ts _ d] False by auto
  qed
qed

lemma inv_decline: "life_inv a \<Longrightarrow> life_inv (spec_decline d a)"
proof (cases "a_cand d a")
  case None
  then show "life_inv a \<Longrightarrow> ?thesis" by (simp add: spec_decline_def)
next
  case (Some st)
  then show "life_inv a \<Longrightarrow> ?thesis"
    by (cases "a_status a"; cases "a_driver a")
      (auto simp: life_inv_def spec_decline_def protocol_simps split: if_splits)
qed

lemma inv_confirm: "life_inv a \<Longrightarrow> life_inv (spec_confirm r a)"
  by (cases "a_status a"; cases "a_driver a")
    (auto simp: life_inv_def spec_confirm_def confirm_status_def protocol_simps split: if_splits)

lemma inv_turn_down: "life_inv a \<Longrightarrow> life_inv (spec_turn_down r a)"
  by (cases "a_status a"; cases "a_driver a")
    (auto simp: life_inv_def spec_turn_down_def protocol_simps split: if_splits)

lemma inv_cancel: "life_inv a \<Longrightarrow> life_inv (spec_cancel r a)"
  by (cases "a_status a"; cases "a_driver a")
    (auto simp: life_inv_def spec_cancel_def protocol_simps split: if_splits)

lemma inv_start: "life_inv a \<Longrightarrow> life_inv (spec_start d a)"
  by (cases "a_status a"; cases "a_driver a")
    (auto simp: life_inv_def spec_start_def protocol_simps split: if_splits)

lemma inv_complete: "life_inv a \<Longrightarrow> life_inv (spec_complete d a)"
  by (cases "a_status a"; cases "a_driver a")
    (auto simp: life_inv_def spec_complete_def protocol_simps split: if_splits)

lemma protocol_inv: "protocol a b \<Longrightarrow> life_inv a \<Longrightarrow> life_inv b"
  by (induction rule: protocol.induct)
    (simp_all add: inv_accept inv_decline inv_confirm inv_turn_down inv_cancel inv_start inv_complete)

lemma life_life_inv: "life a \<Longrightarrow> life_inv a"
  by (induction rule: life.induct) (auto intro: inv_create protocol_inv)

lemma protocol_closed: "protocol a b \<Longrightarrow> closed a \<Longrightarrow> b = a"
  by (induction rule: protocol.induct)
    (auto simp: spec_accept_def spec_decline_def spec_confirm_def spec_turn_down_def
      spec_cancel_def spec_start_def spec_complete_def a_transition_def)

lemma protocol_rider: "protocol a b \<Longrightarrow> a_rider b = a_rider a"
  by (induction rule: protocol.induct)
    (auto simp: spec_accept_def spec_decline_def spec_confirm_def spec_turn_down_def
      spec_cancel_def spec_start_def spec_complete_def split: option.splits)

text \<open>The trail only grows.\<close>

lemma protocol_trail: "protocol a b \<Longrightarrow> \<exists>t. a_trail b = a_trail a @ t"
  by (induction rule: protocol.induct)
    (auto simp: spec_accept_def spec_decline_def spec_confirm_def spec_turn_down_def
      spec_cancel_def spec_start_def spec_complete_def a_transition_def split: option.splits)

end
