(* ===== verification/Ride_Refinement.thy ===== *)
theory Ride_Refinement
  imports Rides_Management Ride_Protocol
begin

text \<open>
  The ride services implement the protocol: \<open>abs_ride k s\<close> is the protocol state of ride
  \<open>k\<close> in the world \<open>s\<close>, and every operation moves it as its specification says and
  leaves every other ride as it is. The section before the operations composes such
  moves, so that an operation is the composition of the moves of the methods it calls.
\<close>

section \<open>The protocol state of a ride in the world\<close>

definition abs_ride :: "string \<Rightarrow> world \<Rightarrow> aride option" where
  "abs_ride k s =
     map_option (\<lambda>r. \<lparr>a_rider = riderId r, a_driver = driverId r, a_status = status r,
       a_cands = map (\<lambda>c. (cand_driverId c, cand_status c)) (candidatesOfRide k (candidates s)),
       a_trail = map (\<lambda>h. (fromStatus h, toStatus h))
         (filter (\<lambda>h. hist_rideId h = k) (history s))\<rparr>)
     (row_find ride_id k (rides s))"

text \<open>
  What the tables satisfy in every world the services produce: serial identifiers that are
  below their counter and not reused, candidates and history of existing rides only, and at
  most one invitation of a driver to a ride.
\<close>

definition issued :: "nat \<Rightarrow> string \<Rightarrow> bool" where
  "issued n k \<longleftrightarrow> (\<exists>i. i < n \<and> k = show_nat i)"

definition wf_world :: "world \<Rightarrow> bool" where
  "wf_world s \<longleftrightarrow>
     distinct (map ride_id (rides s)) \<and>
     (\<forall>r \<in> set (rides s). issued (rideSeq s) (ride_id r) \<and> driverId r \<noteq> Some []) \<and>
     distinct (map cand_id (candidates s)) \<and>
     distinct (map (\<lambda>c. (cand_rideId c, cand_driverId c)) (candidates s)) \<and>
     (\<forall>c \<in> set (candidates s). issued (candidateSeq s) (cand_id c) \<and>
        issued (rideSeq s) (cand_rideId c) \<and> cand_driverId c \<noteq> []) \<and>
     (\<forall>h \<in> set (history s). issued (rideSeq s) (hist_rideId h))"

lemma issued_nonempty: "issued n k \<Longrightarrow> k \<noteq> []"
  by (auto simp: issued_def)

lemma issued_Suc: "issued n k \<Longrightarrow> issued (Suc n) k"
  by (auto simp: issued_def intro: less_SucI)

lemma issued_mono: "issued m k \<Longrightarrow> m \<le> n \<Longrightarrow> issued n k"
  by (auto simp: issued_def intro: less_le_trans)

lemma issued_fresh: "\<not> issued n (show_nat n)"
  by (auto simp: issued_def)

lemma issued_next: "issued (Suc n) (show_nat n)"
  by (auto simp: issued_def)

lemma wf_ride:
  assumes "wf_world s" and "row_find ride_id k (rides s) = Some r"
  shows "ride_id r = k \<and> k \<noteq> [] \<and> driverId r \<noteq> Some [] \<and> issued (rideSeq s) k"
  using assms issued_nonempty by (auto simp: wf_world_def dest!: row_find_SomeD)

lemma truthy_driver:
  "wf_world s \<Longrightarrow> row_find ride_id k (rides s) = Some r \<Longrightarrow> truthy (driverId r) \<longleftrightarrow> driverId r \<noteq> None"
  using wf_ride by (auto simp: truthy_def)

section \<open>Moves\<close>

text \<open>
  \<open>move k f s s'\<close>: from \<open>s\<close> to \<open>s'\<close> the protocol state of ride \<open>k\<close> changed by \<open>f\<close>, no
  other ride changed, and the tables are still well-formed.
\<close>

definition move :: "string \<Rightarrow> (aride \<Rightarrow> aride) \<Rightarrow> world \<Rightarrow> world \<Rightarrow> bool" where
  "move k f s s' \<longleftrightarrow> wf_world s' \<and>
     (\<forall>j. abs_ride j s' = (if j = k then map_option f (abs_ride j s) else abs_ride j s))"

lemma move_wf: "move k f s s' \<Longrightarrow> wf_world s'"
  by (simp add: move_def)

lemma move_abs: "move k f s s' \<Longrightarrow> abs_ride k s' = map_option f (abs_ride k s)"
  by (simp add: move_def)

lemma move_other: "move k f s s' \<Longrightarrow> j \<noteq> k \<Longrightarrow> abs_ride j s' = abs_ride j s"
  by (simp add: move_def)

lemma move_trans: "move k f s t \<Longrightarrow> move k g t u \<Longrightarrow> move k (g \<circ> f) s u"
  by (auto simp: move_def option.map_comp)

lemma move_id: "wf_world s \<Longrightarrow> move k (\<lambda>a. a) s s"
  by (simp add: move_def option.map_ident)

lemma move_eq:
  assumes "move k f s s'" and "\<And>a. abs_ride k s = Some a \<Longrightarrow> f a = g a"
  shows "move k g s s'"
  using assms by (cases "abs_ride k s") (auto simp: move_def)

text \<open>The parts of the world the protocol state does not depend on.\<close>

definition same_rides :: "world \<Rightarrow> world \<Rightarrow> bool" where
  "same_rides s s' \<longleftrightarrow> rides s' = rides s \<and> rideSeq s' = rideSeq s \<and>
     candidates s' = candidates s \<and> candidateSeq s' = candidateSeq s \<and> history s' = history s"

lemma same_rides_abs: "same_rides s s' \<Longrightarrow> abs_ride k s' = abs_ride k s"
  by (simp add: same_rides_def abs_ride_def)

lemma same_rides_wf: "same_rides s s' \<Longrightarrow> wf_world s' = wf_world s"
  by (simp add: same_rides_def wf_world_def)

lemma move_same: "wf_world s \<Longrightarrow> same_rides s s' \<Longrightarrow> move k (\<lambda>a. a) s s'"
  by (simp add: move_def same_rides_abs same_rides_wf option.map_ident)

lemma move_then_same: "move k f s s' \<Longrightarrow> same_rides s' s'' \<Longrightarrow> move k f s s''"
  by (auto simp: move_def same_rides_abs same_rides_wf)

lemma same_then_move: "same_rides s s' \<Longrightarrow> move k f s' s'' \<Longrightarrow> move k f s s''"
  by (auto simp: move_def same_rides_abs)

subsection \<open>Replacing the row of a ride\<close>

lemma wf_put_ride:
  assumes "wf_world s" and "row_find ride_id (ride_id r') (rides s) = Some r" and "driverId r' \<noteq> Some []"
  shows "wf_world (s\<lparr>rides := row_put ride_id r' (rides s)\<rparr>)"
proof -
  have "issued (rideSeq s) (ride_id x) \<and> driverId x \<noteq> Some []"
    if "x \<in> set (row_put ride_id r' (rides s))" for x
    using in_row_put [OF that] assms(1,3) wf_ride [OF assms(1,2)] by (auto simp: wf_world_def)
  then show ?thesis using assms(1) by (simp add: wf_world_def)
qed

lemma move_put_ride:
  assumes "wf_world s" and "row_find ride_id k (rides s) = Some r"
    and "ride_id r' = k" "driverId r' \<noteq> Some []" "riderId r' = riderId r"
  shows "move k (\<lambda>a. a\<lparr>a_driver := driverId r', a_status := status r'\<rparr>) s
    (s\<lparr>rides := row_put ride_id r' (rides s)\<rparr>)"
  using assms wf_put_ride [OF assms(1), of r' r]
  by (auto simp: move_def abs_ride_def row_find_put)

subsection \<open>Adding to the history\<close>

lemma move_history:
  assumes "wf_world s" and "issued (rideSeq s) k" and "hist_rideId h = k"
  shows "move k (\<lambda>a. a\<lparr>a_trail := a_trail a @ [(fromStatus h, toStatus h)]\<rparr>) s
    (s\<lparr>history := history s @ [h], historySeq := n\<rparr>)"
  using assms by (auto simp: move_def abs_ride_def wf_world_def option.map_comp comp_def)

subsection \<open>Replacing the rows of candidates\<close>

lemma inj_by_pair:
  "wf_world s \<Longrightarrow> c \<in> set (candidates s) \<Longrightarrow> c' \<in> set (candidates s) \<Longrightarrow>
     cand_rideId c = cand_rideId c' \<Longrightarrow> cand_driverId c = cand_driverId c' \<Longrightarrow> c = c'"
  by (auto simp: wf_world_def distinct_map inj_on_def)

lemma inj_by_id:
  "wf_world s \<Longrightarrow> c \<in> set (candidates s) \<Longrightarrow> c' \<in> set (candidates s) \<Longrightarrow> cand_id c = cand_id c' \<Longrightarrow> c = c'"
  by (auto simp: wf_world_def distinct_map inj_on_def)

lemma move_map_candidates:
  assumes wf: "wf_world s"
    and keep: "\<And>c. c \<in> set (candidates s) \<Longrightarrow>
      cand_id (u c) = cand_id c \<and> cand_rideId (u c) = cand_rideId c \<and> cand_driverId (u c) = cand_driverId c"
    and upd: "\<And>c. c \<in> set (candidates s) \<Longrightarrow> cand_status (u c) =
      (if cand_rideId c = k then f (cand_driverId c) (cand_status c) else cand_status c)"
  shows "move k (a_update_cands f) s (s\<lparr>candidates := map u (candidates s)\<rparr>)"
proof -
  have "map cand_id (map u (candidates s)) = map cand_id (candidates s)"
    "map (\<lambda>c. (cand_rideId c, cand_driverId c)) (map u (candidates s)) =
     map (\<lambda>c. (cand_rideId c, cand_driverId c)) (candidates s)"
    using keep by simp_all
  then have "distinct (map cand_id (map u (candidates s)))"
    "distinct (map (\<lambda>c. (cand_rideId c, cand_driverId c)) (map u (candidates s)))"
    using wf unfolding wf_world_def by metis+
  then have "wf_world (s\<lparr>candidates := map u (candidates s)\<rparr>)"
    using wf keep by (simp add: wf_world_def)
  moreover have view: "map (\<lambda>c. (cand_driverId c, cand_status c)) (candidatesOfRide j (map u cs)) =
      map (\<lambda>(d, x). (d, if j = k then f d x else x))
        (map (\<lambda>c. (cand_driverId c, cand_status c)) (candidatesOfRide j cs))"
    if "set cs \<subseteq> set (candidates s)" for j cs
    using that by (induction cs) (auto simp: candidatesOfRide_def keep upd)
  have id: "map (\<lambda>(d, x). (d, x)) ys = ys" for ys :: "(string \<times> candidate_status) list"
    by (induction ys) auto
  ultimately show ?thesis
    by (auto simp: move_def abs_ride_def a_update_cands_def option.map_comp comp_def view id
        intro!: option.map_cong)
qed

lemma put_candidate_map:
  assumes "distinct (map cand_id cs)" and "c \<in> set cs" and "cand_id c' = cand_id c"
  shows "row_put cand_id c' cs = map (\<lambda>x. if x = c then c' else x) cs"
  unfolding row_put_def
proof (rule map_cong [OF refl])
  fix x assume "x \<in> set cs"
  then show "(if cand_id x = cand_id c' then c' else x) = (if x = c then c' else x)"
    using assms by (auto simp: distinct_map inj_on_def)
qed

lemma move_put_candidate:
  assumes wf: "wf_world s" and c: "c \<in> set (candidates s)"
    and c': "cand_id c' = cand_id c" "cand_rideId c' = cand_rideId c" "cand_driverId c' = cand_driverId c"
    and k: "cand_rideId c = k" "cand_driverId c = d"
  shows "move k (a_answer d (cand_status c')) s (s\<lparr>candidates := row_put cand_id c' (candidates s)\<rparr>)"
proof -
  have "distinct (map cand_id (candidates s))" using wf by (simp add: wf_world_def)
  then have "row_put cand_id c' (candidates s) = map (\<lambda>x. if x = c then c' else x) (candidates s)"
    using c c' by (simp add: put_candidate_map)
  moreover have "move k (a_update_cands (\<lambda>d' x. if d' = d then cand_status c' else x)) s
      (s\<lparr>candidates := map (\<lambda>x. if x = c then c' else x) (candidates s)\<rparr>)"
  proof (rule move_map_candidates [OF wf])
    fix x assume x: "x \<in> set (candidates s)"
    show "cand_id (if x = c then c' else x) = cand_id x \<and>
        cand_rideId (if x = c then c' else x) = cand_rideId x \<and>
        cand_driverId (if x = c then c' else x) = cand_driverId x"
      using c' by simp
    show "cand_status (if x = c then c' else x) =
        (if cand_rideId x = k then if cand_driverId x = d then cand_status c' else cand_status x
         else cand_status x)"
    proof (cases "x = c")
      case True
      then show ?thesis using k by simp
    next
      case False
      then have "\<not> (cand_rideId x = k \<and> cand_driverId x = d)"
        using inj_by_pair [OF wf x c] k by auto
      then show ?thesis using False by simp
    qed
  qed
  ultimately show ?thesis by (simp add: a_answer_def)
qed

section \<open>The moves of the methods\<close>

lemma abs_ride_row:
  "row_find ride_id k (rides s) = Some r \<Longrightarrow> \<exists>a. abs_ride k s = Some a \<and> a_status a = status r \<and>
     a_driver a = driverId r \<and> a_rider a = riderId r"
  by (simp add: abs_ride_def)

lemma abs_ride_fields:
  "abs_ride k s = Some a \<Longrightarrow> row_find ride_id k (rides s) = Some r \<Longrightarrow>
     a_status a = status r \<and> a_driver a = driverId r \<and> a_rider a = riderId r"
  by (auto simp: abs_ride_def)

lemma abs_ride_cand:
  assumes "abs_ride k s = Some a"
  shows "a_cand d a =
    map_option cand_status (List.find (\<lambda>c. cand_rideId c = k \<and> cand_driverId c = d) (candidates s))"
proof -
  have "map_of (map (\<lambda>c. (cand_driverId c, cand_status c)) (candidatesOfRide k cs)) d =
      map_option cand_status (List.find (\<lambda>c. cand_rideId c = k \<and> cand_driverId c = d) cs)" for cs
    by (induction cs) (auto simp: candidatesOfRide_def)
  then show ?thesis using assms by (auto simp: abs_ride_def a_cand_def)
qed

lemma abs_found:
  assumes "row_find ride_id k (rides s) = Some r"
  obtains a where "abs_ride k s = Some a" "a_status a = status r" "a_driver a = driverId r"
    "a_rider a = riderId r"
    "\<And>d. a_cand d a =
      map_option cand_status (List.find (\<lambda>c. cand_rideId c = k \<and> cand_driverId c = d) (candidates s))"
  using abs_ride_row [OF assms] abs_ride_cand by blast

lemma find_candidate:
  "List.find (\<lambda>c. cand_rideId c = k \<and> cand_driverId c = d) cs = Some c \<Longrightarrow>
     c \<in> set cs \<and> cand_rideId c = k \<and> cand_driverId c = d"
  by (induction cs) (auto split: if_splits)

lemma move_stay:
  "wf_world s \<Longrightarrow> (\<And>a. abs_ride k s = Some a \<Longrightarrow> f a = a) \<Longrightarrow> move k f s s"
  by (rule move_eq [OF move_id]) auto

lemma publish_same: "same_rides s (s\<lparr>published := p\<rparr>)"
  by (simp add: same_rides_def)

lemma updateRide_move:
  assumes wf: "wf_world s" and found: "row_find ride_id k (rides s) = Some c"
    and r: "ride_id r = k" "riderId r = riderId c" "driverId r \<noteq> Some []"
  shows "\<exists>s'. updateRide r s = (Inr (saved_ride (clock s) c r), s') \<and>
    move k (\<lambda>a. a\<lparr>a_driver := driverId r, a_status := status r\<rparr>) s s' \<and>
    row_find ride_id k (rides s') = Some (saved_ride (clock s) c r) \<and>
    candidates s' = candidates s \<and> clock s' = clock s"
proof -
  have k: "k \<noteq> []" "ride_id c = k" using wf_ride [OF wf found] by auto
  have run: "updateRide r s = (Inr (saved_ride (clock s) c r),
      s\<lparr>rides := row_put ride_id (saved_ride (clock s) c r) (rides s)\<rparr>)"
    using updateRide_run [of r s c] found r k by simp
  have "move k (\<lambda>a. a\<lparr>a_driver := driverId r, a_status := status r\<rparr>) s
      (s\<lparr>rides := row_put ride_id (saved_ride (clock s) c r) (rides s)\<rparr>)"
    using move_put_ride [OF wf found, of "saved_ride (clock s) c r"] r k by simp
  then show ?thesis using run found r k by (simp add: row_find_put)
qed

lemma transition_move:
  assumes wf: "wf_world s" and found: "row_find ride_id k (rides s) = Some r"
  shows "\<exists>r' s'. transitionRideStatus k al nx ctx s =
      (Inr (r', status r \<in> set al \<and> status r \<noteq> nx), s') \<and>
    move k (a_transition al nx) s s' \<and> row_find ride_id k (rides s') = Some r' \<and>
    status r' = (if status r \<in> set al then nx else status r) \<and> driverId r' = driverId r \<and>
    riderId r' = riderId r \<and> candidates s' = candidates s \<and> clock s' = clock s"
proof (cases "status r \<in> set al \<and> status r \<noteq> nx")
  case False
  have "move k (a_transition al nx) s s"
    using False abs_ride_fields [OF _ found] by (intro move_stay [OF wf]) (auto simp: a_transition_def)
  then show ?thesis
    using False found by (auto simp: transitionRideStatus_def eff_run)
next
  case True
  let ?r = "if truthy ctx \<and> nx = CANCELED then r\<lparr>status := nx, cancelReason := ctx\<rparr> else r\<lparr>status := nx\<rparr>"
  have r: "ride_id ?r = k" "riderId ?r = riderId r" "driverId ?r \<noteq> Some []" "status ?r = nx"
      "driverId ?r = driverId r" and k: "k \<noteq> []"
    using wf_ride [OF wf found] by auto
  obtain s1 where s1: "updateRide ?r s = (Inr (saved_ride (clock s) r ?r), s1)"
    and m1: "move k (\<lambda>a. a\<lparr>a_driver := driverId ?r, a_status := status ?r\<rparr>) s s1"
    and f1: "row_find ride_id k (rides s1) = Some (saved_ride (clock s) r ?r)"
    and c1: "candidates s1 = candidates s" "clock s1 = clock s"
    using updateRide_move [OF wf found r(1-3)] by blast
  let ?h = "\<lparr>hist_id = show_nat (historySeq s1), hist_rideId = k, fromStatus = Some (status r),
     toStatus = nx, hist_context = ctx, hist_createdAt = clock s1\<rparr>"
  let ?s = "s1\<lparr>history := history s1 @ [?h], historySeq := Suc (historySeq s1)\<rparr>"
  have "ride_id r = k" using wf_ride [OF wf found] by simp
  then have run: "transitionRideStatus k al nx ctx s = (Inr (saved_ride (clock s) r ?r, True), ?s)"
    using True found s1 k
    by (simp add: transitionRideStatus_def recordStatusChange_def eff_run Let_def)
  have "move k (\<lambda>a. a\<lparr>a_trail := a_trail a @ [(Some (status r), nx)]\<rparr>) s1 ?s"
    using move_history [OF move_wf [OF m1], of k ?h] wf_ride [OF move_wf [OF m1] f1] by simp
  then have "move k (a_transition al nx) s ?s"
    using abs_ride_fields [OF _ found] r True
    by (intro move_eq [OF move_trans [OF m1]]) (auto simp: a_transition_def)
  then show ?thesis using run f1 c1 True r by auto
qed

lemma saveCandidate_move:
  assumes wf: "wf_world s" and c: "c \<in> set (candidates s)"
  shows "\<exists>x s'. saveCandidate (with_response st why now c) None s = (Inr x, s') \<and>
    move (cand_rideId c) (a_answer (cand_driverId c) st) s s' \<and>
    rides s' = rides s \<and> clock s' = clock s"
proof -
  let ?c = "with_response st why now c"
  have keep: "cand_id ?c = cand_id c" "cand_rideId ?c = cand_rideId c" by (simp_all add: with_response_def)
  have "row_find cand_id (cand_id c) (candidates s) \<noteq> None"
    using c by (auto simp: row_find_None_iff)
  then obtain c0 where c0: "row_find cand_id (cand_id c) (candidates s) = Some c0" by auto
  then have "c0 = c" using inj_by_id [OF wf _ c] row_find_SomeD [OF c0] by auto
  moreover have "cand_id c \<noteq> []" "cand_rideId c \<noteq> []"
    using wf c issued_nonempty by (auto simp: wf_world_def)
  ultimately have "saveCandidate ?c None s = (Inr (saved_candidate (clock s) c ?c),
      s\<lparr>candidates := row_put cand_id (saved_candidate (clock s) c ?c) (candidates s)\<rparr>)"
    using saveCandidate_run [of ?c s c] c0 keep by simp
  moreover have "move (cand_rideId c) (a_answer (cand_driverId c) st) s
      (s\<lparr>candidates := row_put cand_id (saved_candidate (clock s) c ?c) (candidates s)\<rparr>)"
    using move_put_candidate [OF wf c _ _ _ refl refl, of "saved_candidate (clock s) c ?c"]
    by (simp add: saved_candidate_def with_response_def)
  ultimately show ?thesis by simp
qed

lemma claimDriver_move:
  assumes wf: "wf_world s" and found: "row_find ride_id k (rides s) = Some r"
    and free: "driverId r = None" and d: "d \<noteq> []"
  shows "\<exists>s'. claimDriver k d s = (Inr True, s') \<and> move k (\<lambda>a. a\<lparr>a_driver := Some d\<rparr>) s s' \<and>
    (\<exists>r'. row_find ride_id k (rides s') = Some r' \<and> status r' = status r) \<and>
    candidates s' = candidates s \<and> clock s' = clock s"
proof -
  let ?r = "r\<lparr>driverId := Some d, updatedAt := clock s\<rparr>"
  have k: "ride_id r = k" using wf_ride [OF wf found] by simp
  have "move k (\<lambda>a. a\<lparr>a_driver := driverId ?r, a_status := status ?r\<rparr>) s
      (s\<lparr>rides := row_put ride_id ?r (rides s)\<rparr>)"
    using k d by (intro move_put_ride [OF wf found]) auto
  then have "move k (\<lambda>a. a\<lparr>a_driver := Some d\<rparr>) s (s\<lparr>rides := row_put ride_id ?r (rides s)\<rparr>)"
    by (rule move_eq) (use abs_ride_fields [OF _ found] in auto)
  then show ?thesis using found free k by (simp add: claimDriver_run row_find_put)
qed

section \<open>The operations\<close>

text \<open>
  An operation implements a specification of ride \<open>k\<close>: it moves the ride as specified, and
  it answers with the specified refusal, or with the row the ride has afterwards.
\<close>

definition implements ::
  "ride weff \<Rightarrow> string \<Rightarrow> (aride \<Rightarrow> aride) \<Rightarrow> (aride option \<Rightarrow> exn option) \<Rightarrow> world \<Rightarrow> bool" where
  "implements m k f refusal s \<longleftrightarrow> move k f s (snd (m s)) \<and>
     (case refusal (abs_ride k s) of
        Some e \<Rightarrow> fst (m s) = Inl e
      | None \<Rightarrow> \<exists>r. fst (m s) = Inr r \<and> row_find ride_id k (rides (snd (m s))) = Some r)"

lemma implements_stay:
  assumes "wf_world s" and "snd (m s) = s" and "\<And>a. abs_ride k s = Some a \<Longrightarrow> f a = a"
    and "fst (m s) = (case refusal (abs_ride k s) of Some e \<Rightarrow> Inl e
           | None \<Rightarrow> Inr (the (row_find ride_id k (rides s))))"
    and "refusal (abs_ride k s) = None \<Longrightarrow> row_find ride_id k (rides s) \<noteq> None"
  shows "implements m k f refusal s"
  using assms by (auto simp: implements_def move_stay split: option.split)

text \<open>An operation that goes through and reads the ride back at the end.\<close>

lemma implements_go:
  assumes run: "m s = refresh k r0 s'" and "move k f s s'"
    and found: "row_find ride_id k (rides s) \<noteq> None" and "refusal (abs_ride k s) = None"
  shows "implements m k f refusal s"
proof -
  have "abs_ride k s \<noteq> None" using found by (simp add: abs_ride_def)
  then have "abs_ride k s' \<noteq> None" using move_abs [OF assms(2)] by simp
  then obtain r where "row_find ride_id k (rides s') = Some r" by (auto simp: abs_ride_def)
  then show ?thesis using assms by (simp add: implements_def run_refresh)
qed

lemma implements_refused:
  assumes "m s = (Inl e, s')" and "move k f s s'" and "refusal (abs_ride k s) = Some e"
  shows "implements m k f refusal s"
  using assms by (simp add: implements_def)

lemma no_ride_abs: "row_find ride_id k (rides s) = None \<Longrightarrow> abs_ride k s = None"
  by (simp add: abs_ride_def)

lemma superseded_move:
  assumes wf: "wf_world s" and c: "c \<in> set (candidates s)"
  shows "\<exists>s'. markCandidateSuperseded c now r s = (Inr (), s') \<and>
    move (cand_rideId c) (a_answer (cand_driverId c) CCanceled) s s'"
proof -
  let ?c = "with_response CCanceled (Some ''Another driver already accepted this ride'') now c"
  obtain x s1 where 1: "saveCandidate ?c None s = (Inr x, s1)"
      "move (cand_rideId c) (a_answer (cand_driverId c) CCanceled) s s1"
    using saveCandidate_move [OF wf c] by blast
  obtain ns where "notifyCandidateSuperseded r ?c s1 = (Inr (), s1\<lparr>published := published s1 @ ns\<rparr>)"
    using superseded.run_one by blast
  then show ?thesis
    using 1 move_then_same [OF 1(2) publish_same]
    by (simp add: markCandidateSuperseded_def Let_def run_bind)
qed

lemma accept_taken_move:
  assumes wf: "wf_world s" and found: "row_find ride_id k (rides s) = Some r"
    and c: "c \<in> set (candidates s)" "cand_rideId c = k" "cand_driverId c = d"
    and free: "driverId r = None \<or> driverId r = Some d" and d: "d \<noteq> []"
  shows "\<exists>r' s'. takeRide c now d r s = (Inr r', s') \<and> ride_id r' = k \<and>
    move k (\<lambda>a. a\<lparr>a_driver := Some d\<rparr>) s s' \<and>
    (\<exists>r1. row_find ride_id k (rides s') = Some r1) \<and> candidates s' = candidates s"
proof (cases "driverId r")
  case None
  have "ride_id r = k" using wf_ride [OF wf found] by simp
  then show ?thesis
    using claimDriver_move [OF wf found None d] None by (auto simp: takeRide_def run_bind)
next
  case (Some d')
  then have "driverId r = Some d" using free by simp
  moreover have "ride_id r = k" using wf_ride [OF wf found] by simp
  moreover have "move k (\<lambda>a. a\<lparr>a_driver := Some d\<rparr>) s s"
    using abs_ride_fields [OF _ found] \<open>driverId r = Some d\<close> by (intro move_stay [OF wf]) auto
  ultimately show ?thesis using d found by (auto simp: takeRide_def)
qed

text \<open>The answers that go through: the candidate exists and has not been settled.\<close>

definition settled :: "string \<Rightarrow> ride \<Rightarrow> candidate \<Rightarrow> bool" where
  "settled d r c \<longleftrightarrow> cand_status c = CCanceled \<or> cand_status c = DECLINED \<or>
     cand_status c = CONFIRMED \<or>
     (cand_status c = CAccepted \<and> driverId r = Some d \<and> (status r = ACCEPTED \<or> status r = ENROUTE))"

lemma accept_go:
  assumes wf: "wf_world s" and found: "row_find ride_id k (rides s) = Some r"
    and st: "status r \<noteq> CANCELED" "status r \<noteq> COMPLETED"
    and c: "List.find (\<lambda>c. cand_rideId c = k \<and> cand_driverId c = d) (candidates s) = Some c"
    and active: "\<not> settled d r c" and free: "driverId r = None \<or> driverId r = Some d" and d: "d \<noteq> []"
  shows "implements (acceptRideByDriver k d) k (spec_accept d) (accept_refusal d) s"
proof -
  obtain a where a: "abs_ride k s = Some a" "a_status a = status r" "a_driver a = driverId r"
    and cand: "\<And>d. a_cand d a = map_option cand_status
      (List.find (\<lambda>c. cand_rideId c = k \<and> cand_driverId c = d) (candidates s))"
    using abs_found [OF found] by blast
  note inv = find_candidate [OF c]
  let ?c = "with_response CAccepted None (clock s) c"
  obtain r1 s1 where s1: "takeRide c (clock s) d r s = (Inr r1, s1)" "ride_id r1 = k"
    and m1: "move k (\<lambda>a. a\<lparr>a_driver := Some d\<rparr>) s s1"
    and f1: "\<exists>r1. row_find ride_id k (rides s1) = Some r1" and cs1: "candidates s1 = candidates s"
    using accept_taken_move [OF wf found _ _ _ free d] inv by blast
  then have c1: "c \<in> set (candidates s1)" using inv by simp
  obtain x s2 where s2: "saveCandidate ?c None s1 = (Inr x, s2)" "rides s2 = rides s1"
    and m2: "move k (a_answer d CAccepted) s1 s2"
    using saveCandidate_move [OF move_wf [OF m1] c1] inv by blast
  obtain r2 where f2: "row_find ride_id k (rides s2) = Some r2" using f1 s2(2) by auto
  obtain r3 b3 s3 where s3: "transitionRideStatus k [REQUESTED, CANDIDATES_COMPUTED] ASSIGNED
        (Some ''Driver responded to invitation'') s2 = (Inr (r3, b3), s3)"
    and m3: "move k (a_transition [REQUESTED, CANDIDATES_COMPUTED] ASSIGNED) s2 s3"
    and f3: "row_find ride_id k (rides s3) = Some r3"
    using transition_move [OF move_wf [OF m2] f2, of "[REQUESTED, CANDIDATES_COMPUTED]" ASSIGNED]
    by blast
  obtain r4 b4 s4 where s4: "transitionRideStatus k [ASSIGNED, CANDIDATES_COMPUTED] ACCEPTED
        (Some ''Driver accepted ride request'') s3 = (Inr (r4, b4), s4)"
    and m4: "move k (a_transition [ASSIGNED, CANDIDATES_COMPUTED] ACCEPTED) s3 s4"
    using transition_move [OF move_wf [OF m3] f3, of "[ASSIGNED, CANDIDATES_COMPUTED]" ACCEPTED]
    by blast
  obtain ns where s5: "notifyDriverAccepted r4 ?c s4 = (Inr (), s4\<lparr>published := published s4 @ ns\<rparr>)"
    using accepted.run_one by blast
  have "move k (spec_accept d) s s4"
    using a cand c active st free
    by (intro move_eq [OF move_trans [OF move_trans [OF move_trans [OF m1 m2] m3] m4]])
      (auto simp: spec_accept_def settled_def)
  from move_then_same [OF this publish_same]
  have "move k (spec_accept d) s (s4\<lparr>published := published s4 @ ns\<rparr>)" .
  moreover have "ride_id r3 = k" using wf_ride [OF move_wf [OF m3] f3] by simp
  then have "acceptRideByDriver k d s = refresh k r4 (s4\<lparr>published := published s4 @ ns\<rparr>)"
    using found st c active s1 s2 s3 s4 s5 free truthy_driver [OF wf found]
    by (auto simp: acceptRideByDriver_def settled_def eff_run Let_def)
  moreover have "accept_refusal d (abs_ride k s) = None"
    using a cand c active st free by (auto simp: settled_def)
  ultimately show ?thesis using implements_go found by (metis option.distinct(1))
qed

lemma accept_implements:
  assumes wf: "wf_world s"
  shows "implements (acceptRideByDriver k d) k (spec_accept d) (accept_refusal d) s"
proof (cases "row_find ride_id k (rides s)")
  case None
  then show ?thesis
    by (intro implements_stay [OF wf]) (auto simp: acceptRideByDriver_def eff_run no_ride_abs)
next
  case found: (Some r)
  obtain a where a: "abs_ride k s = Some a" "a_status a = status r" "a_driver a = driverId r"
    and cand: "\<And>d. a_cand d a = map_option cand_status
      (List.find (\<lambda>c. cand_rideId c = k \<and> cand_driverId c = d) (candidates s))"
    using abs_found [OF found] by blast
  let ?find = "List.find (\<lambda>c. cand_rideId c = k \<and> cand_driverId c = d) (candidates s)"
  show ?thesis
  proof (cases "status r = CANCELED \<or> status r = COMPLETED \<or> ?find = None \<or> settled d r (the ?find)")
    case True
    then show ?thesis
      using found a cand by (intro implements_stay [OF wf])
        (auto simp: acceptRideByDriver_def eff_run spec_accept_def settled_def split: option.split)
  next
    case False
    then obtain c where c: "?find = Some c" by auto
    note inv = find_candidate [OF c]
    show ?thesis
    proof (cases "driverId r \<noteq> None \<and> driverId r \<noteq> Some d")
      case True
      obtain s1 where s1: "markCandidateSuperseded c (clock s) r s = (Inr (), s1)"
          "move k (a_answer d CCanceled) s s1"
        using superseded_move [OF wf] inv by blast
      have "move k (spec_accept d) s s1"
        using a cand c False True by (intro move_eq [OF s1(2)]) (auto simp: spec_accept_def settled_def)
      then show ?thesis
        using True False found c s1 a cand truthy_driver [OF wf found]
        by (intro implements_refused) (auto simp: acceptRideByDriver_def settled_def eff_run)
    next
      case free: False
      have "d \<noteq> []" using inv wf by (auto simp: wf_world_def)
      then show ?thesis using free accept_go [OF wf found _ _ c] False c by auto
    qed
  qed
qed

text \<open>Taking the driver off a ride and putting an accepted ride back to its candidates.\<close>

lemma withdraw_move:
  assumes wf: "wf_world s" and found: "row_find ride_id k (rides s) = Some r"
  shows "\<exists>r2 s2 r3 b3 s3. updateRide (r\<lparr>driverId := None\<rparr>) s = (Inr r2, s2) \<and> ride_id r2 = k \<and>
    transitionRideStatus k [ACCEPTED, ASSIGNED] CANDIDATES_COMPUTED why s2 = (Inr (r3, b3), s3) \<and>
    ride_id r3 = k \<and>
    move k (\<lambda>a. a_transition [ACCEPTED, ASSIGNED] CANDIDATES_COMPUTED (a\<lparr>a_driver := None\<rparr>)) s s3"
proof -
  have r: "ride_id (r\<lparr>driverId := None\<rparr>) = k" using wf_ride [OF wf found] by simp
  obtain r2 s2 where s2: "updateRide (r\<lparr>driverId := None\<rparr>) s = (Inr r2, s2)"
    and m2: "move k (\<lambda>a. a\<lparr>a_driver := None, a_status := status r\<rparr>) s s2"
    and f2: "row_find ride_id k (rides s2) = Some r2"
    using updateRide_move [OF wf found r] by auto
  obtain r3 b3 s3 where s3: "transitionRideStatus k [ACCEPTED, ASSIGNED] CANDIDATES_COMPUTED
        why s2 = (Inr (r3, b3), s3)"
    and m3: "move k (a_transition [ACCEPTED, ASSIGNED] CANDIDATES_COMPUTED) s2 s3"
    and f3: "row_find ride_id k (rides s3) = Some r3"
    using transition_move [OF move_wf [OF m2] f2, of "[ACCEPTED, ASSIGNED]" CANDIDATES_COMPUTED]
    by blast
  have "a\<lparr>a_driver := None, a_status := status r\<rparr> = a\<lparr>a_driver := None\<rparr>"
    if "abs_ride k s = Some a" for a
    using abs_ride_fields [OF that found] by (cases a) simp
  then have "move k (\<lambda>a. a\<lparr>a_driver := None\<rparr>) s s2" by (rule move_eq [OF m2])
  from move_trans [OF this m3] show ?thesis
    using s2 s3 wf_ride [OF move_wf [OF m2] f2] wf_ride [OF move_wf [OF m3] f3] by (auto simp: comp_def)
qed

lemma decline_implements:
  assumes wf: "wf_world s"
  shows "implements (rejectRideByDriver k d why) k (spec_decline d) (decline_refusal d) s"
proof (cases "row_find ride_id k (rides s)")
  case None
  then show ?thesis
    by (intro implements_stay [OF wf]) (auto simp: rejectRideByDriver_def eff_run no_ride_abs)
next
  case found: (Some r)
  obtain a where a: "abs_ride k s = Some a" "a_status a = status r" "a_driver a = driverId r"
      "a_rider a = riderId r"
    and cand: "\<And>d. a_cand d a = map_option cand_status
      (List.find (\<lambda>c. cand_rideId c = k \<and> cand_driverId c = d) (candidates s))"
    using abs_found [OF found] by blast
  let ?find = "List.find (\<lambda>c. cand_rideId c = k \<and> cand_driverId c = d) (candidates s)"
  show ?thesis
  proof (cases "status r \<in> {CANCELED, COMPLETED, ENROUTE} \<or> ?find = None \<or>
      cand_status (the ?find) \<in> {DECLINED, CCanceled}")
    case True
    then show ?thesis
      using found a cand by (intro implements_stay [OF wf])
        (auto simp: rejectRideByDriver_def eff_run spec_decline_def split: option.split)
  next
    case False
    then obtain c where c: "?find = Some c" by auto
    note inv = find_candidate [OF c]
    let ?why = "default_reason why ''Driver declined the ride invitation''"
    let ?c = "with_response DECLINED ?why (clock s) c"
    obtain x s1 where s1: "saveCandidate ?c None s = (Inr x, s1)" "rides s1 = rides s"
      and m1: "move k (a_answer d DECLINED) s s1"
      using saveCandidate_move [OF wf] inv by blast
    show ?thesis
    proof (cases "driverId r = Some d")
      case False
      obtain ns where "notifyDriverDeclined r ?c s1 = (Inr (), s1\<lparr>published := published s1 @ ns\<rparr>)"
        using declined.run_one by blast
      moreover have "move k (spec_decline d) s s1"
        using a cand c False \<open>\<not> (status r \<in> _ \<or> _)\<close>
        by (intro move_eq [OF m1]) (auto simp: spec_decline_def)
      ultimately show ?thesis
        using s1 found c False \<open>\<not> (status r \<in> _ \<or> _)\<close> a cand wf_ride [OF wf found]
        by (intro implements_go [OF _ move_then_same [OF _ publish_same]])
          (auto simp: rejectRideByDriver_def run_bind run_then run_findRideById run_findByRideAndDriver
            Let_def)
    next
      case True
      have f1: "row_find ride_id k (rides s1) = Some r" using s1 found by simp
      obtain r2 s2 r3 b3 s3 where s3: "updateRide (r\<lparr>driverId := None\<rparr>) s1 = (Inr r2, s2)" "ride_id r2 = k"
          "transitionRideStatus k [ACCEPTED, ASSIGNED] CANDIDATES_COMPUTED ?why s2 = (Inr (r3, b3), s3)"
          "ride_id r3 = k"
        and m3: "move k (\<lambda>a. a_transition [ACCEPTED, ASSIGNED] CANDIDATES_COMPUTED
          (a\<lparr>a_driver := None\<rparr>)) s1 s3"
        using withdraw_move [OF move_wf [OF m1] f1, of ?why] by blast
      obtain ns where s4: "notifyDriverDeclined r3 ?c s3 = (Inr (), s3\<lparr>published := published s3 @ ns\<rparr>)"
        using declined.run_one by blast
      have "move k (spec_decline d) s s3"
        using a cand c True False by (intro move_eq [OF move_trans [OF m1 m3]])
          (auto simp: spec_decline_def)
      then have m: "move k (spec_decline d) s (s3\<lparr>published := published s3 @ ns\<rparr>)"
        by (rule move_then_same [OF _ publish_same])
      have "rejectRideByDriver k d why s = refresh k r3 (s3\<lparr>published := published s3 @ ns\<rparr>)"
        using s1 s3 s4 found c True False
        by (simp add: rejectRideByDriver_def run_bind run_then run_findRideById
            run_findByRideAndDriver Let_def)
      then show ?thesis using implements_go [OF _ m] found a cand c False by auto
    qed
  qed
qed

lemma turn_down_implements:
  assumes wf: "wf_world s"
  shows "implements (rejectDriverAcceptance k rider why) k (spec_turn_down rider) (turn_down_refusal rider) s"
proof (cases "row_find ride_id k (rides s)")
  case None
  then show ?thesis
    by (intro implements_stay [OF wf]) (auto simp: rejectDriverAcceptance_def eff_run no_ride_abs)
next
  case found: (Some r)
  obtain a where a: "abs_ride k s = Some a" "a_status a = status r" "a_driver a = driverId r"
      "a_rider a = riderId r"
    and cand: "\<And>d. a_cand d a = map_option cand_status
      (List.find (\<lambda>c. cand_rideId c = k \<and> cand_driverId c = d) (candidates s))"
    using abs_found [OF found] by blast
  let ?find = "List.find (\<lambda>c. cand_rideId c = k \<and> cand_driverId c = the (driverId r)) (candidates s)"
  show ?thesis
  proof (cases "riderId r \<noteq> rider \<or> driverId r = None \<or>
      status r \<in> {CANCELED, COMPLETED, ENROUTE, ASSIGNED, REQUESTED} \<or> ?find = None")
    case True
    then show ?thesis
      using found a cand truthy_driver [OF wf found] by (intro implements_stay [OF wf])
        (auto simp: rejectDriverAcceptance_def eff_run spec_turn_down_def split: option.split)
  next
    case False
    then obtain c d where c: "?find = Some c" and d: "driverId r = Some d" by auto
    have inv: "c \<in> set (candidates s)" "cand_rideId c = k" "cand_driverId c = d"
      using find_candidate [OF c] d by auto
    let ?why = "default_reason why ''Rider rejected the driver acceptance''"
    let ?c = "with_response CCanceled ?why (clock s) c"
    obtain x s1 where s1: "saveCandidate ?c None s = (Inr x, s1)" "rides s1 = rides s"
      and m1: "move k (a_answer d CCanceled) s s1"
      using saveCandidate_move [OF wf inv(1)] inv by blast
    have f1: "row_find ride_id k (rides s1) = Some r" using s1 found by simp
    obtain r2 s2 r3 b3 s3 where s3: "updateRide (r\<lparr>driverId := None\<rparr>) s1 = (Inr r2, s2)"
        "transitionRideStatus k [ACCEPTED, ASSIGNED] CANDIDATES_COMPUTED ?why s2 = (Inr (r3, b3), s3)"
        "ride_id r3 = k"
      and m3: "move k (\<lambda>a. a_transition [ACCEPTED, ASSIGNED] CANDIDATES_COMPUTED
        (a\<lparr>a_driver := None\<rparr>)) s1 s3"
      using withdraw_move [OF move_wf [OF m1] f1, of ?why] by blast
    obtain ns where s4: "notifyRiderRejectedDriver r3 ?c why s3 =
        (Inr (), s3\<lparr>published := published s3 @ ns\<rparr>)"
      using rejected.run_one by blast
    have "move k (spec_turn_down rider) s s3"
      using a cand c d False by (intro move_eq [OF move_trans [OF m1 m3]]) (auto simp: spec_turn_down_def)
    then show ?thesis
      using s1 s3 s4 found c d False a cand wf_ride [OF wf found] truthy_driver [OF wf found]
      by (intro implements_go [OF _ move_then_same [OF _ publish_same]])
        (auto simp: rejectDriverAcceptance_def run_bind run_then run_findRideById run_findByRideAndDriver
          Let_def)
  qed
qed

text \<open>Saving the changed candidates of a ride, one after the other.\<close>

lemma saveMany_move:
  assumes wf: "wf_world s"
    and g: "\<And>c. cand_id (g c) = cand_id c" "\<And>c. cand_rideId (g c) = cand_rideId c"
      "\<And>c. Q c \<Longrightarrow> cand_status (g c) = f (cand_driverId c) (cand_status c)"
    and Q: "\<And>c. \<not> Q c \<Longrightarrow> f (cand_driverId c) (cand_status c) = cand_status c"
  shows "\<exists>xs s'. saveManyCandidates (map g (filter Q (candidatesOfRide k (candidates s)))) None s =
      (Inr xs, s') \<and> move k (a_update_cands f) s s' \<and> rides s' = rides s \<and> clock s' = clock s"
proof -
  let ?Q = "\<lambda>c. cand_rideId c = k \<and> Q c"
  have sel: "filter Q (candidatesOfRide k (candidates s)) = filter ?Q (candidates s)"
    by (simp add: candidatesOfRide_def)
  have "saveManyCandidates (map g (filter ?Q (candidates s))) None s =
    (Inr (map (save_where (clock s) ?Q g) (filter ?Q (candidates s))),
     s\<lparr>candidates := map (save_where (clock s) ?Q g) (candidates s)\<rparr>)"
    using wf g issued_nonempty by (intro saveMany_run) (auto simp: wf_world_def)
  moreover have "move k (a_update_cands f) s
      (s\<lparr>candidates := map (save_where (clock s) ?Q g) (candidates s)\<rparr>)"
    using g Q by (intro move_map_candidates [OF wf]) (auto simp: save_where_def saved_candidate_def)
  ultimately show ?thesis unfolding sel by auto
qed

lemma move_same_life:
  assumes wf: "wf_world s" and found: "row_find ride_id k (rides s) = Some r"
    and r': "ride_id r' = k" "riderId r' = riderId r" "driverId r' = driverId r" "status r' = status r"
  shows "\<exists>s'. updateRide r' s = (Inr (saved_ride (clock s) r r'), s') \<and> move k (\<lambda>a. a) s s' \<and>
    (\<exists>r''. row_find ride_id k (rides s') = Some r'') \<and> candidates s' = candidates s \<and> clock s' = clock s"
proof -
  have "driverId r' \<noteq> Some []" using wf_ride [OF wf found] r' by simp
  then obtain s' where s': "updateRide r' s = (Inr (saved_ride (clock s) r r'), s')"
      "move k (\<lambda>a. a\<lparr>a_driver := driverId r', a_status := status r'\<rparr>) s s'"
      "row_find ride_id k (rides s') = Some (saved_ride (clock s) r r')"
      "candidates s' = candidates s" "clock s' = clock s"
    using updateRide_move [OF wf found r'(1,2)] by blast
  have "a\<lparr>a_driver := driverId r', a_status := status r'\<rparr> = a" if "abs_ride k s = Some a" for a
    using abs_ride_fields [OF that found] r' by (cases a) simp
  then have "move k (\<lambda>a. a) s s'" by (rule move_eq [OF s'(2)])
  then show ?thesis using s' by auto
qed

lemma cancel_jobs_same: "same_rides s (snd (removePendingJobs env k s))"
  by (simp add: removePendingJobs_def removeRideJob_def same_rides_def)

lemma cancel_candidates_move:
  assumes wf: "wf_world s"
  shows "\<exists>s'. cancelCandidates r why now (candidatesOfRide k (candidates s)) s = (Inr (), s') \<and>
    move k (a_update_cands (\<lambda>_ _. CCanceled)) s s' \<and> rides s' = rides s"
proof -
  let ?why = "default_reason why ''Ride cancelled by rider''"
  let ?cs = "map (with_response CCanceled ?why now)
        (filter (\<lambda>c. cand_status c \<noteq> CCanceled) (candidatesOfRide k (candidates s)))"
  obtain xs s1 where s1: "saveManyCandidates ?cs None s = (Inr xs, s1)" "rides s1 = rides s"
    and m1: "move k (a_update_cands (\<lambda>_ _. CCanceled)) s s1"
    using saveMany_move [OF wf, of "with_response CCanceled ?why now"
        "\<lambda>c. cand_status c \<noteq> CCanceled" "\<lambda>_ _. CCanceled" k]
    by (auto simp: with_response_def)
  obtain ns where s2: "forE (\<lambda>c. notifyRideCanceledForCandidate r c why) ?cs s1 =
      (Inr (), s1\<lparr>published := published s1 @ ns\<rparr>)"
    using cancelled.run_all by blast
  show ?thesis
  proof (cases "?cs = []")
    case True
    then have "s1 = s" using s1 by (simp add: saveManyCandidates_def)
    then show ?thesis using True m1 by (simp add: cancelCandidates_def Let_def run_when)
  next
    case False
    then show ?thesis
      using s1 s2 move_then_same [OF m1 publish_same] by (simp add: cancelCandidates_def Let_def run_when run_bind)
  qed
qed

lemma cancel_go:
  assumes wf: "wf_world s" and found: "row_find ride_id k (rides s) = Some r"
    and ok: "riderId r = req_id req" "status r \<noteq> COMPLETED" "status r \<noteq> CANCELED"
  shows "implements (cancelRide env k req why) k (spec_cancel (req_id req)) (cancel_refusal (req_id req)) s"
proof -
  obtain a where a: "abs_ride k s = Some a" "a_status a = status r" "a_driver a = driverId r"
      "a_rider a = riderId r"
    and cand: "\<And>d. a_cand d a = map_option cand_status
      (List.find (\<lambda>c. cand_rideId c = k \<and> cand_driverId c = d) (candidates s))"
    using abs_found [OF found] by blast
  let ?al = "[REQUESTED, CANDIDATES_COMPUTED, ASSIGNED, ACCEPTED, ENROUTE]"
  obtain s1 where s1: "removePendingJobs env k s = (Inr (), s1)" "same_rides s s1"
    using cancel_jobs_same [of s env k] by (auto simp: removePendingJobs_def removeRideJob_def)
  have wf1: "wf_world s1" using wf same_rides_wf [OF s1(2)] by simp
  have f1: "row_find ride_id k (rides s1) = Some r" using s1(2) found by (simp add: same_rides_def)
  obtain r2 b2 s2 where s2: "transitionRideStatus k ?al CANCELED
        (default_reason why ''Ride cancelled by rider'') s1 = (Inr (r2, b2), s2)"
    and m2: "move k (a_transition ?al CANCELED) s1 s2"
    and f2: "row_find ride_id k (rides s2) = Some r2"
    using transition_move [OF wf1 f1, of ?al CANCELED] by blast
  let ?r = "(if truthy why then r2\<lparr>cancelReason := why\<rparr> else r2)\<lparr>fareFinal := Some zero_fare\<rparr>"
  have id2: "ride_id r2 = k" using wf_ride [OF move_wf [OF m2] f2] by simp
  have r: "ride_id ?r = k" "riderId ?r = riderId r2" "driverId ?r = driverId r2" "status ?r = status r2"
    using id2 by simp_all
  obtain s3 where s3: "updateRide ?r s2 = (Inr (saved_ride (clock s2) r2 ?r), s3)"
    and m3: "move k (\<lambda>a. a) s2 s3"
    using move_same_life [OF move_wf [OF m2] f2 r] by blast
  obtain s4 where s4: "cancelCandidates ?r why (clock s3) (candidatesOfRide k (candidates s3)) s3 =
      (Inr (), s4)"
    and m4: "move k (a_update_cands (\<lambda>_ _. CCanceled)) s3 s4"
    using cancel_candidates_move [OF move_wf [OF m3]] by blast
  have "move k (spec_cancel (req_id req)) s s4"
    by (rule move_eq [OF same_then_move [OF s1(2) move_trans [OF move_trans [OF m2 m3] m4]]])
      (use a ok in \<open>auto simp: spec_cancel_def\<close>)
  moreover have "cancelRide env k req why s = refresh k ?r s4"
    using found ok s1 s2 s3 s4 id2 wf_ride [OF wf found]
    by (cases "truthy why")
      (simp_all add: cancelRide_def run_bind run_then run_findRideById run_findCandidates Let_def)
  moreover have "cancel_refusal (req_id req) (abs_ride k s) = None" using a ok by simp
  ultimately show ?thesis using implements_go found by (metis option.distinct(1))
qed

lemma cancel_implements:
  assumes wf: "wf_world s"
  shows "implements (cancelRide env k req why) k (spec_cancel (req_id req)) (cancel_refusal (req_id req)) s"
proof (cases "row_find ride_id k (rides s)")
  case None
  then show ?thesis
    by (intro implements_stay [OF wf]) (auto simp: cancelRide_def eff_run no_ride_abs)
next
  case found: (Some r)
  obtain a where a: "abs_ride k s = Some a" "a_status a = status r" "a_rider a = riderId r"
    using abs_found [OF found] by blast
  show ?thesis
  proof (cases "riderId r \<noteq> req_id req \<or> status r = COMPLETED \<or> status r = CANCELED")
    case True
    then show ?thesis
      using found a by (intro implements_stay [OF wf])
        (auto simp: cancelRide_def eff_run spec_cancel_def)
  next
    case False
    then show ?thesis using cancel_go [OF wf found] by simp
  qed
qed

lemma confirmed_simps:
  "cand_id (confirmed_candidate d now c) = cand_id c"
  "cand_rideId (confirmed_candidate d now c) = cand_rideId c"
  "affected_by_confirmation d c \<Longrightarrow>
     cand_status (confirmed_candidate d now c) = confirm_status d (cand_driverId c) (cand_status c)"
  "\<not> affected_by_confirmation d c \<Longrightarrow> confirm_status d (cand_driverId c) (cand_status c) = cand_status c"
  by (auto simp: confirmed_candidate_def with_response_def confirm_status_def
      affected_by_confirmation_def)

lemma confirm_go:
  assumes wf: "wf_world s" and found: "row_find ride_id k (rides s) = Some r"
    and ok: "riderId r = rider" "driverId r = Some d"
      "status r \<notin> {CANCELED, COMPLETED, ASSIGNED, REQUESTED, ENROUTE}"
    and c: "List.find (\<lambda>c. cand_rideId c = k \<and> cand_driverId c = d) (candidates s) = Some c"
      "cand_status c = CAccepted"
  shows "implements (confirmDriverAcceptance k rider) k (spec_confirm rider) (confirm_refusal rider) s"
proof -
  obtain a where a: "abs_ride k s = Some a" "a_status a = status r" "a_driver a = driverId r"
      "a_rider a = riderId r"
    and cand: "\<And>d. a_cand d a = map_option cand_status
      (List.find (\<lambda>c. cand_rideId c = k \<and> cand_driverId c = d) (candidates s))"
    using abs_found [OF found] by blast
  obtain r2 b2 s2 where s2: "transitionRideStatus k [ACCEPTED] ENROUTE
        (Some ''Rider accepted driver confirmation'') s = (Inr (r2, b2), s2)"
    and m2: "move k (a_transition [ACCEPTED] ENROUTE) s s2"
    and f2: "row_find ride_id k (rides s2) = Some r2"
    using transition_move [OF wf found, of "[ACCEPTED]" ENROUTE] by blast
  have id2: "ride_id r2 = k" using wf_ride [OF move_wf [OF m2] f2] by simp
  let ?cs = "map (confirmed_candidate d (clock s2))
    (filter (affected_by_confirmation d) (candidatesOfRide k (candidates s2)))"
  obtain xs s3 where s3: "saveManyCandidates ?cs None s2 = (Inr xs, s3)"
    and m3: "move k (a_update_cands (confirm_status d)) s2 s3"
    using saveMany_move [OF move_wf [OF m2], of "confirmed_candidate d (clock s2)"
        "affected_by_confirmation d" "confirm_status d" k]
    by (simp add: confirmed_simps) blast
  obtain n4 where s4: "notifyRiderConfirmed r2 c s3 = (Inr (), s3\<lparr>published := published s3 @ n4\<rparr>)"
    using confirmed.run_one by blast
  let ?s4 = "s3\<lparr>published := published s3 @ n4\<rparr>"
  obtain n5 where s5: "forE (notifyCandidateSuperseded r2) (filter (\<lambda>x. cand_driverId x \<noteq> d) ?cs) ?s4 =
      (Inr (), ?s4\<lparr>published := published ?s4 @ n5\<rparr>)"
    using superseded.run_all by blast
  have save: "whenE (?cs \<noteq> []) (bindE (saveManyCandidates ?cs None) (\<lambda>_. returnE ())) s2 = (Inr (), s3)"
    using s3 by (cases "?cs = []") (simp_all add: run_when run_bind saveManyCandidates_def)
  have "move k (spec_confirm rider) s s3"
    by (rule move_eq [OF move_trans [OF m2 m3]]) (use a cand ok c in \<open>auto simp: spec_confirm_def\<close>)
  then have "move k (spec_confirm rider) s (?s4\<lparr>published := published ?s4 @ n5\<rparr>)"
    by (intro move_then_same [OF _ publish_same]) simp
  moreover have "confirmDriverAcceptance k rider s =
      refresh k r2 (?s4\<lparr>published := published ?s4 @ n5\<rparr>)"
    using found ok c s2 save s4 s5 id2 wf_ride [OF wf found]
    by (auto simp: confirmDriverAcceptance_def run_bind run_then run_findRideById
        run_findByRideAndDriver run_findCandidates Let_def)
  moreover have "confirm_refusal rider (abs_ride k s) = None" using a cand ok c by simp
  ultimately show ?thesis using implements_go found by (metis option.distinct(1))
qed

lemma confirm_implements:
  assumes wf: "wf_world s"
  shows "implements (confirmDriverAcceptance k rider) k (spec_confirm rider) (confirm_refusal rider) s"
proof (cases "row_find ride_id k (rides s)")
  case None
  then show ?thesis
    by (intro implements_stay [OF wf]) (auto simp: confirmDriverAcceptance_def eff_run no_ride_abs)
next
  case found: (Some r)
  obtain a where a: "abs_ride k s = Some a" "a_status a = status r" "a_driver a = driverId r"
      "a_rider a = riderId r"
    and cand: "\<And>d. a_cand d a = map_option cand_status
      (List.find (\<lambda>c. cand_rideId c = k \<and> cand_driverId c = d) (candidates s))"
    using abs_found [OF found] by blast
  let ?find = "List.find (\<lambda>c. cand_rideId c = k \<and> cand_driverId c = the (driverId r)) (candidates s)"
  show ?thesis
  proof (cases "riderId r \<noteq> rider \<or> driverId r = None \<or>
      status r \<in> {CANCELED, COMPLETED, ASSIGNED, REQUESTED, ENROUTE} \<or> ?find = None \<or>
      cand_status (the ?find) \<noteq> CAccepted")
    case True
    then show ?thesis
      using found a cand truthy_driver [OF wf found] by (intro implements_stay [OF wf])
        (auto simp: confirmDriverAcceptance_def eff_run spec_confirm_def Let_def split: option.split)
  next
    case False
    then show ?thesis using confirm_go [OF wf found] by auto
  qed
qed

section \<open>Creating a ride\<close>

fun new_candidates :: "string \<Rightarrow> nat \<Rightarrow> int \<Rightarrow> nearby_driver list \<Rightarrow> candidate list" where
  "new_candidates k i now [] = []"
| "new_candidates k i now (d # ds) =
     \<lparr>cand_id = show_nat i, cand_rideId = k, cand_driverId = nd_driverId d, cand_status = INVITED,
      distanceMeters = map_option js_round (nd_distanceMeters d), reason = None, respondedAt = None,
      cand_createdAt = now, cand_updatedAt = now\<rparr> # new_candidates k (Suc i) now ds"

lemma insert_candidates_run:
  "mapE (\<lambda>d. insertCandidateRow k (nd_driverId d) INVITED (map_option js_round (nd_distanceMeters d))
       None None) ds s =
     (Inr (new_candidates k (candidateSeq s) (clock s) ds),
      s\<lparr>candidates := candidates s @ new_candidates k (candidateSeq s) (clock s) ds,
        candidateSeq := candidateSeq s + length ds\<rparr>)"
  by (induction ds arbitrary: s) (simp_all add: eff_run insertCandidateRow_def Let_def)

lemma new_candidates_ids:
  "map cand_id (new_candidates k i now ds) = map show_nat [i..<i + length ds]"
proof (induction ds arbitrary: i)
  case (Cons d ds)
  then show ?case by (simp add: upt_conv_Cons del: upt_Suc)
qed simp

lemma new_candidates_view:
  "map cand_driverId (new_candidates k i now ds) = map nd_driverId ds"
  "map (\<lambda>c. (cand_driverId c, cand_status c)) (new_candidates k i now ds) =
     map (\<lambda>d. (nd_driverId d, INVITED)) ds"
  "c \<in> set (new_candidates k i now ds) \<Longrightarrow> cand_rideId c = k"
  by (induction ds arbitrary: i) auto

definition nearby_ok :: "nearby_driver list \<Rightarrow> bool" where
  "nearby_ok ds \<longleftrightarrow> distinct (map nd_driverId ds) \<and> [] \<notin> nd_driverId ` set ds"

text \<open>
  What the tables contain for a ride that does not exist yet, and what the two inserted
  groups of rows do to a well-formed world.
\<close>

lemma unissued_ride:
  assumes "wf_world s"
  shows "row_find ride_id (show_nat (rideSeq s)) (rides s) = None"
    and "candidatesOfRide (show_nat (rideSeq s)) (candidates s) = []"
    and "filter (\<lambda>h. hist_rideId h = show_nat (rideSeq s)) (history s) = []"
  using assms issued_fresh
  by (auto simp: wf_world_def row_find_None_iff candidatesOfRide_def filter_empty_conv)

lemma wf_new_candidates:
  assumes wf: "wf_world s" and ds: "nearby_ok ds"
    and cs: "cs = new_candidates (show_nat (rideSeq s)) (candidateSeq s) now ds"
  shows "distinct (map cand_id (candidates s @ cs))"
    and "distinct (map (\<lambda>c. (cand_rideId c, cand_driverId c)) (candidates s @ cs))"
    and "\<forall>c \<in> set (candidates s @ cs). issued (candidateSeq s + length ds) (cand_id c) \<and>
      issued (Suc (rideSeq s)) (cand_rideId c) \<and> cand_driverId c \<noteq> []"
proof -
  have old: "issued (candidateSeq s) (cand_id c)" "issued (rideSeq s) (cand_rideId c)"
      "cand_driverId c \<noteq> []" if "c \<in> set (candidates s)" for c
    using wf that by (auto simp: wf_world_def)
  have new: "\<exists>i. candidateSeq s \<le> i \<and> i < candidateSeq s + length ds \<and> cand_id c = show_nat i"
    if "c \<in> set cs" for c
  proof -
    have "cand_id c \<in> set (map show_nat [candidateSeq s..<candidateSeq s + length ds])"
      using that by (metis image_eqI image_set new_candidates_ids cs)
    then show ?thesis by auto
  qed
  have "cand_id c \<noteq> cand_id c'" if "c \<in> set (candidates s)" "c' \<in> set cs" for c c'
    using old(1) [OF that(1)] new [OF that(2)] by (auto simp: issued_def)
  moreover have "distinct (map cand_id cs)" by (simp add: cs new_candidates_ids distinct_map inj_on_def)
  ultimately show "distinct (map cand_id (candidates s @ cs))"
    using wf by (force simp: wf_world_def)
  have "distinct (map cand_driverId cs)" using ds by (simp add: cs new_candidates_view nearby_ok_def)
  then have "distinct (map (\<lambda>c. (cand_rideId c, cand_driverId c)) cs)"
    by (auto simp: distinct_map inj_on_def)
  moreover have "cand_rideId c \<noteq> cand_rideId c'" if "c \<in> set (candidates s)" "c' \<in> set cs" for c c'
    using old(2) [OF that(1)] new_candidates_view(3) [OF that(2) [unfolded cs]] issued_fresh by metis
  ultimately show "distinct (map (\<lambda>c. (cand_rideId c, cand_driverId c)) (candidates s @ cs))"
    using wf by (force simp: wf_world_def)
  have "cand_driverId c \<in> nd_driverId ` set ds" if "c \<in> set cs" for c
    using that by (metis image_eqI image_set new_candidates_view(1) cs)
  then have "cand_driverId c \<noteq> []" if "c \<in> set cs" for c
    using that ds unfolding nearby_ok_def by metis
  then have "issued (candidateSeq s + length ds) (cand_id c) \<and>
      issued (Suc (rideSeq s)) (cand_rideId c) \<and> cand_driverId c \<noteq> []" if "c \<in> set cs" for c
    using new [OF that] new_candidates_view(3) [OF that [unfolded cs]] that issued_next
    by (auto simp: issued_def [of "candidateSeq s + _"])
  moreover have "issued (candidateSeq s + length ds) (cand_id c) \<and>
      issued (Suc (rideSeq s)) (cand_rideId c) \<and> cand_driverId c \<noteq> []" if "c \<in> set (candidates s)" for c
    using old [OF that] by (auto intro: issued_mono issued_Suc)
  ultimately show "\<forall>c \<in> set (candidates s @ cs). issued (candidateSeq s + length ds) (cand_id c) \<and>
      issued (Suc (rideSeq s)) (cand_rideId c) \<and> cand_driverId c \<noteq> []"
    by auto
qed

lemma createRideWithDetails_move:
  assumes wf: "wf_world s" and ds: "nearby_ok (rc_nearbyDrivers opt)"
    and opt: "rc_status opt = CANDIDATES_COMPUTED"
      "rc_historyEntries opt = buildInitialHistoryEntries (length (rc_nearbyDrivers opt))"
  shows "\<exists>r cs s'. createRideWithDetails opt s = (Inr (r, cs), s') \<and> wf_world s' \<and>
    ride_id r = show_nat (rideSeq s) \<and>
    abs_ride (show_nat (rideSeq s)) s' =
      Some (spec_create (rc_riderId opt) (map nd_driverId (rc_nearbyDrivers opt))) \<and>
    (\<forall>j. j \<noteq> show_nat (rideSeq s) \<longrightarrow> abs_ride j s' = abs_ride j s) \<and>
    rideJobs s' = rideJobs s \<and> published s' = published s \<and>
    row_find ride_id (ride_id r) (rides s') = Some r \<and>
    fareEstimated r = rc_fareEstimated opt \<and> riderId r = rc_riderId opt \<and>
    map cand_driverId cs = map nd_driverId (rc_nearbyDrivers opt)"
proof -
  let ?k = "show_nat (rideSeq s)"
  let ?ds = "rc_nearbyDrivers opt"
  let ?new = "new_candidates ?k (candidateSeq s) (clock s) ?ds"
  note fresh = unissued_ride [OF wf]
  obtain s1 where s1: "insertRideRow opt s = (Inr ?k, s1)"
    and e1: "\<exists>r. rides s1 = rides s @ [r] \<and> ride_id r = ?k \<and> riderId r = rc_riderId opt \<and>
        driverId r = None \<and> status r = CANDIDATES_COMPUTED \<and> fareEstimated r = rc_fareEstimated opt"
      "rideSeq s1 = Suc (rideSeq s)" "candidates s1 = candidates s" "candidateSeq s1 = candidateSeq s"
      "history s1 = history s" "clock s1 = clock s" "rideJobs s1 = rideJobs s"
      "published s1 = published s"
    using opt(1) by (simp add: insertRideRow_def)
  obtain r where r: "rides s1 = rides s @ [r]" "ride_id r = ?k" "riderId r = rc_riderId opt"
      "driverId r = None" "status r = CANDIDATES_COMPUTED" "fareEstimated r = rc_fareEstimated opt"
    using e1(1) by blast
  obtain hs s2 where s2: "bindE (mapE (\<lambda>d. insertCandidateRow ?k (nd_driverId d) INVITED
        (map_option js_round (nd_distanceMeters d)) None None) ?ds)
        (\<lambda>cs. thenE (mapE (\<lambda>e. insertHistoryRow ?k (hi_from e) (hi_to e) (hi_context e))
          (rc_historyEntries opt)) (returnE (?k, cs))) s1 = (Inr (?k, ?new), s2)"
    and e2: "rides s2 = rides s @ [r]" "rideSeq s2 = Suc (rideSeq s)"
      "candidates s2 = candidates s @ ?new" "candidateSeq s2 = candidateSeq s + length ?ds"
      "history s2 = history s @ hs" "rideJobs s2 = rideJobs s" "published s2 = published s"
      "map (\<lambda>h. (hist_rideId h, fromStatus h, toStatus h)) hs =
        [(?k, None, REQUESTED), (?k, Some REQUESTED, CANDIDATES_COMPUTED)]"
    using e1 r
    by (simp add: run_bind run_then insert_candidates_run opt(2) buildInitialHistoryEntries_def
        insertHistoryRow_def Let_def)
  have hs: "\<forall>h \<in> set hs. hist_rideId h = ?k"
    using e2(8) by (auto simp: map_eq_Cons_conv)
  have wf2: "wf_world s2"
    using wf wf_new_candidates [OF wf ds refl, of "clock s"] e2 r fresh(1) hs issued_next
    by (auto simp: wf_world_def row_find_None_iff intro: issued_Suc)
  have other: "abs_ride j s2 = abs_ride j s" if "j \<noteq> ?k" for j
  proof -
    have "candidatesOfRide j ?new = []" "filter (\<lambda>h. hist_rideId h = j) hs = []"
      using that new_candidates_view(3) hs by (auto simp: candidatesOfRide_def filter_empty_conv)
    then show ?thesis using e2 r that
      by (auto simp: abs_ride_def row_find_append candidatesOfRide_def split: option.split)
  qed
  have "candidatesOfRide ?k ?new = ?new"
    using new_candidates_view(3) by (auto simp: candidatesOfRide_def)
  moreover have "filter (\<lambda>h. hist_rideId h = ?k) hs = hs" using hs by simp
  moreover have "map (\<lambda>h. (fromStatus h, toStatus h)) hs =
      [(None, REQUESTED), (Some REQUESTED, CANDIDATES_COMPUTED)]"
    using e2(8) by (auto simp: map_eq_Cons_conv)
  ultimately have this_ride: "abs_ride ?k s2 = Some (spec_create (rc_riderId opt) (map nd_driverId ?ds))"
    using e2 r fresh by (simp add: abs_ride_def row_find_append candidatesOfRide_def spec_create_def
        new_candidates_view comp_def)
  show ?thesis
    using s1 s2 e2 r fresh(1) wf2 other this_ride
    by (simp add: createRideWithDetails_def run_bind run_transact run_findRideById row_find_append
        new_candidates_view)
qed

text \<open>
  What the location service promises about the drivers it returns: they are the members of a
  Redis geo set, so no identifier occurs twice, and none is empty.
\<close>

definition env_ok :: "ride_env \<Rightarrow> bool" where
  "env_ok env \<longleftrightarrow> (\<forall>lon lat n ds. nearby env lon lat n = Inr ds \<longrightarrow> nearby_ok ds)"

lemma route_same:
  "\<exists>s'. requestRouteEstimatesThroughQueue env job p q s =
      (case route_result env job p q of
         Some route \<Rightarrow> Inr route
       | None \<Rightarrow> Inl (BadRequest ''Unable to calculate route distance at this time. Please try again later.''),
       s') \<and> same_rides s s'"
  by (auto simp: requestRouteEstimatesThroughQueue_def removeRideJob_def same_rides_def eff_run
      split: option.split)

lemma remove_job_same: "\<exists>s'. removeRideJob env job s = (Inr (), s') \<and> same_rides s s'"
  by (auto simp: removeRideJob_def same_rides_def)

lemma same_rides_trans: "same_rides s t \<Longrightarrow> same_rides t u \<Longrightarrow> same_rides s u"
  by (simp add: same_rides_def)

lemma same_rides_refl: "same_rides s s"
  by (simp add: same_rides_def)

definition created :: "string \<Rightarrow> string \<Rightarrow> world \<Rightarrow> world \<Rightarrow> bool" where
  "created rider k s s' \<longleftrightarrow> wf_world s' \<and> abs_ride k s = None \<and>
     (\<exists>ds. distinct ds \<and> [] \<notin> set ds \<and> abs_ride k s' = Some (spec_create rider ds)) \<and>
     (\<forall>j. j \<noteq> k \<longrightarrow> abs_ride j s' = abs_ride j s)"

lemma created_same: "created rider k s s' \<Longrightarrow> same_rides s' s'' \<Longrightarrow> created rider k s s''"
  by (simp add: created_def same_rides_abs same_rides_wf)

lemma create_body:
  assumes wf: "wf_world s" and ds: "nearby_ok drivers"
  shows "\<exists>r cs s'. bindE (createRideWithDetails (ride_details env rider payload route drivers))
      (\<lambda>(made, cands). thenE (forE (\<lambda>c. notifyRideOffered made c route) cands)
        (thenE (notifyRideMatched made) (returnE (made, cands)))) s = (Inr (r, cs), s') \<and>
    ride_id r = show_nat (rideSeq s) \<and> created rider (ride_id r) s s'"
proof -
  let ?opt = "ride_details env rider payload route drivers"
  obtain r cs s1 where s1: "createRideWithDetails ?opt s = (Inr (r, cs), s1)" "wf_world s1"
      "ride_id r = show_nat (rideSeq s)"
      "abs_ride (show_nat (rideSeq s)) s1 = Some (spec_create rider (map nd_driverId drivers))"
      "\<forall>j. j \<noteq> show_nat (rideSeq s) \<longrightarrow> abs_ride j s1 = abs_ride j s"
    using createRideWithDetails_move [OF wf, of ?opt] ds by (auto simp: ride_details_def)
  have c1: "created rider (ride_id r) s s1"
    using s1 ds no_ride_abs [OF unissued_ride(1) [OF wf]] by (auto simp: created_def nearby_ok_def)
  obtain n2 where s2: "forE (\<lambda>c. notifyRideOffered r c route) cs s1 =
      (Inr (), s1\<lparr>published := published s1 @ n2\<rparr>)"
    using offered.run_all by blast
  let ?s2 = "s1\<lparr>published := published s1 @ n2\<rparr>"
  obtain n3 where s3: "notifyRideMatched r ?s2 = (Inr (), ?s2\<lparr>published := published ?s2 @ n3\<rparr>)"
    using matched.run_one by blast
  have "created rider (ride_id r) s (?s2\<lparr>published := published ?s2 @ n3\<rparr>)"
    by (rule created_same [OF created_same [OF c1 publish_same] publish_same])
  then show ?thesis using s1 s2 s3 by (simp add: run_bind run_then)
qed

lemma createRide_outcome:
  assumes wf: "wf_world s" and env: "env_ok env"
  shows "(\<exists>err s'. createRide env rider payload s = (Inl err, s') \<and> same_rides s s') \<or>
    (\<exists>r cs s'. createRide env rider payload s = (Inr (r, cs), s') \<and> created rider (ride_id r) s s' \<and>
      (\<forall>x \<in> set (rides s). riderId x = rider \<longrightarrow> status x = COMPLETED \<or> status x = CANCELED))"
proof (cases "rider = [] \<or> fst (findUnfinishedRideByRiderId rider s) \<noteq> Inr None")
  case True
  then show ?thesis
    by (auto simp: createRide_def run_bind findUnfinishedRideByRiderId_def same_rides_refl)
next
  case False
  then have none: "findUnfinishedRideByRiderId rider s = (Inr None, s)"
    and idle: "\<forall>x \<in> set (rides s). riderId x = rider \<longrightarrow> status x = COMPLETED \<or> status x = CANCELED"
    by (auto simp: findUnfinishedRideByRiderId_def filter_empty_conv)
  define job where "job = routeJobId rider (clock s)"
  obtain s1 where s1: "requestRouteEstimatesThroughQueue env job (ci_pickup payload) (ci_dropoff payload) s =
      (case route_result env job (ci_pickup payload) (ci_dropoff payload) of
         Some route \<Rightarrow> Inr route
       | None \<Rightarrow> Inl (BadRequest ''Unable to calculate route distance at this time. Please try again later.''),
       s1)" "same_rides s s1"
    using route_same by blast
  have wf1: "wf_world s1" using wf same_rides_wf [OF s1(2)] by simp
  obtain s2 where s2: "removeRideJob env job s1 = (Inr (), s2)" "same_rides s1 s2"
    using remove_job_same by blast
  note fail = same_rides_trans [OF s1(2) s2(2)]
  let ?near = "nearby env (fst (ci_pickup payload)) (snd (ci_pickup payload))
      (resolveCandidateLimit (ci_maxDrivers payload))"
  show ?thesis
  proof (cases "\<exists>route drivers. route_result env job (ci_pickup payload) (ci_dropoff payload) = Some route \<and>
      ?near = Inr drivers \<and> drivers \<noteq> []")
    case ok: True
    then obtain route drivers where ok: "route_result env job (ci_pickup payload) (ci_dropoff payload) = Some route"
      "?near = Inr drivers" "drivers \<noteq> []" by blast
    have "nearby_ok drivers" using env ok(2) by (auto simp: env_ok_def)
    from create_body [OF wf1 this, of env rider payload route]
    obtain r cs s3 where s3: "bindE (createRideWithDetails (ride_details env rider payload route drivers))
      (\<lambda>(made, cands). thenE (forE (\<lambda>c. notifyRideOffered made c route) cands)
        (thenE (notifyRideMatched made) (returnE (made, cands)))) s1 = (Inr (r, cs), s3)"
      "created rider (ride_id r) s1 s3" by blast
    have "created rider (ride_id r) s s3"
      using s3(2) same_rides_abs [OF s1(2)] by (simp add: created_def)
    then show ?thesis
      using False none idle s1 s3 ok
      by (auto simp: createRide_def createMatchedRide_def run_bind run_catch run_lift Let_def job_def [symmetric])
  next
    case no: False
    then show ?thesis
      using False none s1 s2 fail
      by (auto simp: createRide_def createMatchedRide_def run_bind run_then run_catch run_lift Let_def job_def [symmetric]
          split: option.splits sum.splits)
  qed
qed

end
