(* ===== verification/Trip_Tracking.thy ===== *)
theory Trip_Tracking
  imports Ride_Repositories
begin

text \<open>
  \<open>TripTrackingService\<close> (\<open>rides/domain/services/trip-tracking.service.ts\<close>), the repositories
  it flushes to (\<open>trip-track.repository.ts\<close>, \<open>trip-summary.repository.ts\<close>) and its queue
  processor. The state and the events of a ride live in Redis, under \<open>trip:state:\<close> and
  \<open>trip:events:\<close>; the set \<open>trip:active\<close> holds the rides to flush.
\<close>

section \<open>Environment\<close>

text \<open>
  \<open>geo_reply\<close> is what the pipeline GEOADD, GEOADD, GEODIST, DEL gives: \<open>exec\<close> throws, or it
  has no third result, or the third result is an error, a nil, a number or a text.
\<close>

datatype geo_reply =
    ExecThrows | NoResult | ReplyError | ReplyNil | ReplyNumber jsnum | ReplyText string

record trip_env =
  geodist :: "jsnum \<times> jsnum \<Rightarrow> jsnum \<times> jsnum \<Rightarrow> geo_reply"
  trip_add_error :: "string \<Rightarrow> (string \<times> string) option"
  persist_error :: "exn option"

section \<open>Distances\<close>

definition calculateDistanceMeters ::
  "trip_env \<Rightarrow> jsnum \<Rightarrow> jsnum \<Rightarrow> jsnum \<Rightarrow> jsnum \<Rightarrow> jsnum" where
  "calculateDistanceMeters env lon1 lat1 lon2 lat2 =
     (case geodist env (lon1, lat1) (lon2, lat2) of
        ExecThrows \<Rightarrow> Fin 0
      | NoResult \<Rightarrow> Fin 0
      | ReplyError \<Rightarrow> Fin 0
      | ReplyNil \<Rightarrow> Fin 0
      | ReplyNumber x \<Rightarrow> if is_finite x then x else Fin 0
      | ReplyText t \<Rightarrow> let x = parse_float t in if is_finite x then x else Fin 0)"

definition calculateDistanceBetweenCoordinates :: "trip_env \<Rightarrow> location \<Rightarrow> location \<Rightarrow> jsnum" where
  "calculateDistanceBetweenCoordinates env origin destination =
     calculateDistanceMeters env (longitude origin) (latitude origin)
       (longitude destination) (latitude destination)"

section \<open>The state of a trip\<close>

definition initial_trip_state :: trip_state where
  "initial_trip_state = \<lparr>lastDriverLocation = None, lastRiderLocation = None,
     totalDistanceMeters = Fin 0, trip_completed = False\<rparr>"

definition stringify_state :: "trip_state \<Rightarrow> trip_state_json" where
  "stringify_state st = \<lparr>sj_lastDriverLocation = lastDriverLocation st,
     sj_lastRiderLocation = lastRiderLocation st,
     sj_totalDistanceMeters = json_number (totalDistanceMeters st),
     sj_completed = trip_completed st\<rparr>"

definition parse_state :: "trip_state_json \<Rightarrow> trip_state" where
  "parse_state j = \<lparr>lastDriverLocation = sj_lastDriverLocation j,
     lastRiderLocation = sj_lastRiderLocation j,
     totalDistanceMeters = (case sj_totalDistanceMeters j of None \<Rightarrow> Fin 0 | Some x \<Rightarrow> x),
     trip_completed = sj_completed j\<rparr>"

definition trip_state_of :: "string \<Rightarrow> world \<Rightarrow> trip_state" where
  "trip_state_of k s =
     (case tripStates s k of
        None \<Rightarrow> initial_trip_state
      | Some Unparsable \<Rightarrow> initial_trip_state
      | Some (Parsed j) \<Rightarrow> parse_state j)"

definition getState :: "string \<Rightarrow> trip_state weff" where
  "getState k = readE (trip_state_of k)"

definition setState :: "string \<Rightarrow> trip_state \<Rightarrow> unit weff" where
  "setState k st =
     writeE (\<lambda>s. s\<lparr>tripStates := (tripStates s)(k := Some (Parsed (stringify_state st)))\<rparr>)"

definition recordLocation ::
  "trip_env \<Rightarrow> string \<Rightarrow> string \<Rightarrow> client_type \<Rightarrow> location \<Rightarrow> (jsnum \<times> jsnum) weff" where
  "recordLocation env k clientId role loc =
     bindE (getState k) (\<lambda>st.
       let previous = (if role = DRIVER then lastDriverLocation st else lastRiderLocation st);
           delta = (case previous of
               Some p \<Rightarrow> if role = DRIVER then calculateDistanceBetweenCoordinates env p loc else Fin 0
             | None \<Rightarrow> Fin 0);
           total = (if role = DRIVER then js_add (totalDistanceMeters st) delta
                    else totalDistanceMeters st);
           updated = st\<lparr>totalDistanceMeters := total,
             lastDriverLocation := (if role = DRIVER then Some loc else lastDriverLocation st),
             lastRiderLocation := (if role = RIDER then Some loc else lastRiderLocation st)\<rparr>;
           event = \<lparr>ev_role = role, ev_clientId = clientId, ev_location = loc,
             distanceDeltaMeters = delta, ev_totalDistanceMeters = json_number total\<rparr>
       in thenE (setState k updated)
         (thenE (writeE (\<lambda>s. s\<lparr>tripActive := List.insert k (tripActive s)\<rparr>))
         (thenE (writeE (\<lambda>s. s\<lparr>tripEvents := (tripEvents s)(k := tripEvents s k @ [Parsed event])\<rparr>))
           (returnE (total, delta)))))"

definition getLatestLocation :: "string \<Rightarrow> client_type \<Rightarrow> location option weff" where
  "getLatestLocation k role =
     bindE (getState k) (\<lambda>st.
       returnE (if role = DRIVER then lastDriverLocation st else lastRiderLocation st))"

definition getTotalDistanceMeters :: "string \<Rightarrow> jsnum weff" where
  "getTotalDistanceMeters k = bindE (getState k) (\<lambda>st. returnE (totalDistanceMeters st))"

section \<open>Completion\<close>

definition str_includes :: "string \<Rightarrow> string \<Rightarrow> bool" where
  "str_includes part cs \<longleftrightarrow> (\<exists>i \<in> set [0..<Suc (length cs)]. take (length part) (drop i cs) = part)"

definition isJobIdAlreadyExistsError :: "string \<times> string \<Rightarrow> bool" where
  "isJobIdAlreadyExistsError err \<longleftrightarrow>
     fst err = ''JobIdAlreadyExistsError'' \<or> str_includes ''JobIdAlreadyExists'' (snd err)"

definition flushRideJobId :: "string \<Rightarrow> string" where
  "flushRideJobId k = ''trip-tracking:flush-ride:'' @ k"

definition enqueueFlushRideJob :: "trip_env \<Rightarrow> string \<Rightarrow> unit weff" where
  "enqueueFlushRideJob env k =
     (case trip_add_error env k of
        None \<Rightarrow> writeE (\<lambda>s. s\<lparr>tripJobs := List.insert k (tripJobs s)\<rparr>)
      | Some err \<Rightarrow> if isJobIdAlreadyExistsError err then returnE () else throwE (JsError (snd err)))"

definition markRideCompleted :: "trip_env \<Rightarrow> string \<Rightarrow> unit weff" where
  "markRideCompleted env k =
     bindE (getState k) (\<lambda>st.
       if \<not> trip_completed st
       then thenE (setState k (st\<lparr>trip_completed := True\<rparr>)) (enqueueFlushRideJob env k)
       else returnE ())"

section \<open>The repositories of tracks and summaries\<close>

definition upsertSummary :: "trip_summary list \<Rightarrow> trip_summary \<Rightarrow> trip_summary list" where
  "upsertSummary rows x =
     (if \<exists>r \<in> set rows. ts_rideId r = ts_rideId x \<and> ts_clientRole r = ts_clientRole x
      then map (\<lambda>r. if ts_rideId r = ts_rideId x \<and> ts_clientRole r = ts_clientRole x then x else r) rows
      else rows @ [x])"

definition upsertSummaries :: "trip_summary list \<Rightarrow> unit weff" where
  "upsertSummaries xs =
     writeE (\<lambda>s. s\<lparr>tripSummaries := foldl upsertSummary (tripSummaries s) xs\<rparr>)"

definition persistFlush :: "trip_env \<Rightarrow> trip_track list \<Rightarrow> trip_summary list \<Rightarrow> unit weff" where
  "persistFlush env entries summaries =
     (if entries = [] \<and> summaries = [] then returnE ()
      else transactE
        (thenE (whenE (entries \<noteq> []) (writeE (\<lambda>s. s\<lparr>tripTracks := tripTracks s @ entries\<rparr>)))
        (thenE (whenE (summaries \<noteq> []) (upsertSummaries summaries))
          (case persist_error env of None \<Rightarrow> returnE () | Some e \<Rightarrow> throwE e))))"

section \<open>Flushing\<close>

definition track_of :: "string \<Rightarrow> track_event \<Rightarrow> trip_track" where
  "track_of k e =
     \<lparr>tt_rideId = k, tt_clientId = ev_clientId e, tt_clientRole = ev_role e,
      tt_longitude = longitude (ev_location e), tt_latitude = latitude (ev_location e),
      tt_distanceDeltaMeters = distanceDeltaMeters e,
      tt_totalDistanceMeters = ev_totalDistanceMeters e,
      tt_recordedAt = recordedAt (ev_location e)\<rparr>"

definition summary_of :: "string \<Rightarrow> track_event \<Rightarrow> trip_summary" where
  "summary_of k e =
     \<lparr>ts_rideId = k, ts_clientId = ev_clientId e, ts_clientRole = ev_role e,
      locationPayload = ev_location e,
      ts_totalDistanceMeters =
        (if ev_role e = DRIVER then
           (case ev_totalDistanceMeters e of
              Some x \<Rightarrow> if is_finite x then Some x else None
            | None \<Rightarrow> None)
         else None)\<rparr>"

text \<open>\<open>Map.set\<close>: an existing key keeps its place.\<close>

fun map_set :: "'k \<Rightarrow> 'v \<Rightarrow> ('k \<times> 'v) list \<Rightarrow> ('k \<times> 'v) list" where
  "map_set k v [] = [(k, v)]"
| "map_set k v ((k', v') # kvs) = (if k' = k then (k, v) # kvs else (k', v') # map_set k v kvs)"

fun flush_step ::
  "string \<Rightarrow> trip_track list \<times> (client_type \<times> trip_summary) list \<Rightarrow> track_event stored \<Rightarrow>
    trip_track list \<times> (client_type \<times> trip_summary) list" where
  "flush_step k (entries, summaries) (Parsed e) =
     (entries @ [track_of k e], map_set (ev_role e) (summary_of k e) summaries)"
| "flush_step k (entries, summaries) Unparsable = (entries, summaries)"

definition cleanupRide :: "string \<Rightarrow> unit weff" where
  "cleanupRide k =
     writeE (\<lambda>s. s\<lparr>tripStates := (tripStates s)(k := None), tripEvents := (tripEvents s)(k := []),
                   tripActive := removeAll k (tripActive s)\<rparr>)"

definition flushRide :: "trip_env \<Rightarrow> string \<Rightarrow> unit weff" where
  "flushRide env k =
     bindE (readE (\<lambda>s. tripEvents s k)) (\<lambda>payloads.
       if payloads = []
       then bindE (getState k) (\<lambda>st. whenE (trip_completed st) (cleanupRide k))
       else thenE (writeE (\<lambda>s. s\<lparr>tripEvents := (tripEvents s)(k := [])\<rparr>))
         (let (entries, summaries) = foldl (flush_step k) ([], []) payloads
          in thenE (persistFlush env entries (map snd summaries))
            (bindE (getState k) (\<lambda>st.
              whenE (trip_completed st)
                (bindE (readE (\<lambda>s. length (tripEvents s k))) (\<lambda>remaining.
                  whenE (remaining = 0) (cleanupRide k)))))))"

definition flushAll :: "trip_env \<Rightarrow> unit weff" where
  "flushAll env =
     bindE (readE tripActive) (\<lambda>ks.
       if ks = [] then returnE ()
       else forE (\<lambda>k. catchE (flushRide env k) (\<lambda>_. returnE ())) ks)"

text \<open>The processor of the queue: its job names, a flush job without ride id is dropped.\<close>

datatype trip_job = FlushAllJob | FlushRideJob "string option" | UnknownTripJob

fun processTripJob :: "trip_env \<Rightarrow> trip_job \<Rightarrow> unit weff" where
  "processTripJob env FlushAllJob = flushAll env"
| "processTripJob env (FlushRideJob k) = (if truthy k then flushRide env (the k) else returnE ())"
| "processTripJob env UnknownTripJob = returnE ()"

end
