(* ===== verification/Rides_Tracking.thy ===== *)
theory Rides_Tracking
  imports Rides_Management Trip_Tracking
begin

text \<open>
  \<open>RidesTrackingService\<close> (\<open>rides/domain/services/rides-tracking.service.ts\<close>): starting a
  trip, recording a location, completing a ride with its fare.
\<close>

section \<open>Environment and proximity\<close>

record track_env =
  trips :: trip_env
  fares :: fare_engine
  tripStartProximityMeters :: jsnum
  tripCompletionProximityMeters :: jsnum

definition new_track_env :: "trip_env \<Rightarrow> config \<Rightarrow> track_env" where
  "new_track_env env cfg =
     \<lparr>trips = env, fares = new_fare_engine cfg,
      tripStartProximityMeters = getNumberConfig cfg ''TRIP_START_PROXIMITY_METERS'' (Fin 20),
      tripCompletionProximityMeters = getNumberConfig cfg ''TRIP_COMPLETION_PROXIMITY_METERS'' (Fin 20)\<rparr>"

definition ensureLocationWithinRadius ::
  "track_env \<Rightarrow> location \<Rightarrow> jsnum \<times> jsnum \<Rightarrow> jsnum \<Rightarrow> string \<Rightarrow> unit weff" where
  "ensureLocationWithinRadius env loc point radius msg =
     (if js_lt radius
           (calculateDistanceMeters (trips env) (longitude loc) (latitude loc) (fst point) (snd point))
      then throwE (BadRequest msg) else returnE ())"

definition ensureParticipantsAreNearby ::
  "track_env \<Rightarrow> location \<Rightarrow> location \<Rightarrow> jsnum \<Rightarrow> string \<Rightarrow> unit weff" where
  "ensureParticipantsAreNearby env first second radius msg =
     (if js_lt radius
           (calculateDistanceMeters (trips env) (longitude first) (latitude first)
              (longitude second) (latitude second))
      then throwE (BadRequest msg) else returnE ())"

section \<open>Starting a trip\<close>

definition startRide :: "track_env \<Rightarrow> string \<Rightarrow> string \<Rightarrow> location \<Rightarrow> ride weff" where
  "startRide env k driver loc =
     (if driver = [] then throwE (BadRequest ''Driver id is required to start a ride'')
      else bindE (findRideById k) (\<lambda>found. case found of
          None \<Rightarrow> throwE (NotFound ''Ride not found'')
        | Some r \<Rightarrow>
            if driverId r \<noteq> Some driver then throwE (NotFound ''Ride not found'')
            else if status r = CANCELED then throwE (BadRequest ''Cancelled ride cannot be started'')
            else if status r = COMPLETED then throwE (BadRequest ''Completed ride cannot be started'')
            else if status r \<notin> {ENROUTE, TRIP_STARTED}
            then throwE (BadRequest ''Ride is not ready to start'')
            else bindE (getLatestLocation (ride_id r) RIDER) (\<lambda>riderLoc. case riderLoc of
                None \<Rightarrow> throwE (BadRequest
                  ''Rider location not available. Please wait for rider to share location.'')
              | Some rloc \<Rightarrow>
                  (let pickup = (pickupLongitude r, pickupLatitude r);
                       radius = tripStartProximityMeters env
                   in thenE (ensureLocationWithinRadius env loc pickup radius
                              ''Driver must be at pickup location to start the trip.'')
                     (thenE (ensureLocationWithinRadius env rloc pickup radius
                              ''Rider is not at pickup location. Please confirm rider arrival.'')
                     (thenE (ensureParticipantsAreNearby env loc rloc radius
                              ''Driver and rider must be at the same pickup point to start the trip.'')
                     (bindE (recordLocation (trips env) (ride_id r) driver DRIVER loc) (\<lambda>_.
                      bindE (transitionRideStatus (ride_id r) [ENROUTE, TRIP_STARTED] TRIP_STARTED
                               (Some ''Driver started the trip'')) (\<lambda>(updated, changed).
                      bindE (refresh (ride_id updated) updated) (\<lambda>current.
                      thenE (whenE changed (notifyRideStarted current))
                        (returnE current)))))))))))"

section \<open>Recording a location\<close>

definition recordTripLocation ::
  "track_env \<Rightarrow> string \<Rightarrow> requesting_client \<Rightarrow> location \<Rightarrow> unit weff" where
  "recordTripLocation env k req loc =
     (if req_id req = [] then throwE (BadRequest ''Requester identifier is required'')
      else bindE (findRideById k) (\<lambda>found. case found of
          None \<Rightarrow> throwE (NotFound ''Ride not found'')
        | Some r \<Rightarrow>
            thenE (liftE (ensureRequesterCanAccessRide r req))
              (if status r = CANCELED then throwE (BadRequest ''Cancelled ride cannot be tracked'')
               else if status r = COMPLETED
               then throwE (BadRequest ''Completed ride cannot be tracked'')
               else case req_role req of
                   None \<Rightarrow> throwE (BadRequest ''Client role required'')
                 | Some DRIVER \<Rightarrow>
                     if driverId r \<noteq> Some (req_id req) then throwE (NotFound ''Ride not found'')
                     else bindE (recordLocation (trips env) (ride_id r) (req_id req) DRIVER loc)
                            (\<lambda>_. returnE ())
                 | Some RIDER \<Rightarrow>
                     bindE (recordLocation (trips env) (ride_id r) (riderId r) RIDER loc)
                       (\<lambda>_. returnE ()))))"

section \<open>Completing a ride\<close>

text \<open>The distance that is charged: the tracked one, or what the ride already has.\<close>

definition chargedDistanceKm :: "jsnum \<Rightarrow> ride \<Rightarrow> jsnum" where
  "chargedDistanceKm totalMeters r =
     (let km = js_div totalMeters (Fin 1000)
      in if \<not> is_finite km \<or> js_le km (Fin 0)
         then (case distanceActualKm r of
                 Some x \<Rightarrow> x
               | None \<Rightarrow> (case distanceEstimatedKm r of Some x \<Rightarrow> x | None \<Rightarrow> Fin 0))
         else km)"

definition with_fare :: "fare_result \<Rightarrow> ride \<Rightarrow> ride" where
  "with_fare fare r =
     r\<lparr>distanceActualKm := Some (roundedDistanceKm fare),
       ride_discountPercent := Some (discountPercent fare),
       ride_discountAmount := Some (to_fixed 2 (discountAmount fare)),
       fareFinal := Some (to_fixed 2 (finalFare fare)),
       ride_appFeeAmount := Some (to_fixed 2 (appFeeAmount fare)),
       paymentStatus := Some PayPending,
       paymentUrl := None\<rparr>"

definition fare_summary_of :: "fare_result \<Rightarrow> fare_summary" where
  "fare_summary_of fare =
     \<lparr>fs_baseFare = to_fixed 2 (baseFare fare), fs_discountPercent = discountPercent fare,
      fs_discountAmount = to_fixed 2 (discountAmount fare),
      fs_finalFare = to_fixed 2 (finalFare fare), fs_appFee = to_fixed 2 (appFeeAmount fare)\<rparr>"

text \<open>The status change, the fare on the ride and the notification, once the fare is known.\<close>

definition finishRide :: "track_env \<Rightarrow> string \<Rightarrow> fare_result \<Rightarrow> ride weff" where
  "finishRide env k fare =
     bindE (transitionRideStatus k [ENROUTE, ACCEPTED, ASSIGNED, TRIP_STARTED] COMPLETED
              (Some ''Driver marked the ride as completed'')) (\<lambda>(updated, _).
     thenE (markRideCompleted (trips env) k)
    (bindE (updateRide (with_fare fare updated)) (\<lambda>saved.
     bindE (refresh (ride_id saved) saved) (\<lambda>refreshed.
     thenE (notifyRideCompleted refreshed (fare_summary_of fare))
       (returnE refreshed)))))"

definition completeRide ::
  "track_env \<Rightarrow> string \<Rightarrow> requesting_client \<Rightarrow> location \<Rightarrow> jsnum option \<Rightarrow> ride weff" where
  "completeRide env k req loc discount =
     (if req_id req = [] then throwE (BadRequest ''Requester identifier is required'')
      else bindE (findRideById k) (\<lambda>found. case found of
          None \<Rightarrow> throwE (NotFound ''Ride not found'')
        | Some r \<Rightarrow>
            if driverId r \<noteq> Some (req_id req) then throwE (NotFound ''Ride not found'')
            else if status r = CANCELED then throwE (BadRequest ''Cancelled ride cannot be completed'')
            else if status r = COMPLETED then throwE (BadRequest ''Ride already completed'')
            else bindE (getLatestLocation (ride_id r) RIDER) (\<lambda>riderLoc. case riderLoc of
                None \<Rightarrow> throwE (BadRequest
                  ''Unable to complete ride without rider location confirmation.'')
              | Some rloc \<Rightarrow>
                  (let dropoff = (dropoffLongitude r, dropoffLatitude r);
                       radius = tripCompletionProximityMeters env
                   in thenE (ensureLocationWithinRadius env loc dropoff radius
                              ''Driver must arrive at the destination to complete the ride.'')
                     (thenE (ensureLocationWithinRadius env rloc dropoff radius
                              ''Rider location does not match destination.'')
                     (thenE (ensureParticipantsAreNearby env loc rloc radius
                              ''Driver and rider must be at the destination together to complete the ride.'')
                     (thenE (whenE (truthy (driverId r))
                              (bindE (recordLocation (trips env) (ride_id r) (the (driverId r)) DRIVER loc)
                                 (\<lambda>_. returnE ())))
                     (bindE (getTotalDistanceMeters (ride_id r)) (\<lambda>totalMeters.
                      bindE (liftE (calculateFare (fares env) (chargedDistanceKm totalMeters r) discount))
                        (\<lambda>fare.
                      finishRide env (ride_id r) fare))))))))))"

end
