(* ===== verification/Payment_Repositories.thy ===== *)
theory Payment_Repositories
  imports Ride_Repositories
begin

text \<open>
  The repositories of the payment: \<open>ride-payment-detail.repository.ts\<close>,
  \<open>payment-outbox.repository.ts\<close>, \<open>ride-payment.repository.ts\<close> and
  \<open>payment-ip-whitelist.repository.ts\<close>.

  An UPDATE that must hit a row is checked by the length of what \<open>query\<close> returns. How
  TypeORM shapes that result for an UPDATE is outside the repository, so \<open>update_len n\<close>,
  the length of the result of an UPDATE that changed \<open>n\<close> rows, is a parameter.
\<close>

type_synonym update_len = "nat \<Rightarrow> nat"

section \<open>RidePaymentDetailRepository\<close>

text \<open>A detail that was never stored has no id and no creation time.\<close>

definition create_detail :: "string \<Rightarrow> string \<Rightarrow> detail_status \<Rightarrow> payment_detail" where
  "create_detail k prov st =
     \<lparr>pd_id = [], pd_rideId = k, provider = prov, pd_status = st, token = None,
      redirectUrl = None, orderId = None, providerTransactionId = None, requestPayload = None,
      responsePayload = None, notificationPayload = None, pd_createdAt = 0, pd_updatedAt = 0\<rparr>"

definition findDetailById :: "string \<Rightarrow> payment_detail option weff" where
  "findDetailById i = readE (\<lambda>s. row_find pd_id i (details s))"

definition findDetailByRideId :: "string \<Rightarrow> payment_detail option weff" where
  "findDetailByRideId k = readE (\<lambda>s. row_find pd_rideId k (details s))"

definition findDetailByOrderId :: "string \<Rightarrow> payment_detail option weff" where
  "findDetailByOrderId oid = readE (\<lambda>s. row_find orderId (Some oid) (details s))"

text \<open>INSERT ... ON CONFLICT (ride_id) DO UPDATE, returning the stored row.\<close>

definition persistDetail :: "payment_detail \<Rightarrow> payment_detail weff" where
  "persistDetail d = (\<lambda>s.
     case row_find pd_rideId (pd_rideId d) (details s) of
       Some cur \<Rightarrow>
         (let row = d\<lparr>pd_id := pd_id cur, pd_createdAt := pd_createdAt cur, pd_updatedAt := clock s\<rparr>
          in (Inr row, s\<lparr>details := row_put pd_rideId row (details s)\<rparr>))
     | None \<Rightarrow>
         (let row = d\<lparr>pd_id := show_nat (detailSeq s),
                      pd_createdAt := (if pd_id d = [] then clock s else pd_createdAt d),
                      pd_updatedAt := clock s\<rparr>
          in (Inr row, s\<lparr>details := details s @ [row], detailSeq := Suc (detailSeq s)\<rparr>)))"

definition saveDetail :: "payment_detail \<Rightarrow> payment_detail weff" where
  "saveDetail d = persistDetail d"

record ride_payment_update =
  ru_rideId :: string
  ru_paymentStatus :: "payment_status option"
  ru_paymentUrl :: "string option"

record outbox_update =
  ou_rideId :: string
  ou_paymentDetailId :: string
  ou_orderId :: string
  ou_status :: outbox_status
  ou_lastError :: "string option"
  ou_setProcessedAt :: bool

definition put_payment_state :: "payment_status option \<Rightarrow> string option \<Rightarrow> int \<Rightarrow> ride \<Rightarrow> ride" where
  "put_payment_state st url now r = r\<lparr>paymentStatus := st, paymentUrl := url, updatedAt := now\<rparr>"

definition updateRidePayment ::
  "update_len \<Rightarrow> string \<Rightarrow> payment_status option \<Rightarrow> string option \<Rightarrow> string \<Rightarrow> unit weff" where
  "updateRidePayment ulen k st url msg =
     bindE (readE (\<lambda>s. (clock s, row_find ride_id k (rides s)))) (\<lambda>(now, found).
       thenE (case found of
                None \<Rightarrow> returnE ()
              | Some r \<Rightarrow> writeE (\<lambda>s. s\<lparr>rides := row_put ride_id (put_payment_state st url now r) (rides s)\<rparr>))
         (if ulen (if found = None then 0 else 1) = 0 then throwE (JsError msg) else returnE ()))"

definition outbox_matches :: "outbox_update \<Rightarrow> payment_outbox \<Rightarrow> bool" where
  "outbox_matches u ob \<longleftrightarrow> ob_orderId ob = ou_orderId u \<and> ob_rideId ob = ou_rideId u \<and>
     paymentDetailId ob = ou_paymentDetailId u"

definition apply_outbox_update :: "outbox_update \<Rightarrow> int \<Rightarrow> payment_outbox \<Rightarrow> payment_outbox" where
  "apply_outbox_update u now ob =
     (if outbox_matches u ob
      then ob\<lparr>ob_status := ou_status u, lastError := ou_lastError u,
             processedAt := (if ou_setProcessedAt u then Some now else processedAt ob),
             ob_updatedAt := now\<rparr>
      else ob)"

definition updateOutboxes :: "update_len \<Rightarrow> outbox_update \<Rightarrow> unit weff" where
  "updateOutboxes ulen u =
     bindE (readE (\<lambda>s. length (filter (outbox_matches u) (outboxes s)))) (\<lambda>n.
       thenE (writeE (\<lambda>s. s\<lparr>outboxes := map (apply_outbox_update u (clock s)) (outboxes s)\<rparr>))
         (if ulen n = 0
          then throwE (JsError ''Payment outbox entry not found while updating status'')
          else returnE ()))"

definition saveDetailWithRideUpdate ::
  "update_len \<Rightarrow> payment_detail \<Rightarrow> ride_payment_update option \<Rightarrow> outbox_update option \<Rightarrow>
    payment_detail weff" where
  "saveDetailWithRideUpdate ulen d ru ou =
     transactE (bindE (persistDetail d) (\<lambda>saved.
       thenE (case ru of
                None \<Rightarrow> returnE ()
              | Some u \<Rightarrow> updateRidePayment ulen (ru_rideId u) (ru_paymentStatus u) (ru_paymentUrl u)
                           ''Ride not found while updating payment status'')
      (thenE (case ou of None \<Rightarrow> returnE () | Some u \<Rightarrow> updateOutboxes ulen u)
        (returnE saved))))"

section \<open>PaymentOutboxRepository\<close>

definition findOutboxById :: "string \<Rightarrow> payment_outbox option weff" where
  "findOutboxById i = readE (\<lambda>s. row_find ob_id i (outboxes s))"

definition findLatestPendingByRide :: "string \<Rightarrow> payment_outbox option weff" where
  "findLatestPendingByRide k =
     readE (\<lambda>s. newest ob_createdAt
       (filter (\<lambda>ob. ob_rideId ob = k \<and> ob_status ob = OPending) (outboxes s)))"

definition saveOutbox :: "payment_outbox \<Rightarrow> payment_outbox weff" where
  "saveOutbox ob =
     (if ob_id ob = [] then throwE (JsError ''Outbox id is required for updates'')
      else (\<lambda>s. case row_find ob_id (ob_id ob) (outboxes s) of
          Some cur \<Rightarrow>
            (let row = cur\<lparr>ob_status := ob_status ob, attempts := attempts ob, jobId := jobId ob,
                           ob_requestPayload := ob_requestPayload ob, lastError := lastError ob,
                           lastAttemptedAt := lastAttemptedAt ob, processedAt := processedAt ob,
                           ob_updatedAt := clock s\<rparr>
             in (Inr row, s\<lparr>outboxes := row_put ob_id row (outboxes s)\<rparr>))
        | None \<Rightarrow>
            (let row = ob\<lparr>ob_updatedAt := clock s\<rparr>
             in (Inr row, s\<lparr>outboxes := outboxes s @ [row]\<rparr>))))"

definition insertOutboxRow ::
  "string \<Rightarrow> string \<Rightarrow> string \<Rightarrow> outbox_status \<Rightarrow> request_payload \<Rightarrow> payment_outbox weff" where
  "insertOutboxRow k detailId oid st req = (\<lambda>s.
     let row = \<lparr>ob_id = show_nat (outboxSeq s), ob_rideId = k, paymentDetailId = detailId,
                ob_orderId = oid, ob_status = st, attempts = 0, jobId = None,
                ob_requestPayload = req, lastError = None, lastAttemptedAt = None,
                processedAt = None, ob_createdAt = clock s, ob_updatedAt = clock s\<rparr>
     in (Inr row, s\<lparr>outboxes := outboxes s @ [row], outboxSeq := Suc (outboxSeq s)\<rparr>))"

definition saveDetailAndOutbox ::
  "payment_detail \<Rightarrow> string \<Rightarrow> request_payload \<Rightarrow> outbox_status \<Rightarrow>
    (payment_detail \<times> payment_outbox) weff" where
  "saveDetailAndOutbox d oid req st =
     transactE (bindE (saveDetail d) (\<lambda>saved.
       bindE (insertOutboxRow (pd_rideId saved) (pd_id saved) oid st req) (\<lambda>ob.
         returnE (saved, ob))))"

section \<open>RidePaymentRepository and the whitelist\<close>

text \<open>The query selects neither the note, the cancel reason nor the deletion time.\<close>

definition payment_view :: "ride \<Rightarrow> ride" where
  "payment_view r = r\<lparr>ride_note := None, cancelReason := None, deletedAt := None\<rparr>"

definition findRideForPayment :: "string \<Rightarrow> ride option weff" where
  "findRideForPayment k = readE (\<lambda>s. map_option payment_view (row_find ride_id k (rides s)))"

definition updatePaymentState ::
  "update_len \<Rightarrow> string \<Rightarrow> payment_status option \<Rightarrow> string option \<Rightarrow> unit weff" where
  "updatePaymentState ulen k st url =
     updateRidePayment ulen k st url ''Ride not found while updating payment state''"

definition isIpAllowed :: "string list \<Rightarrow> bool weff" where
  "isIpAllowed addresses =
     (let cands = remdups (filter (\<lambda>a. a \<noteq> []) addresses)
      in if cands = [] then returnE False
         else readE (\<lambda>s. \<exists>a \<in> set (whitelist s). a \<in> set cands))"

section \<open>The tables keep the contract of a row store\<close>

interpretation detail_rows: row_store_insert
    "row_find pd_rideId" "row_put pd_rideId" pd_rideId "\<lambda>d ds. ds @ [d]"
  by unfold_locales (auto simp: row_find_put row_find_append dest: row_find_SomeD split: option.splits)

interpretation outbox_rows: row_store_insert
    "row_find ob_id" "row_put ob_id" ob_id "\<lambda>ob os. os @ [ob]"
  by unfold_locales (auto simp: row_find_put row_find_append dest: row_find_SomeD split: option.splits)

text \<open>Persisting a detail and reading it back by its ride: an upsert followed by a lookup.\<close>

lemma persistDetail_lookup:
  "\<exists>row s'. persistDetail d s = (Inr row, s') \<and> pd_rideId row = pd_rideId d \<and>
     (\<forall>k. row_find pd_rideId k (details s') =
        (if k = pd_rideId d then Some row else row_find pd_rideId k (details s)))"
proof (cases "row_find pd_rideId (pd_rideId d) (details s)")
  case None
  let ?row = "d\<lparr>pd_id := show_nat (detailSeq s),
    pd_createdAt := (if pd_id d = [] then clock s else pd_createdAt d), pd_updatedAt := clock s\<rparr>"
  have "pd_rideId ?row = pd_rideId d" by simp
  then show ?thesis
    using None detail_rows.lookup_insert [of ?row "details s"]
    by (auto simp: persistDetail_def Let_def)
next
  case (Some cur)
  let ?row = "d\<lparr>pd_id := pd_id cur, pd_createdAt := pd_createdAt cur, pd_updatedAt := clock s\<rparr>"
  have "pd_rideId ?row = pd_rideId d" by simp
  then show ?thesis
    using Some detail_rows.lookup_store_same [of ?row "details s"]
      detail_rows.lookup_store_other [of _ ?row "details s"]
    by (auto simp: persistDetail_def Let_def)
qed

end
