(* ===== verification/Payment.thy ===== *)
theory Payment
  imports Ride_Notification Payment_Repositories
begin

text \<open>
  \<open>PaymentService\<close> (\<open>rides/domain/services/payment.service.ts\<close>) and \<open>RidesPaymentService\<close>
  (\<open>rides-payment.service.ts\<close>): initiating a payment through the outbox and its queue,
  processing an outbox entry against the payment provider, and the provider's notifications.

  Outside the repository, and so in \<open>pay_env\<close>: the configuration, the provider's reply to
  the \<open>n\<close>-th attempt of an entry, the ULID generator, how many attempts the queue's worker
  makes while the service waits for a job, and the shape of UPDATE results.
\<close>

section \<open>Environment\<close>

datatype psp_reply =
    PspOk "(string \<times> json) list option"
  | PspHttpError "nat option" string
  | PspError string
  | PspUnknown

record pay_env =
  paymentApiUrl :: "string option"
  paymentApiKey :: "string option"
  paymentProvider :: string
  psp :: "string \<Rightarrow> nat \<Rightarrow> request_payload \<Rightarrow> psp_reply"
  ulid :: "int \<Rightarrow> string"
  worker_attempts :: "string \<Rightarrow> nat"
  update_result :: "nat \<Rightarrow> nat"

definition payment_queue_attempts :: nat where
  "payment_queue_attempts = 5"

definition ensurePaymentConfiguration :: "pay_env \<Rightarrow> exn + unit" where
  "ensurePaymentConfiguration env =
     (if \<not> truthy (paymentApiUrl env) \<or> \<not> truthy (paymentApiKey env) \<or> paymentProvider env = []
      then Inl (BadRequest ''Payment service is not configured'') else Inr ())"

section \<open>Amounts\<close>

definition parseCurrency :: "numtext option \<Rightarrow> jsnum" where
  "parseCurrency v =
     (case v of
        None \<Rightarrow> Fin 0
      | Some t \<Rightarrow> let parsed = number_of_text t in if is_finite parsed then parsed else Fin 0)"

definition roundCurrency :: "jsnum \<Rightarrow> jsnum" where
  "roundCurrency v =
     (if \<not> is_finite v then Fin 0 else js_div (js_round (js_mul v (Fin 100))) (Fin 100))"

definition buildPaymentRequestPayload :: "ride \<Rightarrow> string \<Rightarrow> exn + request_payload" where
  "buildPaymentRequestPayload r oid =
     (let grossAmount = roundCurrency (parseCurrency (fareFinal r))
      in if js_le grossAmount (Fin 0)
         then Inl (BadRequest ''Ride does not have a payable amount'')
         else Inr \<lparr>order_id = oid, gross_amount = grossAmount,
                   first_name = ''rider_'' @ riderId r, email = riderId r @ ''@example.com'',
                   phone = riderId r\<rparr>)"

section \<open>Statuses\<close>

definition all_detail_statuses :: "detail_status list" where
  "all_detail_statuses =
     [DPending, DQueued, DInitiated, DFailed, DCapture, DSettlement, DSuccess, DCompleted,
      DDeny, DCancel, DCancelled, DExpired, DExpire, DFailure, DAuthorized, DAuthorize,
      DChallenge, DUnknown]"

definition to_lower :: "char \<Rightarrow> char" where
  "to_lower c =
     (case map_of (zip ''ABCDEFGHIJKLMNOPQRSTUVWXYZ'' ''abcdefghijklmnopqrstuvwxyz'') c of
        None \<Rightarrow> c | Some l \<Rightarrow> l)"

definition normalizePaymentStatus :: "string option \<Rightarrow> detail_status" where
  "normalizePaymentStatus st =
     (let normalized = (case st of None \<Rightarrow> detail_status_text DUnknown | Some t \<Rightarrow> map to_lower t)
      in case List.find (\<lambda>d. detail_status_text d = normalized) all_detail_statuses of
           Some d \<Rightarrow> d | None \<Rightarrow> DUnknown)"

definition isSuccessfulPaymentStatus :: "detail_status \<Rightarrow> bool" where
  "isSuccessfulPaymentStatus st \<longleftrightarrow> st \<in> {DCapture, DSettlement, DSuccess, DCompleted}"

definition isFinalFailureStatus :: "detail_status \<Rightarrow> bool" where
  "isFinalFailureStatus st \<longleftrightarrow>
     st \<in> {DDeny, DCancel, DCancelled, DExpired, DExpire, DFailure, DFailed}"

definition isPendingPaymentStatus :: "detail_status \<Rightarrow> bool" where
  "isPendingPaymentStatus st \<longleftrightarrow> st \<in> {DPending, DAuthorize, DAuthorized, DChallenge}"

definition buildOutboxUpdateForStatus ::
  "detail_status \<Rightarrow> bool \<Rightarrow> (outbox_status \<times> bool \<times> string option) option" where
  "buildOutboxUpdateForStatus st paid =
     (if isSuccessfulPaymentStatus st then Some (OCompleted, True, None)
      else if isFinalFailureStatus st
      then Some (OFailed, True, Some (''Payment failed with status '' @ detail_status_text st))
      else if isPendingPaymentStatus st then Some (OProcessing, False, None)
      else if \<not> paid
      then Some (OFailed, True, Some (''Payment resulted in status '' @ detail_status_text st))
      else None)"

section \<open>Processing an outbox entry\<close>

definition extractResponseString :: "(string \<times> json) list option \<Rightarrow> string \<Rightarrow> string option" where
  "extractResponseString payload key =
     (case payload of
        None \<Rightarrow> None
      | Some members \<Rightarrow>
          (case map_of members key of Some (JString v) \<Rightarrow> Some v | _ \<Rightarrow> None))"

fun describePaymentError :: "psp_reply \<Rightarrow> string" where
  "describePaymentError (PspHttpError st data) =
     ''Payment API request failed ('' @
       (case st of None \<Rightarrow> ''unknown status'' | Some n \<Rightarrow> show_nat n) @ ''): '' @ data"
| "describePaymentError (PspError m) = ''Payment API request failed: '' @ m"
| "describePaymentError _ = ''Payment API request failed with unknown error''"

record payment_job_result =
  pj_paymentDetailId :: string
  pj_status :: detail_status
  pj_token :: "string option"
  pj_redirectUrl :: "string option"

definition processOutbox :: "pay_env \<Rightarrow> string \<Rightarrow> payment_job_result weff" where
  "processOutbox env outboxId =
     thenE (liftE (ensurePaymentConfiguration env))
    (bindE (findOutboxById outboxId) (\<lambda>found. case found of
         None \<Rightarrow> throwE (JsError (''Payment outbox entry '' @ outboxId @ '' not found''))
       | Some ob \<Rightarrow> bindE (findDetailById (paymentDetailId ob)) (\<lambda>dfound. case dfound of
           None \<Rightarrow> throwE (JsError (''Payment detail '' @ paymentDetailId ob @ '' not found for outbox '' @ outboxId))
         | Some d \<Rightarrow> bindE (readE clock) (\<lambda>now.
             let ob1 = ob\<lparr>ob_status := OProcessing, attempts := attempts ob + 1,
                         lastAttemptedAt := Some now\<rparr>
             in bindE (saveOutbox ob1) (\<lambda>_.
                case psp env outboxId (attempts ob1) (ob_requestPayload ob1) of
                  PspOk response \<Rightarrow>
                    (let d1 = d\<lparr>pd_status := DInitiated, responsePayload := response,
                               requestPayload := Some (ob_requestPayload ob1),
                               orderId := Some (ob_orderId ob1),
                               token := extractResponseString response ''token'',
                               redirectUrl := extractResponseString response ''redirect_url''\<rparr>
                     in bindE (saveDetail d1) (\<lambda>saved.
                        bindE (saveOutbox (ob1\<lparr>ob_status := OCompleted, lastError := None,
                                               processedAt := Some now\<rparr>)) (\<lambda>_.
                          returnE \<lparr>pj_paymentDetailId = pd_id saved, pj_status = pd_status saved,
                                   pj_token = token saved, pj_redirectUrl = redirectUrl saved\<rparr>)))
                | err \<Rightarrow>
                    (let message = describePaymentError err
                     in bindE (saveOutbox (ob1\<lparr>ob_status := OFailed, lastError := Some message\<rparr>)) (\<lambda>_.
                        bindE (saveDetail (d\<lparr>pd_status := DFailed, responsePayload := None\<rparr>)) (\<lambda>_.
                          throwE (JsError message)))))))))"

text \<open>
  The queue's worker: it runs \<open>processOutbox\<close> again after a failure, up to the configured
  number of attempts; the result is whether an attempt succeeded.
\<close>

fun runPaymentJob :: "pay_env \<Rightarrow> nat \<Rightarrow> string \<Rightarrow> bool weff" where
  "runPaymentJob env 0 outboxId = returnE False"
| "runPaymentJob env (Suc n) outboxId =
     catchE (thenE (processOutbox env outboxId) (returnE True)) (\<lambda>_. runPaymentJob env n outboxId)"

section \<open>Initiating a payment\<close>

definition paymentJobId :: "string \<Rightarrow> string \<Rightarrow> string" where
  "paymentJobId k outboxId = ''ride-'' @ k @ ''-payment-'' @ outboxId"

definition queued_detail :: "payment_detail \<Rightarrow> string \<Rightarrow> request_payload \<Rightarrow> payment_detail" where
  "queued_detail d oid req =
     d\<lparr>pd_status := DQueued, orderId := Some oid, requestPayload := Some req,
       responsePayload := None, token := None, redirectUrl := None\<rparr>"

definition initiatePayment :: "pay_env \<Rightarrow> ride \<Rightarrow> payment_detail weff" where
  "initiatePayment env r =
     thenE (liftE (ensurePaymentConfiguration env))
    (bindE (findDetailByRideId (ride_id r)) (\<lambda>found.
       if (case found of None \<Rightarrow> False | Some d \<Rightarrow> truthy (token d) \<and> truthy (redirectUrl d))
       then returnE (the found)
       else bindE (readE clock) (\<lambda>now.
         let d0 = (case found of
                     None \<Rightarrow> create_detail (ride_id r) (paymentProvider env) DPending
                   | Some d \<Rightarrow> d);
             oid = (case orderId d0 of None \<Rightarrow> ulid env now | Some x \<Rightarrow> x)
         in bindE (liftE (buildPaymentRequestPayload r oid)) (\<lambda>req.
            bindE (saveDetailAndOutbox (queued_detail d0 oid req) oid req OPending) (\<lambda>(d1, ob).
            thenE (writeE (\<lambda>s. s\<lparr>paymentJobs :=
                      List.insert (paymentJobId (ride_id r) (ob_id ob), ob_id ob) (paymentJobs s)\<rparr>))
           (bindE (saveOutbox (ob\<lparr>jobId := Some (paymentJobId (ride_id r) (ob_id ob))\<rparr>)) (\<lambda>_.
            bindE (runPaymentJob env (min payment_queue_attempts (worker_attempts env (ob_id ob))) (ob_id ob))
              (\<lambda>finished.
            if \<not> finished then throwE (BadRequest ''Failed to initiate payment'')
            else bindE (findDetailById (pd_id d1)) (\<lambda>refreshed. case refreshed of
                 None \<Rightarrow> throwE (BadRequest ''Payment detail not found after processing'')
               | Some d2 \<Rightarrow>
                   if \<not> truthy (redirectUrl d2)
                   then throwE (BadRequest ''Payment gateway did not return a redirect URL'')
                   else returnE d2)))))))))"

section \<open>The rider's side\<close>

record formatted_detail =
  fd_id :: string
  fd_provider :: string
  fd_status :: detail_status
  fd_token :: "string option"
  fd_redirectUrl :: "string option"
  fd_orderId :: "string option"
  fd_providerTransactionId :: "string option"

definition formatPaymentDetail :: "payment_detail option \<Rightarrow> formatted_detail option" where
  "formatPaymentDetail detail =
     map_option (\<lambda>d. \<lparr>fd_id = pd_id d, fd_provider = provider d, fd_status = pd_status d,
       fd_token = token d, fd_redirectUrl = redirectUrl d, fd_orderId = orderId d,
       fd_providerTransactionId = providerTransactionId d\<rparr>) detail"

definition proceedRidePayment ::
  "pay_env \<Rightarrow> string \<Rightarrow> string \<Rightarrow> (ride \<times> formatted_detail option) weff" where
  "proceedRidePayment env k rider =
     bindE (findRideForPayment k) (\<lambda>found. case found of
         None \<Rightarrow> throwE (NotFound ''Ride not found'')
       | Some r \<Rightarrow>
           if riderId r \<noteq> rider then throwE (Unauthorized ''Ride not available for this rider'')
           else if status r \<noteq> COMPLETED
           then throwE (BadRequest ''Ride must be completed before payment'')
           else if paymentStatus r = Some PAID
           then bindE (findDetailByRideId (ride_id r)) (\<lambda>d. returnE (r, formatPaymentDetail d))
           else bindE (initiatePayment env r) (\<lambda>d.
             thenE (updatePaymentState (update_result env) (ride_id r) (Some ON_PROCESS) (redirectUrl d))
            (bindE (findRideForPayment (ride_id r)) (\<lambda>refreshed.
               returnE (case refreshed of None \<Rightarrow> r | Some x \<Rightarrow> x, formatPaymentDetail (Some d))))))"

section \<open>The provider's notifications\<close>

definition dotted_quad :: "string \<Rightarrow> bool" where
  "dotted_quad cs \<longleftrightarrow>
     (let parts = split_on (CHR ''.'') cs
      in length parts = 4 \<and> list_all (\<lambda>w. w \<noteq> [] \<and> list_all is_digit w) parts)"

definition normalizeIpAddresses :: "string \<Rightarrow> string list" where
  "normalizeIpAddresses ip =
     (let trimmed = js_trim ip
      in if ip = [] \<or> trimmed = [] then []
         else if take 7 trimmed = ''::ffff:'' then [trimmed, drop 7 trimmed]
         else if dotted_quad trimmed then [trimmed, ''::ffff:'' @ trimmed]
         else [trimmed])"

definition applyNotification ::
  "ride \<Rightarrow> payment_notification \<Rightarrow> payment_detail \<Rightarrow>
    payment_detail \<times> bool \<times> (outbox_status \<times> bool \<times> string option) option" where
  "applyNotification r payload d =
     (let st = normalizePaymentStatus (transaction_status payload);
          d1 = d\<lparr>pd_status := st, orderId := Some (pn_order_id payload),
                 providerTransactionId := transaction_id payload,
                 notificationPayload := Some payload\<rparr>;
          paid = isSuccessfulPaymentStatus st
      in (d1, paid, buildOutboxUpdateForStatus st paid))"

definition handlePaymentNotification ::
  "pay_env \<Rightarrow> payment_notification \<Rightarrow> string \<Rightarrow> (ride \<times> formatted_detail option) weff" where
  "handlePaymentNotification env payload sourceIp =
     bindE (isIpAllowed (normalizeIpAddresses sourceIp)) (\<lambda>allowed.
       if \<not> allowed then throwE (Unauthorized ''Source IP not allowed'')
       else if pn_order_id payload = [] then throwE (BadRequest ''order_id is required'')
       else bindE (findDetailByOrderId (pn_order_id payload)) (\<lambda>dfound. case dfound of
           None \<Rightarrow> throwE (NotFound ''Payment detail not found for this notification'')
         | Some d \<Rightarrow> bindE (findRideById (pd_rideId d)) (\<lambda>rfound. case rfound of
             None \<Rightarrow> throwE (NotFound ''Ride not found'')
           | Some r \<Rightarrow>
               (let (d1, paid, ou) = applyNotification r payload d;
                    r1 = (if paid then r\<lparr>paymentStatus := Some PAID, paymentUrl := None\<rparr> else r)
                in bindE (saveDetailWithRideUpdate (update_result env) d1
                     (if paid then Some \<lparr>ru_rideId = ride_id r1, ru_paymentStatus = Some PAID,
                                         ru_paymentUrl = None\<rparr> else None)
                     (map_option (\<lambda>(st, setp, err).
                        \<lparr>ou_rideId = ride_id r1, ou_paymentDetailId = pd_id d1,
                         ou_orderId = (case orderId d1 of None \<Rightarrow> pn_order_id payload | Some x \<Rightarrow> x),
                         ou_status = st, ou_lastError = err, ou_setProcessedAt = setp\<rparr>) ou))
                     (\<lambda>saved.
                   bindE (refresh (ride_id r1) r1) (\<lambda>refreshed.
                   thenE (whenE paid (notifyRidePaid refreshed (transaction_id payload)))
                     (returnE (refreshed, formatPaymentDetail (Some saved)))))))))"

end
