(* ===== verification/Ride_System.thy ===== *)
theory Ride_System
  imports Ride_Refinement Rides_Tracking Payment
begin

text \<open>
  The whole of the rides module as a transition system: every public operation of the
  services, run to its end, with the jobs of the queues, the passing of time and the expiry
  of Redis keys. Its reachable worlds are well-formed, and the history of every ride in
  them is a life of the protocol.
\<close>

section \<open>Operations that do not touch the protocol state\<close>

definition ride_view :: "world \<Rightarrow> string \<Rightarrow> aride option" where
  "ride_view s = (\<lambda>k. abs_ride k s)"

definition quiet_inv :: "(string \<Rightarrow> aride option) \<Rightarrow> world \<Rightarrow> bool" where
  "quiet_inv v s \<longleftrightarrow> wf_world s \<and> ride_view s = v"

definition quiet :: "'a weff \<Rightarrow> bool" where
  "quiet m \<longleftrightarrow> (\<forall>v. keeps (quiet_inv v) m)"

lemma quietD: "quiet m \<Longrightarrow> wf_world s \<Longrightarrow> wf_world (snd (m s)) \<and> (\<forall>k. abs_ride k (snd (m s)) = abs_ride k s)"
  unfolding quiet_def keeps_def quiet_inv_def ride_view_def by (metis (mono_tags))

lemma quietI:
  "(\<And>s. wf_world s \<Longrightarrow> wf_world (snd (m s)) \<and> (\<forall>k. abs_ride k (snd (m s)) = abs_ride k s)) \<Longrightarrow> quiet m"
  by (auto simp: quiet_def keeps_def quiet_inv_def ride_view_def)

lemma quiet_move: "quiet m \<Longrightarrow> wf_world s \<Longrightarrow> move k (\<lambda>a. a) s (snd (m s))"
  using quietD by (auto simp: move_def option.map_ident)

named_theorems quiets \<open>methods that do not touch the protocol state\<close>

lemma quiet_base [quiets]:
  "quiet (returnE a)" "quiet (throwE e)" "quiet (readE g)" "quiet (liftE r)"
  by (simp_all add: quiet_def keeps_return keeps_throw keeps_read keeps_lift)

lemma quiet_bind [quiets]: "quiet m \<Longrightarrow> (\<And>x. quiet (f x)) \<Longrightarrow> quiet (bindE m f)"
  by (simp add: quiet_def keeps_bind)

lemma quiet_then [quiets]: "quiet m \<Longrightarrow> quiet n \<Longrightarrow> quiet (thenE m n)"
  by (simp add: quiet_def keeps_then)

lemma quiet_catch [quiets]: "quiet m \<Longrightarrow> (\<And>x. quiet (h x)) \<Longrightarrow> quiet (catchE m h)"
  by (simp add: quiet_def keeps_catch)

lemma quiet_when [quiets]: "quiet m \<Longrightarrow> quiet (whenE b m)"
  by (simp add: quiet_def keeps_when)

lemma quiet_transact [quiets]: "quiet m \<Longrightarrow> quiet (transactE m)"
  by (simp add: quiet_def keeps_transact)

lemma quiet_if [quiets]: "quiet m \<Longrightarrow> quiet n \<Longrightarrow> quiet (if b then m else n)"
  by simp

lemma quiet_option [quiets]:
  "quiet m \<Longrightarrow> (\<And>x. quiet (f x)) \<Longrightarrow> quiet (case v of None \<Rightarrow> m | Some x \<Rightarrow> f x)"
  by (cases v) simp_all

lemma quiet_pair [quiets]: "(\<And>x y. quiet (g x y)) \<Longrightarrow> quiet (case p of (x, y) \<Rightarrow> g x y)"
  by (cases p) simp

lemma quiet_for [quiets]: "(\<And>x. quiet (f x)) \<Longrightarrow> quiet (forE f xs)"
  by (simp add: quiet_def keeps_for)

lemma quiet_same: "(\<And>s. same_rides s (snd (m s))) \<Longrightarrow> quiet m"
  by (rule quietI) (metis same_rides_abs same_rides_wf)

lemma quiet_write: "(\<And>s. same_rides s (g s)) \<Longrightarrow> quiet (writeE g)"
  by (rule quiet_same) simp

lemma quiet_publish: "only_publishes m \<Longrightarrow> quiet m"
proof (rule quiet_same)
  fix s assume "only_publishes m"
  then obtain a ns where "m s = (Inr a, s\<lparr>published := published s @ ns\<rparr>)"
    unfolding only_publishes_def by blast
  then show "same_rides s (snd (m s))" by (simp add: publish_same)
qed

lemma quiet_finds [quiets]:
  "quiet (findRideById k)" "quiet (findRideForPayment k)" "quiet (findDetailById k)"
  "quiet (findDetailByRideId k)" "quiet (findDetailByOrderId k)" "quiet (findOutboxById k)"
  "quiet (refresh k r)" "quiet (isIpAllowed xs)" "quiet (getState k)"
  unfolding findRideById_def findRideForPayment_def findDetailById_def findDetailByRideId_def
    findDetailByOrderId_def findOutboxById_def refresh_def isIpAllowed_def getState_def Let_def
  by (intro quiets)+

subsection \<open>Trip tracking\<close>

lemma quiet_recordLocation [quiets]: "quiet (recordLocation env k c role loc)"
  unfolding recordLocation_def Let_def setState_def
  by (intro quiets quiet_write) (simp_all add: same_rides_def)

lemma quiet_markRideCompleted [quiets]: "quiet (markRideCompleted env k)"
  unfolding markRideCompleted_def setState_def enqueueFlushRideJob_def
  by (intro quiets quiet_write) (simp_all add: same_rides_def)

lemma quiet_persistFlush [quiets]: "quiet (persistFlush env es ss)"
  unfolding persistFlush_def upsertSummaries_def
  by (intro quiets quiet_write) (simp_all add: same_rides_def)

lemma quiet_flushRide [quiets]: "quiet (flushRide env k)"
  unfolding flushRide_def cleanupRide_def Let_def
  by (intro quiets quiet_write) (simp_all add: same_rides_def)

lemma quiet_tripJob [quiets]: "quiet (processTripJob env job)"
  by (cases job) (auto simp: flushAll_def intro!: quiets)

lemma quiet_near [quiets]:
  "quiet (ensureLocationWithinRadius env loc p r m)"
  "quiet (ensureParticipantsAreNearby env l1 l2 r m)"
  "quiet (getLatestLocation k role)" "quiet (getTotalDistanceMeters k)"
  unfolding ensureLocationWithinRadius_def ensureParticipantsAreNearby_def getLatestLocation_def
    getTotalDistanceMeters_def
  by (intro quiets)+

lemma quiet_recordTripLocation [quiets]: "quiet (recordTripLocation env k req loc)"
  unfolding recordTripLocation_def
  by (auto intro!: quiets split: option.splits client_type.splits)

subsection \<open>Payment\<close>

lemma quiet_updateRidePayment [quiets]: "quiet (updateRidePayment ulen k st url msg)"
proof (rule quietI)
  fix s assume wf: "wf_world s"
  show "wf_world (snd (updateRidePayment ulen k st url msg s)) \<and>
      (\<forall>j. abs_ride j (snd (updateRidePayment ulen k st url msg s)) = abs_ride j s)"
  proof (cases "row_find ride_id k (rides s)")
    case None
    then show ?thesis using wf by (simp add: updateRidePayment_def eff_run)
  next
    case (Some r)
    let ?r = "put_payment_state st url (clock s) r"
    have r: "ride_id ?r = k" "driverId ?r \<noteq> Some []" "riderId ?r = riderId r"
      "driverId ?r = driverId r" "status ?r = status r"
      using wf_ride [OF wf Some] by (simp_all add: put_payment_state_def)
    have "move k (\<lambda>a. a\<lparr>a_driver := driverId ?r, a_status := status ?r\<rparr>) s
        (s\<lparr>rides := row_put ride_id ?r (rides s)\<rparr>)"
      by (rule move_put_ride [OF wf Some r(1-3)])
    then have "move k (\<lambda>a. a) s (s\<lparr>rides := row_put ride_id ?r (rides s)\<rparr>)"
      by (rule move_eq) (use abs_ride_fields [OF _ Some] r in auto)
    then show ?thesis
      using Some by (auto simp: updateRidePayment_def eff_run move_def option.map_ident)
  qed
qed

lemma quiet_persistDetail [quiets]: "quiet (persistDetail d)" "quiet (saveDetail d)"
  by (rule quiet_same, simp add: saveDetail_def persistDetail_def same_rides_def Let_def split: option.split)+

lemma quiet_saveOutbox [quiets]: "quiet (saveOutbox ob)"
  by (rule quiet_same) (simp add: saveOutbox_def same_rides_def Let_def split: option.split)

lemma quiet_insertOutbox [quiets]: "quiet (insertOutboxRow k d oid st req)"
  by (rule quiet_same) (simp add: insertOutboxRow_def same_rides_def Let_def)

lemma quiet_updateOutboxes [quiets]: "quiet (updateOutboxes ulen u)"
  unfolding updateOutboxes_def by (intro quiets quiet_write) (simp add: same_rides_def)

lemma quiet_details [quiets]:
  "quiet (saveDetailAndOutbox d oid req st)" "quiet (saveDetailWithRideUpdate ulen d ru ou)"
  "quiet (updatePaymentState ulen k st' url)"
  unfolding saveDetailAndOutbox_def saveDetailWithRideUpdate_def updatePaymentState_def
  by (intro quiets)+

lemma quiet_processOutbox [quiets]: "quiet (processOutbox env i)"
  unfolding processOutbox_def Let_def by (auto intro!: quiets split: psp_reply.split)

lemma quiet_runPaymentJob [quiets]: "quiet (runPaymentJob env n i)"
  by (induction n) (simp_all only: runPaymentJob.simps, (intro quiets | assumption)+)

lemma quiet_initiatePayment [quiets]: "quiet (initiatePayment env r)"
  unfolding initiatePayment_def Let_def
  by (intro quiets quiet_write) (simp_all add: same_rides_def)

lemma quiet_proceed [quiets]: "quiet (proceedRidePayment env k rider)"
  unfolding proceedRidePayment_def by (intro quiets)

lemma quiet_notifyRidePaid [quiets]: "quiet (notifyRidePaid r x)"
  by (rule quiet_publish) (rule paid.publishes)

lemma quiet_notification [quiets]: "quiet (handlePaymentNotification env payload ip)"
  unfolding handlePaymentNotification_def Let_def by (intro quiets)

section \<open>Starting and completing a trip\<close>

lemma recordLocation_same:
  "\<exists>x s'. recordLocation env k c role loc s = (Inr x, s') \<and> same_rides s s'"
  by (simp add: recordLocation_def getState_def setState_def eff_run Let_def same_rides_def)

lemma near_run:
  "ensureLocationWithinRadius env loc p r m s = (Inr (), s) \<or>
   (\<exists>e. ensureLocationWithinRadius env loc p r m s = (Inl e, s))"
  "ensureParticipantsAreNearby env l1 l2 r m s = (Inr (), s) \<or>
   (\<exists>e. ensureParticipantsAreNearby env l1 l2 r m s = (Inl e, s))"
  by (auto simp: ensureLocationWithinRadius_def ensureParticipantsAreNearby_def)

lemma latest_run [eff_run]:
  "getLatestLocation k role s =
     (Inr (if role = DRIVER then lastDriverLocation (trip_state_of k s)
           else lastRiderLocation (trip_state_of k s)), s)"
  "getTotalDistanceMeters k s = (Inr (totalDistanceMeters (trip_state_of k s)), s)"
  by (simp_all add: getLatestLocation_def getTotalDistanceMeters_def getState_def eff_run)

lemma same_row: "same_rides s s' \<Longrightarrow> row_find ride_id k (rides s') = row_find ride_id k (rides s)"
  by (simp add: same_rides_def)

text \<open>The body of \<open>startRide\<close> once the three proximity checks have passed.\<close>

lemma start_body:
  assumes wf: "wf_world s" and found: "row_find ride_id k (rides s) = Some r" and d: "driverId r = Some d"
  shows "\<exists>res s'. bindE (recordLocation env k d DRIVER loc) (\<lambda>_.
      bindE (transitionRideStatus k [ENROUTE, TRIP_STARTED] TRIP_STARTED (Some ''Driver started the trip''))
        (\<lambda>(updated, changed). bindE (refresh (ride_id updated) updated) (\<lambda>current.
          thenE (whenE changed (notifyRideStarted current)) (returnE current)))) s = (Inr res, s') \<and>
    move k (spec_start d) s s'"
proof -
  obtain x s1 where s1: "recordLocation env k d DRIVER loc s = (Inr x, s1)" "same_rides s s1"
    using recordLocation_same by blast
  have wf1: "wf_world s1" using same_rides_wf [OF s1(2)] wf by simp
  have f1: "row_find ride_id k (rides s1) = Some r" using same_row [OF s1(2)] found by simp
  obtain r2 b s2 where s2: "transitionRideStatus k [ENROUTE, TRIP_STARTED] TRIP_STARTED
        (Some ''Driver started the trip'') s1 = (Inr (r2, b), s2)"
    and m2: "move k (a_transition [ENROUTE, TRIP_STARTED] TRIP_STARTED) s1 s2"
    and f2: "row_find ride_id k (rides s2) = Some r2"
    using transition_move [OF wf1 f1, of "[ENROUTE, TRIP_STARTED]" TRIP_STARTED] by blast
  have id2: "ride_id r2 = k" using wf_ride [OF move_wf [OF m2] f2] by simp
  obtain ns where s3: "notifyRideStarted r2 s2 = (Inr (), s2\<lparr>published := published s2 @ ns\<rparr>)"
    using started.run_one by blast
  have "move k (spec_start d) s s2"
    by (rule move_eq [OF same_then_move [OF s1(2) m2]])
      (use abs_ride_fields [OF _ found] d in \<open>auto simp: spec_start_def\<close>)
  then have "move k (spec_start d) s s2" "move k (spec_start d) s (s2\<lparr>published := published s2 @ ns\<rparr>)"
    using move_then_same [OF _ publish_same] by auto
  then show ?thesis
    using s1 s2 s3 f2 id2 by (cases b) (auto simp: run_bind run_then run_when run_refresh)
qed

lemma start_moves:
  assumes wf: "wf_world s"
  shows "\<exists>f \<in> {\<lambda>a. a, spec_start d}. move k f s (snd (startRide env k d loc s))"
proof (cases "\<exists>r rloc. row_find ride_id k (rides s) = Some r \<and> d \<noteq> [] \<and> driverId r = Some d \<and>
    status r \<in> {ENROUTE, TRIP_STARTED} \<and> lastRiderLocation (trip_state_of k s) = Some rloc")
  case False
  then have "snd (startRide env k d loc s) = s"
    using wf_ride [OF wf] by (auto simp: startRide_def eff_run split: option.split)
  then show ?thesis using move_id [OF wf] by simp
next
  case True
  then obtain r rloc where found: "row_find ride_id k (rides s) = Some r"
    and ok: "d \<noteq> []" "driverId r = Some d" "status r \<in> {ENROUTE, TRIP_STARTED}"
      "lastRiderLocation (trip_state_of k s) = Some rloc" by blast
  have k: "ride_id r = k" using wf_ride [OF wf found] by simp
  obtain res s' where body: "bindE (recordLocation (trips env) k d DRIVER loc) (\<lambda>_.
      bindE (transitionRideStatus k [ENROUTE, TRIP_STARTED] TRIP_STARTED (Some ''Driver started the trip''))
        (\<lambda>(updated, changed). bindE (refresh (ride_id updated) updated) (\<lambda>current.
          thenE (whenE changed (notifyRideStarted current)) (returnE current)))) s = (Inr res, s')"
    and m: "move k (spec_start d) s s'"
    using start_body [OF wf found ok(2)] by blast
  show ?thesis
    using near_run(1) [of env loc "(pickupLongitude r, pickupLatitude r)" "tripStartProximityMeters env"
        "''Driver must be at pickup location to start the trip.''" s]
      near_run(1) [of env rloc "(pickupLongitude r, pickupLatitude r)" "tripStartProximityMeters env"
        "''Rider is not at pickup location. Please confirm rider arrival.''" s]
      near_run(2) [of env loc rloc "tripStartProximityMeters env"
        "''Driver and rider must be at the same pickup point to start the trip.''" s]
      found ok k body m move_id [OF wf, of k]
    by (auto simp: startRide_def run_bind run_then run_findRideById latest_run Let_def)
qed

lemma mark_same: "same_rides s (snd (markRideCompleted env k s))"
  by (simp add: markRideCompleted_def getState_def setState_def enqueueFlushRideJob_def eff_run
      same_rides_def split: option.split)

lemma with_fare_life [simp]:
  "ride_id (with_fare f r) = ride_id r" "riderId (with_fare f r) = riderId r"
  "driverId (with_fare f r) = driverId r" "status (with_fare f r) = status r"
  by (simp_all add: with_fare_def)

text \<open>The tail of \<open>completeRide\<close>, from the transition on.\<close>

lemma complete_tail:
  assumes wf: "wf_world s" and found: "row_find ride_id k (rides s) = Some r" and d: "driverId r = Some d"
  shows "move k (spec_complete d) s (snd (finishRide env k fare s))"
proof -
  let ?al = "[ENROUTE, ACCEPTED, ASSIGNED, TRIP_STARTED]"
  obtain r2 b s2 where s2: "transitionRideStatus k ?al COMPLETED
        (Some ''Driver marked the ride as completed'') s = (Inr (r2, b), s2)"
    and m2: "move k (a_transition ?al COMPLETED) s s2"
    and f2: "row_find ride_id k (rides s2) = Some r2"
    using transition_move [OF wf found, of ?al COMPLETED] by blast
  have m2': "move k (spec_complete d) s s2"
    by (rule move_eq [OF m2]) (use abs_ride_fields [OF _ found] d in \<open>auto simp: spec_complete_def\<close>)
  obtain e s3 where s3: "markRideCompleted (trips env) k s2 = (e, s3)" by fastforce
  have same3: "same_rides s2 s3" using mark_same [of s2 "trips env" k] s3 by simp
  have m3: "move k (spec_complete d) s s3" by (rule move_then_same [OF m2' same3])
  have f3: "row_find ride_id k (rides s3) = Some r2" using same_row [OF same3] f2 by simp
  have id2: "ride_id (with_fare fare r2) = k" using wf_ride [OF move_wf [OF m2] f2] by simp
  obtain s4 where s4: "updateRide (with_fare fare r2) s3 =
        (Inr (saved_ride (clock s3) r2 (with_fare fare r2)), s4)"
    and m4: "move k (\<lambda>a. a) s3 s4" and f4: "\<exists>x. row_find ride_id k (rides s4) = Some x"
    using move_same_life [OF move_wf [OF m3] f3 id2] by auto
  have m4': "move k (spec_complete d) s s4"
    using move_trans [OF m3 m4] by (rule move_eq) simp
  obtain x where x: "row_find ride_id k (rides s4) = Some x" using f4 by blast
  obtain ns where s5: "notifyRideCompleted x (fare_summary_of fare) s4 =
      (Inr (), s4\<lparr>published := published s4 @ ns\<rparr>)"
    using completed.run_one by blast
  have m5: "move k (spec_complete d) s (s4\<lparr>published := published s4 @ ns\<rparr>)"
    by (rule move_then_same [OF m4' publish_same])
  show ?thesis
    using s2 s3 s4 s5 m3 m5 x id2 wf_ride [OF move_wf [OF m2] f2]
    by (cases e) (simp_all add: finishRide_def run_bind run_then run_refresh)
qed

lemma complete_moves:
  assumes wf: "wf_world s"
  shows "\<exists>f \<in> {\<lambda>a. a, spec_complete (req_id req)}. move k f s (snd (completeRide env k req loc disc s))"
proof (cases "\<exists>r rloc. row_find ride_id k (rides s) = Some r \<and> req_id req \<noteq> [] \<and>
    driverId r = Some (req_id req) \<and> status r \<noteq> CANCELED \<and> status r \<noteq> COMPLETED \<and>
    lastRiderLocation (trip_state_of k s) = Some rloc")
  case False
  then have "snd (completeRide env k req loc disc s) = s"
    using wf_ride [OF wf] by (auto simp: completeRide_def eff_run split: option.split)
  then show ?thesis using move_id [OF wf] by simp
next
  case True
  then obtain r rloc where found: "row_find ride_id k (rides s) = Some r"
    and ok: "req_id req \<noteq> []" "driverId r = Some (req_id req)" "status r \<noteq> CANCELED"
      "status r \<noteq> COMPLETED" "lastRiderLocation (trip_state_of k s) = Some rloc" by blast
  have k: "ride_id r = k" using wf_ride [OF wf found] by simp
  obtain x s1 where s1: "recordLocation (trips env) k (req_id req) DRIVER loc s = (Inr x, s1)"
      "same_rides s s1"
    using recordLocation_same by blast
  have wf1: "wf_world s1" using same_rides_wf [OF s1(2)] wf by simp
  have f1: "row_find ride_id k (rides s1) = Some r" using same_row [OF s1(2)] found by simp
  note tail = same_then_move [OF s1(2) complete_tail [OF wf1 f1 ok(2)]]
  note m1 = move_same [OF wf s1(2), of k]
  let ?fare = "calculateFare (fares env) (chargedDistanceKm (totalDistanceMeters (trip_state_of k s1)) r) disc"
  show ?thesis
    using near_run(1) [of env loc "(dropoffLongitude r, dropoffLatitude r)" "tripCompletionProximityMeters env"
        "''Driver must arrive at the destination to complete the ride.''" s]
      near_run(1) [of env rloc "(dropoffLongitude r, dropoffLatitude r)" "tripCompletionProximityMeters env"
        "''Rider location does not match destination.''" s]
      near_run(2) [of env loc rloc "tripCompletionProximityMeters env"
        "''Driver and rider must be at the destination together to complete the ride.''" s]
      found ok k s1(1) m1 tail move_id [OF wf, of k]
    by (cases ?fare) (auto simp: completeRide_def run_bind run_then run_lift run_when run_findRideById
      latest_run Let_def)
qed

section \<open>The system\<close>

inductive world_step :: "ride_env \<Rightarrow> track_env \<Rightarrow> pay_env \<Rightarrow> world \<Rightarrow> world \<Rightarrow> bool"
  for re te pe where
  ws_create: "world_step re te pe s (snd (createRide re rider payload s))"
| ws_accept: "world_step re te pe s (snd (acceptRideByDriver k driver s))"
| ws_decline: "world_step re te pe s (snd (rejectRideByDriver k driver why s))"
| ws_confirm: "world_step re te pe s (snd (confirmDriverAcceptance k rider s))"
| ws_turn_down: "world_step re te pe s (snd (rejectDriverAcceptance k rider why s))"
| ws_cancel: "world_step re te pe s (snd (cancelRide re k req why s))"
| ws_start: "world_step re te pe s (snd (startRide te k driver loc s))"
| ws_track: "world_step re te pe s (snd (recordTripLocation te k req loc s))"
| ws_complete: "world_step re te pe s (snd (completeRide te k req loc disc s))"
| ws_trip_job: "world_step re te pe s (snd (processTripJob (trips te) job s))"
| ws_pay: "world_step re te pe s (snd (proceedRidePayment pe k rider s))"
| ws_pay_job: "world_step re te pe s (snd (processOutbox pe outboxId s))"
| ws_notification: "world_step re te pe s (snd (handlePaymentNotification pe payload ip s))"
| ws_time: "clock s \<le> t \<Longrightarrow> world_step re te pe s (s\<lparr>clock := t\<rparr>)"
| ws_expire_state: "world_step re te pe s (s\<lparr>tripStates := (tripStates s)(k := None)\<rparr>)"
| ws_expire_events: "world_step re te pe s (s\<lparr>tripEvents := (tripEvents s)(k := [])\<rparr>)"

inductive reachable :: "ride_env \<Rightarrow> track_env \<Rightarrow> pay_env \<Rightarrow> world \<Rightarrow> bool"
  for re te pe where
  r_init: "reachable re te pe (empty_world\<lparr>whitelist := w\<rparr>)"
| r_step: "reachable re te pe s \<Longrightarrow> world_step re te pe s s' \<Longrightarrow> reachable re te pe s'"

text \<open>
  One step of the system seen from the rides: either every ride makes a protocol step or
  stays, or one ride is created.
\<close>

definition rides_step :: "world \<Rightarrow> world \<Rightarrow> bool" where
  "rides_step s s' \<longleftrightarrow> wf_world s' \<and>
     ((\<exists>k f. move k f s s' \<and> (\<forall>a. f a = a \<or> protocol a (f a) \<or> (life_inv a \<longrightarrow> f a = a))) \<or>
      (\<exists>k rider. created rider k s s' \<and>
         (\<forall>x \<in> set (rides s). riderId x = rider \<longrightarrow> status x = COMPLETED \<or> status x = CANCELED)))"

lemma rides_step_move:
  "move k f s s' \<Longrightarrow> (\<And>a. f a = a \<or> protocol a (f a) \<or> (life_inv a \<longrightarrow> f a = a)) \<Longrightarrow> rides_step s s'"
  unfolding rides_step_def using move_wf by blast

lemma rides_step_quiet: "quiet m \<Longrightarrow> wf_world s \<Longrightarrow> rides_step s (snd (m s))"
  by (rule rides_step_move [OF quiet_move]) simp_all

lemma rides_step_same: "same_rides s s' \<Longrightarrow> wf_world s \<Longrightarrow> rides_step s s'"
  by (rule rides_step_move [OF move_same]) simp_all

lemma spec_accept_nobody: "life_inv a \<Longrightarrow> spec_accept [] a = a"
proof -
  assume "life_inv a"
  then have "[] \<notin> fst ` set (a_cands a)" by (simp add: life_inv_def)
  then have "a_cand [] a = None" by (simp add: a_cand_def map_of_eq_None_iff)
  then show ?thesis by (simp add: spec_accept_def)
qed

lemma rides_step_implements:
  "implements m k f refusal s \<Longrightarrow> (\<And>a. f a = a \<or> protocol a (f a) \<or> (life_inv a \<longrightarrow> f a = a)) \<Longrightarrow>
     rides_step s (snd (m s))"
  unfolding implements_def using rides_step_move by blast

lemma rides_step_accept: "wf_world s \<Longrightarrow> rides_step s (snd (acceptRideByDriver k d s))"
  by (rule rides_step_implements [OF accept_implements])
    (cases "d = []", auto intro: p_accept spec_accept_nobody)

lemma rides_step_create:
  assumes "wf_world s" and "env_ok re"
  shows "rides_step s (snd (createRide re rider payload s))"
  using createRide_outcome [OF assms, of rider payload]
proof
  assume "\<exists>err s'. createRide re rider payload s = (Inl err, s') \<and> same_rides s s'"
  then show ?thesis using rides_step_same assms(1) by auto
next
  assume "\<exists>r cs s'. createRide re rider payload s = (Inr (r, cs), s') \<and> created rider (ride_id r) s s' \<and>
      (\<forall>x \<in> set (rides s). riderId x = rider \<longrightarrow> status x = COMPLETED \<or> status x = CANCELED)"
  then obtain r cs s' where "createRide re rider payload s = (Inr (r, cs), s')"
    "created rider (ride_id r) s s'"
    "\<forall>x \<in> set (rides s). riderId x = rider \<longrightarrow> status x = COMPLETED \<or> status x = CANCELED" by blast
  then show ?thesis unfolding rides_step_def by (metis created_def snd_conv)
qed

lemma world_step_rides:
  assumes "world_step re te pe s s'" and wf: "wf_world s" and env: "env_ok re"
  shows "rides_step s s'"
  using assms(1)
proof cases
  case ws_create
  then show ?thesis using rides_step_create [OF wf env] by simp
next
  case ws_accept
  then show ?thesis using rides_step_accept [OF wf] by simp
next
  case ws_decline
  then show ?thesis using rides_step_implements [OF decline_implements [OF wf]] p_decline by simp
next
  case ws_confirm
  then show ?thesis using rides_step_implements [OF confirm_implements [OF wf]] p_confirm by simp
next
  case ws_turn_down
  then show ?thesis using rides_step_implements [OF turn_down_implements [OF wf]] p_turn_down by simp
next
  case ws_cancel
  then show ?thesis using rides_step_implements [OF cancel_implements [OF wf]] p_cancel by simp
next
  case (ws_start k driver loc)
  then show ?thesis
    using start_moves [OF wf, of driver k te loc] rides_step_move p_start by auto
next
  case (ws_complete k req loc disc)
  then show ?thesis
    using complete_moves [OF wf, of req k te loc disc] rides_step_move p_complete by auto
next
  case ws_track
  then show ?thesis using rides_step_quiet [OF quiet_recordTripLocation wf] by simp
next
  case ws_trip_job
  then show ?thesis using rides_step_quiet [OF quiet_tripJob wf] by simp
next
  case ws_pay
  then show ?thesis using rides_step_quiet [OF quiet_proceed wf] by simp
next
  case ws_pay_job
  then show ?thesis using rides_step_quiet [OF quiet_processOutbox wf] by simp
next
  case ws_notification
  then show ?thesis using rides_step_quiet [OF quiet_notification wf] by simp
next
  case ws_time
  then show ?thesis using wf by (intro rides_step_same) (simp_all add: same_rides_def)
next
  case ws_expire_state
  then show ?thesis using wf by (intro rides_step_same) (simp_all add: same_rides_def)
next
  case ws_expire_events
  then show ?thesis using wf by (intro rides_step_same) (simp_all add: same_rides_def)
qed

section \<open>What holds in every reachable world\<close>

lemma rides_step_life:
  assumes "rides_step s s'" and lives: "\<forall>j a. abs_ride j s = Some a \<longrightarrow> life a"
  shows "\<forall>j a. abs_ride j s' = Some a \<longrightarrow> life a"
  using assms(1) unfolding rides_step_def
proof (elim conjE disjE exE)
  fix k f
  assume m: "move k f s s'" and f: "\<forall>a. f a = a \<or> protocol a (f a) \<or> (life_inv a \<longrightarrow> f a = a)"
  have "life (f a)" if "life a" for a
    using f that life_life_inv [OF that] l_step [OF that] by metis
  then show ?thesis using m lives by (auto simp: move_def)
next
  fix k rider assume "created rider k s s'"
  then show ?thesis using lives l_create by (auto simp: created_def) (metis option.inject)
qed

text \<open>A closed ride keeps its protocol state.\<close>

lemma rides_step_closed:
  assumes "rides_step s s'" and "life a" and "abs_ride k s = Some a" and "closed a"
  shows "abs_ride k s' = Some a"
  using assms(1) unfolding rides_step_def
proof (elim conjE disjE exE)
  fix j f
  assume m: "move j f s s'" and f: "\<forall>a. f a = a \<or> protocol a (f a) \<or> (life_inv a \<longrightarrow> f a = a)"
  have "f a = a" using f life_life_inv [OF assms(2)] protocol_closed [OF _ assms(4)] by blast
  then show ?thesis using m assms(3) by (auto simp: move_def)
next
  fix j rider assume "created rider j s s'"
  then show ?thesis using assms(3) by (auto simp: created_def) (metis option.distinct(1))
qed

lemma wf_empty: "wf_world (empty_world\<lparr>whitelist := w\<rparr>)"
  by (simp add: wf_world_def empty_world_def)

lemma reachable_life:
  assumes "reachable re te pe s" and env: "env_ok re"
  shows "wf_world s \<and> (\<forall>j a. abs_ride j s = Some a \<longrightarrow> life a)"
  using assms(1)
proof induction
  case (r_init w)
  then show ?case using wf_empty by (simp add: abs_ride_def empty_world_def)
next
  case (r_step s s')
  then have "rides_step s s'" using world_step_rides [OF _ _ env] by blast
  then show ?case using rides_step_life r_step.IH by (simp add: rides_step_def)
qed

lemma reachable_ride:
  assumes "reachable re te pe s" and "env_ok re" and "row_find ride_id k (rides s) = Some r"
  shows "\<exists>a. abs_ride k s = Some a \<and> life a \<and> life_inv a \<and> a_status a = status r \<and>
    a_driver a = driverId r \<and> a_rider a = riderId r"
  using reachable_life [OF assms(1,2)] abs_ride_row [OF assms(3)] life_life_inv by metis

definition one_active :: "world \<Rightarrow> bool" where
  "one_active s \<longleftrightarrow> (\<forall>i j a b. abs_ride i s = Some a \<longrightarrow> abs_ride j s = Some b \<longrightarrow>
     a_rider a = a_rider b \<longrightarrow> \<not> closed a \<longrightarrow> \<not> closed b \<longrightarrow> i = j)"

lemma abs_ride_in: "abs_ride k s = Some a \<Longrightarrow> \<exists>r \<in> set (rides s). riderId r = a_rider a \<and> status r = a_status a"
  by (auto simp: abs_ride_def dest: row_find_SomeD)

lemma moved_open:
  assumes "life_inv a" and "f a = a \<or> protocol a (f a) \<or> (life_inv a \<longrightarrow> f a = a)"
  shows "a_rider (f a) = a_rider a \<and> (\<not> closed (f a) \<longrightarrow> \<not> closed a)"
  using assms protocol_rider [of a "f a"] protocol_closed [of a "f a"] by auto

lemma rides_step_one_active:
  assumes step: "rides_step s s'" and lives: "\<forall>j a. abs_ride j s = Some a \<longrightarrow> life a"
    and one: "one_active s"
  shows "one_active s'"
  using step unfolding rides_step_def
proof (elim conjE disjE exE)
  fix k f
  assume m: "move k f s s'" and f: "\<forall>a. f a = a \<or> protocol a (f a) \<or> (life_inv a \<longrightarrow> f a = a)"
  have origin: "\<exists>a0. abs_ride j s = Some a0 \<and> a_rider a = a_rider a0 \<and> (\<not> closed a \<longrightarrow> \<not> closed a0)"
    if "abs_ride j s' = Some a" for j a
  proof (cases "j = k")
    case True
    then have "map_option f (abs_ride k s) = Some a" using move_abs [OF m] that by simp
    then obtain a0 where "abs_ride k s = Some a0" "a = f a0" by auto
    then show ?thesis using True moved_open [OF life_life_inv] lives f by blast
  next
    case False
    then show ?thesis using m that by (auto simp: move_def)
  qed
  show ?thesis using one origin unfolding one_active_def by metis
next
  fix k rider
  assume made: "created rider k s s'"
    and idle: "\<forall>x \<in> set (rides s). riderId x = rider \<longrightarrow> status x = COMPLETED \<or> status x = CANCELED"
  have old: "closed a" if "abs_ride j s = Some a" "a_rider a = rider" for j a
    using abs_ride_in [OF that(1)] idle that(2) by auto
  have new: "a_rider a = rider" if "abs_ride k s' = Some a" for a
    using made that by (auto simp: created_def spec_create_def)
  show ?thesis
    using one old new made unfolding one_active_def created_def by metis
qed

lemma reachable_one_active:
  assumes "reachable re te pe s" and env: "env_ok re"
  shows "one_active s"
  using assms(1)
proof induction
  case r_init
  then show ?case by (simp add: one_active_def abs_ride_def empty_world_def)
next
  case (r_step s s')
  then show ?case
    using rides_step_one_active world_step_rides [OF _ _ env] reachable_life [OF _ env] by blast
qed

section \<open>A concrete world\<close>

definition demo_env :: ride_env where
  "demo_env = \<lparr>route_result = (\<lambda>_ _ _. Some \<lparr>distanceKm = Fin (5 / 2), durationSeconds = Fin 600\<rparr>),
     nearby = (\<lambda>_ _ _. Inr [\<lparr>nd_driverId = ''11'', nd_distanceMeters = Some (Fin 120)\<rparr>,
                            \<lparr>nd_driverId = ''12'', nd_distanceMeters = None\<rparr>]),
     job_locked = (\<lambda>_. False), engine = new_fare_engine (\<lambda>_. COther)\<rparr>"

definition demo_input :: create_ride_input where
  "demo_input = \<lparr>ci_pickup = (Fin 106, Fin (- 6)), ci_dropoff = (Fin 107, Fin (- 6)),
     ci_note = None, ci_maxDrivers = None\<rparr>"

definition demo_start :: world where
  "demo_start = empty_world\<lparr>whitelist := [''10.0.0.1'']\<rparr>"

definition demo_world :: world where
  "demo_world = snd (createRide demo_env ''7'' demo_input demo_start)"

lemma demo_env_ok: "env_ok demo_env"
  by (simp add: env_ok_def demo_env_def nearby_ok_def)

lemma demo_reachable: "reachable demo_env te pe demo_world"
  unfolding demo_world_def demo_start_def by (rule r_step [OF r_init ws_create])

lemma demo_wf: "wf_world demo_world"
  using reachable_life [OF demo_reachable demo_env_ok] by blast

lemma show_one: "show_nat (Suc 0) = ''1''" "show_nat 1 = ''1''" "show_nat 2 = ''2''"
  by (simp_all add: show_nat.simps digit_char_def)

lemma demo_ride: "abs_ride ''1'' demo_world = Some (spec_create ''7'' [''11'', ''12''])"
  by (simp add: demo_world_def demo_start_def createRide_def createMatchedRide_def demo_env_def demo_input_def
      empty_world_def findUnfinishedRideByRiderId_def requestRouteEstimatesThroughQueue_def
      removeRideJob_def createRideWithDetails_def ride_details_def insertRideRow_def
      insertCandidateRow_def insertHistoryRow_def buildInitialHistoryEntries_def eff_run Let_def
      show_one notify_defs dispatchNotification_def emit_def buildPayload_def forE_def
      abs_ride_def candidatesOfRide_def spec_create_def)

end
