(* ===== verification/Ride_Guarantees.thy ===== *)
theory Ride_Guarantees
  imports Ride_System
begin

text \<open>
  What the operations of \<open>RidesManagementService\<close> and \<open>RidesTrackingService\<close> guarantee:
  each implements its specification, answers with the specified error, and answers with the
  stored row when it succeeds; what creating, starting and completing a ride do beyond that.
\<close>

section \<open>The driver's and the rider's answers\<close>

text \<open>A ride of the concrete world after a driver has accepted it, and after the rider agreed.\<close>

definition demo_accepted :: world where
  "demo_accepted = snd (acceptRideByDriver ''1'' ''11'' demo_world)"

definition demo_enroute :: world where
  "demo_enroute = snd (confirmDriverAcceptance ''1'' ''7'' demo_accepted)"

lemma demo_worlds_reachable:
  "reachable demo_env te pe demo_accepted" "reachable demo_env te pe demo_enroute"
  unfolding demo_enroute_def demo_accepted_def
  by (rule r_step [OF demo_reachable ws_accept] r_step [OF r_step [OF demo_reachable ws_accept] ws_confirm])+

lemma demo_worlds_wf: "wf_world demo_accepted" "wf_world demo_enroute"
  using reachable_life [OF demo_worlds_reachable(1) demo_env_ok]
    reachable_life [OF demo_worlds_reachable(2) demo_env_ok] by blast+

lemmas spec_eval = spec_create_def spec_accept_def spec_decline_def spec_confirm_def
  spec_turn_down_def spec_cancel_def spec_start_def spec_complete_def confirm_status_def
  a_cand_def a_answer_def a_update_cands_def a_transition_def

lemma demo_accepted_ride: "abs_ride ''1'' demo_accepted =
    Some \<lparr>a_rider = ''7'', a_driver = Some ''11'', a_status = ACCEPTED,
      a_cands = [(''11'', CAccepted), (''12'', INVITED)],
      a_trail = [(None, REQUESTED), (Some REQUESTED, CANDIDATES_COMPUTED),
        (Some CANDIDATES_COMPUTED, ASSIGNED), (Some ASSIGNED, ACCEPTED)]\<rparr>"
  using accept_implements [OF demo_wf, of "''1''" "''11''"]
  by (simp add: implements_def move_def demo_accepted_def demo_ride spec_eval)

lemma demo_enroute_ride: "abs_ride ''1'' demo_enroute =
    Some \<lparr>a_rider = ''7'', a_driver = Some ''11'', a_status = ENROUTE,
      a_cands = [(''11'', CONFIRMED), (''12'', CCanceled)],
      a_trail = [(None, REQUESTED), (Some REQUESTED, CANDIDATES_COMPUTED),
        (Some CANDIDATES_COMPUTED, ASSIGNED), (Some ASSIGNED, ACCEPTED), (Some ACCEPTED, ENROUTE)]\<rparr>"
  using confirm_implements [OF demo_worlds_wf(1), of "''1''" "''7''"]
  by (simp add: implements_def move_def demo_enroute_def demo_accepted_ride spec_eval)

text \<open>
  C10. \<open>acceptRideByDriver\<close> implements the protocol's accept: the ride moves exactly as
  \<open>spec_accept\<close> says (the driver is set, the candidate accepted and the ride taken from its
  candidates to ACCEPTED through ASSIGNED, or the late driver's candidate cancelled), no
  other ride changes, it throws exactly the errors of \<open>accept_refusal\<close>, and otherwise
  returns the row as stored.
\<close>

theorem accept_refines:
  assumes "wf_world s"
  shows "(\<forall>j. abs_ride j (snd (acceptRideByDriver k d s)) =
      (if j = k then map_option (spec_accept d) (abs_ride j s) else abs_ride j s)) \<and>
    (case accept_refusal d (abs_ride k s) of
       Some e \<Rightarrow> fst (acceptRideByDriver k d s) = Inl e
     | None \<Rightarrow> \<exists>r. fst (acceptRideByDriver k d s) = Inr r \<and>
         row_find ride_id k (rides (snd (acceptRideByDriver k d s))) = Some r)"
  using accept_implements [OF assms, of k d] by (simp add: implements_def move_def)

theorem accept_refines_witness:
  "fst (acceptRideByDriver ''1'' ''12'' demo_accepted) =
     Inl (Conflict ''Ride already accepted by another driver'') \<and>
   map_option a_cands (abs_ride ''1'' (snd (acceptRideByDriver ''1'' ''12'' demo_accepted))) =
     Some [(''11'', CAccepted), (''12'', CCanceled)]"
  using accept_refines [OF demo_worlds_wf(1), of "''1''" "''12''"]
  by (simp add: demo_accepted_ride spec_eval)

text \<open>
  \<open>rejectRideByDriver\<close> implements the protocol's decline: the candidate becomes DECLINED,
  the driver is taken off a ride that had this driver, and an accepted ride goes back to its
  candidates; the errors are those of \<open>decline_refusal\<close>.
\<close>

theorem decline_refines:
  assumes "wf_world s"
  shows "(\<forall>j. abs_ride j (snd (rejectRideByDriver k d why s)) =
      (if j = k then map_option (spec_decline d) (abs_ride j s) else abs_ride j s)) \<and>
    (case decline_refusal d (abs_ride k s) of
       Some e \<Rightarrow> fst (rejectRideByDriver k d why s) = Inl e
     | None \<Rightarrow> \<exists>r. fst (rejectRideByDriver k d why s) = Inr r \<and>
         row_find ride_id k (rides (snd (rejectRideByDriver k d why s))) = Some r)"
  using decline_implements [OF assms, of k d why] by (simp add: implements_def move_def)

theorem decline_refines_witness:
  "map_option (\<lambda>a. (a_driver a, a_status a, a_cands a))
     (abs_ride ''1'' (snd (rejectRideByDriver ''1'' ''11'' None demo_accepted))) =
   Some (None, CANDIDATES_COMPUTED, [(''11'', DECLINED), (''12'', INVITED)])"
  using decline_refines [OF demo_worlds_wf(1), of "''1''" "''11''"]
  by (simp add: demo_accepted_ride spec_eval)

text \<open>
  C11. \<open>confirmDriverAcceptance\<close> implements the protocol's confirm: for the rider of a ride
  whose driver has accepted, the ride goes from ACCEPTED to ENROUTE, the driver's candidate
  becomes CONFIRMED and every other open invitation is cancelled; the errors are those of
  \<open>confirm_refusal\<close>.
\<close>

theorem confirm_refines:
  assumes "wf_world s"
  shows "(\<forall>j. abs_ride j (snd (confirmDriverAcceptance k rider s)) =
      (if j = k then map_option (spec_confirm rider) (abs_ride j s) else abs_ride j s)) \<and>
    (case confirm_refusal rider (abs_ride k s) of
       Some e \<Rightarrow> fst (confirmDriverAcceptance k rider s) = Inl e
     | None \<Rightarrow> \<exists>r. fst (confirmDriverAcceptance k rider s) = Inr r \<and>
         row_find ride_id k (rides (snd (confirmDriverAcceptance k rider s))) = Some r)"
  using confirm_implements [OF assms, of k rider] by (simp add: implements_def move_def)

theorem confirm_refines_witness:
  "fst (confirmDriverAcceptance ''1'' ''8'' demo_accepted) = Inl (NotFound ''Ride not found'') \<and>
   map_option (\<lambda>a. (a_status a, a_cands a))
     (abs_ride ''1'' (snd (confirmDriverAcceptance ''1'' ''7'' demo_accepted))) =
   Some (ENROUTE, [(''11'', CONFIRMED), (''12'', CCanceled)])"
  using confirm_refines [OF demo_worlds_wf(1), of "''1''" "''8''"]
    confirm_refines [OF demo_worlds_wf(1), of "''1''" "''7''"]
  by (simp add: demo_accepted_ride spec_eval)

text \<open>
  \<open>rejectDriverAcceptance\<close> implements the protocol's turn-down: the driver is taken off
  the ride, his candidate cancelled and an accepted ride goes back to its candidates; the
  errors are those of \<open>turn_down_refusal\<close>.
\<close>

theorem turn_down_refines:
  assumes "wf_world s"
  shows "(\<forall>j. abs_ride j (snd (rejectDriverAcceptance k rider why s)) =
      (if j = k then map_option (spec_turn_down rider) (abs_ride j s) else abs_ride j s)) \<and>
    (case turn_down_refusal rider (abs_ride k s) of
       Some e \<Rightarrow> fst (rejectDriverAcceptance k rider why s) = Inl e
     | None \<Rightarrow> \<exists>r. fst (rejectDriverAcceptance k rider why s) = Inr r \<and>
         row_find ride_id k (rides (snd (rejectDriverAcceptance k rider why s))) = Some r)"
  using turn_down_implements [OF assms, of k rider why] by (simp add: implements_def move_def)

theorem turn_down_refines_witness:
  "fst (rejectDriverAcceptance ''1'' ''7'' None demo_enroute) = Inl (BadRequest ''Ride already in progress'') \<and>
   map_option (\<lambda>a. (a_driver a, a_status a, a_cands a))
     (abs_ride ''1'' (snd (rejectDriverAcceptance ''1'' ''7'' None demo_accepted))) =
   Some (None, CANDIDATES_COMPUTED, [(''11'', CCanceled), (''12'', INVITED)])"
  using turn_down_refines [OF demo_worlds_wf(2), of "''1''" "''7''"]
    turn_down_refines [OF demo_worlds_wf(1), of "''1''" "''7''"]
  by (simp add: demo_accepted_ride demo_enroute_ride spec_eval)

text \<open>
  C12. \<open>cancelRide\<close> implements the protocol's cancel: for the ride's rider, every invitation
  is cancelled and the ride becomes CANCELED from any state before the trip starts; the
  errors are those of \<open>cancel_refusal\<close>.
\<close>

theorem cancel_refines:
  assumes "wf_world s"
  shows "(\<forall>j. abs_ride j (snd (cancelRide env k req why s)) =
      (if j = k then map_option (spec_cancel (req_id req)) (abs_ride j s) else abs_ride j s)) \<and>
    (case cancel_refusal (req_id req) (abs_ride k s) of
       Some e \<Rightarrow> fst (cancelRide env k req why s) = Inl e
     | None \<Rightarrow> \<exists>r. fst (cancelRide env k req why s) = Inr r \<and>
         row_find ride_id k (rides (snd (cancelRide env k req why s))) = Some r)"
  using cancel_implements [OF assms, of env k req why] by (simp add: implements_def move_def)

theorem cancel_refines_witness:
  "map_option (\<lambda>a. (a_driver a, a_status a, a_cands a)) (abs_ride ''1''
     (snd (cancelRide demo_env ''1'' \<lparr>req_id = ''7'', req_role = Some RIDER\<rparr> None demo_enroute))) =
   Some (Some ''11'', CANCELED, [(''11'', CCanceled), (''12'', CCanceled)])"
  using cancel_refines [OF demo_worlds_wf(2), where k = "''1''" and env = demo_env
      and req = "\<lparr>req_id = ''7'', req_role = Some RIDER\<rparr>" and why = None]
  by (simp add: demo_enroute_ride spec_eval)

definition demo_canceled :: world where
  "demo_canceled =
     snd (cancelRide demo_env ''1'' \<lparr>req_id = ''7'', req_role = Some RIDER\<rparr> None demo_accepted)"

lemma demo_canceled_reachable: "reachable demo_env te pe demo_canceled"
  unfolding demo_canceled_def by (rule r_step [OF demo_worlds_reachable(1) ws_cancel])

lemma demo_canceled_ride: "abs_ride ''1'' demo_canceled =
    Some \<lparr>a_rider = ''7'', a_driver = Some ''11'', a_status = CANCELED,
      a_cands = [(''11'', CCanceled), (''12'', CCanceled)],
      a_trail = [(None, REQUESTED), (Some REQUESTED, CANDIDATES_COMPUTED),
        (Some CANDIDATES_COMPUTED, ASSIGNED), (Some ASSIGNED, ACCEPTED), (Some ACCEPTED, CANCELED)]\<rparr>"
  using cancel_implements [OF demo_worlds_wf(1), where k = "''1''" and env = demo_env
      and req = "\<lparr>req_id = ''7'', req_role = Some RIDER\<rparr>" and why = None]
  by (simp add: implements_def move_def demo_canceled_def demo_accepted_ride spec_eval)

section \<open>Creating a ride\<close>

lemma route_run:
  "\<exists>s'. requestRouteEstimatesThroughQueue env job p q s =
      (case route_result env job p q of
         Some route \<Rightarrow> Inr route
       | None \<Rightarrow> Inl (BadRequest ''Unable to calculate route distance at this time. Please try again later.''),
       s') \<and> same_rides s s' \<and> published s' = published s"
  by (auto simp: requestRouteEstimatesThroughQueue_def removeRideJob_def same_rides_def eff_run
      split: option.split)

lemma offer_run: "cand_driverId c \<noteq> [] \<Longrightarrow> notifyRideOffered r c route s =
    (Inr (), s\<lparr>published := published s @ [buildPayload ToDriver (cand_driverId c) ''ride.offer'' r
      [Lit ''New ride requested near you''] [Candidate (buildCandidatePayload c), Route route]]\<rparr>)"
  by (simp add: notifyRideOffered_def dispatchNotification_def emit_def)

lemma publish_offers:
  assumes "[] \<notin> cand_driverId ` set cs"
  shows "forE (\<lambda>c. notifyRideOffered r c route) cs s = (Inr (), s\<lparr>published := published s @
    map (\<lambda>c. buildPayload ToDriver (cand_driverId c) ''ride.offer'' r [Lit ''New ride requested near you'']
      [Candidate (buildCandidatePayload c), Route route]) cs\<rparr>)"
  using assms
proof (induction cs arbitrary: s)
  case Nil
  show ?case by (simp add: run_for_Nil)
next
  case (Cons c cs)
  then have "cand_driverId c \<noteq> []" "[] \<notin> cand_driverId ` set cs" by auto
  then show ?case
    by (simp add: run_for_Cons offer_run Cons.IH)
qed

abbreviation addressed :: "notification \<Rightarrow> target \<times> string \<times> string" where
  "addressed n \<equiv> (n_target n, n_targetId n, n_event n)"

lemma matched_goes:
  assumes wf: "wf_world s" and env: "env_ok env" and rider: "rider \<noteq> []"
    and route: "route_result env job (ci_pickup payload) (ci_dropoff payload) = Some route"
    and near: "nearby env (fst (ci_pickup payload)) (snd (ci_pickup payload))
      (resolveCandidateLimit (ci_maxDrivers payload)) = Inr drivers" "drivers \<noteq> []"
  shows "\<exists>r cs s'. createMatchedRide env rider payload job s = (Inr (r, cs), s') \<and>
    row_find ride_id (ride_id r) (rides s) = None \<and> row_find ride_id (ride_id r) (rides s') = Some r \<and>
    fareEstimated r = calculateEstimatedFare (engine env) (Some (distanceKm route)) \<and>
    map cand_driverId cs = map nd_driverId drivers \<and>
    (\<forall>j. abs_ride j s' = (if j = ride_id r then Some (spec_create rider (map nd_driverId drivers))
       else abs_ride j s)) \<and>
    map addressed (published s') = map addressed (published s) @
      map (\<lambda>d. (ToDriver, nd_driverId d, ''ride.offer'')) drivers @
      [(ToRider, rider, ''ride.candidates.invited'')]"
proof -
  define opt where "opt = ride_details env rider payload route drivers"
  have opt: "rc_status opt = CANDIDATES_COMPUTED" "rc_nearbyDrivers opt = drivers" "rc_riderId opt = rider"
      "rc_historyEntries opt = buildInitialHistoryEntries (length drivers)"
      "rc_fareEstimated opt = calculateEstimatedFare (engine env) (Some (distanceKm route))"
    by (simp_all add: opt_def ride_details_def)
  have ds: "nearby_ok drivers" using env near by (auto simp: env_ok_def)
  obtain s1 where s1: "requestRouteEstimatesThroughQueue env job
      (ci_pickup payload) (ci_dropoff payload) s = (Inr route, s1)" "same_rides s s1" "published s1 = published s"
    using route_run [of env job "ci_pickup payload" "ci_dropoff payload" s] route
    by auto
  have wf1: "wf_world s1" using same_rides_wf [OF s1(2)] wf by simp
  obtain r cs s2 where s2: "createRideWithDetails opt s1 = (Inr (r, cs), s2)"
      "ride_id r = show_nat (rideSeq s1)" "row_find ride_id (ride_id r) (rides s2) = Some r"
      "abs_ride (show_nat (rideSeq s1)) s2 = Some (spec_create rider (map nd_driverId drivers))"
      "\<forall>j. j \<noteq> show_nat (rideSeq s1) \<longrightarrow> abs_ride j s2 = abs_ride j s1" "published s2 = published s1"
      "fareEstimated r = calculateEstimatedFare (engine env) (Some (distanceKm route))" "riderId r = rider" "map cand_driverId cs = map nd_driverId drivers"
    using createRideWithDetails_move [OF wf1, of opt, unfolded opt, OF ds refl refl] by blast
  have ids: "cand_driverId ` set cs = nd_driverId ` set drivers" using s2(9) by (metis set_map)
  then have "[] \<notin> cand_driverId ` set cs" using ds by (simp add: nearby_ok_def)
  note offers = publish_offers [OF this, of r route s2]
  define new where "new = published s @
      map (\<lambda>c. buildPayload ToDriver (cand_driverId c) ''ride.offer'' r [Lit ''New ride requested near you'']
        [Candidate (buildCandidatePayload c), Route route]) cs @
      [buildPayload ToRider rider ''ride.candidates.invited'' r [Lit ''awaiting driver responses''] []]"
  have run: "createMatchedRide env rider payload job s = (Inr (r, cs), s2\<lparr>published := new\<rparr>)"
    using rider s1 s2 near offers
    by (simp add: createMatchedRide_def run_bind run_then run_catch Let_def notifyRideMatched_def
        dispatchNotification_def emit_def opt_def [symmetric] new_def)
  have "map (\<lambda>c. (ToDriver, cand_driverId c, ''ride.offer'')) cs =
      map (\<lambda>d. (ToDriver, nd_driverId d, ''ride.offer'')) drivers"
    using arg_cong [OF s2(9), of "map (\<lambda>d. (ToDriver, d, ''ride.offer''))"] by (simp add: comp_def)
  then have told: "map addressed (published (s2\<lparr>published := new\<rparr>)) = map addressed (published s) @
      map (\<lambda>d. (ToDriver, nd_driverId d, ''ride.offer'')) drivers @
      [(ToRider, rider, ''ride.candidates.invited'')]"
    by (simp add: new_def buildPayload_def comp_def)
  have fresh: "row_find ride_id (ride_id r) (rides s) = None"
    using unissued_ride(1) [OF wf] s1(2) s2(2) by (simp add: same_rides_def)
  have row: "row_find ride_id (ride_id r) (rides (s2\<lparr>published := new\<rparr>)) = Some r" using s2(3) by simp
  have lives: "\<forall>j. abs_ride j (s2\<lparr>published := new\<rparr>) =
      (if j = ride_id r then Some (spec_create rider (map nd_driverId drivers)) else abs_ride j s)"
    using s2(2,4,5) same_rides_abs [OF s1(2)] same_rides_abs [OF publish_same] by simp
  show ?thesis using run fresh row lives told s2(7,9) by blast
qed

lemma create_runs:
  assumes "rider \<noteq> []" and "\<forall>x \<in> set (rides s). riderId x = rider \<longrightarrow> status x = COMPLETED \<or> status x = CANCELED"
  shows "createRide env rider payload s = createMatchedRide env rider payload (routeJobId rider (clock s)) s"
  using assms by (simp add: createRide_def run_bind findUnfinishedRideByRiderId_def filter_empty_conv)

lemma create_goes:
  assumes wf: "wf_world s" and env: "env_ok env" and rider: "rider \<noteq> []"
    and idle: "\<forall>x \<in> set (rides s). riderId x = rider \<longrightarrow> status x = COMPLETED \<or> status x = CANCELED"
    and route: "route_result env (routeJobId rider (clock s)) (ci_pickup payload) (ci_dropoff payload) = Some route"
    and near: "nearby env (fst (ci_pickup payload)) (snd (ci_pickup payload))
      (resolveCandidateLimit (ci_maxDrivers payload)) = Inr drivers" "drivers \<noteq> []"
  shows "\<exists>r cs s'. createRide env rider payload s = (Inr (r, cs), s') \<and>
    row_find ride_id (ride_id r) (rides s) = None \<and> row_find ride_id (ride_id r) (rides s') = Some r \<and>
    fareEstimated r = calculateEstimatedFare (engine env) (Some (distanceKm route)) \<and>
    map cand_driverId cs = map nd_driverId drivers \<and>
    (\<forall>j. abs_ride j s' = (if j = ride_id r then Some (spec_create rider (map nd_driverId drivers))
       else abs_ride j s)) \<and>
    map addressed (published s') = map addressed (published s) @
      map (\<lambda>d. (ToDriver, nd_driverId d, ''ride.offer'')) drivers @
      [(ToRider, rider, ''ride.candidates.invited'')]"
  unfolding create_runs [OF rider idle] by (rule matched_goes [OF wf env rider route near])


lemma demo_start_wf: "wf_world demo_start"
  unfolding demo_start_def by (rule wf_empty)


text \<open>
  Creating a ride that is refused leaves no trace: whatever goes wrong (no rider, an
  active ride, no route, no driver, a failing location service), the tables are as before,
  nobody is notified, and no route job of this request is left in the queue unless a worker
  holds its lock. A rider with an active ride is refused with a conflict.
\<close>

theorem createRide_refused:
  assumes wf: "wf_world s" and env: "env_ok env"
    and refused: "createRide env rider payload s = (Inl e, s')"
  shows "same_rides s s' \<and> published s' = published s \<and>
    (rider \<noteq> [] \<longrightarrow> (\<exists>x \<in> set (rides s). riderId x = rider \<and> status x \<noteq> COMPLETED \<and> status x \<noteq> CANCELED) \<longrightarrow>
       s' = s \<and> (\<exists>m. e = Conflict m)) \<and>
    (\<not> job_locked env (routeJobId rider (clock s)) \<longrightarrow> routeJobId rider (clock s) \<notin> set (rideJobs s) \<longrightarrow>
       routeJobId rider (clock s) \<notin> set (rideJobs s'))"
proof (cases "rider = [] \<or> fst (findUnfinishedRideByRiderId rider s) \<noteq> Inr None")
  case True
  then show ?thesis using refused
    by (auto simp: createRide_def run_bind findUnfinishedRideByRiderId_def same_rides_refl filter_empty_conv
        split: if_splits)
next
  case False
  then have none: "findUnfinishedRideByRiderId rider s = (Inr None, s)"
    and idle: "\<forall>x \<in> set (rides s). riderId x = rider \<longrightarrow> status x = COMPLETED \<or> status x = CANCELED"
    by (auto simp: findUnfinishedRideByRiderId_def filter_empty_conv)
  define job where "job = routeJobId rider (clock s)"
  obtain s1 where s1: "requestRouteEstimatesThroughQueue env job (ci_pickup payload) (ci_dropoff payload) s =
      (case route_result env job (ci_pickup payload) (ci_dropoff payload) of
         Some route \<Rightarrow> Inr route
       | None \<Rightarrow> Inl (BadRequest ''Unable to calculate route distance at this time. Please try again later.''),
       s1)" "same_rides s s1" "published s1 = published s"
    using route_run by blast
  let ?near = "nearby env (fst (ci_pickup payload)) (snd (ci_pickup payload))
      (resolveCandidateLimit (ci_maxDrivers payload))"
  have "\<not> (\<exists>route drivers. route_result env job (ci_pickup payload) (ci_dropoff payload) = Some route \<and>
      ?near = Inr drivers \<and> drivers \<noteq> [])"
    using create_goes [OF wf env _ idle] False refused unfolding job_def by fastforce
  then have "\<exists>e'. createRide env rider payload s = (Inl e', snd (removeRideJob env job s1))"
    using False none s1
    by (auto simp: createRide_def createMatchedRide_def run_bind run_then run_catch run_lift Let_def job_def [symmetric]
        removeRideJob_def split: option.splits sum.splits)
  then have "s' = snd (removeRideJob env job s1)" using refused by auto
  then show ?thesis
    using s1 idle by (auto simp: removeRideJob_def same_rides_def job_def [symmetric])
qed

lemma demo_conflict: "createRide demo_env ''7'' demo_input demo_world =
    (Inl (Conflict ''You already have an active ride. Please finish or cancel it before creating a new one.''),
     demo_world)"
  using abs_ride_in [OF demo_ride]
  by (auto simp: createRide_def run_bind findUnfinishedRideByRiderId_def spec_create_def filter_empty_conv)

theorem createRide_refused_witness:
  "\<exists>e s'. createRide demo_env ''7'' demo_input demo_world = (Inl e, s') \<and>
     same_rides demo_world s' \<and> published s' = published demo_world"
  using createRide_refused [OF demo_wf demo_env_ok demo_conflict] demo_conflict by auto

section \<open>Starting a trip\<close>

definition in_reach :: "track_env \<Rightarrow> jsnum \<Rightarrow> location \<Rightarrow> jsnum \<times> jsnum \<Rightarrow> bool" where
  "in_reach env radius loc p \<longleftrightarrow>
     \<not> js_lt radius (calculateDistanceMeters (trips env) (longitude loc) (latitude loc) (fst p) (snd p))"

lemma near_reach:
  "ensureLocationWithinRadius env loc p radius m s =
     (if in_reach env radius loc p then (Inr (), s) else (Inl (BadRequest m), s))"
  "ensureParticipantsAreNearby env loc l2 radius m s =
     (if in_reach env radius loc (longitude l2, latitude l2) then (Inr (), s) else (Inl (BadRequest m), s))"
  by (simp_all add: ensureLocationWithinRadius_def ensureParticipantsAreNearby_def in_reach_def)

definition start_ready :: "track_env \<Rightarrow> string \<Rightarrow> string \<Rightarrow> location \<Rightarrow> world \<Rightarrow> bool" where
  "start_ready env k driver loc s \<longleftrightarrow> driver \<noteq> [] \<and>
     (\<exists>r rloc. row_find ride_id k (rides s) = Some r \<and> driverId r = Some driver \<and>
       (status r = ENROUTE \<or> status r = TRIP_STARTED) \<and>
       lastRiderLocation (trip_state_of k s) = Some rloc \<and>
       in_reach env (tripStartProximityMeters env) loc (pickupLongitude r, pickupLatitude r) \<and>
       in_reach env (tripStartProximityMeters env) rloc (pickupLongitude r, pickupLatitude r) \<and>
       in_reach env (tripStartProximityMeters env) loc (longitude rloc, latitude rloc))"

lemma start_not_ready:
  assumes wf: "wf_world s" and no: "\<not> start_ready env k d loc s"
  shows "\<exists>e. startRide env k d loc s = (Inl e, s)"
proof (cases "row_find ride_id k (rides s)")
  case None
  then show ?thesis by (simp add: startRide_def eff_run)
next
  case (Some r)
  have "ride_id r = k" using wf_ride [OF wf Some] by simp
  then show ?thesis
    using Some no by (cases "lastRiderLocation (trip_state_of k s)")
      (auto simp: startRide_def start_ready_def run_bind run_then run_findRideById latest_run near_reach
        Let_def)
qed

lemma transition_frame: "frame tripStates (transitionRideStatus k al nx ctx)"
  unfolding transitionRideStatus_def updateRide_def recordStatusChange_def saveHistory_def insertHistoryRow_def
    findRideById_def Let_def
  by (intro frames frame_write | simp add: frame_def)+

lemma recordLocation_state:
  "lastDriverLocation (trip_state_of k (snd (recordLocation env k c DRIVER loc s))) = Some loc"
  by (simp add: recordLocation_def getState_def setState_def eff_run Let_def trip_state_of_def
      stringify_state_def parse_state_def)

lemma start_goes:
  assumes wf: "wf_world s" and ready: "start_ready env k d loc s"
  shows "\<exists>r s'. startRide env k d loc s = (Inr r, s') \<and> row_find ride_id k (rides s') = Some r \<and>
    status r = TRIP_STARTED \<and> lastDriverLocation (trip_state_of k s') = Some loc \<and>
    move k (spec_start d) s s'"
proof -
  obtain r rloc where ok: "d \<noteq> []" "row_find ride_id k (rides s) = Some r" "driverId r = Some d"
      "status r = ENROUTE \<or> status r = TRIP_STARTED" "lastRiderLocation (trip_state_of k s) = Some rloc"
      "in_reach env (tripStartProximityMeters env) loc (pickupLongitude r, pickupLatitude r)"
      "in_reach env (tripStartProximityMeters env) rloc (pickupLongitude r, pickupLatitude r)"
      "in_reach env (tripStartProximityMeters env) loc (longitude rloc, latitude rloc)"
    using ready by (auto simp: start_ready_def)
  have k: "ride_id r = k" using wf_ride [OF wf ok(2)] by simp
  obtain x s1 where s1: "recordLocation (trips env) k d DRIVER loc s = (Inr x, s1)" "same_rides s s1"
    using recordLocation_same by blast
  have here: "lastDriverLocation (trip_state_of k s1) = Some loc"
    using recordLocation_state [of k "trips env" d loc s] s1 by simp
  have wf1: "wf_world s1" using same_rides_wf [OF s1(2)] wf by simp
  have f1: "row_find ride_id k (rides s1) = Some r" using same_row [OF s1(2)] ok(2) by simp
  obtain r2 b s2 where s2: "transitionRideStatus k [ENROUTE, TRIP_STARTED] TRIP_STARTED
        (Some ''Driver started the trip'') s1 = (Inr (r2, b), s2)"
    and m2: "move k (a_transition [ENROUTE, TRIP_STARTED] TRIP_STARTED) s1 s2"
    and f2: "row_find ride_id k (rides s2) = Some r2"
    and st: "status r2 = (if status r \<in> set [ENROUTE, TRIP_STARTED] then TRIP_STARTED else status r)"
    using transition_move [OF wf1 f1, of "[ENROUTE, TRIP_STARTED]" TRIP_STARTED] by blast
  have st2: "status r2 = TRIP_STARTED" using st ok(4) by auto
  have trips2: "tripStates s2 = tripStates s1"
    using frame_run [OF transition_frame s2] .
  have id2: "ride_id r2 = k" using wf_ride [OF move_wf [OF m2] f2] by simp
  obtain ns where s3: "notifyRideStarted r2 s2 = (Inr (), s2\<lparr>published := published s2 @ ns\<rparr>)"
    using started.run_one by blast
  define s' where "s' = (if b then s2\<lparr>published := published s2 @ ns\<rparr> else s2)"
  have run: "startRide env k d loc s = (Inr r2, s')"
    using ok k s1 s2 s3 f2 id2
    by (cases b) (auto simp: startRide_def run_bind run_then run_when run_refresh run_findRideById latest_run
        near_reach Let_def s'_def)
  have "move k (spec_start d) s s2"
    by (rule move_eq [OF same_then_move [OF s1(2) m2]])
      (use abs_ride_fields [OF _ ok(2)] ok(3) in \<open>auto simp: spec_start_def\<close>)
  then have "move k (spec_start d) s s'"
    using move_then_same [OF _ publish_same] by (simp add: s'_def)
  moreover have "trip_state_of k s' = trip_state_of k s1"
    using trips2 by (simp add: s'_def trip_state_of_def)
  moreover have "row_find ride_id k (rides s') = Some r2" using f2 by (simp add: s'_def)
  ultimately show ?thesis using run st2 here by metis
qed


definition demo_trips :: trip_env where
  "demo_trips = \<lparr>geodist = (\<lambda>_ _. ReplyNumber (Fin 5)), trip_add_error = (\<lambda>_. None), persist_error = None\<rparr>"

definition demo_track :: track_env where
  "demo_track = new_track_env demo_trips (\<lambda>_. COther)"

definition demo_spot :: location where
  "demo_spot = \<lparr>longitude = Fin 106, latitude = Fin (- 6), accuracyMeters = None, recordedAt = ''t''\<rparr>"

text \<open>The ride on its way, after the rider has shared a location.\<close>

definition demo_shared :: world where
  "demo_shared = snd (recordTripLocation demo_track ''1'' \<lparr>req_id = ''7'', req_role = Some RIDER\<rparr> demo_spot
     demo_enroute)"

lemma demo_enroute_row: "\<exists>r. row_find ride_id ''1'' (rides demo_enroute) = Some r \<and> riderId r = ''7'' \<and>
    driverId r = Some ''11'' \<and> status r = ENROUTE \<and> ride_id r = ''1''"
proof -
  obtain r where r: "row_find ride_id ''1'' (rides demo_enroute) = Some r"
    using demo_enroute_ride by (auto simp: abs_ride_def)
  then show ?thesis
    using abs_ride_fields [OF demo_enroute_ride r] wf_ride [OF demo_worlds_wf(2) r] by auto
qed

lemma demo_shared_facts:
  "rides demo_shared = rides demo_enroute" "wf_world demo_shared"
  "abs_ride ''1'' demo_shared = abs_ride ''1'' demo_enroute"
  "lastRiderLocation (trip_state_of ''1'' demo_shared) = Some demo_spot"
proof -
  let ?c = "\<lparr>req_id = ''7'', req_role = Some RIDER\<rparr>"
  obtain r where r: "row_find ride_id ''1'' (rides demo_enroute) = Some r" "riderId r = ''7''"
      "status r = ENROUTE" "ride_id r = ''1''"
    using demo_enroute_row by blast
  then have run: "demo_shared = snd (recordLocation (trips demo_track) ''1'' ''7'' RIDER demo_spot demo_enroute)"
    by (simp add: demo_shared_def recordTripLocation_def run_bind run_then run_findRideById
        ensureRequesterCanAccessRide_def split: prod.split sum.split)
  show "rides demo_shared = rides demo_enroute"
    "lastRiderLocation (trip_state_of ''1'' demo_shared) = Some demo_spot"
    unfolding run
    by (simp_all add: recordLocation_def getState_def setState_def eff_run Let_def trip_state_of_def
        stringify_state_def parse_state_def)
  show "wf_world demo_shared" "abs_ride ''1'' demo_shared = abs_ride ''1'' demo_enroute"
    using quietD [OF quiet_recordTripLocation demo_worlds_wf(2)] by (simp_all add: demo_shared_def)
qed

lemma demo_near: "in_reach demo_track (tripStartProximityMeters demo_track) l p"
  by (simp add: in_reach_def demo_track_def new_track_env_def demo_trips_def calculateDistanceMeters_def
      getNumberConfig_def)

lemma demo_start_ready: "start_ready demo_track ''1'' ''11'' demo_spot demo_shared"
  using demo_enroute_row demo_shared_facts demo_near by (auto simp: start_ready_def)


end
