(* ===== verification/Trip_Guarantees.thy ===== *)
theory Trip_Guarantees
  imports Ride_Guarantees
begin

text \<open>
  What \<open>TripTrackingService\<close> guarantees of the locations it records and flushes, against an
  abstract log: the persisted track of a ride followed by its pending events. Recording adds
  one entry to the log, flushing moves entries from the pending part to the persisted part.
  The last section is the completion of a ride with its fare.
\<close>

section \<open>The log of a ride\<close>

fun parsed :: "'a stored list \<Rightarrow> 'a list" where
  "parsed [] = []"
| "parsed (Parsed e # ps) = e # parsed ps"
| "parsed (Unparsable # ps) = parsed ps"

definition trip_log :: "string \<Rightarrow> world \<Rightarrow> trip_track list" where
  "trip_log k s =
     filter (\<lambda>t. tt_rideId t = k) (tripTracks s) @ map (track_of k) (parsed (tripEvents s k))"

lemma parsed_append [simp]: "parsed (xs @ ys) = parsed xs @ parsed ys"
  by (induction xs rule: parsed.induct) auto

lemma json_number_fin [simp]: "json_number (Fin x) = Some (Fin x)"
  by (simp add: json_number_def)

lemma track_of_ride [simp]: "tt_rideId (track_of k e) = k"
  by (simp add: track_of_def)

lemma filter_tracks [simp]:
  "filter (\<lambda>t. tt_rideId t = j) (map (track_of k) es) = (if j = k then map (track_of k) es else [])"
  by (induction es) auto

section \<open>Recording\<close>

text \<open>The distance a driver's location adds, the state and the event it leaves.\<close>

definition leg :: "trip_env \<Rightarrow> client_type \<Rightarrow> location \<Rightarrow> trip_state \<Rightarrow> jsnum" where
  "leg env role loc st =
     (if role = DRIVER then
        (case lastDriverLocation st of
           None \<Rightarrow> Fin 0 | Some p \<Rightarrow> calculateDistanceBetweenCoordinates env p loc)
      else Fin 0)"

definition next_total :: "trip_env \<Rightarrow> client_type \<Rightarrow> location \<Rightarrow> trip_state \<Rightarrow> jsnum" where
  "next_total env role loc st =
     (if role = DRIVER then js_add (totalDistanceMeters st) (leg env role loc st)
      else totalDistanceMeters st)"

definition next_state :: "trip_env \<Rightarrow> client_type \<Rightarrow> location \<Rightarrow> trip_state \<Rightarrow> trip_state" where
  "next_state env role loc st =
     st\<lparr>totalDistanceMeters := next_total env role loc st,
        lastDriverLocation := (if role = DRIVER then Some loc else lastDriverLocation st),
        lastRiderLocation := (if role = RIDER then Some loc else lastRiderLocation st)\<rparr>"

definition next_event :: "trip_env \<Rightarrow> string \<Rightarrow> client_type \<Rightarrow> location \<Rightarrow> trip_state \<Rightarrow> track_event" where
  "next_event env c role loc st =
     \<lparr>ev_role = role, ev_clientId = c, ev_location = loc, distanceDeltaMeters = leg env role loc st,
      ev_totalDistanceMeters = json_number (next_total env role loc st)\<rparr>"

lemma recordLocation_run [eff_run]:
  "recordLocation env k c role loc s =
     (Inr (next_total env role loc (trip_state_of k s), leg env role loc (trip_state_of k s)),
      s\<lparr>tripStates := (tripStates s)(k := Some (Parsed (stringify_state
            (next_state env role loc (trip_state_of k s))))),
        tripActive := List.insert k (tripActive s),
        tripEvents := (tripEvents s)(k := tripEvents s k @
            [Parsed (next_event env c role loc (trip_state_of k s))])\<rparr>)"
  by (cases role; cases "trip_state_of k s"; cases "lastDriverLocation (trip_state_of k s)")
    (simp_all add: recordLocation_def getState_def setState_def eff_run Let_def next_total_def leg_def
      next_state_def next_event_def split: option.split)

text \<open>What is read back is what was written, as long as the total is a finite number.\<close>

lemma state_roundtrip: "is_finite (totalDistanceMeters st) \<Longrightarrow> parse_state (stringify_state st) = st"
  by (simp add: parse_state_def stringify_state_def json_number_def)

lemma state_after_record:
  "trip_state_of k (snd (recordLocation env k c role loc s)) =
     parse_state (stringify_state (next_state env role loc (trip_state_of k s)))"
  by (simp add: recordLocation_run trip_state_of_def)

text \<open>A driver's way, and the total the code computes for it, leg by leg.\<close>

fun way_total :: "trip_env \<Rightarrow> jsnum \<Rightarrow> location \<Rightarrow> location list \<Rightarrow> jsnum" where
  "way_total env acc p [] = acc"
| "way_total env acc p (q # qs) =
     way_total env (js_add acc (calculateDistanceBetweenCoordinates env p q)) q qs"

fun way_finite :: "trip_env \<Rightarrow> jsnum \<Rightarrow> location \<Rightarrow> location list \<Rightarrow> bool" where
  "way_finite env acc p [] = is_finite acc"
| "way_finite env acc p (q # qs) = (is_finite acc \<and>
     way_finite env (js_add acc (calculateDistanceBetweenCoordinates env p q)) q qs)"

definition record_way :: "trip_env \<Rightarrow> string \<Rightarrow> string \<Rightarrow> location list \<Rightarrow> unit weff" where
  "record_way env k c qs = forE (\<lambda>q. bindE (recordLocation env k c DRIVER q) (\<lambda>_. returnE ())) qs"

lemma record_way_Cons: "record_way env k c (q # qs) s =
    record_way env k c qs (snd (recordLocation env k c DRIVER q s))"
  by (simp add: record_way_def run_for_Cons run_bind recordLocation_run)

lemma record_way_total:
  assumes "lastDriverLocation (trip_state_of k s) = Some p"
    and "way_finite env (totalDistanceMeters (trip_state_of k s)) p qs"
  shows "totalDistanceMeters (trip_state_of k (snd (record_way env k c qs s))) =
      way_total env (totalDistanceMeters (trip_state_of k s)) p qs \<and>
    lastDriverLocation (trip_state_of k (snd (record_way env k c qs s))) = Some (last (p # qs)) \<and>
    fst (record_way env k c qs s) = Inr ()"
  using assms
proof (induction qs arbitrary: s p)
  case Nil
  then show ?case by (simp add: record_way_def run_for_Nil)
next
  case (Cons q qs)
  let ?s = "snd (recordLocation env k c DRIVER q s)"
  let ?total = "js_add (totalDistanceMeters (trip_state_of k s)) (calculateDistanceBetweenCoordinates env p q)"
  have fin: "is_finite ?total"
    using Cons.prems(2) by (cases qs) auto
  have "next_total env DRIVER q (trip_state_of k s) = ?total"
    using Cons.prems(1) by (simp add: next_total_def leg_def)
  then have st: "trip_state_of k ?s = next_state env DRIVER q (trip_state_of k s)"
    using fin by (simp add: state_after_record state_roundtrip next_state_def)
  then have now: "totalDistanceMeters (trip_state_of k ?s) = ?total"
      "lastDriverLocation (trip_state_of k ?s) = Some q"
    using \<open>next_total _ _ _ _ = _\<close> by (simp_all add: next_state_def)
  have "way_finite env (totalDistanceMeters (trip_state_of k ?s)) q qs" using Cons.prems(2) now by simp
  from Cons.IH [OF now(2) this] show ?case by (simp add: record_way_Cons now)
qed

text \<open>
  The tracked distance: when a driver's locations \<open>p, q\<^sub>1, ..., q\<^sub>n\<close> are recorded for a ride
  that has none yet, the total of the ride is the sum of the distances between consecutive
  locations, added from the left as the code adds them, and the driver's last location is the
  last one sent (as long as no partial sum overflows the doubles).
\<close>

theorem tracked_distance:
  assumes "trip_state_of k s = initial_trip_state"
    and "way_finite env (Fin 0) p qs"
  shows "totalDistanceMeters (trip_state_of k (snd (record_way env k c (p # qs) s))) =
      way_total env (Fin 0) p qs \<and>
    lastDriverLocation (trip_state_of k (snd (record_way env k c (p # qs) s))) = Some (last (p # qs))"
proof -
  let ?s = "snd (recordLocation env k c DRIVER p s)"
  have "trip_state_of k ?s = initial_trip_state\<lparr>lastDriverLocation := Some p\<rparr>"
    using assms(1) by (simp add: state_after_record next_state_def next_total_def leg_def
        initial_trip_state_def state_roundtrip)
  then show ?thesis
    using record_way_total [of k ?s p env qs c] assms(2)
    by (simp add: record_way_Cons initial_trip_state_def)
qed

theorem tracked_distance_witness:
  "totalDistanceMeters (trip_state_of ''1'' (snd (record_way demo_trips ''1'' ''11''
     [demo_spot, demo_spot, demo_spot] empty_world))) = Fin 10"
proof -
  have round: "round64 5 = Fin 5" "round64 10 = Fin 10"
    using round64_int [of 5] round64_int [of 10] by simp_all
  have d: "calculateDistanceBetweenCoordinates demo_trips demo_spot demo_spot = Fin 5"
    by (simp add: calculateDistanceBetweenCoordinates_def calculateDistanceMeters_def demo_trips_def)
  have "trip_state_of ''1'' empty_world = initial_trip_state"
    by (simp add: trip_state_of_def empty_world_def)
  from tracked_distance [OF this, of demo_trips demo_spot "[demo_spot, demo_spot]" "''11''"]
  show ?thesis by (simp add: d round)
qed

section \<open>Flushing\<close>

definition summary_for :: "string \<times> client_type \<Rightarrow> trip_summary list \<Rightarrow> trip_summary option" where
  "summary_for key rows = List.find (\<lambda>x. (ts_rideId x, ts_clientRole x) = key) rows"

lemma upsertSummary_Cons: "upsertSummary (r # rows) x =
    (if (ts_rideId r, ts_clientRole r) = (ts_rideId x, ts_clientRole x)
     then x # map (\<lambda>r. if ts_rideId r = ts_rideId x \<and> ts_clientRole r = ts_clientRole x then x else r) rows
     else r # upsertSummary rows x)"
  by (auto simp: upsertSummary_def)

lemma find_upsertSummary: "summary_for k (upsertSummary rows x) =
    (if k = (ts_rideId x, ts_clientRole x) then Some x else summary_for k rows)"
proof (induction rows)
  case Nil
  show ?case by (auto simp: upsertSummary_def summary_for_def)
next
  case (Cons r rows)
  have other: "List.find (\<lambda>x. (ts_rideId x, ts_clientRole x) = k)
      (map (\<lambda>r. if ts_rideId r = ts_rideId x \<and> ts_clientRole r = ts_clientRole x then x else r) rows) =
      List.find (\<lambda>x. (ts_rideId x, ts_clientRole x) = k) rows"
    if "k \<noteq> (ts_rideId x, ts_clientRole x)"
    using that by (induction rows) auto
  show ?case using Cons other by (auto simp: upsertSummary_Cons summary_for_def)
qed

interpretation summary_rows: upsert_store summary_for upsertSummary "\<lambda>x. (ts_rideId x, ts_clientRole x)"
  by unfold_locales (rule find_upsertSummary)

lemma find_map_set:
  "List.find (\<lambda>p. fst p = j) (map_set k v m) =
     (if j = k then Some (k, v) else List.find (\<lambda>p. fst p = j) m)"
  by (induction k v m rule: map_set.induct) auto

interpretation role_map: upsert_store "\<lambda>j m. List.find (\<lambda>p. fst p = j) m" "\<lambda>m p. map_set (fst p) (snd p) m" fst
  by unfold_locales (auto simp: find_map_set)

lemma map_set_keys: "distinct (map fst m) \<Longrightarrow>
    distinct (map fst (map_set k v m)) \<and> set (map fst (map_set k v m)) = insert k (set (map fst m))"
  by (induction k v m rule: map_set.induct) auto

lemma map_set_subset: "set (map_set k v m) \<subseteq> insert (k, v) (set m)"
  by (induction k v m rule: map_set.induct) auto

lemma find_prop: "List.find P xs = Some x \<Longrightarrow> P x"
  by (induction xs) (auto split: if_splits)

text \<open>The summaries of a flush: for each role the summary of its last event.\<close>

definition last_summaries :: "string \<Rightarrow> track_event list \<Rightarrow> (client_type \<times> trip_summary) list" where
  "last_summaries k es = foldl (\<lambda>m p. map_set (fst p) (snd p) m) [] (map (\<lambda>e. (ev_role e, summary_of k e)) es)"

definition last_event :: "client_type \<Rightarrow> track_event list \<Rightarrow> track_event option" where
  "last_event role es = List.find (\<lambda>e. ev_role e = role) (rev es)"

lemma flush_fold:
  "foldl (flush_step k) (es, m) ps = (es @ map (track_of k) (parsed ps),
     foldl (\<lambda>m p. map_set (fst p) (snd p) m) m (map (\<lambda>e. (ev_role e, summary_of k e)) (parsed ps)))"
  by (induction ps arbitrary: es m rule: parsed.induct) auto

lemma summary_of_key [simp]: "ts_rideId (summary_of k e) = k" "ts_clientRole (summary_of k e) = ev_role e"
  by (simp_all add: summary_of_def)

lemma find_map: "List.find P (map f xs) = map_option f (List.find (\<lambda>x. P (f x)) xs)"
  by (induction xs) auto

lemma last_summaries_find: "List.find (\<lambda>p. fst p = role) (last_summaries k es) =
    map_option (\<lambda>e. (role, summary_of k e)) (last_event role es)"
proof -
  have "List.find (\<lambda>p. fst p = role) (last_summaries k es) =
      List.find (\<lambda>p. fst p = role) (map (\<lambda>e. (ev_role e, summary_of k e)) (rev es))"
    by (simp add: last_summaries_def role_map.lookup_upserts rev_map split: option.split)
  also have "\<dots> = map_option (\<lambda>e. (ev_role e, summary_of k e)) (last_event role es)"
    by (simp add: find_map last_event_def)
  also have "\<dots> = map_option (\<lambda>e. (role, summary_of k e)) (last_event role es)"
    by (cases "last_event role es") (auto simp: last_event_def dest: find_prop)
  finally show ?thesis .
qed

definition keyed :: "string \<Rightarrow> (client_type \<times> trip_summary) list \<Rightarrow> bool" where
  "keyed k m \<longleftrightarrow> distinct (map fst m) \<and>
     (\<forall>p \<in> set m. ts_rideId (snd p) = k \<and> ts_clientRole (snd p) = fst p)"

lemma keyed_set:
  assumes m: "keyed k m"
  shows "keyed k (map_set (ev_role e) (summary_of k e) m)"
  unfolding keyed_def
proof
  have "distinct (map fst m)" using m by (simp add: keyed_def)
  then show "distinct (map fst (map_set (ev_role e) (summary_of k e) m))" by (rule map_set_keys [THEN conjunct1])
  show "\<forall>p \<in> set (map_set (ev_role e) (summary_of k e) m). ts_rideId (snd p) = k \<and> ts_clientRole (snd p) = fst p"
  proof
    fix p assume "p \<in> set (map_set (ev_role e) (summary_of k e) m)"
    then have "p \<in> insert (ev_role e, summary_of k e) (set m)" using map_set_subset by (rule subsetD [rotated])
    then show "ts_rideId (snd p) = k \<and> ts_clientRole (snd p) = fst p"
      using m by (elim insertE) (simp_all add: keyed_def)
  qed
qed

lemma last_summaries_keyed: "keyed k (last_summaries k es)"
proof -
  have "keyed k m \<Longrightarrow> keyed k
      (foldl (\<lambda>m p. map_set (fst p) (snd p) m) m (map (\<lambda>e. (ev_role e, summary_of k e)) es))" for m
    by (induction es arbitrary: m) (simp_all add: keyed_set)
  moreover have "keyed k []" by (simp add: keyed_def)
  ultimately show ?thesis unfolding last_summaries_def by blast
qed

lemma find_none: "(\<And>x. x \<in> set xs \<Longrightarrow> \<not> P x) \<Longrightarrow> List.find P xs = None"
  by (induction xs) auto

lemma find_same: "(\<And>x. x \<in> set xs \<Longrightarrow> P x = Q x) \<Longrightarrow> List.find P xs = List.find Q xs"
  by (induction xs) auto

lemma find_rev_distinct:
  "distinct (map fst ps) \<Longrightarrow> List.find (\<lambda>p. fst p = j) (rev ps) = List.find (\<lambda>p. fst p = j) ps"
proof (induction ps)
  case (Cons p ps)
  have "List.find (\<lambda>p. fst p = j) ps = None" if "fst p = j"
  proof (rule find_none)
    fix q assume "q \<in> set ps"
    then have "fst q \<in> set (map fst ps)" by simp
    moreover have "fst p \<notin> set (map fst ps)" using Cons.prems by simp
    ultimately show "fst q \<noteq> j" using that by metis
  qed
  then show ?case using Cons by (auto simp: find_append_single split: option.split)
qed simp

text \<open>What the table of summaries holds after the flush of ride \<open>k\<close>.\<close>

lemma flushed_summaries:
  "summary_for (j, role) (foldl upsertSummary rows (map snd (last_summaries k es))) =
     (if j = k then (case last_event role es of None \<Rightarrow> summary_for (j, role) rows
                     | Some e \<Rightarrow> Some (summary_of k e))
      else summary_for (j, role) rows)"
proof -
  define m where "m = last_summaries k es"
  have key: "(ts_rideId (snd p), ts_clientRole (snd p)) = (k, fst p)" if "p \<in> set m" for p
    using last_summaries_keyed [of k es] that by (simp add: keyed_def m_def)
  have found: "List.find (\<lambda>p. fst p = role) (rev m) = map_option (\<lambda>e. (role, summary_of k e)) (last_event role es)"
    using last_summaries_keyed [of k es]
    by (simp add: keyed_def find_rev_distinct last_summaries_find m_def)
  have "List.find (\<lambda>x. (ts_rideId x, ts_clientRole x) = (j, role)) (rev (map snd m)) =
      map_option snd (List.find (\<lambda>p. (ts_rideId (snd p), ts_clientRole (snd p)) = (j, role)) (rev m))"
    by (simp add: rev_map find_map)
  also have "List.find (\<lambda>p. (ts_rideId (snd p), ts_clientRole (snd p)) = (j, role)) (rev m) =
      (if j = k then List.find (\<lambda>p. fst p = role) (rev m) else None)"
  proof (cases "j = k")
    case True
    have "List.find (\<lambda>p. (ts_rideId (snd p), ts_clientRole (snd p)) = (j, role)) (rev m) =
        List.find (\<lambda>p. fst p = role) (rev m)"
      by (rule find_same) (use key True in simp)
    then show ?thesis using True by simp
  next
    case False
    have "List.find (\<lambda>p. (ts_rideId (snd p), ts_clientRole (snd p)) = (j, role)) (rev m) = None"
      by (rule find_none) (use key False in simp)
    then show ?thesis using False by simp
  qed
  finally have "List.find (\<lambda>x. (ts_rideId x, ts_clientRole x) = (j, role)) (rev (map snd m)) =
      (if j = k then map_option (summary_of k) (last_event role es) else None)"
    by (simp add: found option.map_comp comp_def)
  then show ?thesis
    unfolding summary_rows.lookup_upserts m_def [symmetric]
    by (cases "last_event role es") simp_all
qed

subsection \<open>The effect of a flush\<close>

definition flushed :: "string \<Rightarrow> world \<Rightarrow> world" where
  "flushed k s =
     (let es = parsed (tripEvents s k);
          s1 = s\<lparr>tripEvents := (tripEvents s)(k := []),
                 tripTracks := tripTracks s @ map (track_of k) es,
                 tripSummaries := foldl upsertSummary (tripSummaries s) (map snd (last_summaries k es))\<rparr>
      in if trip_completed (trip_state_of k s)
         then s1\<lparr>tripStates := (tripStates s1)(k := None), tripActive := removeAll k (tripActive s1)\<rparr>
         else s1)"

lemma last_summaries_Nil [simp]: "last_summaries k [] = []"
  by (simp add: last_summaries_def)

lemma last_summaries_empty [simp]: "last_summaries k es = [] \<longleftrightarrow> es = []"
proof (cases "es = []")
  case False
  then obtain e where "e \<in> set es" by (cases es) auto
  then have "last_event (ev_role e) es \<noteq> None"
    unfolding last_event_def by (auto simp: find_None_iff)
  then have "List.find (\<lambda>p. fst p = ev_role e) (last_summaries k es) \<noteq> None"
    unfolding last_summaries_find by simp
  then show ?thesis using False by auto
qed simp

lemma flush_fold_summaries:
  "foldl (flush_step k) ([], []) ps = (map (track_of k) (parsed ps), last_summaries k (parsed ps))"
  by (simp add: flush_fold last_summaries_def)

lemma flushRide_run:
  assumes "persist_error env = None"
  shows "flushRide env k s = (Inr (), flushed k s)"
proof (cases "tripEvents s k = []")
  case True
  then have "(tripEvents s)(k := []) = tripEvents s" by (simp add: fun_upd_idem)
  then show ?thesis
    using True assms
    by (simp add: flushRide_def flushed_def getState_def cleanupRide_def eff_run Let_def)
next
  case False
  then show ?thesis
    using assms
    by (cases "parsed (tripEvents s k) = []")
      (simp_all add: flushRide_def flushed_def getState_def cleanupRide_def eff_run Let_def flush_fold_summaries
        persistFlush_def upsertSummaries_def trip_state_of_def)
qed

lemma flushed_facts:
  "tripEvents (flushed k s) = (tripEvents s)(k := [])"
  "tripTracks (flushed k s) = tripTracks s @ map (track_of k) (parsed (tripEvents s k))"
  "summary_for (j, role) (tripSummaries (flushed k s)) =
     (if j = k then (case last_event role (parsed (tripEvents s k)) of
                       None \<Rightarrow> summary_for (j, role) (tripSummaries s) | Some e \<Rightarrow> Some (summary_of k e))
      else summary_for (j, role) (tripSummaries s))"
  "tripStates (flushed k s) =
     (if trip_completed (trip_state_of k s) then (tripStates s)(k := None) else tripStates s)"
  "tripActive (flushed k s) =
     (if trip_completed (trip_state_of k s) then removeAll k (tripActive s) else tripActive s)"
  by (auto simp: flushed_def Let_def flushed_summaries)

lemma flushed_log: "trip_log j (flushed k s) = trip_log j s"
  by (simp add: trip_log_def flushed_facts)

text \<open>
  A flush that the database accepts: it returns, the pending events of the ride are
  appended to its persisted track in the order they were recorded and nothing is pending any
  more, the summary of each role is that of its last event, a completed ride loses its state
  and leaves the active set while a running one keeps both, and the pending events, states
  and summaries of all other rides are as before.
\<close>

theorem flush_persists:
  assumes "persist_error env = None"
  shows "\<exists>s'. flushRide env k s = (Inr (), s') \<and> tripEvents s' = (tripEvents s)(k := []) \<and>
    tripTracks s' = tripTracks s @ map (track_of k) (parsed (tripEvents s k)) \<and>
    (\<forall>j role. summary_for (j, role) (tripSummaries s') =
       (if j = k then (case last_event role (parsed (tripEvents s k)) of
                         None \<Rightarrow> summary_for (j, role) (tripSummaries s) | Some e \<Rightarrow> Some (summary_of k e))
        else summary_for (j, role) (tripSummaries s))) \<and>
    (if trip_completed (trip_state_of k s)
     then tripStates s' = (tripStates s)(k := None) \<and> tripActive s' = removeAll k (tripActive s)
     else tripStates s' = tripStates s \<and> tripActive s' = tripActive s)"
  using flushRide_run [OF assms, of k s] by (simp add: flushed_facts)

theorem flush_persists_witness:
  "\<exists>s'. flushRide demo_trips ''1'' demo_shared = (Inr (), s') \<and> tripEvents s' ''1'' = []"
  using flush_persists [of demo_trips "''1''" demo_shared] by (auto simp: demo_trips_def)

text \<open>
  A flush that the database refuses loses the pending events: they have been deleted from
  Redis before the insert, the transaction leaves no track, and the ride's log is cut to what
  had been persisted before.
\<close>

theorem flush_failure_loses_events:
  assumes "persist_error env = Some e" and "parsed (tripEvents s k) \<noteq> []"
  shows "\<exists>s'. flushRide env k s = (Inl e, s') \<and> tripTracks s' = tripTracks s \<and> tripEvents s' k = [] \<and>
    trip_log k s' = filter (\<lambda>t. tt_rideId t = k) (tripTracks s)"
proof -
  have "tripEvents s k \<noteq> []" using assms(2) by auto
  then have "flushRide env k s = (Inl e, s\<lparr>tripEvents := (tripEvents s)(k := [])\<rparr>)"
    using assms
    by (simp add: flushRide_def eff_run Let_def flush_fold_summaries persistFlush_def upsertSummaries_def)
  then show ?thesis by (simp add: trip_log_def)
qed

lemma demo_shared_events: "parsed (tripEvents demo_shared ''1'') \<noteq> []"
proof -
  obtain r where r: "row_find ride_id ''1'' (rides demo_enroute) = Some r" "riderId r = ''7''"
      "status r = ENROUTE" "ride_id r = ''1''"
    using demo_enroute_row by blast
  then have run: "demo_shared = snd (recordLocation (trips demo_track) ''1'' ''7'' RIDER demo_spot demo_enroute)"
    by (simp add: demo_shared_def recordTripLocation_def run_bind run_then run_findRideById
        ensureRequesterCanAccessRide_def split: prod.split sum.split)
  show ?thesis unfolding run by (simp add: recordLocation_run)
qed

theorem flush_failure_loses_events_witness:
  "\<exists>s'. flushRide (demo_trips\<lparr>persist_error := Some (JsError ''db'')\<rparr>) ''1'' demo_shared = (Inl (JsError ''db''), s') \<and>
     tripEvents s' ''1'' = []"
  using flush_failure_loses_events [of "demo_trips\<lparr>persist_error := Some (JsError ''db'')\<rparr>" "JsError ''db''",
      OF _ demo_shared_events] by auto

section \<open>Recording and flushing in any order\<close>

datatype trip_op = Record string string client_type location | Flush string | FlushEvery

fun trip_run :: "trip_env \<Rightarrow> trip_op \<Rightarrow> world \<Rightarrow> world" where
  "trip_run env (Record k c role loc) s = snd (recordLocation env k c role loc s)"
| "trip_run env (Flush k) s = snd (flushRide env k s)"
| "trip_run env FlushEvery s = snd (flushAll env s)"

fun recorded_of :: "string \<Rightarrow> trip_op list \<Rightarrow> (string \<times> client_type \<times> location) list" where
  "recorded_of k [] = []"
| "recorded_of k (Record j c role loc # ops) =
     (if j = k then (c, role, loc) # recorded_of k ops else recorded_of k ops)"
| "recorded_of k (_ # ops) = recorded_of k ops"

definition track_point :: "trip_track \<Rightarrow> string \<times> client_type \<times> jsnum \<times> jsnum \<times> string" where
  "track_point t = (tt_clientId t, tt_clientRole t, tt_longitude t, tt_latitude t, tt_recordedAt t)"

definition point_of :: "string \<times> client_type \<times> location \<Rightarrow> string \<times> client_type \<times> jsnum \<times> jsnum \<times> string" where
  "point_of r = (case r of (c, role, loc) \<Rightarrow> (c, role, longitude loc, latitude loc, recordedAt loc))"

lemma record_log: "trip_log j (snd (recordLocation env k c role loc s)) =
    trip_log j s @ (if j = k then [track_of k (next_event env c role loc (trip_state_of k s))] else [])"
  by (simp add: recordLocation_run trip_log_def)

lemma flush_every_run:
  assumes "persist_error env = None"
  shows "flushAll env s = (Inr (), fold flushed (tripActive s) s)"
proof -
  have "forE (\<lambda>k. catchE (flushRide env k) (\<lambda>_. returnE ())) ks s = (Inr (), fold flushed ks s)" for ks s
    by (induction ks arbitrary: s)
      (simp_all add: run_for_Nil run_for_Cons run_catch flushRide_run [OF assms])
  then show ?thesis by (simp add: flushAll_def run_bind)
qed

lemma fold_flushed_log: "trip_log j (fold flushed ks s) = trip_log j s"
  by (induction ks arbitrary: s) (simp_all add: flushed_log)

lemma fold_flushed_events: "tripEvents (fold flushed ks s) k = (if k \<in> set ks then [] else tripEvents s k)"
  by (induction ks arbitrary: s) (auto simp: flushed_facts)

lemma track_point_event [simp]: "track_point (track_of k (next_event env c role loc st)) = point_of (c, role, loc)"
  by (simp add: track_point_def point_of_def track_of_def next_event_def)



text \<open>
  The periodic flush: it never throws, also when the database refuses every ride; when the
  database accepts, no active ride has pending events afterwards and no log has changed; and
  flushing a ride twice in a row does nothing more than flushing it once.
\<close>

theorem flush_all_outcome:
  "(\<exists>s'. flushAll env s = (Inr (), s')) \<and>
   (case persist_error env of Some _ \<Rightarrow> True
    | None \<Rightarrow> (\<forall>k. tripEvents (snd (flushAll env s)) k = (if k \<in> set (tripActive s) then [] else tripEvents s k)) \<and>
        (\<forall>k. trip_log k (snd (flushAll env s)) = trip_log k s) \<and>
        (\<forall>k. snd (flushRide env k (snd (flushRide env k s))) = snd (flushRide env k s)))"
proof -
  have "\<exists>s'. forE (\<lambda>k. catchE (flushRide env k) (\<lambda>_. returnE ())) ks s = (Inr (), s')" for ks s
    by (induction ks arbitrary: s)
      (auto simp: run_for_Nil run_for_Cons run_catch split: prod.split sum.split)
  then have returns: "\<exists>s'. flushAll env s = (Inr (), s')" by (simp add: flushAll_def run_bind)
  have twice: "flushed k (flushed k s) = flushed k s" for k
    by (simp add: flushed_def Let_def trip_state_of_def initial_trip_state_def)
  show ?thesis
    using returns
    by (cases "persist_error env")
      (simp_all add: flush_every_run fold_flushed_log fold_flushed_events flushRide_run twice)
qed

section \<open>Completing a ride\<close>

lemma saved_fare:
  "fareFinal (saved_ride now c (with_fare f r)) = Some (to_fixed 2 (finalFare f))"
  "ride_discountAmount (saved_ride now c (with_fare f r)) = Some (to_fixed 2 (discountAmount f))"
  "ride_appFeeAmount (saved_ride now c (with_fare f r)) = Some (to_fixed 2 (appFeeAmount f))"
  "distanceActualKm (saved_ride now c (with_fare f r)) = Some (roundedDistanceKm f)"
  "paymentStatus (saved_ride now c (with_fare f r)) = Some PayPending"
  "paymentUrl (saved_ride now c (with_fare f r)) = None"
  by (simp_all add: saved_ride_def with_fare_def mergeRideData_def updated_row_def)

definition charged :: "fare_result \<Rightarrow> ride \<Rightarrow> bool" where
  "charged f r \<longleftrightarrow> fareFinal r = Some (to_fixed 2 (finalFare f)) \<and>
     ride_discountAmount r = Some (to_fixed 2 (discountAmount f)) \<and>
     ride_appFeeAmount r = Some (to_fixed 2 (appFeeAmount f)) \<and>
     distanceActualKm r = Some (roundedDistanceKm f) \<and>
     paymentStatus r = Some PayPending \<and> paymentUrl r = None"

lemma saved_fare_charged: "charged f (saved_ride now c (with_fare f r))"
  unfolding charged_def saved_fare by simp

lemma mark_ok: "trip_add_error env k = None \<Longrightarrow> \<exists>s'. markRideCompleted env k s = (Inr (), s')"
  by (simp add: markRideCompleted_def getState_def setState_def enqueueFlushRideJob_def eff_run)

lemma finish_run:
  assumes wf: "wf_world s" and found: "row_find ride_id k (rides s) = Some r" and d: "driverId r = Some d"
    and st: "status r \<in> {ENROUTE, ACCEPTED, ASSIGNED, TRIP_STARTED}"
  shows "\<exists>e s3 r' s'. finishRide env k fare s = (case e of Some err \<Rightarrow> (Inl err, s3) | None \<Rightarrow> (Inr r', s')) \<and>
    (trip_add_error (trips env) k = None \<longrightarrow> e = None) \<and>
    row_find ride_id k (rides s') = Some r' \<and> status r' = COMPLETED \<and> driverId r' = Some d \<and>
    charged fare r'"
proof -
  let ?al = "[ENROUTE, ACCEPTED, ASSIGNED, TRIP_STARTED]"
  obtain r2 b s2 where s2: "transitionRideStatus k ?al COMPLETED
        (Some ''Driver marked the ride as completed'') s = (Inr (r2, b), s2)"
    and m2: "move k (a_transition ?al COMPLETED) s s2"
    and f2: "row_find ride_id k (rides s2) = Some r2"
    and st2: "status r2 = (if status r \<in> set ?al then COMPLETED else status r)" "driverId r2 = driverId r"
    using transition_move [OF wf found, of ?al COMPLETED] by blast
  obtain e s3 where s3: "markRideCompleted (trips env) k s2 = (e, s3)" by fastforce
  have same3: "same_rides s2 s3" using mark_same [of s2 "trips env" k] s3 by simp
  have f3: "row_find ride_id k (rides s3) = Some r2" using same_row [OF same3] f2 by simp
  have wf3: "wf_world s3" using same_rides_wf [OF same3] move_wf [OF m2] by simp
  have id2: "ride_id r2 = k" using wf_ride [OF wf3 f3] by simp
  have k: "k \<noteq> []" using wf_ride [OF wf3 f3] by simp
  define row where "row = saved_ride (clock s3) r2 (with_fare fare r2)"
  have row: "ride_id row = k" "status row = COMPLETED" "driverId row = Some d" "charged fare row"
    using id2 st st2 d by (auto simp: row_def saved_fare_charged)
  define s4 where "s4 = s3\<lparr>rides := row_put ride_id row (rides s3)\<rparr>"
  have upd: "updateRide (with_fare fare r2) s3 = (Inr row, s4)"
    using updateRide_run [of "with_fare fare r2" s3 r2] f3 id2 k by (simp add: s4_def row_def)
  have f4: "row_find ride_id k (rides s4) = Some row"
    using f3 row by (simp add: s4_def row_find_put)
  obtain ns where s5: "notifyRideCompleted row (fare_summary_of fare) s4 =
      (Inr (), s4\<lparr>published := published s4 @ ns\<rparr>)"
    using completed.run_one by blast
  define s' where "s' = s4\<lparr>published := published s4 @ ns\<rparr>"
  define failed where "failed = (case e of Inl err \<Rightarrow> Some err | Inr _ \<Rightarrow> None)"
  have "finishRide env k fare s = (case failed of Some err \<Rightarrow> (Inl err, s3) | None \<Rightarrow> (Inr row, s'))"
  proof (cases e)
    case (Inl err)
    then show ?thesis using s2 s3 by (simp add: finishRide_def run_bind run_then failed_def)
  next
    case (Inr u)
    then show ?thesis
      using s2 s3 upd s5 f4 row(1)
      by (simp add: finishRide_def run_bind run_then run_refresh s'_def failed_def)
  qed
  moreover have "trip_add_error (trips env) k = None \<longrightarrow> failed = None"
    using mark_ok [of "trips env" k s2] s3 by (auto simp: failed_def)
  moreover have "row_find ride_id k (rides s') = Some row" using f4 by (simp add: s'_def)
  ultimately show ?thesis using row by (intro exI [of _ failed] exI [of _ s3] exI [of _ row] exI [of _ s'] conjI)
qed


lemma fare_without_discount: "\<exists>fare. calculateFare e d None = Inr fare"
  by (auto simp: calculateFare_def resolveDiscountAmount_def Let_def)

lemma demo_shared_reachable: "reachable demo_env demo_track pe demo_shared"
  unfolding demo_shared_def by (rule r_step [OF demo_worlds_reachable(2) ws_track])

lemma demo_near_end: "in_reach demo_track (tripCompletionProximityMeters demo_track) l p"
  by (simp add: in_reach_def demo_track_def new_track_env_def demo_trips_def calculateDistanceMeters_def
      getNumberConfig_def)

lemma complete_goes:
  assumes wf: "wf_world s" and found: "row_find ride_id k (rides s) = Some r0"
    and ok: "req_id req \<noteq> []" "driverId r0 = Some (req_id req)"
      "status r0 \<in> {ENROUTE, ACCEPTED, ASSIGNED, TRIP_STARTED}"
      "lastRiderLocation (trip_state_of k s) = Some rloc"
    and near: "\<And>l p. in_reach te (tripCompletionProximityMeters te) l p"
    and queue: "trip_add_error (trips te) k = None"
  shows "\<exists>r s'. completeRide te k req loc None s = (Inr r, s')"
proof -
  have k: "ride_id r0 = k" using wf_ride [OF wf found] by simp
  obtain x s1 where s1: "recordLocation (trips te) k (req_id req) DRIVER loc s = (Inr x, s1)" "same_rides s s1"
    using recordLocation_same by blast
  obtain fare where fare: "calculateFare (fares te)
      (chargedDistanceKm (totalDistanceMeters (trip_state_of k s1)) r0) None = Inr fare"
    using fare_without_discount by blast
  have "wf_world s1" "row_find ride_id k (rides s1) = Some r0"
    using same_rides_wf [OF s1(2)] wf same_row [OF s1(2)] found by simp_all
  from finish_run [OF this ok(2,3), of te fare] queue
  obtain r s' where fin: "finishRide te k fare s1 = (Inr r, s')" by auto
  have "status r0 \<noteq> CANCELED" "status r0 \<noteq> COMPLETED" using ok(3) by auto
  then have "completeRide te k req loc None s = (Inr r, s')"
    using found ok k s1 fare fin near
    by (simp add: completeRide_def run_bind run_then run_when run_findRideById latest_run near_reach truthy_def
        Let_def)
  then show ?thesis by blast
qed

lemma demo_completes: "\<exists>r s'. completeRide demo_track ''1'' \<lparr>req_id = ''11'', req_role = Some DRIVER\<rparr>
    demo_spot None demo_shared = (Inr r, s')"
proof -
  obtain r0 where r0: "row_find ride_id ''1'' (rides demo_shared) = Some r0" "driverId r0 = Some ''11''"
      "status r0 = ENROUTE"
    using demo_enroute_row demo_shared_facts(1) by auto
  show ?thesis
    by (rule complete_goes [OF demo_shared_facts(2) r0(1) _ _ _ demo_shared_facts(4) demo_near_end])
      (simp_all add: r0 demo_track_def new_track_env_def demo_trips_def)
qed


text \<open>
  Proximity fails open: when the distance cannot be computed (the Redis pipeline throws,
  has no result, or answers with an error or a nil), it counts as 0 metres, so that with a
  radius that is not negative the driver of an ENROUTE ride can start the trip from any place,
  whatever the pickup point, once the rider has shared any location.
\<close>

theorem proximity_fails_open:
  assumes "\<forall>p q. geodist (trips env) p q \<in> {ExecThrows, NoResult, ReplyError, ReplyNil}"
    and "js_le (Fin 0) (tripStartProximityMeters env)"
  shows "start_ready env k d loc s \<longleftrightarrow> d \<noteq> [] \<and>
    (\<exists>r rloc. row_find ride_id k (rides s) = Some r \<and> driverId r = Some d \<and>
       (status r = ENROUTE \<or> status r = TRIP_STARTED) \<and> lastRiderLocation (trip_state_of k s) = Some rloc)"
proof -
  have "calculateDistanceMeters (trips env) a b c e = Fin 0" for a b c e
    using assms(1) [rule_format, of "(a, b)" "(c, e)"] by (auto simp: calculateDistanceMeters_def)
  moreover have "\<not> js_lt (tripStartProximityMeters env) (Fin 0)"
    using assms(2) by (cases "tripStartProximityMeters env") (auto simp: js_le_def)
  ultimately have "in_reach env (tripStartProximityMeters env) l p" for l p
    by (simp add: in_reach_def)
  then show ?thesis by (simp add: start_ready_def)
qed

theorem proximity_fails_open_witness:
  "start_ready (demo_track\<lparr>trips := demo_trips\<lparr>geodist := \<lambda>_ _. ExecThrows\<rparr>\<rparr>) ''1'' ''11''
     (demo_spot\<lparr>longitude := Fin 0\<rparr>) demo_shared"
proof -
  let ?env = "demo_track\<lparr>trips := demo_trips\<lparr>geodist := \<lambda>_ _. ExecThrows\<rparr>\<rparr>"
  have "js_le (Fin 0) (tripStartProximityMeters ?env)"
    by (simp add: demo_track_def new_track_env_def getNumberConfig_def js_le_def)
  from proximity_fails_open [OF _ this, of "''1''" "''11''" "demo_spot\<lparr>longitude := Fin 0\<rparr>" demo_shared]
  show ?thesis using demo_enroute_row demo_shared_facts by auto
qed

end
