(* ===== verification/Payment_Guarantees.thy ===== *)
theory Payment_Guarantees
  imports Ride_Guarantees
begin

text \<open>
  What the payment services guarantee: the amount requested from the provider, how the
  provider's statuses are read, what processing an outbox entry and retrying it leave behind,
  and what a notification of the provider changes.
\<close>

section \<open>Amounts\<close>

lemma cents_zero: "cents 0 = Fin 0"
  by (simp add: cents_def fl64_def)

lemma cents_pos: "0 < n \<Longrightarrow> n \<le> 2 ^ 50 \<Longrightarrow> \<not> js_le (cents n) (Fin 0)"
proof
  assume n: "0 < n" "n \<le> 2 ^ 50" and le: "js_le (cents n) (Fin 0)"
  have "fl64 (of_int n / 100) = 0"
    using le fl64.fl_ge0 [of "of_int n / 100"] n by (auto simp: cents_def js_le_def)
  then have "js_round (js_mul (cents n) (Fin 100)) = Fin 0"
    by (simp add: cents_def floor_eq_iff)
  then show False using cents_hundred [of n] n by simp
qed

lemma round_currency_cents: "0 \<le> n \<Longrightarrow> n \<le> 2 ^ 50 \<Longrightarrow> roundCurrency (cents n) = cents n"
proof -
  assume n: "0 \<le> n" "n \<le> 2 ^ 50"
  have "is_finite (cents n)" by (simp add: cents_def)
  then show "roundCurrency (cents n) = cents n"
    using cents_hundred [OF n] round64_cents [OF n] by (simp add: roundCurrency_def)
qed

text \<open>
  The amount the provider is asked for is the fare to the cent: for a stored final fare of
  \<open>n\<close> hundredths (its two-decimal text), parsing, scaling and rounding it on doubles gives back
  exactly the number for \<open>n\<close> hundredths, under the order's id and the rider's identity, and a
  ride with nothing to pay is refused.
\<close>

theorem payable_amount:
  assumes "fareFinal r = Some (to_fixed 2 (cents n))" and "0 \<le> n" and "n \<le> 2 ^ 50"
  shows "buildPaymentRequestPayload r oid =
    (if n = 0 then Inl (BadRequest ''Ride does not have a payable amount'')
     else Inr \<lparr>order_id = oid, gross_amount = cents n, first_name = ''rider_'' @ riderId r,
               email = riderId r @ ''@example.com'', phone = riderId r\<rparr>)"
proof -
  have "is_finite (cents n)" by (simp add: cents_def)
  then have "roundCurrency (parseCurrency (fareFinal r)) = cents n"
    using assms number_of_cents_text [of n] round_currency_cents [of n]
    by (simp add: parseCurrency_def Let_def)
  then show ?thesis
    using assms cents_pos [of n] by (auto simp: buildPaymentRequestPayload_def cents_zero js_le_def)
qed

theorem payable_amount_witness:
  "\<exists>req. buildPaymentRequestPayload ((hd (rides demo_world))\<lparr>fareFinal := Some (to_fixed 2 (cents 1250))\<rparr>) ''o'' =
     Inr req \<and> gross_amount req = cents 1250"
  using payable_amount [of "(hd (rides demo_world))\<lparr>fareFinal := Some (to_fixed 2 (cents 1250))\<rparr>" 1250 "''o''"]
  by simp

section \<open>Statuses\<close>

definition to_upper :: "char \<Rightarrow> char" where
  "to_upper c =
     (case map_of (zip ''abcdefghijklmnopqrstuvwxyz'' ''ABCDEFGHIJKLMNOPQRSTUVWXYZ'') c of
        None \<Rightarrow> c | Some u \<Rightarrow> u)"

lemma status_lower: "normalizePaymentStatus (Some (detail_status_text d)) = d"
  by (induction d) code_simp+

lemma status_upper: "normalizePaymentStatus (Some (map to_upper (detail_status_text d))) = d"
  by (induction d) code_simp+

text \<open>
  Reading a status back: every literal of the status enumeration, in lower or upper case,
  is read as the status it belongs to, a missing status as UNKNOWN, and a text that is no
  literal in any case as UNKNOWN.
\<close>

theorem status_roundtrip:
  "normalizePaymentStatus (Some (detail_status_text d)) = d \<and>
   normalizePaymentStatus (Some (map to_upper (detail_status_text d))) = d \<and>
   normalizePaymentStatus None = DUnknown \<and>
   (case normalizePaymentStatus (Some t) of DUnknown \<Rightarrow> True
    | st \<Rightarrow> map to_lower t = detail_status_text st)"
proof -
  have lower: "normalizePaymentStatus (Some (detail_status_text d)) = d" by (rule status_lower)
  have upper: "normalizePaymentStatus (Some (map to_upper (detail_status_text d))) = d" by (rule status_upper)
  have none: "normalizePaymentStatus None = DUnknown" by code_simp
  have literal: "map to_lower t = detail_status_text st" if "normalizePaymentStatus (Some t) = st" "st \<noteq> DUnknown" for st
  proof -
    have "List.find (\<lambda>d. detail_status_text d = map to_lower t) all_detail_statuses = Some st"
      using that by (auto simp: normalizePaymentStatus_def Let_def split: option.splits)
    then show ?thesis by (auto simp: find_Some_iff)
  qed
  show ?thesis using lower upper none literal by (auto split: detail_status.split)
qed

lemma status_classes:
  "\<not> (isSuccessfulPaymentStatus st \<and> isFinalFailureStatus st)"
  "\<not> (isSuccessfulPaymentStatus st \<and> isPendingPaymentStatus st)"
  "\<not> (isFinalFailureStatus st \<and> isPendingPaymentStatus st)"
  by (auto simp: isSuccessfulPaymentStatus_def isFinalFailureStatus_def isPendingPaymentStatus_def)

text \<open>
  What a notification makes of the outbox entry: whatever status text the provider sends,
  the entry is updated, and in exactly one way: COMPLETED and processed with the error cleared
  when the payment succeeded, PROCESSING and still open when it is pending, FAILED and
  processed with an error message in every other case; the ride counts as paid exactly in
  the first case.
\<close>

theorem outbox_follows_status:
  "let (d1, paid, update) = applyNotification r payload d
   in paid = isSuccessfulPaymentStatus (pd_status d1) \<and> orderId d1 = Some (pn_order_id payload) \<and>
     pd_rideId d1 = pd_rideId d \<and> pd_id d1 = pd_id d \<and>
     (\<exists>msg. update = Some
        (if paid then (OCompleted, True, None)
         else if isPendingPaymentStatus (pd_status d1) then (OProcessing, False, None)
         else (OFailed, True, Some msg)))"
  using status_classes
  by (auto simp: applyNotification_def buildOutboxUpdateForStatus_def Let_def)

section \<open>Processing an outbox entry\<close>

lemma saveOutbox_found:
  assumes "row_find ob_id (ob_id ob) (outboxes s) = Some cur" and "ob_id ob \<noteq> []"
  shows "\<exists>row. saveOutbox ob s = (Inr row, s\<lparr>outboxes := row_put ob_id row (outboxes s)\<rparr>) \<and> ob_id row = ob_id ob \<and>
    ob_status row = ob_status ob \<and> attempts row = attempts ob \<and> lastError row = lastError ob \<and>
    ob_requestPayload row = ob_requestPayload ob \<and> ob_orderId row = ob_orderId cur \<and>
    ob_rideId row = ob_rideId cur \<and> paymentDetailId row = paymentDetailId cur"
proof -
  have "ob_id cur = ob_id ob" using row_find_SomeD [OF assms(1)] by simp
  then show ?thesis using assms by (simp add: saveOutbox_def Let_def)
qed

lemma saveDetail_keeps_outboxes: "\<exists>row s'. saveDetail d s = (Inr row, s') \<and> outboxes s' = outboxes s \<and>
    pd_status row = pd_status d \<and> pd_rideId row = pd_rideId d \<and> token row = token d \<and>
    redirectUrl row = redirectUrl d \<and> row_find pd_rideId (pd_rideId d) (details s') = Some row"
  using persistDetail_lookup [of d s]
  by (auto simp: saveDetail_def persistDetail_def Let_def split: option.splits)

definition replied :: "pay_env \<Rightarrow> payment_outbox \<Rightarrow> psp_reply" where
  "replied env ob = psp env (ob_id ob) (attempts ob + 1) (ob_requestPayload ob)"

definition psp_failed :: "psp_reply \<Rightarrow> bool" where
  "psp_failed reply \<longleftrightarrow> (\<forall>x. reply \<noteq> PspOk x)"

lemma processOutbox_run:
  assumes conf: "ensurePaymentConfiguration env = Inr ()" and i: "i \<noteq> []"
    and ob: "row_find ob_id i (outboxes s) = Some ob"
    and d: "row_find pd_id (paymentDetailId ob) (details s) = Some d"
  shows "\<exists>res s' ob'. processOutbox env i s = (res, s') \<and>
    row_find ob_id i (outboxes s') = Some ob' \<and> attempts ob' = attempts ob + 1 \<and>
    (case replied env ob of
       PspOk response \<Rightarrow>
         (\<exists>out d'. res = Inr out \<and> pj_status out = DInitiated \<and> ob_status ob' = OCompleted \<and> lastError ob' = None \<and>
            row_find pd_rideId (pd_rideId d) (details s') = Some d' \<and> pd_status d' = DInitiated \<and>
            token d' = extractResponseString response ''token'' \<and>
            redirectUrl d' = extractResponseString response ''redirect_url'')
     | err \<Rightarrow>
         (\<exists>d'. res = Inl (JsError (describePaymentError err)) \<and> ob_status ob' = OFailed \<and>
            lastError ob' = Some (describePaymentError err) \<and>
            row_find pd_rideId (pd_rideId d) (details s') = Some d' \<and> pd_status d' = DFailed))"
proof -
  have obi: "ob_id ob = i" using row_find_SomeD [OF ob] by simp
  let ?ob1 = "ob\<lparr>ob_status := OProcessing, attempts := attempts ob + 1, lastAttemptedAt := Some (clock s)\<rparr>"
  have "row_find ob_id (ob_id ?ob1) (outboxes s) = Some ob" "ob_id ?ob1 \<noteq> []" using ob obi i by simp_all
  from saveOutbox_found [OF this] obtain r1 where
    s1: "saveOutbox ?ob1 s = (Inr r1, s\<lparr>outboxes := row_put ob_id r1 (outboxes s)\<rparr>)" and r1: "ob_id r1 = i"
    using obi by auto
  define s1 where "s1 = s\<lparr>outboxes := row_put ob_id r1 (outboxes s)\<rparr>"
  have f1: "row_find ob_id i (outboxes s1) = Some r1" using r1 ob by (simp add: s1_def row_find_put)
  have finish: "\<exists>row. saveOutbox x t = (Inr row, t\<lparr>outboxes := row_put ob_id row (outboxes t)\<rparr>) \<and>
      row_find ob_id i (row_put ob_id row (outboxes t)) = Some row \<and> ob_status row = ob_status x \<and>
      attempts row = attempts x \<and> lastError row = lastError x"
    if xy: "ob_id x = i" "row_find ob_id i (outboxes t) = Some y" for x t y
  proof -
    obtain row where "saveOutbox x t = (Inr row, t\<lparr>outboxes := row_put ob_id row (outboxes t)\<rparr>)"
        "ob_id row = i" "ob_status row = ob_status x" "attempts row = attempts x" "lastError row = lastError x"
      using saveOutbox_found [of x t y] xy i by auto
    then show ?thesis using xy(2) by (auto simp: row_find_put)
  qed
  show ?thesis
  proof (cases "\<exists>response. replied env ob = PspOk response")
    case True
    then obtain response where ok: "psp env i (attempts ob + 1) (ob_requestPayload ob) = PspOk response"
      using obi by (auto simp: replied_def)
    let ?d = "d\<lparr>pd_status := DInitiated, responsePayload := response,
      requestPayload := Some (ob_requestPayload ob), orderId := Some (ob_orderId ob),
      token := extractResponseString response ''token'',
      redirectUrl := extractResponseString response ''redirect_url''\<rparr>"
    obtain d' s2 where s2: "saveDetail ?d s1 = (Inr d', s2)" "outboxes s2 = outboxes s1" "pd_status d' = DInitiated"
        "token d' = extractResponseString response ''token''"
        "redirectUrl d' = extractResponseString response ''redirect_url''"
        "row_find pd_rideId (pd_rideId d) (details s2) = Some d'"
      using saveDetail_keeps_outboxes [of ?d s1] by auto
    let ?x = "?ob1\<lparr>ob_status := OCompleted, lastError := None, processedAt := Some (clock s)\<rparr>"
    obtain row where row: "saveOutbox ?x s2 = (Inr row, s2\<lparr>outboxes := row_put ob_id row (outboxes s2)\<rparr>)"
        "row_find ob_id i (row_put ob_id row (outboxes s2)) = Some row" "ob_status row = OCompleted"
        "attempts row = attempts ob + 1" "lastError row = None"
      using finish [of ?x s2 r1] obi f1 s2(2) by auto
    have "processOutbox env i s = (Inr \<lparr>pj_paymentDetailId = pd_id d', pj_status = pd_status d', pj_token = token d',
        pj_redirectUrl = redirectUrl d'\<rparr>, s2\<lparr>outboxes := row_put ob_id row (outboxes s2)\<rparr>)"
      using conf ob d s1 [folded s1_def] ok s2 row
      by (simp add: processOutbox_def findOutboxById_def findDetailById_def run_bind run_then Let_def)
    then show ?thesis using ok obi row s2 by (auto simp: replied_def)
  next
    case False
    define err where "err = replied env ob"
    have bad: "psp env i (attempts ob + 1) (ob_requestPayload ob) = err" "\<forall>x. err \<noteq> PspOk x"
      using False obi by (auto simp: replied_def err_def)
    let ?x = "?ob1\<lparr>ob_status := OFailed, lastError := Some (describePaymentError err)\<rparr>"
    obtain row where row: "saveOutbox ?x s1 = (Inr row, s1\<lparr>outboxes := row_put ob_id row (outboxes s1)\<rparr>)"
        "row_find ob_id i (row_put ob_id row (outboxes s1)) = Some row" "ob_status row = OFailed"
        "attempts row = attempts ob + 1" "lastError row = Some (describePaymentError err)"
      using finish [of ?x s1 r1] obi f1 by auto
    define s2 where "s2 = s1\<lparr>outboxes := row_put ob_id row (outboxes s1)\<rparr>"
    obtain d' s3 where s3: "saveDetail (d\<lparr>pd_status := DFailed, responsePayload := None\<rparr>) s2 = (Inr d', s3)"
        "outboxes s3 = outboxes s2" "pd_status d' = DFailed"
        "row_find pd_rideId (pd_rideId d) (details s3) = Some d'"
      using saveDetail_keeps_outboxes [of "d\<lparr>pd_status := DFailed, responsePayload := None\<rparr>" s2] by auto
    have "processOutbox env i s = (Inl (JsError (describePaymentError err)), s3)"
      using conf ob d s1 [folded s1_def] bad row(1) [folded s2_def] s3(1)
      by (cases err) (simp_all add: processOutbox_def findOutboxById_def findDetailById_def run_bind run_then Let_def)
    then show ?thesis using bad row s3 by (cases err) (auto simp: err_def [symmetric] s2_def)
  qed
qed

definition demo_pay_env :: pay_env where
  "demo_pay_env = \<lparr>paymentApiUrl = Some ''url'', paymentApiKey = Some ''key'', paymentProvider = ''psp'',
     psp = (\<lambda>_ n _. if n < 3 then PspError ''down''
              else PspOk (Some [(''token'', JString ''tok''), (''redirect_url'', JString ''link'')])),
     ulid = (\<lambda>_. ''order''), worker_attempts = (\<lambda>_. 5), update_result = (\<lambda>_. 2)\<rparr>"

definition demo_request :: request_payload where
  "demo_request = \<lparr>order_id = ''order'', gross_amount = cents 1250, first_name = ''rider_7'',
     email = ''7@example.com'', phone = ''7''\<rparr>"

definition demo_detail :: payment_detail where
  "demo_detail = (create_detail ''1'' ''psp'' DQueued)\<lparr>pd_id := ''1'', orderId := Some ''order''\<rparr>"

definition demo_outbox :: payment_outbox where
  "demo_outbox = \<lparr>ob_id = ''1'', ob_rideId = ''1'', paymentDetailId = ''1'', ob_orderId = ''order'',
     ob_status = OPending, attempts = 0, jobId = None, ob_requestPayload = demo_request, lastError = None,
     lastAttemptedAt = None, processedAt = None, ob_createdAt = 0, ob_updatedAt = 0\<rparr>"

definition demo_due_ride :: ride where
  "demo_due_ride = \<lparr>ride_id = ''1'', riderId = ''7'', driverId = Some ''11'',
     pickupLongitude = Fin 106, pickupLatitude = Fin (- 6), dropoffLongitude = Fin 107,
     dropoffLatitude = Fin (- 6), status = COMPLETED, fareEstimated = None,
     fareFinal = Some (Fixed False 1250 2), ride_discountPercent = None, ride_discountAmount = None,
     ride_appFeeAmount = None, distanceEstimatedKm = None, durationEstimatedSeconds = None,
     distanceActualKm = None, paymentUrl = None, paymentStatus = Some PayPending, ride_note = None,
     cancelReason = None, createdAt = 0, updatedAt = 0, deletedAt = None\<rparr>"

text \<open>A completed ride whose payment has been queued.\<close>

definition demo_due :: world where
  "demo_due = empty_world\<lparr>rides := [demo_due_ride], rideSeq := 2, details := [demo_detail], detailSeq := 2,
     outboxes := [demo_outbox], outboxSeq := 2, whitelist := [''10.0.0.1'']\<rparr>"

lemmas demo_pay_defs = demo_due_def demo_due_ride_def demo_outbox_def demo_detail_def demo_pay_env_def
  create_detail_def empty_world_def

lemma demo_configured: "ensurePaymentConfiguration demo_pay_env = Inr ()"
  by (simp add: ensurePaymentConfiguration_def demo_pay_env_def truthy_def)

text \<open>
  C29. One attempt at an outbox entry: exactly one request goes to the provider and the entry's
  attempts grow by one. When the provider accepts, the entry is COMPLETED and the detail of
  the ride INITIATED with the token and the redirect URL of the response; when the provider
  fails in any way, the error describes it, the entry is FAILED with that description and the
  detail FAILED.
\<close>

theorem processOutbox_outcome:
  assumes conf: "ensurePaymentConfiguration env = Inr ()" and i: "i \<noteq> []"
    and ob: "row_find ob_id i (outboxes s) = Some ob"
    and d: "row_find pd_id (paymentDetailId ob) (details s) = Some d"
  shows "\<exists>res s' ob'. processOutbox env i s = (res, s') \<and>
    row_find ob_id i (outboxes s') = Some ob' \<and> attempts ob' = attempts ob + 1 \<and>
    (case replied env ob of
       PspOk response \<Rightarrow>
         (\<exists>out d'. res = Inr out \<and> pj_status out = DInitiated \<and> ob_status ob' = OCompleted \<and> lastError ob' = None \<and>
            row_find pd_rideId (pd_rideId d) (details s') = Some d' \<and> pd_status d' = DInitiated \<and>
            token d' = extractResponseString response ''token'' \<and>
            redirectUrl d' = extractResponseString response ''redirect_url'')
     | err \<Rightarrow>
         (\<exists>d'. res = Inl (JsError (describePaymentError err)) \<and> ob_status ob' = OFailed \<and>
            lastError ob' = Some (describePaymentError err) \<and>
            row_find pd_rideId (pd_rideId d) (details s') = Some d' \<and> pd_status d' = DFailed))"
  by (rule processOutbox_run [OF assms])

theorem processOutbox_outcome_witness:
  "\<exists>s' ob'. processOutbox demo_pay_env ''1'' demo_due =
     (Inl (JsError ''Payment API request failed: down''), s') \<and>
     row_find ob_id ''1'' (outboxes s') = Some ob' \<and> attempts ob' = 1 \<and> ob_status ob' = OFailed"
  using processOutbox_outcome [OF demo_configured, of "''1''" demo_due demo_outbox demo_detail]
  by (auto simp: replied_def demo_pay_defs)

section \<open>Retrying\<close>

lemma processOutbox_attempts:
  assumes "row_find ob_id i (outboxes s) = Some ob" and i: "i \<noteq> []"
  shows "\<exists>res s' ob'. processOutbox env i s = (res, s') \<and> row_find ob_id i (outboxes s') = Some ob' \<and>
    (case res of
       Inl _ \<Rightarrow> attempts ob' = attempts ob \<and> s' = s \<or> attempts ob' = attempts ob + 1 \<and> ob_status ob' = OFailed
     | Inr _ \<Rightarrow> attempts ob' = attempts ob + 1 \<and> ob_status ob' = OCompleted)"
proof (cases "ensurePaymentConfiguration env = Inr () \<and> row_find pd_id (paymentDetailId ob) (details s) \<noteq> None")
  case True
  then obtain d where "row_find pd_id (paymentDetailId ob) (details s) = Some d" by auto
  then obtain res s' ob' where r: "processOutbox env i s = (res, s')"
      "row_find ob_id i (outboxes s') = Some ob'" "attempts ob' = attempts ob + 1"
      "(\<exists>out. res = Inr out \<and> ob_status ob' = OCompleted) \<or> (\<exists>e. res = Inl e \<and> ob_status ob' = OFailed)"
    using processOutbox_run [of env i s ob d] assms True by (cases "replied env ob") auto
  then show ?thesis by (intro exI [of _ res] exI [of _ s'] exI [of _ ob']) auto
next
  case False
  have "\<exists>e. processOutbox env i s = (Inl e, s)"
  proof (cases "ensurePaymentConfiguration env")
    case (Inl e)
    then show ?thesis by (simp add: processOutbox_def run_then)
  next
    case (Inr u)
    then show ?thesis
      using False assms by (simp add: processOutbox_def findOutboxById_def findDetailById_def run_bind run_then)
  qed
  then show ?thesis using assms by auto
qed



section \<open>Notifications of the provider\<close>

lemma persistDetail_frame:
  "\<exists>row s'. persistDetail d s = (Inr row, s') \<and> rides s' = rides s \<and> outboxes s' = outboxes s \<and> clock s' = clock s \<and>
     pd_status row = pd_status d \<and> providerTransactionId row = providerTransactionId d \<and> orderId row = orderId d \<and>
     row_find pd_rideId (pd_rideId d) (details s') = Some row"
  using persistDetail_lookup [of d s] by (auto simp: persistDetail_def Let_def split: option.splits)

definition pay_rides :: "ride_payment_update option \<Rightarrow> int \<Rightarrow> ride list \<Rightarrow> ride list" where
  "pay_rides ru now rs =
     (case ru of
        None \<Rightarrow> rs
      | Some u \<Rightarrow> (case row_find ride_id (ru_rideId u) rs of
            None \<Rightarrow> rs
          | Some r \<Rightarrow> row_put ride_id (put_payment_state (ru_paymentStatus u) (ru_paymentUrl u) now r) rs))"

definition pay_outboxes :: "outbox_update option \<Rightarrow> int \<Rightarrow> payment_outbox list \<Rightarrow> payment_outbox list" where
  "pay_outboxes ou now os = (case ou of None \<Rightarrow> os | Some u \<Rightarrow> map (apply_outbox_update u now) os)"

lemma updateRidePayment_run: "updateRidePayment ulen k st url msg s =
    (if ulen (if row_find ride_id k (rides s) = None then 0 else 1) = 0 then Inl (JsError msg) else Inr (),
     s\<lparr>rides := pay_rides (Some \<lparr>ru_rideId = k, ru_paymentStatus = st, ru_paymentUrl = url\<rparr>) (clock s) (rides s)\<rparr>)"
  by (auto simp: updateRidePayment_def eff_run pay_rides_def split: option.splits)

lemma saveDetailWithRideUpdate_ok:
  assumes "saveDetailWithRideUpdate ulen d ru ou s = (Inr saved, s')"
  shows "rides s' = pay_rides ru (clock s) (rides s) \<and> outboxes s' = pay_outboxes ou (clock s) (outboxes s) \<and>
    row_find pd_rideId (pd_rideId d) (details s') = Some saved \<and> pd_status saved = pd_status d \<and>
    providerTransactionId saved = providerTransactionId d \<and> orderId saved = orderId d"
proof -
  obtain row s1 where s1: "persistDetail d s = (Inr row, s1)" "rides s1 = rides s" "outboxes s1 = outboxes s"
      "clock s1 = clock s" "pd_status row = pd_status d" "providerTransactionId row = providerTransactionId d"
      "orderId row = orderId d" "row_find pd_rideId (pd_rideId d) (details s1) = Some row"
    using persistDetail_frame by blast
  then show ?thesis
    using assms
    by (cases ru; cases ou) (auto simp: saveDetailWithRideUpdate_def eff_run updateRidePayment_run updateOutboxes_def
      pay_rides_def pay_outboxes_def split: if_splits option.splits)
qed

lemma isIpAllowed_run: "isIpAllowed xs s = (Inr (\<exists>a \<in> set (whitelist s). a \<noteq> [] \<and> a \<in> set xs), s)"
proof (cases "remdups (filter (\<lambda>a. a \<noteq> []) xs) = []")
  case True
  then have "\<forall>a \<in> set xs. a = []" by (auto simp: filter_empty_conv)
  then show ?thesis using True by (auto simp: isIpAllowed_def Let_def)
next
  case False
  then show ?thesis by (auto simp: isIpAllowed_def Let_def)
qed

text \<open>What the notification writes, with the status it is read as.\<close>

definition notified_ride_update :: "ride \<Rightarrow> bool \<Rightarrow> ride_payment_update option" where
  "notified_ride_update r paid =
     (if paid then Some \<lparr>ru_rideId = ride_id r, ru_paymentStatus = Some PAID, ru_paymentUrl = None\<rparr> else None)"

lemma applyNotification_run:
  "\<exists>d1 upd. applyNotification r payload d =
      (d1, isSuccessfulPaymentStatus (normalizePaymentStatus (transaction_status payload)), Some upd) \<and>
    pd_status d1 = normalizePaymentStatus (transaction_status payload) \<and> pd_rideId d1 = pd_rideId d \<and>
    pd_id d1 = pd_id d \<and> orderId d1 = Some (pn_order_id payload) \<and>
    providerTransactionId d1 = transaction_id payload \<and>
    fst upd = (if isSuccessfulPaymentStatus (normalizePaymentStatus (transaction_status payload)) then OCompleted
       else if isPendingPaymentStatus (normalizePaymentStatus (transaction_status payload)) then OProcessing
       else OFailed)"
proof -
  define st where "st = normalizePaymentStatus (transaction_status payload)"
  show ?thesis
    using status_classes [of st] unfolding st_def [symmetric] applyNotification_def Let_def buildOutboxUpdateForStatus_def
    by (cases "isSuccessfulPaymentStatus st"; cases "isFinalFailureStatus st"; cases "isPendingPaymentStatus st") simp_all
qed

lemma notification_cases:
  assumes "handlePaymentNotification env payload ip s = (res, s')"
  shows "(\<exists>e. res = Inl e \<and> s' = s) \<or>
    (\<exists>d r saved ou out st. (\<exists>a \<in> set (whitelist s). a \<noteq> [] \<and> a \<in> set (normalizeIpAddresses ip)) \<and>
       pn_order_id payload \<noteq> [] \<and> findDetailByOrderId (pn_order_id payload) s = (Inr (Some d), s) \<and>
       row_find ride_id (pd_rideId d) (rides s) = Some r \<and> st = normalizePaymentStatus (transaction_status payload) \<and>
       res = Inr out \<and> snd out = formatPaymentDetail (Some saved) \<and>
       pd_status saved = st \<and> providerTransactionId saved = transaction_id payload \<and>
       row_find pd_rideId (pd_rideId d) (details s') = Some saved \<and>
       rides s' = pay_rides (notified_ride_update r (isSuccessfulPaymentStatus st)) (clock s) (rides s) \<and>
       outboxes s' = pay_outboxes (Some ou) (clock s) (outboxes s) \<and> ou_rideId ou = ride_id r \<and>
       ou_paymentDetailId ou = pd_id d \<and> ou_orderId ou = pn_order_id payload \<and>
       ou_status ou = (if isSuccessfulPaymentStatus st then OCompleted
                       else if isPendingPaymentStatus st then OProcessing else OFailed))"
proof (cases "(\<exists>a \<in> set (whitelist s). a \<noteq> [] \<and> a \<in> set (normalizeIpAddresses ip)) \<and> pn_order_id payload \<noteq> []")
  case False
  have "\<exists>e. handlePaymentNotification env payload ip s = (Inl e, s)"
  proof (cases "\<exists>a \<in> set (whitelist s). a \<noteq> [] \<and> a \<in> set (normalizeIpAddresses ip)")
    case True
    then have "pn_order_id payload = []" using False by blast
    with True show ?thesis by (simp only: handlePaymentNotification_def run_bind isIpAllowed_run) simp
  next
    case not: False
    then show ?thesis by (simp only: handlePaymentNotification_def run_bind isIpAllowed_run) simp
  qed
  then show ?thesis using assms by auto
next
  case ok: True
  show ?thesis
  proof (cases "row_find orderId (Some (pn_order_id payload)) (details s)")
    case None
    then show ?thesis
      using assms ok by (auto simp: handlePaymentNotification_def run_bind isIpAllowed_run findDetailByOrderId_def)
  next
    case d: (Some d)
    show ?thesis
    proof (cases "row_find ride_id (pd_rideId d) (rides s)")
      case None
      then show ?thesis
        using assms ok d
        by (auto simp: handlePaymentNotification_def run_bind isIpAllowed_run findDetailByOrderId_def run_findRideById)
    next
      case r: (Some r)
      define st where "st = normalizePaymentStatus (transaction_status payload)"
      define paid where "paid = isSuccessfulPaymentStatus st"
      obtain d1 upd where app: "applyNotification r payload d = (d1, paid, Some upd)"
        and d1: "pd_status d1 = st" "pd_rideId d1 = pd_rideId d" "pd_id d1 = pd_id d"
          "orderId d1 = Some (pn_order_id payload)" "providerTransactionId d1 = transaction_id payload"
        and upd: "fst upd = (if paid then OCompleted else if isPendingPaymentStatus st then OProcessing else OFailed)"
        using applyNotification_run [of r payload d] unfolding st_def paid_def by blast
      define r1 where "r1 = (if paid then r\<lparr>paymentStatus := Some PAID, paymentUrl := None\<rparr> else r)"
      have r1: "ride_id r1 = ride_id r" by (simp add: r1_def)
      define ou where "ou = \<lparr>ou_rideId = ride_id r, ou_paymentDetailId = pd_id d, ou_orderId = pn_order_id payload,
        ou_status = fst upd, ou_lastError = snd (snd upd), ou_setProcessedAt = fst (snd upd)\<rparr>"
      have run: "handlePaymentNotification env payload ip s =
          bindE (saveDetailWithRideUpdate (update_result env) d1 (notified_ride_update r paid) (Some ou))
            (\<lambda>saved. bindE (refresh (ride_id r) r1) (\<lambda>refreshed.
              thenE (whenE paid (notifyRidePaid refreshed (transaction_id payload)))
                (returnE (refreshed, formatPaymentDetail (Some saved))))) s"
        using ok d r app d1 r1
        by (cases upd; cases "snd upd")
          (simp add: handlePaymentNotification_def run_bind isIpAllowed_run findDetailByOrderId_def run_findRideById
            notified_ride_update_def ou_def r1_def Let_def)
      show ?thesis
      proof (cases "saveDetailWithRideUpdate (update_result env) d1 (notified_ride_update r paid) (Some ou) s")
        case (Pair res1 s1)
        show ?thesis
        proof (cases res1)
          case (Inl e)
          then have "s1 = s" using Pair by (auto simp: saveDetailWithRideUpdate_def dest: transact_atomic)
          then show ?thesis using assms run Pair Inl by (auto simp: run_bind)
        next
          case (Inr saved)
          note ok1 = saveDetailWithRideUpdate_ok [OF Pair [unfolded Inr]]
          obtain cur where cur: "refresh (ride_id r) r1 s1 = (Inr cur, s1)" by (simp add: run_refresh)
          obtain ns where ns: "notifyRidePaid cur (transaction_id payload) s1 =
              (Inr (), s1\<lparr>published := published s1 @ ns\<rparr>)"
            using paid.run_one by blast
          have "res = Inr (cur, formatPaymentDetail (Some saved))"
            "rides s' = rides s1" "outboxes s' = outboxes s1" "details s' = details s1"
            using assms run Pair Inr cur ns by (auto simp: run_bind run_then run_when split: if_splits)
          then show ?thesis
            using ok d r ok1 d1 upd
            by (intro disjI2 exI [of _ d] exI [of _ r] exI [of _ saved] exI [of _ ou] exI [of _ st]
                exI [of _ "(cur, formatPaymentDetail (Some saved))"])
              (simp add: findDetailByOrderId_def st_def paid_def ou_def)
        qed
      qed
    qed
  qed
qed

lemma notification_rides:
  assumes "handlePaymentNotification env payload ip s = (Inr out, s')"
  shows "\<exists>d r. findDetailByOrderId (pn_order_id payload) s = (Inr (Some d), s) \<and>
    row_find ride_id (pd_rideId d) (rides s) = Some r \<and>
    rides s' = (if isSuccessfulPaymentStatus (normalizePaymentStatus (transaction_status payload))
                then row_put ride_id (r\<lparr>paymentStatus := Some PAID, paymentUrl := None, updatedAt := clock s\<rparr>) (rides s)
                else rides s)"
proof -
  obtain d r where *: "findDetailByOrderId (pn_order_id payload) s = (Inr (Some d), s)"
      "row_find ride_id (pd_rideId d) (rides s) = Some r"
      "rides s' = pay_rides (notified_ride_update r (isSuccessfulPaymentStatus (normalizePaymentStatus (transaction_status payload))))
        (clock s) (rides s)"
    using notification_cases [OF assms] by force
  moreover have "ride_id r = pd_rideId d" using row_find_SomeD [OF *(2)] by simp
  ultimately show ?thesis by (auto simp: notified_ride_update_def pay_rides_def put_payment_state_def)
qed

text \<open>
  C34. Who may notify, and what a refused notification leaves behind: without a whitelisted
  address among the readings of the sender's address the notification is refused as
  unauthorised whatever it says, and a notification that fails for any reason (unknown order,
  missing ride, an update that finds no row) changes nothing at all.
\<close>

theorem notification_guarded:
  assumes "handlePaymentNotification env payload ip s = (res, s')"
  shows "(if \<exists>a \<in> set (whitelist s). a \<noteq> [] \<and> a \<in> set (normalizeIpAddresses ip) then True
          else res = Inl (Unauthorized ''Source IP not allowed'')) \<and>
    (case res of Inl _ \<Rightarrow> s' = s | Inr _ \<Rightarrow> True)"
proof (cases "\<exists>a \<in> set (whitelist s). a \<noteq> [] \<and> a \<in> set (normalizeIpAddresses ip)")
  case True
  then show ?thesis using notification_cases [OF assms] by auto
next
  case False
  then have "handlePaymentNotification env payload ip s = (Inl (Unauthorized ''Source IP not allowed''), s)"
    by (simp only: handlePaymentNotification_def run_bind isIpAllowed_run) simp
  then show ?thesis using False assms by simp
qed

definition demo_paid_notice :: payment_notification where
  "demo_paid_notice = \<lparr>pn_order_id = ''order'', transaction_status = Some ''settlement'', transaction_id = Some ''tx'',
     other_fields = []\<rparr>"

definition demo_stranger :: string where
  "demo_stranger = ''10.0.0.2''"

theorem notification_guarded_witness:
  "handlePaymentNotification demo_pay_env demo_paid_notice demo_stranger demo_due =
     (Inl (Unauthorized ''Source IP not allowed''), demo_due)"
proof -
  have "\<not> (\<exists>a \<in> set (whitelist demo_due). a \<noteq> [] \<and> a \<in> set (normalizeIpAddresses demo_stranger))"
    unfolding demo_stranger_def by (simp add: demo_due_def empty_world_def) code_simp
  then show ?thesis
    using notification_guarded [of demo_pay_env demo_paid_notice demo_stranger demo_due]
    by (cases "handlePaymentNotification demo_pay_env demo_paid_notice demo_stranger demo_due") auto
qed

text \<open>
  What an accepted notification does: the detail of the order's ride takes the status read
  from the notification and its transaction id, and the answer shows that detail; the outbox
  entries of the order are completed, kept open or failed as the status says; the ride becomes
  PAID and loses its payment link exactly when the status is a successful one, and no other
  ride changes.
\<close>

theorem notification_effect:
  assumes "handlePaymentNotification env payload ip s = (Inr out, s')"
  shows "\<exists>d r saved ou. findDetailByOrderId (pn_order_id payload) s = (Inr (Some d), s) \<and>
    row_find ride_id (pd_rideId d) (rides s) = Some r \<and>
    row_find pd_rideId (pd_rideId d) (details s') = Some saved \<and>
    pd_status saved = normalizePaymentStatus (transaction_status payload) \<and>
    providerTransactionId saved = transaction_id payload \<and> snd out = formatPaymentDetail (Some saved) \<and>
    outboxes s' = map (apply_outbox_update ou (clock s)) (outboxes s) \<and> ou_orderId ou = pn_order_id payload \<and>
    ou_status ou = (if isSuccessfulPaymentStatus (pd_status saved) then OCompleted
                    else if isPendingPaymentStatus (pd_status saved) then OProcessing else OFailed) \<and>
    rides s' = (if isSuccessfulPaymentStatus (pd_status saved)
                then row_put ride_id (r\<lparr>paymentStatus := Some PAID, paymentUrl := None, updatedAt := clock s\<rparr>) (rides s)
                else rides s)"
proof -
  obtain d r saved ou where *: "findDetailByOrderId (pn_order_id payload) s = (Inr (Some d), s)"
      "row_find ride_id (pd_rideId d) (rides s) = Some r"
      "row_find pd_rideId (pd_rideId d) (details s') = Some saved"
      "pd_status saved = normalizePaymentStatus (transaction_status payload)"
      "providerTransactionId saved = transaction_id payload" "snd out = formatPaymentDetail (Some saved)"
      "rides s' = pay_rides (notified_ride_update r (isSuccessfulPaymentStatus (pd_status saved))) (clock s) (rides s)"
      "outboxes s' = pay_outboxes (Some ou) (clock s) (outboxes s)" "ou_orderId ou = pn_order_id payload"
      "ou_status ou = (if isSuccessfulPaymentStatus (pd_status saved) then OCompleted
                       else if isPendingPaymentStatus (pd_status saved) then OProcessing else OFailed)"
    using notification_cases [OF assms] by force
  have "ride_id r = pd_rideId d" using row_find_SomeD [OF *(2)] by simp
  then have "rides s' = (if isSuccessfulPaymentStatus (pd_status saved)
      then row_put ride_id (r\<lparr>paymentStatus := Some PAID, paymentUrl := None, updatedAt := clock s\<rparr>) (rides s)
      else rides s)"
    using *(2,7) by (simp add: notified_ride_update_def pay_rides_def put_payment_state_def)
  then show ?thesis
    using * by (intro exI [of _ d] exI [of _ r] exI [of _ saved] exI [of _ ou]) (simp add: pay_outboxes_def)
qed

definition demo_provider_ip :: string where
  "demo_provider_ip = ''10.0.0.1''"

lemma demo_notified: "\<exists>out s'. handlePaymentNotification demo_pay_env demo_paid_notice demo_provider_ip demo_due = (Inr out, s')"
proof -
  have "case fst (handlePaymentNotification demo_pay_env demo_paid_notice demo_provider_ip demo_due) of
      Inl _ \<Rightarrow> False | Inr _ \<Rightarrow> True"
    by code_simp
  then show ?thesis by (auto split: sum.splits) (metis prod.collapse)
qed

theorem notification_effect_witness:
  "\<exists>s'. snd (handlePaymentNotification demo_pay_env demo_paid_notice demo_provider_ip demo_due) = s' \<and>
     rides s' = [demo_due_ride\<lparr>paymentStatus := Some PAID, paymentUrl := None, updatedAt := 0\<rparr>]"
proof -
  obtain out s' where run: "handlePaymentNotification demo_pay_env demo_paid_notice demo_provider_ip demo_due = (Inr out, s')"
    using demo_notified by blast
  have read: "normalizePaymentStatus (Some ''settlement'') = DSettlement" by code_simp
  show ?thesis
    using notification_effect [OF run] run read
    by (auto simp: demo_paid_notice_def demo_pay_defs findDetailByOrderId_def isSuccessfulPaymentStatus_def row_put_def)
qed

section \<open>Asking for a payment\<close>

text \<open>
  Who may pay, and a payment link is asked for once: the service answers only the ride's
  own rider and only for a completed ride; a ride that is paid, or whose detail already has a
  token and a link, is answered from the tables, without another request, outbox entry or job.
\<close>

theorem payment_asked_once:
  assumes r: "row_find ride_id k (rides s) = Some r" and d: "row_find pd_rideId k (details s) = Some d"
    and ready: "ensurePaymentConfiguration env = Inr ()"
    and link: "truthy (token d)" "truthy (redirectUrl d)"
  shows "proceedRidePayment env k rider s =
    (if riderId r \<noteq> rider then (Inl (Unauthorized ''Ride not available for this rider''), s)
     else if status r \<noteq> COMPLETED then (Inl (BadRequest ''Ride must be completed before payment''), s)
     else if paymentStatus r = Some PAID then (Inr (payment_view r, formatPaymentDetail (Some d)), s)
     else if update_result env 1 = 0 then (Inl (JsError ''Ride not found while updating payment state''),
       s\<lparr>rides := row_put ride_id (put_payment_state (Some ON_PROCESS) (redirectUrl d) (clock s) r) (rides s)\<rparr>)
     else (Inr (payment_view (put_payment_state (Some ON_PROCESS) (redirectUrl d) (clock s) r),
               formatPaymentDetail (Some d)),
       s\<lparr>rides := row_put ride_id (put_payment_state (Some ON_PROCESS) (redirectUrl d) (clock s) r) (rides s)\<rparr>))"
proof -
  have k: "ride_id r = k" using row_find_SomeD [OF r] by simp
  have view: "riderId (payment_view r) = riderId r" "status (payment_view r) = status r"
      "paymentStatus (payment_view r) = paymentStatus r" "ride_id (payment_view r) = k"
    using k by (simp_all add: payment_view_def)
  have again: "initiatePayment env (payment_view r) t = (Inr d, t)" if "details t = details s" for t
    using ready d link that view by (simp add: initiatePayment_def run_then run_bind findDetailByRideId_def)
  have put: "ride_id (put_payment_state st url now r) = k" for st url now using k by (simp add: put_payment_state_def)
  show ?thesis
    using r d view again [of s] put
    by (simp add: proceedRidePayment_def run_bind run_then findRideForPayment_def findDetailByRideId_def
      updatePaymentState_def updateRidePayment_run pay_rides_def row_find_put)
qed

definition demo_linked :: world where
  "demo_linked = demo_due\<lparr>details :=
     [demo_detail\<lparr>pd_status := DInitiated, token := Some ''tok'', redirectUrl := Some ''link''\<rparr>]\<rparr>"

theorem payment_asked_once_witness:
  "fst (proceedRidePayment demo_pay_env ''1'' ''8'' demo_linked) = Inl (Unauthorized ''Ride not available for this rider'') \<and>
   outboxes (snd (proceedRidePayment demo_pay_env ''1'' ''7'' demo_linked)) = outboxes demo_linked"
proof -
  have *: "row_find ride_id ''1'' (rides demo_linked) = Some demo_due_ride"
    "row_find pd_rideId ''1'' (details demo_linked) =
      Some (demo_detail\<lparr>pd_status := DInitiated, token := Some ''tok'', redirectUrl := Some ''link''\<rparr>)"
    by (simp_all add: demo_linked_def demo_pay_defs)
  show ?thesis
    by (simp add: payment_asked_once [OF * demo_configured] truthy_def) (simp add: demo_due_ride_def demo_pay_env_def)
qed

end
