(* ===== verification/Data_Encryption.thy ===== *)
theory Data_Encryption
  imports Neb_Prelude "HOL-Library.Word"
begin

text \<open>
  \<open>DataEncryptionService\<close> (\<open>client/domain/services/data-encryption.service.ts\<close>): the encryption
  key read from the configuration and the encryption of a client's personal data, with
  Node's \<open>Buffer\<close> conversions it relies on. A character of a text stands for the code point of
  its number, so the texts are those of U+0000 to U+00FF.

  Outside the repository: the AES-256-GCM cipher of \<open>crypto\<close>, a function of key,
  initialisation vector and plain text that gives the cipher text and the authentication tag
  (or \<open>None\<close> when \<open>createCipheriv\<close> throws), and the random initialisation vector.
\<close>

section \<open>Buffers\<close>

type_synonym byte = "8 word"

definition char_byte :: "char \<Rightarrow> byte" where
  "char_byte c = word_of_nat (of_char c)"

definition byte_of :: "nat \<Rightarrow> byte" where
  "byte_of n = word_of_nat n"

text \<open>\<open>Buffer.from(value, 'utf8')\<close>, and reading it back.\<close>

definition utf8_char :: "char \<Rightarrow> byte list" where
  "utf8_char c =
     (let n = (of_char c :: nat)
      in if n < 128 then [byte_of n] else [byte_of (192 + n div 64), byte_of (128 + n mod 64)])"

definition utf8 :: "string \<Rightarrow> byte list" where
  "utf8 cs = concat (map utf8_char cs)"

fun from_utf8 :: "byte list \<Rightarrow> string" where
  "from_utf8 [] = []"
| "from_utf8 [a] = [char_of (unat a)]"
| "from_utf8 (a # b # bs) =
     (if unat a < 128 then char_of (unat a) # from_utf8 (b # bs)
      else char_of ((unat a - 192) * 64 + (unat b - 128)) # from_utf8 bs)"

text \<open>
  Base64: \<open>toString('base64')\<close> writes the padded standard alphabet; \<open>Buffer.from(value, 'base64')\<close>
  reads the standard and the URL-safe alphabet, skips every other character and stops at the
  first padding character.
\<close>

definition b64_alphabet :: string where
  "b64_alphabet = ''ABCDEFGHIJKLMNOPQRSTUVWXYZabcdefghijklmnopqrstuvwxyz0123456789+/''"

definition b64_char :: "nat \<Rightarrow> char" where
  "b64_char n = b64_alphabet ! n"

definition b64_val :: "char \<Rightarrow> nat option" where
  "b64_val c = map_of (zip (b64_alphabet @ ''-_'') ([0..<64] @ [62, 63])) c"

fun b64_encode :: "byte list \<Rightarrow> string" where
  "b64_encode [] = []"
| "b64_encode [a] = [b64_char (unat a div 4), b64_char (unat a mod 4 * 16), CHR ''='', CHR ''='']"
| "b64_encode [a, b] =
     [b64_char (unat a div 4), b64_char (unat a mod 4 * 16 + unat b div 16), b64_char (unat b mod 16 * 4), CHR ''='']"
| "b64_encode (a # b # c # bs) =
     b64_char (unat a div 4) # b64_char (unat a mod 4 * 16 + unat b div 16) #
     b64_char (unat b mod 16 * 4 + unat c div 64) # b64_char (unat c mod 64) # b64_encode bs"

fun sextets :: "string \<Rightarrow> nat list" where
  "sextets [] = []"
| "sextets (c # cs) =
     (if c = CHR ''='' then [] else case b64_val c of None \<Rightarrow> sextets cs | Some n \<Rightarrow> n # sextets cs)"

fun sextet_bytes :: "nat list \<Rightarrow> byte list" where
  "sextet_bytes (p # q # r # s # ns) =
     byte_of (p * 4 + q div 16) # byte_of (q mod 16 * 16 + r div 4) # byte_of (r mod 4 * 64 + s) # sextet_bytes ns"
| "sextet_bytes [p, q, r] = [byte_of (p * 4 + q div 16), byte_of (q mod 16 * 16 + r div 4)]"
| "sextet_bytes [p, q] = [byte_of (p * 4 + q div 16)]"
| "sextet_bytes _ = []"

definition b64_decode :: "string \<Rightarrow> byte list" where
  "b64_decode cs = sextet_bytes (sextets cs)"

text \<open>\<open>Buffer.from(value, 'hex')\<close> stops at the first pair that is not hexadecimal.\<close>

definition hex_val :: "char \<Rightarrow> nat option" where
  "hex_val c = map_of (zip ''0123456789abcdefABCDEF'' ([0..<16] @ [10..<16])) c"

fun hex_decode :: "string \<Rightarrow> byte list" where
  "hex_decode (c # d # cs) =
     (case (hex_val c, hex_val d) of (Some a, Some b) \<Rightarrow> byte_of (16 * a + b) # hex_decode cs | _ \<Rightarrow> [])"
| "hex_decode _ = []"

section \<open>The service\<close>

definition aes_256_gcm_key_length :: nat where
  "aes_256_gcm_key_length = 32"

datatype buffer_encoding = Base64 | Hex

fun tryDecode :: "string \<Rightarrow> buffer_encoding \<Rightarrow> byte list option" where
  "tryDecode plain Base64 = Some (b64_decode plain)"
| "tryDecode plain Hex = Some (hex_decode plain)"

definition normalizeKey :: "string \<Rightarrow> exn + byte list" where
  "normalizeKey key =
     (let base64Buffer = tryDecode key Base64
      in if map_option length base64Buffer = Some aes_256_gcm_key_length then Inr (the base64Buffer)
         else let hexBuffer = tryDecode key Hex
              in if map_option length hexBuffer = Some aes_256_gcm_key_length then Inr (the hexBuffer)
                 else if length key = aes_256_gcm_key_length then Inr (utf8 key)
                 else Inl (InternalServerError
                   ''CLIENT_ENCRYPTION_KEY must be 32 bytes encoded in base64, hex, or utf8''))"

text \<open>The constructor: the key it stores, from APP_PORT and CLIENT_ENCRYPTION_KEY.\<close>

definition new_encryption :: "string option \<Rightarrow> string option \<Rightarrow> exn + byte list" where
  "new_encryption appPort rawKey =
     (if appPort = None \<or> appPort = Some [] then Inl (InternalServerError ''Can not load ENV APP_PORT'')
      else case rawKey of
          None \<Rightarrow> Inl (InternalServerError ''CLIENT_ENCRYPTION_KEY is not configured'')
        | Some key \<Rightarrow>
            if key = [] then Inl (InternalServerError ''CLIENT_ENCRYPTION_KEY is not configured'')
            else normalizeKey key)"

type_synonym cipher = "byte list \<Rightarrow> byte list \<Rightarrow> byte list \<Rightarrow> (byte list \<times> byte list) option"

definition encrypt :: "cipher \<Rightarrow> byte list \<Rightarrow> byte list \<Rightarrow> string option \<Rightarrow> exn + string option" where
  "encrypt gcm encryptionKey iv plain =
     (case plain of
        None \<Rightarrow> Inr None
      | Some v \<Rightarrow>
          if v = [] then Inr (Some [])
          else case gcm encryptionKey iv (utf8 v) of
              None \<Rightarrow> Inl (InternalServerError ''Failed to encrypt value'')
            | Some (encrypted, authTag) \<Rightarrow>
                Inr (Some (join_with (CHR ''.'') (map b64_encode [iv, encrypted, authTag]))))"

section \<open>Bytes and texts\<close>

lemma unat_byte: "unat (a :: byte) < 256"
  using unsigned_less [of a] by simp

lemma unat_byte_of: "n < 256 \<Longrightarrow> unat (byte_of n) = n"
  by (simp add: byte_of_def unat_of_nat)

lemma byte_of_unat: "n = unat a \<Longrightarrow> byte_of n = a"
  by (simp add: byte_of_def)

lemma b64_val_char: "n < 64 \<Longrightarrow> b64_val (b64_char n) = Some n"
proof -
  assume n: "n < 64"
  let ?cs = "b64_alphabet @ ''-_''" and ?vs = "[0..<64] @ [62, 63::nat]"
  have length: "length b64_alphabet = 64" by (simp add: b64_alphabet_def)
  have "distinct ?cs" by code_simp
  then have "map_of (zip ?cs ?vs) (?cs ! n) = Some (?vs ! n)"
    using n by (intro map_of_zip_nth) (simp_all add: length)
  then show ?thesis using n by (simp add: b64_val_def b64_char_def nth_append length)
qed

lemma b64_char_plain: "n < 64 \<Longrightarrow> b64_char n \<noteq> CHR ''='' \<and> b64_char n \<noteq> CHR ''.''"
proof -
  have "\<forall>c \<in> set b64_alphabet. c \<noteq> CHR ''='' \<and> c \<noteq> CHR ''.''"
    by (simp add: b64_alphabet_def)
  moreover have "length b64_alphabet = 64" by (simp add: b64_alphabet_def)
  ultimately show "n < 64 \<Longrightarrow> b64_char n \<noteq> CHR ''='' \<and> b64_char n \<noteq> CHR ''.''"
    unfolding b64_char_def by (metis nth_mem)
qed

lemma sextets_char [simp]: "n < 64 \<Longrightarrow> sextets (b64_char n # cs) = n # sextets cs"
  using b64_char_plain [of n] by (simp add: b64_val_char)

lemma sextets_padding [simp]: "sextets (CHR ''='' # cs) = []"
  by simp

declare sextets.simps(2) [simp del]

lemma byte_parts:
  fixes a :: byte
  shows "unat a div 4 < 64" "unat a div 16 < 16" "unat a div 64 < 4"
  using unat_byte [of a] by (simp_all add: less_mult_imp_div_less)

lemma byte_digits:
  fixes a b c :: byte
  shows "unat a div 4 < 64" "unat a mod 4 * 16 + unat b div 16 < 64"
    "unat b mod 16 * 4 + unat c div 64 < 64" "unat c mod 64 < 64"
    "unat a mod 4 * 16 < 64" "unat b mod 16 * 4 < 64"
proof -
  have "unat a mod 4 < 4" "unat b mod 16 < 16" by simp_all
  then show "unat a div 4 < 64" "unat a mod 4 * 16 + unat b div 16 < 64"
    "unat b mod 16 * 4 + unat c div 64 < 64" "unat c mod 64 < 64"
    "unat a mod 4 * 16 < 64" "unat b mod 16 * 4 < 64"
    using byte_parts [of a] byte_parts [of b] byte_parts [of c] by (simp, linarith, linarith, simp, linarith, linarith)
qed

text \<open>Putting the digits of two numbers together gives the numbers back.\<close>

lemma joined_quotient: "(y :: nat) < k \<Longrightarrow> x div m * m + (x mod m * k + y) div k = x"
  by simp

lemma joined_remainder: "(y :: nat) < k \<Longrightarrow> x mod m * k + y = z \<Longrightarrow> z div k = x mod m \<and> z mod k = y"
  by auto

lemma join_digits:
  fixes a b c :: byte
  shows "unat a div 4 * 4 + (unat a mod 4 * 16 + unat b div 16) div 16 = unat a"
    "unat a div 4 * 4 + (unat a mod 4 * 16) div 16 = unat a"
    "(unat a mod 4 * 16 + unat b div 16) mod 16 * 16 + (unat b mod 16 * 4 + unat c div 64) div 4 = unat b"
    "(unat a mod 4 * 16 + unat b div 16) mod 16 * 16 + (unat b mod 16 * 4) div 4 = unat b"
    "(unat b mod 16 * 4 + unat c div 64) mod 4 * 64 + unat c mod 64 = unat c"
  using joined_quotient [OF byte_parts(2) [of b], of "unat a" 4] joined_quotient [of 0 16 "unat a" 4]
    joined_quotient [OF byte_parts(3) [of c], of "unat b" 16] joined_quotient [of 0 4 "unat b" 16]
    joined_remainder [OF byte_parts(2) [of b] refl, of "unat a" 4]
    joined_remainder [OF byte_parts(3) [of c] refl, of "unat b" 16] div_mult_mod_eq [of "unat c" 64]
  by simp_all

lemmas join_bytes = join_digits [THEN byte_of_unat]

text \<open>Reading back what was written in Base64 gives the same bytes.\<close>

lemma b64_roundtrip: "b64_decode (b64_encode bs) = bs"
  unfolding b64_decode_def
  by (induction bs rule: b64_encode.induct)
    (simp_all only: b64_encode.simps sextets.simps(1) sextets_char sextets_padding byte_digits sextet_bytes.simps
      join_bytes)

lemma b64_no_dot: "CHR ''.'' \<notin> set (b64_encode bs)"
proof (induction bs rule: b64_encode.induct)
  case (2 a)
  then show ?case using b64_char_plain [OF byte_digits(1) [of a]] b64_char_plain [OF byte_digits(5) [of a]] by auto
next
  case (3 a b)
  then show ?case
    using b64_char_plain [OF byte_digits(1) [of a]] b64_char_plain [OF byte_digits(2) [of a b]]
      b64_char_plain [OF byte_digits(6) [of b]] by auto
next
  case (4 a b c bs)
  then show ?case
    using b64_char_plain [OF byte_digits(1) [of a]] b64_char_plain [OF byte_digits(2) [of a b]]
      b64_char_plain [OF byte_digits(3) [of b c]] b64_char_plain [OF byte_digits(4) [of c]] by auto
qed simp

lemma from_utf8_char: "from_utf8 (utf8_char c @ bs) = c # from_utf8 bs"
proof -
  have c: "(of_char c :: nat) < 256" by simp
  show ?thesis
  proof (cases "(of_char c :: nat) < 128")
    case True
    then show ?thesis using c by (cases bs) (simp_all add: utf8_char_def unat_byte_of)
  next
    case False
    have "192 + of_char c div 64 < (256 :: nat)" "128 + of_char c mod 64 < (256 :: nat)" using c by linarith+
    then show ?thesis using False by (simp add: utf8_char_def Let_def unat_byte_of)
  qed
qed

lemma utf8_roundtrip: "from_utf8 (utf8 cs) = cs"
  by (induction cs) (simp_all add: utf8_def from_utf8_char)

lemma length_utf8: "length cs \<le> length (utf8 cs)"
  by (induction cs) (auto simp: utf8_def utf8_char_def Let_def)

lemma length_utf8_ascii: "\<forall>c \<in> set cs. (of_char c :: nat) < 128 \<Longrightarrow> length (utf8 cs) = length cs"
  by (induction cs) (auto simp: utf8_def utf8_char_def Let_def)

section \<open>Encryption and decryption\<close>

lemma encrypt_run:
  assumes "v \<noteq> []" and "gcm key iv (utf8 v) = Some (encrypted, authTag)"
  shows "encrypt gcm key iv (Some v) = Inr (Some (b64_encode iv @ CHR ''.'' # b64_encode encrypted @ CHR ''.'' # b64_encode authTag))"
  using assms by (simp add: encrypt_def)

text \<open>
  What is stored can be read back: provided the cipher's decryption inverts it, the text
  stored for a non-empty value splits at its dots into exactly three parts, whose Base64
  readings are an initialisation vector, a cipher text and a tag that decrypt, under the same
  key, to the UTF-8 bytes of the value; an absent or empty value is stored as it is.
\<close>

theorem encryption_roundtrip:
  assumes open_gcm: "\<And>k iv m c t. gcm k iv m = Some (c, t) \<Longrightarrow> open_gcm k iv c t = Some m"
    and stored: "encrypt gcm key iv plain = Inr stored"
  shows "case plain of
      None \<Rightarrow> stored = None
    | Some v \<Rightarrow> if v = [] then stored = Some []
        else (\<exists>t i c g m. stored = Some t \<and> split_on (CHR ''.'') t = [i, c, g] \<and>
          open_gcm key (b64_decode i) (b64_decode c) (b64_decode g) = Some m \<and> from_utf8 m = v)"
proof (cases plain)
  case None
  then show ?thesis using stored by (simp add: encrypt_def)
next
  case (Some v)
  show ?thesis
  proof (cases "v = []")
    case True
    then have "stored = Some []" using Some stored by (simp add: encrypt_def)
    then show ?thesis using True Some by simp
  next
    case False
    then obtain c g where run: "gcm key iv (utf8 v) = Some (c, g)"
      using Some stored by (auto simp: encrypt_def split: option.splits)
    have joined: "stored = Some (join_with (CHR ''.'') (map b64_encode [iv, c, g]))"
      using Some False stored run by (simp add: encrypt_def)
    have "split_on (CHR ''.'') (join_with (CHR ''.'') (map b64_encode [iv, c, g])) = map b64_encode [iv, c, g]"
      by (rule split_join) (auto simp: b64_no_dot)
    then show ?thesis
      using Some False joined open_gcm [OF run]
      by (simp add: b64_roundtrip utf8_roundtrip del: join_with.simps)
  qed
qed

text \<open>A cipher for the witnesses: it adds the key's first byte to every byte of the text.\<close>

definition demo_gcm :: cipher where
  "demo_gcm key iv m = (if length key = 32 then Some (map (\<lambda>b. b + hd key) m, iv) else None)"

definition demo_open :: "byte list \<Rightarrow> byte list \<Rightarrow> byte list \<Rightarrow> byte list \<Rightarrow> byte list option" where
  "demo_open key iv c t = (if t = iv then Some (map (\<lambda>b. b - hd key) c) else None)"

theorem encryption_roundtrip_witness:
  "\<exists>t i c g m. encrypt demo_gcm (replicate 32 7) [1, 2, 3] (Some ''Ana'') = Inr (Some t) \<and>
     split_on (CHR ''.'') t = [i, c, g] \<and>
     demo_open (replicate 32 7) (b64_decode i) (b64_decode c) (b64_decode g) = Some m \<and> from_utf8 m = ''Ana''"
proof -
  have inverse: "demo_open k iv c t = Some m" if "demo_gcm k iv m = Some (c, t)" for k iv m c t
    using that by (auto simp: demo_gcm_def demo_open_def o_def split: if_splits)
  have "encrypt demo_gcm (replicate 32 7) [1, 2, 3] (Some ''Ana'') =
      Inr (Some (b64_encode [1, 2, 3] @ CHR ''.'' # b64_encode (map (\<lambda>b. b + 7) (utf8 ''Ana'')) @ CHR ''.'' # b64_encode [1, 2, 3]))"
    by (rule encrypt_run) (simp_all add: demo_gcm_def)
  with encryption_roundtrip [of demo_gcm demo_open, OF inverse this] show ?thesis by auto
qed

text \<open>
  Every accepted key that is read from Base64 or hexadecimal has 32 bytes, and so has one
  taken as text when it is ASCII.
\<close>

lemma normalizeKey_length:
  assumes "normalizeKey key = Inr bs"
  shows "32 \<le> length bs \<and> (if \<forall>c \<in> set key. (of_char c :: nat) < 128 then length bs = 32 else True)"
  using assms length_utf8 [of key] length_utf8_ascii [of key]
  by (auto simp: normalizeKey_def aes_256_gcm_key_length_def Let_def split: if_splits)

end
