(* ===== verification/Client_Signup.thy ===== *)
theory Client_Signup
  imports Ride_Types
begin

text \<open>
  Client profiles: the tables of riders and drivers, the repositories' queries
  (\<open>iam/infrastructure/repository/rider-profile.repository.ts\<close>,
  \<open>driver-profile.repository.ts\<close>) and the sign-up (\<open>client/domain/services/client.service.ts\<close>).

  A sign-up runs \<open>executeWithSignupLock\<close>: two advisory locks, a transaction, an exclusivity
  check, an INSERT, and the release of the locks. Sign-ups run concurrently, so a sign-up is
  a session with a program counter, one step per awaited query, and the system runs any
  number of sessions under any schedule. A step may find its query failing (the flag of the
  step); a row inserted in a transaction is visible to the others when it commits
  (READ COMMITTED). \<open>hashtext\<close> and the encryption of the names are outside the repository.
\<close>

section \<open>Profiles\<close>

datatype client_status = ACTIVE | INACTIVE

record rider_profile =
  rp_id :: string
  rp_msisdn :: string
  rp_name :: "string option"
  rp_role :: client_type
  rp_status :: client_status
  rp_createdAt :: int
  rp_updatedAt :: int
  rp_deletedAt :: "int option"

record driver_profile =
  dp_id :: string
  dp_msisdn :: string
  dp_name :: "string option"
  driverLicenseNo :: "string option"
  licenseExpiry :: "string option"
  dp_status :: client_status
  dp_role :: client_type
  vehicleLicensePlate :: "string option"
  vehicleBrand :: "string option"
  vehicleType :: "string option"
  vehicleColor :: "string option"
  vehicleYear :: "int option"
  vehicleCapacity :: "int option"
  dp_createdAt :: int
  dp_updatedAt :: int
  dp_deletedAt :: "int option"

text \<open>What the queries return of a profile: \<open>id, msisdn, role\<close>.\<close>

record client_row =
  cl_id :: string
  cl_msisdn :: string
  cl_role :: client_type

record profile_db =
  riders :: "rider_profile list"
  drivers :: "driver_profile list"
  riderSeq :: nat
  driverSeq :: nat
  advisory :: "(int \<times> nat) list"
  db_now :: int

definition rider_row :: "rider_profile \<Rightarrow> client_row" where
  "rider_row r = \<lparr>cl_id = rp_id r, cl_msisdn = rp_msisdn r, cl_role = rp_role r\<rparr>"

definition driver_row :: "driver_profile \<Rightarrow> client_row" where
  "driver_row r = \<lparr>cl_id = dp_id r, cl_msisdn = dp_msisdn r, cl_role = dp_role r\<rparr>"

definition findRiderByPhone :: "string \<Rightarrow> profile_db \<Rightarrow> client_row list" where
  "findRiderByPhone m db = map rider_row (filter (\<lambda>r. rp_msisdn r = m \<and> rp_status r = ACTIVE) (riders db))"

definition findRiderbyId :: "string \<Rightarrow> profile_db \<Rightarrow> client_row list" where
  "findRiderbyId k db = map rider_row (filter (\<lambda>r. rp_id r = k \<and> rp_status r = ACTIVE) (riders db))"

definition findDriverByPhone :: "string \<Rightarrow> profile_db \<Rightarrow> client_row list" where
  "findDriverByPhone m db = map driver_row (filter (\<lambda>r. dp_msisdn r = m \<and> dp_status r = ACTIVE) (drivers db))"

definition findDriverbyId :: "string \<Rightarrow> profile_db \<Rightarrow> client_row list" where
  "findDriverbyId k db = map driver_row (filter (\<lambda>r. dp_id r = k \<and> dp_status r = ACTIVE) (drivers db))"

text \<open>The rows the INSERT statements add, with the columns' defaults.\<close>

definition new_rider :: "nat \<Rightarrow> int \<Rightarrow> string \<Rightarrow> string option \<Rightarrow> rider_profile" where
  "new_rider n now m name =
     \<lparr>rp_id = show_nat n, rp_msisdn = m, rp_name = name, rp_role = RIDER, rp_status = ACTIVE,
      rp_createdAt = now, rp_updatedAt = now, rp_deletedAt = None\<rparr>"

definition new_driver ::
  "nat \<Rightarrow> int \<Rightarrow> string \<Rightarrow> string option \<Rightarrow> string option \<Rightarrow> string option \<Rightarrow> driver_profile" where
  "new_driver n now m license plate name =
     \<lparr>dp_id = show_nat n, dp_msisdn = m, dp_name = name, driverLicenseNo = license, licenseExpiry = None,
      dp_status = ACTIVE, dp_role = DRIVER, vehicleLicensePlate = plate, vehicleBrand = None,
      vehicleType = None, vehicleColor = None, vehicleYear = None, vehicleCapacity = None,
      dp_createdAt = now, dp_updatedAt = now, dp_deletedAt = None\<rparr>"

text \<open>
  \<open>upsertRiderByPhone\<close>, \<open>upsertDriverByPhone\<close>: without a unique index on the number the statement
  fails and the error is only logged. No service calls them.
\<close>

definition upsertRiderByPhone :: "bool \<Rightarrow> string \<Rightarrow> profile_db \<Rightarrow> profile_db" where
  "upsertRiderByPhone unique m db =
     (if \<not> unique then db
      else if (\<exists>r \<in> set (riders db). rp_msisdn r = m) then db\<lparr>riderSeq := Suc (riderSeq db)\<rparr>
      else db\<lparr>riders := riders db @ [new_rider (riderSeq db) (db_now db) m None],
              riderSeq := Suc (riderSeq db)\<rparr>)"

definition upsertDriverByPhone :: "bool \<Rightarrow> string \<Rightarrow> profile_db \<Rightarrow> profile_db" where
  "upsertDriverByPhone unique m db =
     (if \<not> unique then db
      else if (\<exists>r \<in> set (drivers db). dp_msisdn r = m) then db\<lparr>driverSeq := Suc (driverSeq db)\<rparr>
      else db\<lparr>drivers := drivers db @ [new_driver (driverSeq db) (db_now db) m None None None],
              driverSeq := Suc (driverSeq db)\<rparr>)"

section \<open>Advisory locks\<close>

text \<open>
  Locks of a database session, counted: \<open>pg_try_advisory_lock\<close> succeeds unless another session
  holds the lock, and each success is undone by one \<open>pg_advisory_unlock\<close>.
\<close>

definition lock_free :: "int \<Rightarrow> nat \<Rightarrow> profile_db \<Rightarrow> bool" where
  "lock_free a i db \<longleftrightarrow> list_all (\<lambda>(b, j). b = a \<longrightarrow> j = i) (advisory db)"

definition take_lock :: "int \<Rightarrow> nat \<Rightarrow> profile_db \<Rightarrow> profile_db" where
  "take_lock a i db = db\<lparr>advisory := (a, i) # advisory db\<rparr>"

definition drop_lock :: "int \<Rightarrow> nat \<Rightarrow> profile_db \<Rightarrow> profile_db" where
  "drop_lock a i db = db\<lparr>advisory := remove1 (a, i) (advisory db)\<rparr>"

definition getSignupLockKeys :: "string \<Rightarrow> string list" where
  "getSignupLockKeys m = [''client_signup_lock:driver_profile:'' @ m, ''client_signup_lock:rider_profile:'' @ m]"

section \<open>A sign-up session\<close>

text \<open>The exclusivity check on what the two queries found.\<close>

definition ensureMsisdnExclusivity :: "bool \<Rightarrow> bool \<Rightarrow> client_type \<Rightarrow> exn + unit" where
  "ensureMsisdnExclusivity riderExists driverExists clientType =
     (if riderExists \<and> driverExists
      then Inl (Conflict ''msisdn is already registered as both rider and driver'')
      else case clientType of
          RIDER \<Rightarrow>
            if riderExists then Inl (Conflict ''msisdn is already registered as rider'')
            else if driverExists then Inl (Conflict ''msisdn is already registered as driver'')
            else Inr ()
        | DRIVER \<Rightarrow>
            if driverExists then Inl (Conflict ''msisdn is already registered as driver'')
            else if riderExists then Inl (Conflict ''msisdn is already registered as rider'')
            else Inr ())"

datatype signup_request =
    RiderSignup string "string option"
  | DriverSignup string "string option" "string option" "string option"

fun request_msisdn :: "signup_request \<Rightarrow> string" where
  "request_msisdn (RiderSignup m name) = m"
| "request_msisdn (DriverSignup m license plate name) = m"

fun request_type :: "signup_request \<Rightarrow> client_type" where
  "request_type (RiderSignup m name) = RIDER"
| "request_type (DriverSignup m license plate name) = DRIVER"

fun fallbackErrorMessage :: "signup_request \<Rightarrow> string" where
  "fallbackErrorMessage (RiderSignup m name) = ''Failed to create rider profile''"
| "fallbackErrorMessage (DriverSignup m license plate name) = ''Failed to create driver profile''"

datatype signup_pc =
    Connecting
  | Locking "string list"
  | ReadingRiders
  | ReadingDrivers "client_row list"
  | Inserting
  | Committing client_row
  | Unlocking "string list" "exn + client_row"
  | Finished "exn + client_row"

datatype pending_row = NoRow | RiderRow rider_profile | DriverRow driver_profile

record signup =
  request :: signup_request
  acquired :: "string list"
  pending :: pending_row
  pc :: signup_pc

definition begin_signup :: "signup_request \<Rightarrow> signup" where
  "begin_signup req = \<lparr>request = req, acquired = [], pending = NoRow, pc = Connecting\<rparr>"

text \<open>The \<open>catch\<close> block: roll back and pass on, or replace, the error; then \<open>finally\<close> unlocks.\<close>

fun signup_error :: "string \<Rightarrow> exn \<Rightarrow> exn" where
  "signup_error fallback (Conflict m) = Conflict m"
| "signup_error fallback (InternalServerError m) = InternalServerError m"
| "signup_error fallback e = InternalServerError fallback"

definition fail_signup :: "signup \<Rightarrow> exn \<Rightarrow> signup" where
  "fail_signup s e =
     s\<lparr>pending := NoRow,
       pc := Unlocking (rev (acquired s)) (Inl (signup_error (fallbackErrorMessage (request s)) e))\<rparr>"

text \<open>The INSERT of the request, not yet committed: the sequence advances, the row is pending.\<close>

fun insert_pending :: "signup_request \<Rightarrow> profile_db \<Rightarrow> profile_db \<times> pending_row \<times> client_row" where
  "insert_pending (RiderSignup m name) db =
     (let r = new_rider (riderSeq db) (db_now db) m name
      in (db\<lparr>riderSeq := Suc (riderSeq db)\<rparr>, RiderRow r, rider_row r))"
| "insert_pending (DriverSignup m license plate name) db =
     (let r = new_driver (driverSeq db) (db_now db) m license plate name
      in (db\<lparr>driverSeq := Suc (driverSeq db)\<rparr>, DriverRow r, driver_row r))"

fun commit_row :: "pending_row \<Rightarrow> profile_db \<Rightarrow> profile_db" where
  "commit_row NoRow db = db"
| "commit_row (RiderRow r) db = db\<lparr>riders := riders db @ [r]\<rparr>"
| "commit_row (DriverRow r) db = db\<lparr>drivers := drivers db @ [r]\<rparr>"

text \<open>
  One step of session \<open>i\<close>. The flag tells whether the query of the step succeeds; the unlocking
  queries of \<open>finally\<close> and the release of the connection are taken to succeed.
\<close>

definition executeWithSignupLock ::
  "(string \<Rightarrow> int) \<Rightarrow> nat \<Rightarrow> bool \<Rightarrow> profile_db \<Rightarrow> signup \<Rightarrow> profile_db \<times> signup" where
  "executeWithSignupLock hashtext i ok db s =
     (let m = request_msisdn (request s); broken = (db, fail_signup s (JsError ''query failed''))
      in case pc s of
          Connecting \<Rightarrow> if \<not> ok then broken else (db, s\<lparr>pc := Locking (getSignupLockKeys m)\<rparr>)
        | Locking (k # ks) \<Rightarrow>
            if \<not> ok then broken
            else if \<not> lock_free (hashtext k) i db
            then (db, fail_signup s (Conflict ''Registration is currently being processed, please try again.''))
            else (take_lock (hashtext k) i db, s\<lparr>acquired := acquired s @ [k], pc := Locking ks\<rparr>)
        | Locking [] \<Rightarrow> if \<not> ok then broken else (db, s\<lparr>pc := ReadingRiders\<rparr>)
        | ReadingRiders \<Rightarrow> if \<not> ok then broken else (db, s\<lparr>pc := ReadingDrivers (findRiderByPhone m db)\<rparr>)
        | ReadingDrivers riderProfiles \<Rightarrow>
            if \<not> ok then broken
            else (case ensureMsisdnExclusivity (riderProfiles \<noteq> []) (findDriverByPhone m db \<noteq> [])
                         (request_type (request s)) of
                Inl e \<Rightarrow> (db, fail_signup s e)
              | Inr _ \<Rightarrow> (db, s\<lparr>pc := Inserting\<rparr>))
        | Inserting \<Rightarrow>
            if \<not> ok then broken
            else (case insert_pending (request s) db of
                (db', row, client) \<Rightarrow> (db', s\<lparr>pending := row, pc := Committing client\<rparr>))
        | Committing client \<Rightarrow>
            if \<not> ok then broken
            else (commit_row (pending s) db,
                  s\<lparr>pending := NoRow, pc := Unlocking (rev (acquired s)) (Inr client)\<rparr>)
        | Unlocking (k # ks) out \<Rightarrow> (drop_lock (hashtext k) i db, s\<lparr>pc := Unlocking ks out\<rparr>)
        | Unlocking [] out \<Rightarrow> (db, s\<lparr>pc := Finished out\<rparr>)
        | Finished out \<Rightarrow> (db, s))"

section \<open>ClientService\<close>

text \<open>
  The personal data is encrypted first; an error there ends the sign-up before it touches the
  database. \<open>enc n\<close> is the encryption with the \<open>n\<close>-th initialisation vector of the request.
\<close>

record signup_rider_dto =
  sr_msisdn :: string
  sr_name :: string

record signup_driver_dto =
  sd_msisdn :: string
  sd_name :: string
  sd_driverLicenseNumber :: string
  sd_vehicleLicensePlate :: string

type_synonym encryptor = "nat \<Rightarrow> string option \<Rightarrow> exn + string option"

definition refused_signup :: "signup_request \<Rightarrow> exn \<Rightarrow> signup" where
  "refused_signup req e = (begin_signup req)\<lparr>pc := Finished (Inl e)\<rparr>"

definition signupRider :: "encryptor \<Rightarrow> signup_rider_dto \<Rightarrow> signup" where
  "signupRider enc dto =
     (case enc 0 (Some (sr_name dto)) of
        Inl e \<Rightarrow> refused_signup (RiderSignup (sr_msisdn dto) None) e
      | Inr encryptedName \<Rightarrow> begin_signup (RiderSignup (sr_msisdn dto) encryptedName))"

definition signupDriver :: "encryptor \<Rightarrow> signup_driver_dto \<Rightarrow> signup" where
  "signupDriver enc dto =
     (case enc 0 (Some (sd_driverLicenseNumber dto)) of
        Inl e \<Rightarrow> refused_signup (DriverSignup (sd_msisdn dto) None None None) e
      | Inr license \<Rightarrow>
          (case enc 1 (Some (sd_vehicleLicensePlate dto)) of
             Inl e \<Rightarrow> refused_signup (DriverSignup (sd_msisdn dto) license None None) e
           | Inr plate \<Rightarrow>
               (case enc 2 (Some (sd_name dto)) of
                  Inl e \<Rightarrow> refused_signup (DriverSignup (sd_msisdn dto) license plate None) e
                | Inr name \<Rightarrow> begin_signup (DriverSignup (sd_msisdn dto) license plate name))))"

section \<open>Concurrent sign-ups\<close>

record signup_world =
  sw_db :: profile_db
  sessions :: "signup list"

definition session_step :: "(string \<Rightarrow> int) \<Rightarrow> signup_world \<Rightarrow> nat \<times> bool \<Rightarrow> signup_world" where
  "session_step hashtext w e =
     (case e of (i, ok) \<Rightarrow>
        if i < length (sessions w)
        then (case executeWithSignupLock hashtext i ok (sw_db w) (sessions w ! i) of
            (db, s) \<Rightarrow> \<lparr>sw_db = db, sessions = (sessions w)[i := s]\<rparr>)
        else w)"

definition run_sessions :: "(string \<Rightarrow> int) \<Rightarrow> signup_world \<Rightarrow> (nat \<times> bool) list \<Rightarrow> signup_world" where
  "run_sessions hashtext = foldl (session_step hashtext)"

end
