(* ===== verification/Client_Guarantees.thy ===== *)
theory Client_Guarantees
  imports Client_Signup
begin

text \<open>
  What the sign-up guarantees, under any schedule of any number of concurrent sign-ups: a
  phone number is never active twice, every sign-up ends and gives its locks back, and a
  sign-up that runs alone registers the client exactly when the number is free.
\<close>

section \<open>What a session holds and knows\<close>

definition held :: "signup \<Rightarrow> string list" where
  "held s = (case pc s of Unlocking ks out \<Rightarrow> ks | Finished out \<Rightarrow> [] | _ \<Rightarrow> rev (acquired s))"

fun row_fits :: "string \<Rightarrow> pending_row \<Rightarrow> bool" where
  "row_fits m NoRow = False"
| "row_fits m (RiderRow r) = (rp_msisdn r = m)"
| "row_fits m (DriverRow r) = (dp_msisdn r = m)"

definition knows :: "profile_db \<Rightarrow> signup \<Rightarrow> bool" where
  "knows db s =
     (let m = request_msisdn (request s); keys = getSignupLockKeys m;
          unused = (findRiderByPhone m db = [] \<and> findDriverByPhone m db = [])
      in case pc s of
          Connecting \<Rightarrow> acquired s = []
        | Locking ks \<Rightarrow> acquired s @ ks = keys
        | ReadingRiders \<Rightarrow> acquired s = keys
        | ReadingDrivers rs \<Rightarrow> acquired s = keys \<and> rs = findRiderByPhone m db
        | Inserting \<Rightarrow> acquired s = keys \<and> unused
        | Committing client \<Rightarrow> acquired s = keys \<and> unused \<and> row_fits m (pending s)
        | _ \<Rightarrow> True)"

definition in_transaction :: "signup \<Rightarrow> bool" where
  "in_transaction s =
     (case pc s of ReadingRiders \<Rightarrow> True | ReadingDrivers rs \<Rightarrow> True | Inserting \<Rightarrow> True | Committing c \<Rightarrow> True
      | _ \<Rightarrow> False)"

definition owned :: "nat \<Rightarrow> profile_db \<Rightarrow> (int \<times> nat) list" where
  "owned i db = filter (\<lambda>p. snd p = i) (advisory db)"

definition locked_by :: "(string \<Rightarrow> int) \<Rightarrow> nat \<Rightarrow> profile_db \<Rightarrow> signup \<Rightarrow> bool" where
  "locked_by h i db s \<longleftrightarrow> owned i db = map (\<lambda>k. (h k, i)) (held s)"

definition active_msisdns :: "profile_db \<Rightarrow> string list" where
  "active_msisdns db =
     map rp_msisdn (filter (\<lambda>r. rp_status r = ACTIVE) (riders db)) @
     map dp_msisdn (filter (\<lambda>r. dp_status r = ACTIVE) (drivers db))"

lemma unused_iff: "findRiderByPhone m db = [] \<and> findDriverByPhone m db = [] \<longleftrightarrow> m \<notin> set (active_msisdns db)"
  by (auto simp: findRiderByPhone_def findDriverByPhone_def active_msisdns_def filter_empty_conv)

text \<open>
  The invariant: active numbers are distinct, a lock has one owner, locks belong to sessions
  of the system, and every session holds what its program counter says and still knows what
  it has read.
\<close>

definition signup_inv :: "(string \<Rightarrow> int) \<Rightarrow> signup_world \<Rightarrow> bool" where
  "signup_inv h w \<longleftrightarrow>
     distinct (active_msisdns (sw_db w)) \<and>
     (\<forall>a i j. (a, i) \<in> set (advisory (sw_db w)) \<longrightarrow> (a, j) \<in> set (advisory (sw_db w)) \<longrightarrow> i = j) \<and>
     (\<forall>a i. (a, i) \<in> set (advisory (sw_db w)) \<longrightarrow> i < length (sessions w)) \<and>
     (\<forall>i < length (sessions w). locked_by h i (sw_db w) (sessions w ! i) \<and> knows (sw_db w) (sessions w ! i))"

section \<open>One step\<close>

lemma held_simps [simp]:
  "pc s = Connecting \<Longrightarrow> held s = rev (acquired s)" "pc s = Locking ks \<Longrightarrow> held s = rev (acquired s)"
  "pc s = ReadingRiders \<Longrightarrow> held s = rev (acquired s)" "pc s = ReadingDrivers rs \<Longrightarrow> held s = rev (acquired s)"
  "pc s = Inserting \<Longrightarrow> held s = rev (acquired s)" "pc s = Committing c \<Longrightarrow> held s = rev (acquired s)"
  "pc s = Unlocking us out \<Longrightarrow> held s = us" "pc s = Finished out \<Longrightarrow> held s = []"
  by (simp_all add: held_def)

lemma knows_simps [simp]:
  "pc s = Connecting \<Longrightarrow> knows db s \<longleftrightarrow> acquired s = []"
  "pc s = Locking ks \<Longrightarrow> knows db s \<longleftrightarrow> acquired s @ ks = getSignupLockKeys (request_msisdn (request s))"
  "pc s = ReadingRiders \<Longrightarrow> knows db s \<longleftrightarrow> acquired s = getSignupLockKeys (request_msisdn (request s))"
  "pc s = ReadingDrivers rs \<Longrightarrow> knows db s \<longleftrightarrow>
     acquired s = getSignupLockKeys (request_msisdn (request s)) \<and> rs = findRiderByPhone (request_msisdn (request s)) db"
  "pc s = Inserting \<Longrightarrow> knows db s \<longleftrightarrow> acquired s = getSignupLockKeys (request_msisdn (request s)) \<and>
     findRiderByPhone (request_msisdn (request s)) db = [] \<and> findDriverByPhone (request_msisdn (request s)) db = []"
  "pc s = Committing c \<Longrightarrow> knows db s \<longleftrightarrow> acquired s = getSignupLockKeys (request_msisdn (request s)) \<and>
     findRiderByPhone (request_msisdn (request s)) db = [] \<and> findDriverByPhone (request_msisdn (request s)) db = [] \<and>
     row_fits (request_msisdn (request s)) (pending s)"
  "pc s = Unlocking us out \<Longrightarrow> knows db s" "pc s = Finished out \<Longrightarrow> knows db s"
  by (simp_all add: knows_def Let_def)

lemma held_fail [simp]: "held (fail_signup s e) = rev (acquired s)"
  by (simp add: held_def fail_signup_def)

lemma request_fail [simp]: "request (fail_signup s e) = request s"
  by (simp add: fail_signup_def)

lemma knows_fail [simp]: "knows db (fail_signup s e)"
  by (simp add: knows_def fail_signup_def)

lemma owned_take [simp]: "owned j (take_lock a i db) = (if i = j then (a, i) # owned j db else owned j db)"
  by (simp add: owned_def take_lock_def)

lemma owned_drop [simp]: "owned j (drop_lock a i db) = remove1 (a, i) (owned j db)"
  by (simp add: owned_def drop_lock_def filter_remove1)

lemma owned_commit [simp]: "owned j (commit_row row db) = owned j db"
  by (cases row) (simp_all add: owned_def)

lemma insert_pending_run:
  assumes "insert_pending req db = (db', row, client)"
  shows "advisory db' = advisory db" "riders db' = riders db" "drivers db' = drivers db"
    "row_fits (request_msisdn req) row"
  using assms by (cases req; auto simp: Let_def new_rider_def new_driver_def)+

text \<open>Same tables and the same own locks: the step of another session changes nothing for this one.\<close>

lemma knows_same: "riders db' = riders db \<Longrightarrow> drivers db' = drivers db \<Longrightarrow> knows db' s = knows db s"
  by (cases "pc s") (simp_all add: findRiderByPhone_def findDriverByPhone_def)

lemma knows_commit:
  assumes "row_fits m row" and "m \<noteq> request_msisdn (request s)"
  shows "knows (commit_row row db) s = knows db s"
proof -
  have "findRiderByPhone n (commit_row row db) = findRiderByPhone n db"
    "findDriverByPhone n (commit_row row db) = findDriverByPhone n db" if "n \<noteq> m" for n
    using assms(1) that by (cases row; simp add: findRiderByPhone_def findDriverByPhone_def)+
  then show ?thesis using assms(2) by (cases "pc s") simp_all
qed

lemma knows_outside: "\<not> in_transaction s \<Longrightarrow> knows db' s = knows db s"
  by (simp add: knows_def in_transaction_def split: signup_pc.splits)

lemma tables_step:
  assumes "executeWithSignupLock h i ok db s = (db', s')"
  shows "riders db' = riders db \<and> drivers db' = drivers db \<or>
    (\<exists>c. pc s = Committing c \<and> ok \<and> db' = commit_row (pending s) db \<and>
       s' = s\<lparr>pending := NoRow, pc := Unlocking (rev (acquired s)) (Inr c)\<rparr>)"
proof (cases "pc s")
  case Inserting
  then show ?thesis
    using assms insert_pending_run(2,3)
    by (auto simp: executeWithSignupLock_def Let_def split: if_splits prod.splits)
qed (use assms in \<open>auto simp: executeWithSignupLock_def Let_def take_lock_def drop_lock_def
  split: if_splits list.splits sum.splits\<close>)

lemma locks_step:
  assumes "executeWithSignupLock h i ok db s = (db', s')"
  shows "advisory db' = advisory db \<or>
    (\<exists>k. lock_free (h k) i db \<and> advisory db' = (h k, i) # advisory db) \<or>
    (\<exists>k. advisory db' = remove1 (h k, i) (advisory db))"
proof (cases "pc s")
  case Inserting
  then show ?thesis
    using assms insert_pending_run(1)
    by (auto simp: executeWithSignupLock_def Let_def split: if_splits prod.splits)
next
  case (Committing c)
  then show ?thesis
    using assms by (cases "pending s") (auto simp: executeWithSignupLock_def Let_def split: if_splits)
qed (use assms in \<open>auto simp: executeWithSignupLock_def Let_def take_lock_def drop_lock_def
  split: if_splits list.splits sum.splits\<close>)

lemma own_step:
  assumes "executeWithSignupLock h i ok db s = (db', s')" and "locked_by h i db s" and "knows db s"
  shows "request s' = request s \<and> locked_by h i db' s' \<and> knows db' s'"
proof (cases "pc s")
  case (Locking ks)
  then show ?thesis
    using assms
    by (cases ks) (auto simp: executeWithSignupLock_def Let_def locked_by_def split: if_splits)
next
  case (ReadingDrivers rs)
  then show ?thesis
    using assms
    by (auto simp: executeWithSignupLock_def Let_def locked_by_def ensureMsisdnExclusivity_def
      split: if_splits sum.splits client_type.splits)
next
  case Inserting
  show ?thesis
  proof (cases ok)
    case True
    obtain d row c where ins: "insert_pending (request s) db = (d, row, c)" by (cases "insert_pending (request s) db") auto
    have "db' = d" "s' = s\<lparr>pending := row, pc := Committing c\<rparr>"
      using assms(1) Inserting True ins by (simp_all add: executeWithSignupLock_def Let_def)
    then show ?thesis
      using assms(2,3) Inserting insert_pending_run [OF ins]
      by (simp add: locked_by_def owned_def findRiderByPhone_def findDriverByPhone_def Let_def)
  next
    case False
    then show ?thesis
      using assms Inserting by (auto simp: executeWithSignupLock_def Let_def locked_by_def)
  qed
next
  case (Unlocking ks out)
  then show ?thesis
    using assms
    by (cases ks) (auto simp: executeWithSignupLock_def Let_def locked_by_def)
qed (use assms in \<open>auto simp: executeWithSignupLock_def Let_def locked_by_def split: if_splits\<close>)

section \<open>The invariant\<close>

lemma locks_exclusive:
  assumes "locked_by h i db s" and "locked_by h j db t" and "knows db s" and "knows db t"
    and "in_transaction s" and "in_transaction t"
    and "request_msisdn (request s) = request_msisdn (request t)"
    and "\<forall>a i j. (a, i) \<in> set (advisory db) \<longrightarrow> (a, j) \<in> set (advisory db) \<longrightarrow> i = j"
  shows "i = j"
proof -
  let ?k = "hd (getSignupLockKeys (request_msisdn (request s)))"
  have own: "(h (hd (getSignupLockKeys (request_msisdn (request u)))), n) \<in> set (advisory db)"
    if lku: "locked_by h n db u" "knows db u" "in_transaction u" for n u
  proof -
    have "acquired u = getSignupLockKeys (request_msisdn (request u)) \<and> held u = rev (acquired u)"
      using lku(2,3) by (cases "pc u") (simp_all add: in_transaction_def)
    then have "(h (hd (getSignupLockKeys (request_msisdn (request u)))), n) \<in> set (owned n db)"
      using lku(1) by (simp add: locked_by_def getSignupLockKeys_def)
    then show ?thesis by (simp add: owned_def)
  qed
  show ?thesis using own [OF assms(1,3,5)] own [OF assms(2,4,6)] assms(7,8) by auto
qed

lemma distinct_commit:
  assumes "distinct (active_msisdns db)" and "row_fits m row" and "m \<notin> set (active_msisdns db)"
  shows "distinct (active_msisdns (commit_row row db))"
  using assms by (cases row) (auto simp: active_msisdns_def)

lemma signup_inv_step:
  assumes inv: "signup_inv h w"
  shows "signup_inv h (session_step h w e)"
proof (cases "fst e < length (sessions w)")
  case False
  then show ?thesis using inv by (cases e) (simp add: session_step_def)
next
  case True
  obtain i ok where e: "e = (i, ok)" by (cases e)
  define db where "db = sw_db w"
  define s where "s = sessions w ! i"
  have i: "i < length (sessions w)" using True e by simp
  obtain db' s' where step: "executeWithSignupLock h i ok db s = (db', s')"
    by (cases "executeWithSignupLock h i ok db s") auto
  have w': "session_step h w e = \<lparr>sw_db = db', sessions = (sessions w)[i := s']\<rparr>"
    using i e step by (simp add: session_step_def db_def s_def)
  have one: "\<forall>a i j. (a, i) \<in> set (advisory db) \<longrightarrow> (a, j) \<in> set (advisory db) \<longrightarrow> i = j"
    and bound: "\<forall>a i. (a, i) \<in> set (advisory db) \<longrightarrow> i < length (sessions w)"
    and all: "\<forall>j < length (sessions w). locked_by h j db (sessions w ! j) \<and> knows db (sessions w ! j)"
    and dist: "distinct (active_msisdns db)"
    using inv by (auto simp: signup_inv_def db_def)
  have own: "request s' = request s" "locked_by h i db' s'" "knows db' s'"
    using own_step [OF step] all i by (auto simp: s_def)
  have locks: "\<forall>a i j. (a, i) \<in> set (advisory db') \<longrightarrow> (a, j) \<in> set (advisory db') \<longrightarrow> i = j"
      "\<forall>a i. (a, i) \<in> set (advisory db') \<longrightarrow> i < length (sessions w)"
      "\<forall>j. j \<noteq> i \<longrightarrow> owned j db' = owned j db"
  proof -
    consider "advisory db' = advisory db"
      | k where "lock_free (h k) i db" "advisory db' = (h k, i) # advisory db"
      | k where "advisory db' = remove1 (h k, i) (advisory db)"
      using locks_step [OF step] by blast
    then have "(\<forall>a i j. (a, i) \<in> set (advisory db') \<longrightarrow> (a, j) \<in> set (advisory db') \<longrightarrow> i = j) \<and>
      (\<forall>a i. (a, i) \<in> set (advisory db') \<longrightarrow> i < length (sessions w)) \<and>
      (\<forall>j. j \<noteq> i \<longrightarrow> owned j db' = owned j db)"
    proof cases
      case 1
      then show ?thesis using one bound by (simp add: owned_def)
    next
      case 2
      then show ?thesis using one bound i by (auto simp: owned_def lock_free_def list_all_iff)
    next
      case 3
      then have "set (advisory db') \<subseteq> set (advisory db)" by (simp add: set_remove1_subset)
      moreover have "\<forall>j. j \<noteq> i \<longrightarrow> owned j db' = owned j db"
        using 3 by (simp add: owned_def filter_remove1 remove1_idem)
      ultimately show ?thesis using one bound by (meson subsetD)
    qed
    then show "\<forall>a i j. (a, i) \<in> set (advisory db') \<longrightarrow> (a, j) \<in> set (advisory db') \<longrightarrow> i = j"
      "\<forall>a i. (a, i) \<in> set (advisory db') \<longrightarrow> i < length (sessions w)"
      "\<forall>j. j \<noteq> i \<longrightarrow> owned j db' = owned j db" by blast+
  qed
  have tables: "distinct (active_msisdns db') \<and>
      (\<forall>j < length (sessions w). j \<noteq> i \<longrightarrow> knows db' (sessions w ! j))"
    using tables_step [OF step]
  proof
    assume same: "riders db' = riders db \<and> drivers db' = drivers db"
    then have "active_msisdns db' = active_msisdns db" by (simp add: active_msisdns_def)
    then show ?thesis using dist all same knows_same [of db' db] by auto
  next
    assume "\<exists>c. pc s = Committing c \<and> ok \<and> db' = commit_row (pending s) db \<and>
       s' = s\<lparr>pending := NoRow, pc := Unlocking (rev (acquired s)) (Inr c)\<rparr>"
    then obtain c where c: "pc s = Committing c" "db' = commit_row (pending s) db" by blast
    define m where "m = request_msisdn (request s)"
    have k: "knows db s" "locked_by h i db s" using all i by (auto simp: s_def)
    then have fits: "row_fits m (pending s)" and new: "m \<notin> set (active_msisdns db)"
      using c(1) unused_iff [of m db] by (auto simp: m_def)
    have "knows db' (sessions w ! j)" if j: "j < length (sessions w)" "j \<noteq> i" for j
    proof (cases "in_transaction (sessions w ! j)")
      case True
      have "in_transaction s" using c(1) by (simp add: in_transaction_def)
      then have "m \<noteq> request_msisdn (request (sessions w ! j))"
        using locks_exclusive [OF k(2) _ k(1) _ _ True] all j one by (auto simp: m_def)
      then show ?thesis using knows_commit [OF fits] all j c(2) by auto
    next
      case False
      then show ?thesis using knows_outside [OF False] all j by blast
    qed
    moreover have "distinct (active_msisdns db')"
      using distinct_commit [OF dist fits new] c(2) by simp
    ultimately show ?thesis by blast
  qed
  show ?thesis
    unfolding signup_inv_def w'
  proof (intro conjI allI impI; simp)
    show "distinct (active_msisdns db')" using tables by blast
  next
    fix a j k assume "(a, j) \<in> set (advisory db')" "(a, k) \<in> set (advisory db')"
    then show "j = k" using locks(1) by blast
  next
    fix a j assume "(a, j) \<in> set (advisory db')"
    then show "j < length (sessions w)" using locks(2) by blast
  next
    fix j assume j: "j < length (sessions w)"
    show "locked_by h j db' ((sessions w)[i := s'] ! j)"
      using own all j locks(3) by (cases "j = i") (auto simp: locked_by_def)
  next
    fix j assume j: "j < length (sessions w)"
    show "knows db' ((sessions w)[i := s'] ! j)"
      using own tables j by (cases "j = i") auto
  qed
qed

lemma signup_inv_run: "signup_inv h w \<Longrightarrow> signup_inv h (run_sessions h w es)"
  unfolding run_sessions_def by (induction es arbitrary: w) (auto intro: signup_inv_step)

section \<open>The guarantees\<close>

text \<open>The calls of the sign-up endpoints, each with the encryption its request uses.\<close>

datatype signup_call = CallRider encryptor signup_rider_dto | CallDriver encryptor signup_driver_dto

fun start_call :: "signup_call \<Rightarrow> signup" where
  "start_call (CallRider enc dto) = signupRider enc dto"
| "start_call (CallDriver enc dto) = signupDriver enc dto"

definition start_sessions :: "profile_db \<Rightarrow> signup_call list \<Rightarrow> signup_world" where
  "start_sessions db calls = \<lparr>sw_db = db, sessions = map start_call calls\<rparr>"

lemma start_call_fresh:
  "(pc (start_call c) = Connecting \<or> (\<exists>e. pc (start_call c) = Finished (Inl e))) \<and> acquired (start_call c) = []"
  by (cases c) (auto simp: signupRider_def signupDriver_def begin_signup_def refused_signup_def split: sum.split)

lemma signup_inv_start:
  assumes "distinct (active_msisdns db)" and "advisory db = []"
  shows "signup_inv h (start_sessions db calls)"
proof -
  have "locked_by h i db (start_call c) \<and> knows db (start_call c)" for i c
    using start_call_fresh [of c] assms(2) by (auto simp: locked_by_def owned_def)
  then show ?thesis using assms by (simp add: signup_inv_def start_sessions_def)
qed


definition empty_profiles :: profile_db where
  "empty_profiles = \<lparr>riders = [], drivers = [], riderSeq = 1, driverSeq = 1, advisory = [], db_now = 0\<rparr>"

definition same_number :: "signup_call list" where
  "same_number =
     [CallRider (\<lambda>_. Inr) \<lparr>sr_msisdn = ''+62811'', sr_name = ''Ana''\<rparr>,
      CallDriver (\<lambda>_. Inr) \<lparr>sd_msisdn = ''+62811'', sd_name = ''Budi'', sd_driverLicenseNumber = ''L'',
        sd_vehicleLicensePlate = ''P''\<rparr>]"

definition crossing :: "(nat \<times> bool) list" where
  "crossing = concat (replicate 11 [(0, True), (1, True)])"


text \<open>How many steps a session still has.\<close>

definition remaining :: "signup \<Rightarrow> nat" where
  "remaining s =
     (case pc s of
        Connecting \<Rightarrow> length (acquired s) + 11
      | Locking ks \<Rightarrow> length (acquired s) + 2 * length ks + 6
      | ReadingRiders \<Rightarrow> length (acquired s) + 5
      | ReadingDrivers rs \<Rightarrow> length (acquired s) + 4
      | Inserting \<Rightarrow> length (acquired s) + 3
      | Committing c \<Rightarrow> length (acquired s) + 2
      | Unlocking ks out \<Rightarrow> Suc (length ks)
      | Finished out \<Rightarrow> 0)"

lemma remaining_step:
  assumes "executeWithSignupLock h i ok db s = (db', s')"
  shows "remaining s' \<le> remaining s - 1"
  using assms
  by (auto simp: executeWithSignupLock_def remaining_def fail_signup_def getSignupLockKeys_def Let_def
      split: signup_pc.splits list.splits if_splits sum.splits prod.splits)

lemma sessions_step:
  "length (sessions (session_step h w e)) = length (sessions w)"
  by (simp add: session_step_def split: prod.split)

lemma remaining_run:
  assumes "i < length (sessions w)"
  shows "remaining (sessions (run_sessions h w es) ! i) \<le>
    remaining (sessions w ! i) - length (filter (\<lambda>e. fst e = i) es)"
  using assms unfolding run_sessions_def
proof (induction es arbitrary: w)
  case (Cons e es)
  obtain j ok where e: "e = (j, ok)" by (cases e)
  have "remaining (sessions (session_step h w e) ! i) \<le> remaining (sessions w ! i) - (if j = i then 1 else 0)"
    using Cons.prems remaining_step [of h j ok "sw_db w" "sessions w ! j"] e
    by (cases "executeWithSignupLock h j ok (sw_db w) (sessions w ! j)") (auto simp: session_step_def nth_list_update)
  moreover have "i < length (sessions (session_step h w e))" using Cons.prems by (simp add: sessions_step)
  ultimately show ?case using Cons.IH [of "session_step h w e"] e by (auto split: if_splits)
qed simp

lemma sessions_run: "length (sessions (run_sessions h w es)) = length (sessions w)"
  unfolding run_sessions_def by (induction es arbitrary: w) (simp_all add: sessions_step)

lemma remaining_start: "remaining (start_call c) \<le> 11"
  using start_call_fresh [of c] by (auto simp: remaining_def)

text \<open>
  Every sign-up ends: whatever the other sign-ups do and whichever queries fail, after
  eleven of its own steps a sign-up has finished, with the client's row or with an error, and
  holds no lock any more.
\<close>

theorem signup_ends:
  assumes "distinct (active_msisdns db)" and "advisory db = []" and "i < length calls"
    and "11 \<le> length (filter (\<lambda>e. fst e = i) schedule)"
    and "w = run_sessions hashtext (start_sessions db calls) schedule"
  shows "\<exists>out. pc (sessions w ! i) = Finished out \<and> (\<forall>a. (a, i) \<notin> set (advisory (sw_db w)))"
proof -
  have "remaining (sessions w ! i) = 0"
    using remaining_run [of i "start_sessions db calls" hashtext schedule] assms(3,4,5) remaining_start [of "calls ! i"]
    by (simp add: start_sessions_def)
  then obtain out where out: "pc (sessions w ! i) = Finished out"
    by (cases "pc (sessions w ! i)") (simp_all add: remaining_def)
  have "signup_inv hashtext w" using signup_inv_run [OF signup_inv_start [OF assms(1,2)]] assms(5) by simp
  moreover have "i < length (sessions w)" using assms(3,5) by (simp add: sessions_run start_sessions_def)
  ultimately have "owned i (sw_db w) = []" using out by (simp add: signup_inv_def locked_by_def)
  then show ?thesis using out by (auto simp: owned_def filter_empty_conv)
qed

theorem signup_ends_witness:
  "\<exists>out. pc (sessions (run_sessions (int \<circ> length) (start_sessions empty_profiles same_number) crossing) ! 1) = Finished out"
proof -
  have "distinct (active_msisdns empty_profiles)" "advisory empty_profiles = []" "1 < length same_number"
    "11 \<le> length (filter (\<lambda>e. fst e = 1) crossing)"
    by (simp_all add: empty_profiles_def active_msisdns_def same_number_def crossing_def eval_nat_numeral)
  from signup_ends [OF this refl, of "int \<circ> length"] show ?thesis by blast
qed

section \<open>A sign-up on its own\<close>

definition alone :: "(string \<Rightarrow> int) \<Rightarrow> profile_db \<Rightarrow> signup \<Rightarrow> signup_world" where
  "alone h db s = run_sessions h \<lparr>sw_db = db, sessions = [s]\<rparr> (replicate 11 (0, True))"

lemma alone_step:
  "session_step h \<lparr>sw_db = db, sessions = [s]\<rparr> (0, True) =
     (case executeWithSignupLock h 0 True db s of (db', s') \<Rightarrow> \<lparr>sw_db = db', sessions = [s']\<rparr>)"
  by (simp add: session_step_def split: prod.split)

lemma run_finished:
  "pc s = Finished out \<Longrightarrow>
   foldl (session_step h) \<lparr>sw_db = db, sessions = [s]\<rparr> (replicate n (0, True)) = \<lparr>sw_db = db, sessions = [s]\<rparr>"
  by (induction n) (simp_all add: alone_step executeWithSignupLock_def)

abbreviation advance :: "(string \<Rightarrow> int) \<Rightarrow> nat \<Rightarrow> signup_world \<Rightarrow> signup_world" where
  "advance h n w \<equiv> foldl (session_step h) w (replicate n (0, True))"

lemma advance_Suc: "advance h (Suc n) \<lparr>sw_db = db, sessions = [s]\<rparr> =
    (case executeWithSignupLock h 0 True db s of (db', s') \<Rightarrow> advance h n \<lparr>sw_db = db', sessions = [s']\<rparr>)"
  by (simp add: alone_step split: prod.split)

definition locked_db :: "(string \<Rightarrow> int) \<Rightarrow> string list \<Rightarrow> profile_db \<Rightarrow> profile_db" where
  "locked_db h ks db = db\<lparr>advisory := map (\<lambda>k. (h k, 0)) ks\<rparr>"

lemma lock_phase:
  assumes "advisory db = []" and "request_msisdn req = m"
  shows "advance h (n + 4) \<lparr>sw_db = db, sessions = [begin_signup req]\<rparr> =
    advance h n \<lparr>sw_db = locked_db h (rev (getSignupLockKeys m)) db,
      sessions = [\<lparr>request = req, acquired = getSignupLockKeys m, pending = NoRow, pc = ReadingRiders\<rparr>]\<rparr>"
proof -
  have "n + 4 = Suc (Suc (Suc (Suc n)))" by simp
  then show ?thesis
    using assms
    by (simp only: advance_Suc)
      (simp add: advance_Suc executeWithSignupLock_def begin_signup_def getSignupLockKeys_def lock_free_def
        take_lock_def locked_db_def del: replicate_Suc)
qed

lemma unlock_phase:
  assumes "pc s = Unlocking ks out" and "advisory db = []"
  shows "advance h (n + Suc (length ks)) \<lparr>sw_db = locked_db h ks db, sessions = [s]\<rparr> =
    \<lparr>sw_db = db, sessions = [s\<lparr>pc := Finished out\<rparr>]\<rparr>"
  using assms(1)
proof (induction ks arbitrary: s)
  case Nil
  have "locked_db h [] db = db" using assms(2) by (simp add: locked_db_def)
  then show ?case
    using Nil by (simp add: advance_Suc executeWithSignupLock_def run_finished del: replicate_Suc)
next
  case (Cons k ks)
  have "drop_lock (h k) 0 (locked_db h (k # ks) db) = locked_db h ks db"
    by (simp add: drop_lock_def locked_db_def)
  moreover have "pc (s\<lparr>pc := Unlocking ks out\<rparr>) = Unlocking ks out" by simp
  ultimately show ?case
    using Cons.prems Cons.IH [of "s\<lparr>pc := Unlocking ks out\<rparr>"]
    by (simp add: advance_Suc executeWithSignupLock_def del: replicate_Suc)
qed

lemma locked_db_tables [simp]:
  "findRiderByPhone m (locked_db h ks db) = findRiderByPhone m db"
  "findDriverByPhone m (locked_db h ks db) = findDriverByPhone m db"
  by (simp_all add: locked_db_def findRiderByPhone_def findDriverByPhone_def)

text \<open>What a sign-up does, written down at once: the check, then the row.\<close>

definition register :: "signup_request \<Rightarrow> profile_db \<Rightarrow> (exn + client_row) \<times> profile_db" where
  "register req db =
     (let m = request_msisdn req
      in case ensureMsisdnExclusivity (findRiderByPhone m db \<noteq> []) (findDriverByPhone m db \<noteq> []) (request_type req) of
           Inl e \<Rightarrow> (Inl (signup_error (fallbackErrorMessage req) e), db)
         | Inr _ \<Rightarrow> (case insert_pending req db of (db', row, client) \<Rightarrow> (Inr client, commit_row row db')))"

lemma length_keys [simp]: "length (getSignupLockKeys m) = 2"
  by (simp add: getSignupLockKeys_def)

lemma insert_locked:
  assumes "insert_pending req db = (db', row, client)"
  shows "insert_pending req (locked_db h ks db) = (locked_db h ks db', row, client)"
    and "commit_row row (locked_db h ks db') = locked_db h ks (commit_row row db')"
proof -
  show "insert_pending req (locked_db h ks db) = (locked_db h ks db', row, client)"
    using assms by (cases req) (auto simp: locked_db_def Let_def)
  show "commit_row row (locked_db h ks db') = locked_db h ks (commit_row row db')"
    by (cases row) (simp_all add: locked_db_def)
qed

text \<open>The eleven steps of a session that runs alone do exactly that.\<close>

lemma alone_register:
  assumes free: "advisory db = []"
  shows "\<exists>s. sessions (alone h db (begin_signup req)) = [s] \<and> pc s = Finished (fst (register req db)) \<and>
    sw_db (alone h db (begin_signup req)) = snd (register req db)"
proof -
  define m where "m = request_msisdn req"
  define ks where "ks = rev (getSignupLockKeys m)"
  define s1 where "s1 = \<lparr>request = req, acquired = getSignupLockKeys m, pending = NoRow,
      pc = ReadingDrivers (findRiderByPhone m db)\<rparr>"
  have reading: "alone h db (begin_signup req) = advance h 6 \<lparr>sw_db = locked_db h ks db, sessions = [s1]\<rparr>"
    using lock_phase [OF free, of req m h 7]
    by (simp add: alone_def run_sessions_def m_def ks_def s1_def)
      (simp add: eval_nat_numeral advance_Suc executeWithSignupLock_def del: replicate_Suc)
  have ks: "length ks = 2" by (simp add: ks_def)
  show ?thesis
  proof (cases "ensureMsisdnExclusivity (findRiderByPhone m db \<noteq> []) (findDriverByPhone m db \<noteq> []) (request_type req)")
    case (Inl e)
    have "advance h 6 \<lparr>sw_db = locked_db h ks db, sessions = [s1]\<rparr> =
        advance h (2 + Suc (length ks)) \<lparr>sw_db = locked_db h ks db, sessions = [fail_signup s1 e]\<rparr>"
      using Inl ks advance_Suc [of h "locked_db h ks db" s1 5]
      by (simp add: executeWithSignupLock_def s1_def m_def del: replicate_Suc)
    then show ?thesis
      using unlock_phase [of "fail_signup s1 e" ks "Inl (signup_error (fallbackErrorMessage req) e)" db h 2] free Inl reading
      by (simp add: fail_signup_def s1_def ks_def register_def m_def)
  next
    case (Inr u)
    obtain db' row client where ins: "insert_pending req db = (db', row, client)" by (cases "insert_pending req db")
    define s2 where "s2 = s1\<lparr>pc := Unlocking ks (Inr client)\<rparr>"
    have "advance h 6 \<lparr>sw_db = locked_db h ks db, sessions = [s1]\<rparr> =
        advance h (0 + Suc (length ks)) \<lparr>sw_db = locked_db h ks (commit_row row db'), sessions = [s2]\<rparr>"
      using Inr ks insert_locked [OF ins, of h ks]
      by (simp add: eval_nat_numeral advance_Suc executeWithSignupLock_def s1_def s2_def m_def ks_def
          del: replicate_Suc)
    moreover have "advisory (commit_row row db') = []"
      using ins free by (cases req) (auto simp: Let_def)
    ultimately show ?thesis
      using unlock_phase [of s2 ks "Inr client" "commit_row row db'" h 0] Inr reading ins
      by (simp add: s2_def register_def m_def)
  qed
qed

lemma register_result:
  "if request_msisdn req \<in> set (active_msisdns db) then \<exists>m. register req db = (Inl (Conflict m), db)
   else register req db =
     (case req of
        RiderSignup m name \<Rightarrow> (Inr \<lparr>cl_id = show_nat (riderSeq db), cl_msisdn = m, cl_role = RIDER\<rparr>,
          db\<lparr>riders := riders db @ [new_rider (riderSeq db) (db_now db) m name], riderSeq := Suc (riderSeq db)\<rparr>)
      | DriverSignup m license plate name \<Rightarrow> (Inr \<lparr>cl_id = show_nat (driverSeq db), cl_msisdn = m, cl_role = DRIVER\<rparr>,
          db\<lparr>drivers := drivers db @ [new_driver (driverSeq db) (db_now db) m license plate name],
             driverSeq := Suc (driverSeq db)\<rparr>))"
  using unused_iff [of "request_msisdn req" db]
  by (cases req; cases "request_msisdn req \<in> set (active_msisdns db)")
    (auto simp: register_def ensureMsisdnExclusivity_def Let_def new_rider_def new_driver_def rider_row_def driver_row_def)

text \<open>
  A sign-up without competition: if the number is not active, the new client is stored
  under the next id of the sequence with the role of the endpoint and is the answer;
  otherwise the answer is a conflict and the tables are unchanged.
\<close>

theorem signup_alone:
  assumes "advisory db = []"
  shows "let w = alone hashtext db (begin_signup req); db' = sw_db w
    in \<exists>s out. sessions w = [s] \<and> pc s = Finished out \<and>
      (if request_msisdn req \<in> set (active_msisdns db) then (\<exists>m. out = Inl (Conflict m)) \<and> db' = db
       else case req of
           RiderSignup m name \<Rightarrow>
             out = Inr \<lparr>cl_id = show_nat (riderSeq db), cl_msisdn = m, cl_role = RIDER\<rparr> \<and>
             db' = db\<lparr>riders := riders db @ [new_rider (riderSeq db) (db_now db) m name],
                      riderSeq := Suc (riderSeq db)\<rparr>
         | DriverSignup m license plate name \<Rightarrow>
             out = Inr \<lparr>cl_id = show_nat (driverSeq db), cl_msisdn = m, cl_role = DRIVER\<rparr> \<and>
             db' = db\<lparr>drivers := drivers db @ [new_driver (driverSeq db) (db_now db) m license plate name],
                      driverSeq := Suc (driverSeq db)\<rparr>)"
  using alone_register [OF assms, of hashtext req] register_result [of req db]
  by (auto simp: Let_def split: signup_request.splits if_splits)

theorem signup_alone_witness:
  "\<exists>s. sessions (alone (int \<circ> length) empty_profiles (begin_signup (RiderSignup ''+62811'' (Some ''x'')))) = [s] \<and>
     pc s = Finished (Inr \<lparr>cl_id = show_nat 1, cl_msisdn = ''+62811'', cl_role = RIDER\<rparr>)"
proof -
  have "advisory empty_profiles = []" by (simp add: empty_profiles_def)
  from signup_alone [OF this, of "int \<circ> length" "RiderSignup ''+62811'' (Some ''x'')"] show ?thesis
    by (auto simp: Let_def active_msisdns_def empty_profiles_def)
qed

end
