(* ===== verification/Authentication.thy ===== *)
theory Authentication
  imports Client_Signup Js_Number
begin

text \<open>
  Identity and access: \<open>AuthenticationService\<close>
  (\<open>iam/domain/services/authentication.service.ts\<close>), the SMS worker (\<open>sms-processor.ts\<close>) and the
  guards of the endpoints (\<open>iam/app/guards\<close>).

  State: the client profiles, the shared cache (Redis, entries with an expiry time in
  milliseconds), the queue of SMS jobs, and the codes emitted to the simulation stream.
  Outside the repository, in \<open>auth_env\<close>: bcrypt, the signing and verifying of JSON web tokens,
  \<open>randomUUID\<close>, \<open>Math.random\<close> and the configuration. A missing cache entry and a missing claim
  are \<open>undefined\<close>, here \<open>None\<close>.
\<close>

section \<open>Environment and state\<close>

record claims =
  cm_sub :: string
  cm_role :: "client_type option"
  cm_accessTokenId :: "string option"
  cm_refreshTokenId :: "string option"

record auth_env =
  jwt_secret :: string
  accessTokenTtl :: int
  refreshTokenTtl :: int
  otp_ttl :: "int option"
  skip_sms_notif :: "string option"
  sms_service_url :: "string option"
  bcrypt_hash :: "nat \<Rightarrow> string \<Rightarrow> string"
  bcrypt_compare :: "string \<Rightarrow> string \<Rightarrow> bool"
  jwt_sign :: "string \<Rightarrow> int \<Rightarrow> claims \<Rightarrow> int \<Rightarrow> string"
  jwt_verify :: "string \<Rightarrow> int \<Rightarrow> string \<Rightarrow> claims option"
  randomUUID :: "nat \<Rightarrow> string"
  math_random :: "nat \<Rightarrow> jsnum"
  otp_queue_error :: "exn option"

record otp_job =
  oj_id :: string
  oj_msisdn :: string
  oj_otp :: string

record otp_event =
  oe_msisdn :: string
  oe_clientType :: client_type
  oe_otp :: string

record auth_world =
  profiles :: profile_db
  cache :: "string \<Rightarrow> (string \<times> int option) option"
  au_now :: int
  otp_jobs :: "otp_job list"
  otp_events :: "otp_event list"
  drawn :: nat

type_synonym 'a aeff = "(auth_world, 'a) eff"

fun client_type_text :: "client_type \<Rightarrow> string" where
  "client_type_text RIDER = ''RIDER''"
| "client_type_text DRIVER = ''DRIVER''"

text \<open>A value in a template literal.\<close>

definition role_text :: "client_type option \<Rightarrow> string" where
  "role_text r = (case r of None \<Rightarrow> ''undefined'' | Some t \<Rightarrow> client_type_text t)"

subsection \<open>The cache\<close>

text \<open>An entry lives until its expiry time; the time to live is in milliseconds.\<close>

definition cached :: "auth_world \<Rightarrow> string \<Rightarrow> string option" where
  "cached s k =
     (case cache s k of
        None \<Rightarrow> None
      | Some (v, expiry) \<Rightarrow>
          (case expiry of None \<Rightarrow> Some v | Some t \<Rightarrow> if au_now s < t then Some v else None))"

definition cache_get :: "string \<Rightarrow> string option aeff" where
  "cache_get k = readE (\<lambda>s. cached s k)"

definition cache_set :: "string \<Rightarrow> string \<Rightarrow> int option \<Rightarrow> unit aeff" where
  "cache_set k v ttl =
     writeE (\<lambda>s. s\<lparr>cache := (cache s)(k := Some (v, map_option (\<lambda>d. au_now s + d) ttl))\<rparr>)"

definition cache_del :: "string \<Rightarrow> unit aeff" where
  "cache_del k = writeE (\<lambda>s. s\<lparr>cache := (cache s)(k := None)\<rparr>)"

definition draw :: "nat aeff" where
  "draw = (\<lambda>s. (Inr (drawn s), s\<lparr>drawn := Suc (drawn s)\<rparr>))"

section \<open>AuthenticationService\<close>

definition getOtpCachedKey :: "string \<Rightarrow> string" where
  "getOtpCachedKey m = ''otp:'' @ m"

definition getRefreshTokenCacheKey :: "client_type option \<Rightarrow> string \<Rightarrow> string" where
  "getRefreshTokenCacheKey role clientId = ''refresh-token:'' @ role_text role @ CHR '':'' # clientId"

definition getAccessTokenKey :: "client_type option \<Rightarrow> string \<Rightarrow> string" where
  "getAccessTokenKey role clientId = ''access-token:'' @ role_text role @ CHR '':'' # clientId"

definition otp_number :: "jsnum \<Rightarrow> jsnum" where
  "otp_number r = js_floor (js_add (Fin 100000) (js_mul r (Fin 900000)))"

definition integer_text :: "jsnum \<Rightarrow> string" where
  "integer_text x =
     (case x of Fin a \<Rightarrow> (if a < 0 then CHR ''-'' # show_nat (nat \<lfloor>- a\<rfloor>) else show_nat (nat \<lfloor>a\<rfloor>)) | _ \<Rightarrow> ''NaN'')"

definition generateOtp :: "auth_env \<Rightarrow> nat \<Rightarrow> string" where
  "generateOtp env n = integer_text (otp_number (math_random env n))"

definition getClientData :: "string \<Rightarrow> client_type option \<Rightarrow> client_row list aeff" where
  "getClientData clientId clientType =
     bindE (readE (\<lambda>s. if clientType = Some RIDER then findRiderbyId clientId (profiles s)
                       else findDriverbyId clientId (profiles s))) (\<lambda>client.
       if client = [] then throwE (BadRequest ''client data not found'') else returnE client)"

definition emitOtpSimulationEvent :: "string \<Rightarrow> client_type \<Rightarrow> string \<Rightarrow> unit aeff" where
  "emitOtpSimulationEvent m clientType otpCode =
     writeE (\<lambda>s. s\<lparr>otp_events := otp_events s @
       [\<lparr>oe_msisdn = m, oe_clientType = clientType, oe_otp = otpCode\<rparr>]\<rparr>)"

text \<open>The queue ignores a job whose id it still has.\<close>

definition sendOtpQueue_add :: "auth_env \<Rightarrow> otp_job \<Rightarrow> unit aeff" where
  "sendOtpQueue_add env job =
     (case otp_queue_error env of
        Some e \<Rightarrow> throwE e
      | None \<Rightarrow> writeE (\<lambda>s.
          if \<exists>j \<in> set (otp_jobs s). oj_id j = oj_id job then s else s\<lparr>otp_jobs := otp_jobs s @ [job]\<rparr>))"

definition getOtp :: "auth_env \<Rightarrow> string \<Rightarrow> client_type \<Rightarrow> string aeff" where
  "getOtp env clientId clientType =
     bindE (getClientData clientId (Some clientType)) (\<lambda>client.
       if client = [] then throwE (BadRequest ''Client not found'')
       else let m = cl_msisdn (hd client); cachedKey = getOtpCachedKey m;
                jobId = ''send-otp-'' @ m @ CHR ''-'' # client_type_text clientType
            in bindE draw (\<lambda>n. bindE draw (\<lambda>salt.
               let otpCode = generateOtp env n; hashedCode = bcrypt_hash env salt otpCode
               in thenE (cache_set cachedKey hashedCode (otp_ttl env))
                 (thenE (emitOtpSimulationEvent m clientType otpCode)
                    (if truthy (skip_sms_notif env) then returnE ''otp code sent''
                     else thenE (sendOtpQueue_add env \<lparr>oj_id = jobId, oj_msisdn = m, oj_otp = otpCode\<rparr>)
                            (returnE ''otp code sent''))))))"

definition signToken :: "auth_env \<Rightarrow> int \<Rightarrow> claims \<Rightarrow> string aeff" where
  "signToken env expiresIn payload =
     readE (\<lambda>s. jwt_sign env (jwt_secret env) (au_now s) payload expiresIn)"

record tokens =
  tk_accessToken :: string
  tk_refreshToken :: string

definition generateTokens :: "auth_env \<Rightarrow> client_row \<Rightarrow> tokens aeff" where
  "generateTokens env client =
     bindE draw (\<lambda>n. bindE draw (\<lambda>k.
       let accessTokenId = randomUUID env n; refreshTokenId = randomUUID env k;
           base = \<lparr>cm_sub = cl_id client, cm_role = Some (cl_role client), cm_accessTokenId = None,
                   cm_refreshTokenId = None\<rparr>
       in bindE (signToken env (accessTokenTtl env) (base\<lparr>cm_accessTokenId := Some accessTokenId\<rparr>)) (\<lambda>accessToken.
          bindE (signToken env (refreshTokenTtl env) (base\<lparr>cm_refreshTokenId := Some refreshTokenId\<rparr>)) (\<lambda>refreshToken.
          thenE (cache_set (getRefreshTokenCacheKey (Some (cl_role client)) (cl_id client)) refreshTokenId
                   (Some (refreshTokenTtl env)))
         (thenE (cache_set (getAccessTokenKey (Some (cl_role client)) (cl_id client)) accessTokenId
                   (Some (accessTokenTtl env * 1000)))
            (returnE \<lparr>tk_accessToken = accessToken, tk_refreshToken = refreshToken\<rparr>))))))"

definition verifyOtp :: "auth_env \<Rightarrow> string \<Rightarrow> client_type \<Rightarrow> string \<Rightarrow> tokens aeff" where
  "verifyOtp env clientId clientType otpCode =
     bindE (getClientData clientId (Some clientType)) (\<lambda>client.
       if client = [] then throwE (BadRequest ''Client not found'')
       else let cachedKey = getOtpCachedKey (cl_msisdn (hd client))
            in bindE (cache_get cachedKey) (\<lambda>cachedHashedOtpCode.
               if \<not> truthy cachedHashedOtpCode
               then throwE (Unauthorized (''Otp code not found : '' @ otpCode))
               else if \<not> bcrypt_compare env otpCode (the cachedHashedOtpCode)
               then throwE (Unauthorized ''invalid otp-code'')
               else thenE (cache_del cachedKey) (generateTokens env (hd client))))"

definition getClientAndTokenIdInfo :: "auth_env \<Rightarrow> string \<Rightarrow> (client_row list \<times> string option) aeff" where
  "getClientAndTokenIdInfo env refreshToken =
     bindE (readE (\<lambda>s. jwt_verify env (jwt_secret env) (au_now s) refreshToken)) (\<lambda>payload.
       case payload of
         None \<Rightarrow> throwE (JsError ''invalid token'')
       | Some c \<Rightarrow> bindE (getClientData (cm_sub c) (cm_role c)) (\<lambda>client.
           returnE (client, cm_refreshTokenId c)))"

definition validateRefreshToken :: "client_row list \<Rightarrow> string option \<Rightarrow> bool aeff" where
  "validateRefreshToken client refreshTokenId =
     (let cachedRefreshTokenKey = getRefreshTokenCacheKey (Some (cl_role (hd client))) (cl_id (hd client))
      in bindE (cache_get cachedRefreshTokenKey) (\<lambda>refreshTokenIdFromCache.
           if refreshTokenIdFromCache = refreshTokenId
           then thenE (cache_del cachedRefreshTokenKey) (returnE True)
           else returnE False))"

definition getRefreshToken :: "auth_env \<Rightarrow> string \<Rightarrow> tokens aeff" where
  "getRefreshToken env refreshToken =
     catchE
       (bindE (getClientAndTokenIdInfo env refreshToken) (\<lambda>(client, refreshTokenId).
        bindE (validateRefreshToken client refreshTokenId) (\<lambda>isValidRefreshToken.
          if isValidRefreshToken then generateTokens env (hd client)
          else throwE (BadRequest ''error validating refresh token''))))
       (\<lambda>_. throwE (Unauthorized ''Unauthoried refreshtoken''))"

definition logout :: "auth_env \<Rightarrow> string \<Rightarrow> string aeff" where
  "logout env refreshToken =
     bindE (getClientAndTokenIdInfo env refreshToken) (\<lambda>(client, refreshTokenId).
     bindE (validateRefreshToken client refreshTokenId) (\<lambda>isValidRefreshToken.
       if isValidRefreshToken
       then thenE (cache_del (getAccessTokenKey (Some (cl_role (hd client))) (cl_id (hd client))))
              (returnE ''successfully logout'')
       else throwE (BadRequest ''error validating refresh token'')))"

section \<open>The SMS worker\<close>

datatype post_result = PostOk | PostFails

text \<open>The message posted, if any, and the outcome; a failing post makes the job fail.\<close>

definition sendOtp :: "auth_env \<Rightarrow> post_result \<Rightarrow> string \<Rightarrow> string \<Rightarrow> (string \<times> string \<times> string) option \<times> (exn + unit)" where
  "sendOtp env reply phoneNumber otpCode =
     (if \<not> truthy (sms_service_url env) then (None, Inr ())
      else (Some (the (sms_service_url env), phoneNumber, ''Your Nebengjek verification code is '' @ otpCode),
            case reply of
              PostOk \<Rightarrow> Inr ()
            | PostFails \<Rightarrow> Inl (ServiceUnavailable ''Failed to send OTP SMS'')))"

text \<open>One job of the queue: a completed job is removed, a failed one is kept under its id.\<close>

definition process_sms_job :: "auth_env \<Rightarrow> post_result \<Rightarrow> otp_job \<Rightarrow> unit aeff" where
  "process_sms_job env reply job =
     (case snd (sendOtp env reply (oj_msisdn job) (oj_otp job)) of
        Inl e \<Rightarrow> throwE e
      | Inr _ \<Rightarrow> writeE (\<lambda>s. s\<lparr>otp_jobs := removeAll job (otp_jobs s)\<rparr>))"

section \<open>Guards\<close>

text \<open>What the access-token guard attaches to the request.\<close>

record auth_client =
  ac_sub :: string
  ac_role :: "client_type option"
  ac_msisdn :: string

definition extractTokenFromHeader :: "string option \<Rightarrow> string option" where
  "extractTokenFromHeader authorization =
     (case authorization of
        None \<Rightarrow> None
      | Some h \<Rightarrow> (case split_on (CHR '' '') h of _ # t # _ \<Rightarrow> Some t | _ \<Rightarrow> None))"

definition accessTokenGuard :: "auth_env \<Rightarrow> string option \<Rightarrow> auth_client aeff" where
  "accessTokenGuard env authorization =
     (let token = extractTokenFromHeader authorization
      in if \<not> truthy token then throwE (Unauthorized ''Authorization token not found'')
         else catchE
           (bindE (readE (\<lambda>s. jwt_verify env (jwt_secret env) (au_now s) (the token))) (\<lambda>verified.
             case verified of
               None \<Rightarrow> throwE (JsError ''invalid token'')
             | Some payload \<Rightarrow>
                 bindE (getClientData (cm_sub payload) (cm_role payload)) (\<lambda>client.
                 bindE (cache_get (getAccessTokenKey (cm_role payload) (cm_sub payload))) (\<lambda>cachedAccessTokenId.
                   if cachedAccessTokenId \<noteq> cm_accessTokenId payload
                   then throwE (Unauthorized ''Unauthorized, already logged-out'')
                   else returnE \<lparr>ac_sub = cm_sub payload, ac_role = cm_role payload,
                                 ac_msisdn = cl_msisdn (hd client)\<rparr>))))
           (\<lambda>_. throwE (Unauthorized ''Authorization failed'')))"

datatype auth_type = Bearer | NoAuth

text \<open>
  The authentication guard tries the endpoint's guards in turn and rethrows the last error.
  The answer is the client attached to the request, if any.
\<close>

fun guard_of :: "auth_env \<Rightarrow> string option \<Rightarrow> auth_type \<Rightarrow> auth_client option aeff" where
  "guard_of env authorization Bearer = bindE (accessTokenGuard env authorization) (\<lambda>c. returnE (Some c))"
| "guard_of env authorization NoAuth = returnE None"

fun try_guards :: "auth_env \<Rightarrow> string option \<Rightarrow> exn \<Rightarrow> auth_type list \<Rightarrow> auth_client option aeff" where
  "try_guards env authorization e [] = throwE e"
| "try_guards env authorization e (t # ts) =
     catchE (guard_of env authorization t) (\<lambda>e'. try_guards env authorization e' ts)"

definition authenticationGuard ::
  "auth_env \<Rightarrow> auth_type list option \<Rightarrow> string option \<Rightarrow> auth_client option aeff" where
  "authenticationGuard env authTypes authorization =
     try_guards env authorization (Unauthorized ''Unauthorized'')
       (case authTypes of None \<Rightarrow> [Bearer] | Some ts \<Rightarrow> ts)"

text \<open>\<open>contextRoles.some\<close>: reading the role of a missing client throws.\<close>

definition accessRoleGuard :: "client_type list option \<Rightarrow> auth_client option \<Rightarrow> exn + bool" where
  "accessRoleGuard contextRoles client =
     (case contextRoles of
        None \<Rightarrow> Inr True
      | Some roles \<Rightarrow>
          (case client of
             None \<Rightarrow> if roles = [] then Inr False
                     else Inl (JsError ''Cannot read properties of undefined'')
           | Some c \<Rightarrow> Inr (\<exists>role \<in> set roles. ac_role c = Some role)))"

text \<open>The two guards in the order they are registered; a guard answering false is a 403.\<close>

definition guarded ::
  "auth_env \<Rightarrow> auth_type list option \<Rightarrow> client_type list option \<Rightarrow> string option \<Rightarrow> auth_client option aeff" where
  "guarded env authTypes contextRoles authorization =
     bindE (authenticationGuard env authTypes authorization) (\<lambda>client.
       case accessRoleGuard contextRoles client of
         Inl e \<Rightarrow> throwE e
       | Inr passed \<Rightarrow> if passed then returnE client else throwE (Forbidden ''Forbidden resource''))"

end
