(* ===== verification/Auth_Guarantees.thy ===== *)
theory Auth_Guarantees
  imports Authentication
begin

text \<open>
  What authentication guarantees: the one-time code is six digits and opens exactly one
  session, refreshing rotates the tokens, and what a logout ends and does not end.
\<close>

section \<open>What the libraries promise\<close>

text \<open>
  Tokens verify until they expire, and no longer, as the claims they were signed with, and are texts without
  a space; a code compares equal to its hash only; random identifiers do not repeat.
\<close>

definition jwt_correct :: "auth_env \<Rightarrow> bool" where
  "jwt_correct env \<longleftrightarrow>
     (\<forall>secret t c ttl u. t \<le> u \<longrightarrow>
        jwt_verify env secret u (jwt_sign env secret t c ttl) = (if u < t + ttl * 1000 then Some c else None)) \<and>
     (\<forall>secret t c ttl. jwt_sign env secret t c ttl \<noteq> [] \<and> CHR '' '' \<notin> set (jwt_sign env secret t c ttl))"

definition bcrypt_correct :: "auth_env \<Rightarrow> bool" where
  "bcrypt_correct env \<longleftrightarrow>
     (\<forall>n x y. bcrypt_compare env y (bcrypt_hash env n x) = (y = x)) \<and> (\<forall>n x. bcrypt_hash env n x \<noteq> [])"

definition lookup_client :: "client_type \<Rightarrow> string \<Rightarrow> profile_db \<Rightarrow> client_row list" where
  "lookup_client t k db = (if t = RIDER then findRiderbyId k db else findDriverbyId k db)"

text \<open>A client with one active profile, under the role of the table it is in.\<close>

definition is_client :: "client_row \<Rightarrow> auth_world \<Rightarrow> bool" where
  "is_client c s \<longleftrightarrow> lookup_client (cl_role c) (cl_id c) (profiles s) = [c]"

section \<open>Running the operations\<close>

lemma run_getClientData: "getClientData k role s =
    (case lookup_client (if role = Some RIDER then RIDER else DRIVER) k (profiles s) of
       [] \<Rightarrow> (Inl (BadRequest ''client data not found''), s) | c # cs \<Rightarrow> (Inr (c # cs), s))"
  by (auto simp: getClientData_def run_bind lookup_client_def split: list.split)

lemma run_client: "is_client c s \<Longrightarrow> getClientData (cl_id c) (Some (cl_role c)) s = (Inr [c], s)"
  by (cases "cl_role c") (simp_all add: run_getClientData is_client_def)

lemma cached_simps [simp]:
  "cached (s\<lparr>drawn := n\<rparr>) k = cached s k" "cached (s\<lparr>otp_events := es\<rparr>) k = cached s k"
  "cached (s\<lparr>otp_jobs := js\<rparr>) k = cached s k"
  by (simp_all add: cached_def split: option.split)

lemma cached_set: "cached (s\<lparr>cache := (cache s)(k := Some (v, Some t))\<rparr>) j =
    (if j = k then (if au_now s < t then Some v else None) else cached s j)"
  by (simp add: cached_def split: option.split)

lemma run_get: "cache_get k s = (Inr (cached s k), s)"
  by (simp add: cache_get_def)

lemma run_set: "cache_set k v ttl s = (Inr (), s\<lparr>cache := (cache s)(k := Some (v, map_option (\<lambda>d. au_now s + d) ttl))\<rparr>)"
  by (simp add: cache_set_def)

lemma run_del: "cache_del k s = (Inr (), s\<lparr>cache := (cache s)(k := None)\<rparr>)"
  by (simp add: cache_del_def)

lemma run_draw: "draw s = (Inr (drawn s), s\<lparr>drawn := Suc (drawn s)\<rparr>)"
  by (simp add: draw_def)

named_theorems auth_run \<open>equations that run the operations of authentication\<close>

lemmas [auth_run] = run_bind run_then run_when run_catch run_get run_set run_del run_draw

text \<open>The two claims and tokens issued to a client in a state, and the state afterwards.\<close>

definition access_claims :: "auth_env \<Rightarrow> client_row \<Rightarrow> nat \<Rightarrow> claims" where
  "access_claims env c n = \<lparr>cm_sub = cl_id c, cm_role = Some (cl_role c),
     cm_accessTokenId = Some (randomUUID env n), cm_refreshTokenId = None\<rparr>"

definition refresh_claims :: "auth_env \<Rightarrow> client_row \<Rightarrow> nat \<Rightarrow> claims" where
  "refresh_claims env c n = \<lparr>cm_sub = cl_id c, cm_role = Some (cl_role c),
     cm_accessTokenId = None, cm_refreshTokenId = Some (randomUUID env n)\<rparr>"

definition issued :: "auth_env \<Rightarrow> client_row \<Rightarrow> auth_world \<Rightarrow> tokens" where
  "issued env c s = \<lparr>tk_accessToken = jwt_sign env (jwt_secret env) (au_now s) (access_claims env c (drawn s)) (accessTokenTtl env),
     tk_refreshToken = jwt_sign env (jwt_secret env) (au_now s) (refresh_claims env c (Suc (drawn s))) (refreshTokenTtl env)\<rparr>"

abbreviation access_key :: "client_row \<Rightarrow> string" where
  "access_key c \<equiv> getAccessTokenKey (Some (cl_role c)) (cl_id c)"

abbreviation refresh_key :: "client_row \<Rightarrow> string" where
  "refresh_key c \<equiv> getRefreshTokenCacheKey (Some (cl_role c)) (cl_id c)"

definition after_issue :: "auth_env \<Rightarrow> client_row \<Rightarrow> auth_world \<Rightarrow> auth_world" where
  "after_issue env c s = s\<lparr>drawn := Suc (Suc (drawn s)), cache := (cache s)
     (refresh_key c := Some (randomUUID env (Suc (drawn s)), Some (au_now s + refreshTokenTtl env)),
      access_key c := Some (randomUUID env (drawn s), Some (au_now s + accessTokenTtl env * 1000)))\<rparr>"

lemma run_generateTokens: "generateTokens env c s = (Inr (issued env c s), after_issue env c s)"
  by (simp add: generateTokens_def auth_run signToken_def issued_def after_issue_def access_claims_def refresh_claims_def Let_def)

lemma keys_differ [simp]:
  "getAccessTokenKey r k \<noteq> getRefreshTokenCacheKey r' k'" "getRefreshTokenCacheKey r' k' \<noteq> getAccessTokenKey r k"
  "getOtpCachedKey m \<noteq> getAccessTokenKey r k" "getOtpCachedKey m \<noteq> getRefreshTokenCacheKey r k"
  "getAccessTokenKey r k \<noteq> getOtpCachedKey m" "getRefreshTokenCacheKey r k \<noteq> getOtpCachedKey m"
  by (simp_all add: getAccessTokenKey_def getRefreshTokenCacheKey_def getOtpCachedKey_def)

lemma after_issue_simps [simp]:
  "au_now (after_issue env c s) = au_now s" "profiles (after_issue env c s) = profiles s"
  "drawn (after_issue env c s) = Suc (Suc (drawn s))"
  "is_client c' (after_issue env c s) = is_client c' s"
  by (simp_all add: after_issue_def is_client_def)

definition at_time :: "int \<Rightarrow> auth_world \<Rightarrow> auth_world" where
  "at_time t s = s\<lparr>au_now := t\<rparr>"

lemma at_time_simps [simp]:
  "au_now (at_time t s) = t" "profiles (at_time t s) = profiles s" "drawn (at_time t s) = drawn s"
  "cache (at_time t s) = cache s" "otp_events (at_time t s) = otp_events s" "is_client c (at_time t s) = is_client c s"
  by (simp_all add: at_time_def is_client_def)

lemma cached_issue:
  "cached (at_time t (after_issue env c s)) (access_key c) =
     (if t < au_now s + accessTokenTtl env * 1000 then Some (randomUUID env (drawn s)) else None)"
  "cached (at_time t (after_issue env c s)) (refresh_key c) =
     (if t < au_now s + refreshTokenTtl env then Some (randomUUID env (Suc (drawn s))) else None)"
  by (simp_all add: cached_def after_issue_def)

text \<open>The bearer token of a header, and the guard on it.\<close>

definition bearer :: "string \<Rightarrow> string option" where
  "bearer tok = Some (''Bearer '' @ tok)"

lemma bearer_token: "CHR '' '' \<notin> set tok \<Longrightarrow> extractTokenFromHeader (bearer tok) = Some tok"
  using split_on_word [of "CHR '' ''" "''Bearer''" tok] split_on_plain [of "CHR '' ''" tok]
  by (simp add: extractTokenFromHeader_def bearer_def)

lemma guard_run:
  assumes tok: "tok \<noteq> []" "CHR '' '' \<notin> set tok" and ver: "jwt_verify env (jwt_secret env) (au_now s) tok = Some p"
    and c: "is_client c s" "cm_sub p = cl_id c" "cm_role p = Some (cl_role c)"
  shows "accessTokenGuard env (bearer tok) s =
    (if cached s (access_key c) = cm_accessTokenId p
     then Inr \<lparr>ac_sub = cl_id c, ac_role = Some (cl_role c), ac_msisdn = cl_msisdn c\<rparr>
     else Inl (Unauthorized ''Authorization failed''), s)"
  using assms by (auto simp: accessTokenGuard_def bearer_token auth_run run_client)

lemma jwt_verifies:
  assumes "jwt_correct env"
  shows "t \<le> u \<Longrightarrow> jwt_verify env secret u (jwt_sign env secret t p ttl) = (if u < t + ttl * 1000 then Some p else None)"
    and "jwt_sign env secret t p ttl \<noteq> []" and "CHR '' '' \<notin> set (jwt_sign env secret t p ttl)"
  using assms by (simp_all add: jwt_correct_def)

text \<open>The guard on a token the service signed for the client.\<close>

lemma guard_issued:
  assumes lib: "jwt_correct env" and c: "is_client c s"
    and p: "cm_sub p = cl_id c" "cm_role p = Some (cl_role c)" and t: "t \<le> au_now s"
  shows "accessTokenGuard env (bearer (jwt_sign env (jwt_secret env) t p ttl)) s =
    (if au_now s < t + ttl * 1000 \<and> cached s (access_key c) = cm_accessTokenId p
     then Inr \<lparr>ac_sub = cl_id c, ac_role = Some (cl_role c), ac_msisdn = cl_msisdn c\<rparr>
     else Inl (Unauthorized ''Authorization failed''), s)"
proof (cases "au_now s < t + ttl * 1000")
  case True
  then have "jwt_verify env (jwt_secret env) (au_now s) (jwt_sign env (jwt_secret env) t p ttl) = Some p"
    using jwt_verifies(1) [OF lib t] by simp
  from guard_run [OF jwt_verifies(2,3) [OF lib] this c p] show ?thesis using True by simp
next
  case False
  then have "jwt_verify env (jwt_secret env) (au_now s) (jwt_sign env (jwt_secret env) t p ttl) = None"
    using jwt_verifies(1) [OF lib t] by simp
  then show ?thesis
    using False jwt_verifies(2,3) [OF lib] by (simp add: accessTokenGuard_def bearer_token auth_run)
qed

lemma refresh_run:
  assumes ver: "jwt_verify env (jwt_secret env) (au_now s) tok = Some p"
    and c: "is_client c s" "cm_sub p = cl_id c" "cm_role p = Some (cl_role c)"
  shows "getRefreshToken env tok s =
    (if cached s (refresh_key c) = cm_refreshTokenId p
     then (Inr (issued env c s), after_issue env c (s\<lparr>cache := (cache s)(refresh_key c := None)\<rparr>))
     else (Inl (Unauthorized ''Unauthoried refreshtoken''), s))"
proof -
  have "issued env c (s\<lparr>cache := (cache s)(refresh_key c := None)\<rparr>) = issued env c s" by (simp add: issued_def)
  then show ?thesis
    using assms
    by (auto simp: getRefreshToken_def getClientAndTokenIdInfo_def validateRefreshToken_def auth_run run_client
      run_generateTokens Let_def)
qed

lemma logout_run:
  assumes ver: "jwt_verify env (jwt_secret env) (au_now s) tok = Some p"
    and c: "is_client c s" "cm_sub p = cl_id c" "cm_role p = Some (cl_role c)"
  shows "logout env tok s =
    (if cached s (refresh_key c) = cm_refreshTokenId p
     then (Inr ''successfully logout'', s\<lparr>cache := (cache s)(refresh_key c := None, access_key c := None)\<rparr>)
     else (Inl (BadRequest ''error validating refresh token''), s))"
  using assms
  by (auto simp: logout_def getClientAndTokenIdInfo_def validateRefreshToken_def auth_run run_client Let_def)

section \<open>One-time codes\<close>

lemma length_show_nat: "10 ^ k \<le> n \<Longrightarrow> n < 10 ^ Suc k \<Longrightarrow> length (show_nat n) = Suc k"
proof (induction k arbitrary: n)
  case 0
  then show ?case by (subst show_nat.simps) simp
next
  case (Suc k)
  have "(1 :: nat) \<le> 10 ^ k" by simp
  then have "\<not> n < 10" using Suc.prems(1) unfolding power_Suc by linarith
  moreover have "10 ^ k \<le> n div 10" "n div 10 < 10 ^ Suc k" using Suc.prems by auto
  ultimately show ?case using Suc.IH [of "n div 10"] by (subst show_nat.simps) simp
qed

lemma six_digits: "100000 \<le> n \<Longrightarrow> n \<le> 999999 \<Longrightarrow> length (show_nat n) = 6"
  using length_show_nat [of 5 n] by simp

lemma show_nat_digits: "\<forall>c \<in> set (show_nat n). is_digit c"
proof (induction n rule: show_nat.induct)
  case (1 n)
  have d: "is_digit (digit_char (n mod 10))" "n < 10 \<Longrightarrow> is_digit (digit_char n)"
    by (simp_all add: is_digit_def digit_val_char)
  show ?case using 1 d by (subst show_nat.simps) (auto split: if_splits)
qed

lemma fl64_greatest:
  "fl64 ((1 - 1 / 2 ^ 53) * 900000) = 900000 - 1 / 2 ^ 33"
  "fl64 (100000 + (900000 - 1 / 2 ^ 33)) = 1000000 - 1 / 2 ^ 33"
  by (simp_all add: js_eval)

lemma round64_small: "\<bar>fl64 x\<bar> < 2 ^ 1024 \<Longrightarrow> round64 x = Fin (fl64 x)"
  by (auto simp: round64_def Let_def)

lemma otp_scaled:
  assumes "0 \<le> r" and "r \<le> 1 - 1 / 2 ^ 53"
  shows "\<exists>a. otp_number (Fin r) = Fin (of_int a) \<and> 100000 \<le> a \<and> a \<le> 999999"
proof -
  define x where "x = fl64 (r * 900000)"
  define y where "y = fl64 (100000 + x)"
  have "r * 900000 \<le> (1 - 1 / 2 ^ 53) * 900000" using assms(2) by (rule mult_right_mono) simp
  then have x: "0 \<le> x" "x \<le> 900000 - 1 / 2 ^ 33"
    using fl64_mono [of "r * 900000" "(1 - 1 / 2 ^ 53) * 900000"] fl64_nonneg [of "r * 900000"] assms(1) fl64_greatest(1)
    by (simp_all add: x_def)
  then have "fl64 (100000 + x) \<le> fl64 (100000 + (900000 - 1 / 2 ^ 33))" by (intro fl64_mono) simp
  then have y: "100000 \<le> y" "y \<le> 1000000 - 1 / 2 ^ 33"
    using x fl64_mono [of 100000 "100000 + x"] fl64_int [of 100000] fl64_greatest(2) by (simp_all add: y_def)
  have "x < 2 ^ 1024" "y < 2 ^ 1024"
    by (rule le_less_trans [OF x(2)], simp) (rule le_less_trans [OF y(2)], simp)
  then have "\<bar>x\<bar> < 2 ^ 1024" "\<bar>y\<bar> < 2 ^ 1024" using x(1) y(1) by simp_all
  then have "otp_number (Fin r) = Fin (of_int \<lfloor>y\<rfloor>)"
    by (simp add: otp_number_def x_def y_def round64_small)
  moreover have "100000 \<le> \<lfloor>y\<rfloor>" using y(1) by linarith
  moreover have "y < 1000000" using y(2) by (rule le_less_trans) simp
  then have "\<lfloor>y\<rfloor> \<le> 999999" by linarith
  ultimately show ?thesis by blast
qed

text \<open>
  A one-time code is always six decimal digits: for every value \<open>Math.random()\<close> can return,
  from 0 to the largest double below 1, scaling, adding and flooring on doubles gives a number
  between 100000 and 999999, never the seven digits rounding up would give.
\<close>

theorem otp_six_digits:
  assumes "math_random env n = Fin r" and "0 \<le> r" and "r \<le> 1 - 1 / 2 ^ 53"
  shows "length (generateOtp env n) = 6 \<and> list_all is_digit (generateOtp env n)"
proof -
  obtain a where "otp_number (Fin r) = Fin (of_int a)" "100000 \<le> a" "a \<le> 999999"
    using otp_scaled assms(2,3) by blast
  then have "generateOtp env n = show_nat (nat a)" "100000 \<le> nat a" "nat a \<le> 999999"
    using assms(1) by (simp_all add: generateOtp_def integer_text_def)
  then show ?thesis using six_digits [of "nat a"] show_nat_digits [of "nat a"] by (simp add: list_all_iff)
qed

definition otp_life :: "auth_env \<Rightarrow> int \<Rightarrow> bool" where
  "otp_life env d \<longleftrightarrow> (case otp_ttl env of None \<Rightarrow> True | Some t \<Rightarrow> d < t)"

lemma run_verify:
  assumes "is_client c s"
  shows "verifyOtp env (cl_id c) (cl_role c) code s =
    (case cached s (getOtpCachedKey (cl_msisdn c)) of
       None \<Rightarrow> (Inl (Unauthorized (''Otp code not found : '' @ code)), s)
     | Some h \<Rightarrow>
         if h = [] then (Inl (Unauthorized (''Otp code not found : '' @ code)), s)
         else if \<not> bcrypt_compare env code h then (Inl (Unauthorized ''invalid otp-code''), s)
         else (Inr (issued env c s),
               after_issue env c (s\<lparr>cache := (cache s)(getOtpCachedKey (cl_msisdn c) := None)\<rparr>)))"
proof -
  have "issued env c (s\<lparr>cache := m\<rparr>) = issued env c s" for m by (simp add: issued_def)
  then show ?thesis
    using assms by (auto simp: verifyOtp_def auth_run run_client run_generateTokens Let_def split: option.split)
qed

lemma run_getOtp:
  assumes "is_client c s" and "getOtp env (cl_id c) (cl_role c) s = (res, s1)"
  shows "profiles s1 = profiles s \<and> au_now s1 = au_now s \<and> drawn s1 = Suc (Suc (drawn s)) \<and>
    otp_events s1 = otp_events s @
      [\<lparr>oe_msisdn = cl_msisdn c, oe_clientType = cl_role c, oe_otp = generateOtp env (drawn s)\<rparr>] \<and>
    cache s1 = (cache s)(getOtpCachedKey (cl_msisdn c) :=
      Some (bcrypt_hash env (Suc (drawn s)) (generateOtp env (drawn s)), map_option (\<lambda>d. au_now s + d) (otp_ttl env)))"
  using assms
  by (auto simp: getOtp_def auth_run run_client emitOtpSimulationEvent_def sendOtpQueue_add_def Let_def
      split: if_splits option.splits)


section \<open>Refreshing and logging out\<close>

text \<open>
  Refreshing rotates the tokens: while the cache still has the identifier (for
  \<open>refreshTokenTtl\<close> milliseconds) the refresh token gives new tokens, after which the old
  refresh token is refused and the old access token no longer passes the guard, while the new
  one does; once the cache has dropped it, the refresh token is refused although it has not
  expired.
\<close>

theorem refresh_rotates:
  assumes lib: "jwt_correct env" and fresh: "inj (randomUUID env)" and ttl: "0 < accessTokenTtl env"
    and c: "is_client c s" and later: "au_now s \<le> t" "t < au_now s + refreshTokenTtl env * 1000"
    and tk: "tk = issued env c s" and u: "u = at_time t (after_issue env c s)"
  shows "if t < au_now s + refreshTokenTtl env
    then \<exists>tk2 s2. getRefreshToken env (tk_refreshToken tk) u = (Inr tk2, s2) \<and>
      getRefreshToken env (tk_refreshToken tk) s2 = (Inl (Unauthorized ''Unauthoried refreshtoken''), s2) \<and>
      accessTokenGuard env (bearer (tk_accessToken tk)) s2 = (Inl (Unauthorized ''Authorization failed''), s2) \<and>
      accessTokenGuard env (bearer (tk_accessToken tk2)) s2 =
        (Inr \<lparr>ac_sub = cl_id c, ac_role = Some (cl_role c), ac_msisdn = cl_msisdn c\<rparr>, s2)
    else getRefreshToken env (tk_refreshToken tk) u = (Inl (Unauthorized ''Unauthoried refreshtoken''), u)"
proof -
  define n where "n = drawn s"
  have now: "au_now u = t" "drawn u = Suc (Suc n)" and cu: "is_client c u"
    using c by (simp_all add: u n_def)
  have ver: "jwt_verify env (jwt_secret env) t (tk_refreshToken tk) = Some (refresh_claims env c (Suc n))"
    using jwt_verifies(1) [OF lib] later by (simp add: tk issued_def n_def)
  have run: "getRefreshToken env (tk_refreshToken tk) w =
    (if cached w (refresh_key c) = Some (randomUUID env (Suc n))
     then (Inr (issued env c w), after_issue env c (w\<lparr>cache := (cache w)(refresh_key c := None)\<rparr>))
     else (Inl (Unauthorized ''Unauthoried refreshtoken''), w))" if w: "au_now w = t" "is_client c w" for w
    using refresh_run [of env w "tk_refreshToken tk" "refresh_claims env c (Suc n)" c] ver w
    by (simp add: refresh_claims_def)
  have cu_refresh: "cached u (refresh_key c) = (if t < au_now s + refreshTokenTtl env then Some (randomUUID env (Suc n)) else None)"
    using cached_issue(2) [of t env c s] by (simp add: u n_def)
  show ?thesis
  proof (cases "t < au_now s + refreshTokenTtl env")
    case False
    then show ?thesis using run [OF now(1) cu] cu_refresh by simp
  next
    case True
    define v where "v = u\<lparr>cache := (cache u)(refresh_key c := None)\<rparr>"
    define s2 where "s2 = after_issue env c v"
    have v: "au_now v = t" "drawn v = Suc (Suc n)" "is_client c v" using now cu by (simp_all add: v_def is_client_def)
    have s2: "au_now s2 = t" "is_client c s2" using v by (simp_all add: s2_def)
    have life: "0 < refreshTokenTtl env" using True later by linarith
    have c2: "cached s2 (refresh_key c) = Some (randomUUID env (Suc (Suc (Suc n))))"
      "cached s2 (access_key c) = Some (randomUUID env (Suc (Suc n)))"
      using life ttl v by (simp_all add: s2_def cached_def after_issue_def)
    have new: "randomUUID env (Suc (Suc (Suc n))) \<noteq> randomUUID env (Suc n)" "randomUUID env (Suc (Suc n)) \<noteq> randomUUID env n"
      using fresh by (simp_all add: inj_eq)
    have first: "getRefreshToken env (tk_refreshToken tk) u = (Inr (issued env c u), s2)"
      using run [OF now(1) cu] cu_refresh True by (simp add: s2_def v_def)
    have again: "getRefreshToken env (tk_refreshToken tk) s2 = (Inl (Unauthorized ''Unauthoried refreshtoken''), s2)"
      using run [OF s2] c2 new by simp
    have old: "accessTokenGuard env (bearer (tk_accessToken tk)) s2 = (Inl (Unauthorized ''Authorization failed''), s2)"
      using guard_issued [OF lib s2(2), of "access_claims env c n" "au_now s" "accessTokenTtl env"] s2(1) later c2(2) new(2)
      by (simp add: tk issued_def n_def access_claims_def split: if_splits)
    have fine: "accessTokenGuard env (bearer (tk_accessToken (issued env c u))) s2 =
        (Inr \<lparr>ac_sub = cl_id c, ac_role = Some (cl_role c), ac_msisdn = cl_msisdn c\<rparr>, s2)"
      using guard_issued [OF lib s2(2), of "access_claims env c (Suc (Suc n))" t "accessTokenTtl env"] s2(1) now c2(2) ttl
      by (simp add: issued_def access_claims_def)
    show ?thesis using True first again old fine by auto
  qed
qed

lemma logout_issued:
  assumes lib: "jwt_correct env" and c: "is_client c s" and later: "au_now s \<le> t" "t < au_now s + refreshTokenTtl env"
    and ttl: "0 < refreshTokenTtl env" and u: "u = at_time t (after_issue env c s)"
  shows "\<exists>s2. logout env (tk_refreshToken (issued env c s)) u = (Inr ''successfully logout'', s2) \<and>
    au_now s2 = t \<and> is_client c s2 \<and> cached s2 (refresh_key c) = None \<and> cached s2 (access_key c) = None"
proof -
  have "t < au_now s + refreshTokenTtl env * 1000" using later ttl by linarith
  then have ver: "jwt_verify env (jwt_secret env) (au_now u) (tk_refreshToken (issued env c s)) =
      Some (refresh_claims env c (Suc (drawn s)))"
    using jwt_verifies(1) [OF lib] later by (simp add: u issued_def)
  have hit: "cached u (refresh_key c) = Some (randomUUID env (Suc (drawn s)))"
    using cached_issue(2) [of t env c s] later by (simp add: u)
  have cu: "is_client c u" using c by (simp add: u)
  show ?thesis
    using logout_run [OF ver cu] hit cu
    by (simp add: refresh_claims_def cached_def is_client_def) (simp add: u)
qed

text \<open>
  What a logout ends: with the refresh token the logout succeeds while the cache has its
  identifier, and from then on the access token no longer passes the guard and the refresh
  token gives no new tokens.
\<close>

theorem logout_ends:
  assumes lib: "jwt_correct env" and c: "is_client c s" and later: "au_now s \<le> t" "t < au_now s + refreshTokenTtl env"
    and ttl: "0 < refreshTokenTtl env"
    and tk: "tk = issued env c s" and u: "u = at_time t (after_issue env c s)"
  shows "\<exists>s2. logout env (tk_refreshToken tk) u = (Inr ''successfully logout'', s2) \<and>
    accessTokenGuard env (bearer (tk_accessToken tk)) s2 = (Inl (Unauthorized ''Authorization failed''), s2) \<and>
    getRefreshToken env (tk_refreshToken tk) s2 = (Inl (Unauthorized ''Unauthoried refreshtoken''), s2)"
proof -
  obtain s2 where s2: "logout env (tk_refreshToken (issued env c s)) u = (Inr ''successfully logout'', s2)"
      "au_now s2 = t" "is_client c s2" "cached s2 (refresh_key c) = None" "cached s2 (access_key c) = None"
    using logout_issued [OF lib c later ttl u] by blast
  have "t < au_now s + refreshTokenTtl env * 1000" using later ttl by linarith
  then have ver: "jwt_verify env (jwt_secret env) (au_now s2) (tk_refreshToken tk) = Some (refresh_claims env c (Suc (drawn s)))"
    using jwt_verifies(1) [OF lib] later s2(2) by (simp add: tk issued_def)
  have "accessTokenGuard env (bearer (tk_accessToken tk)) s2 = (Inl (Unauthorized ''Authorization failed''), s2)"
    using guard_issued [OF lib s2(3), of "access_claims env c (drawn s)" "au_now s" "accessTokenTtl env"] later s2
    by (simp add: tk issued_def access_claims_def)
  moreover have "getRefreshToken env (tk_refreshToken tk) s2 = (Inl (Unauthorized ''Unauthoried refreshtoken''), s2)"
    using refresh_run [OF ver s2(3)] s2(4) by (simp add: refresh_claims_def)
  ultimately show ?thesis using s2(1) tk by blast
qed

text \<open>
  What a logout leaves open: an identifier that is missing in the cache equals one that is
  missing in the token. After the logout the refresh token, which names no access identifier,
  passes the guard of every endpoint as a bearer token, and the access token, which names no
  refresh identifier, is accepted as a refresh token and gives new tokens.
\<close>

theorem logout_leaves_open:
  assumes lib: "jwt_correct env" and c: "is_client c s" and later: "au_now s \<le> t" "t < au_now s + refreshTokenTtl env"
    and ttl: "0 < refreshTokenTtl env" "t < au_now s + accessTokenTtl env * 1000"
    and tk: "tk = issued env c s" and u: "u = at_time t (after_issue env c s)"
    and out: "logout env (tk_refreshToken tk) u = (res, s2)"
  shows "accessTokenGuard env (bearer (tk_refreshToken tk)) s2 =
      (Inr \<lparr>ac_sub = cl_id c, ac_role = Some (cl_role c), ac_msisdn = cl_msisdn c\<rparr>, s2) \<and>
    (\<exists>tk2 s3. getRefreshToken env (tk_accessToken tk) s2 = (Inr tk2, s3))"
proof -
  have s2: "au_now s2 = t" "is_client c s2" "cached s2 (refresh_key c) = None" "cached s2 (access_key c) = None"
    using logout_issued [OF lib c later ttl(1) u] out tk by auto
  have "t < au_now s + refreshTokenTtl env * 1000" using later ttl by linarith
  then have guard: "accessTokenGuard env (bearer (tk_refreshToken tk)) s2 =
      (Inr \<lparr>ac_sub = cl_id c, ac_role = Some (cl_role c), ac_msisdn = cl_msisdn c\<rparr>, s2)"
    using guard_issued [OF lib s2(2), of "refresh_claims env c (Suc (drawn s))" "au_now s" "refreshTokenTtl env"] later s2
    by (simp add: tk issued_def refresh_claims_def)
  have ver: "jwt_verify env (jwt_secret env) (au_now s2) (tk_accessToken tk) = Some (access_claims env c (drawn s))"
    using jwt_verifies(1) [OF lib] later s2(1) ttl by (simp add: tk issued_def)
  show ?thesis using guard refresh_run [OF ver s2(2)] s2(3) by (simp add: access_claims_def)
qed

section \<open>A concrete environment\<close>

text \<open>
  Tokens for the witnesses: the numbers of the secret, the expiry time and the claims,
  separated by dots.
\<close>

definition put_text :: "string \<Rightarrow> nat list" where
  "put_text w = length w # map of_char w"

fun take_text :: "nat list \<Rightarrow> string \<times> nat list" where
  "take_text [] = ([], [])"
| "take_text (n # ns) = (map char_of (take n ns), drop n ns)"

definition put_option :: "string option \<Rightarrow> nat list" where
  "put_option w = (case w of None \<Rightarrow> [0] | Some v \<Rightarrow> 1 # put_text v)"

fun take_option :: "nat list \<Rightarrow> string option \<times> nat list" where
  "take_option [] = (None, [])"
| "take_option (n # ns) = (if n = 0 then (None, ns) else case take_text ns of (w, rest) \<Rightarrow> (Some w, rest))"

definition put_claims :: "string \<Rightarrow> int \<Rightarrow> claims \<Rightarrow> nat list" where
  "put_claims secret expiry p =
     (if expiry < 0 then 1 else 0) # nat \<bar>expiry\<bar> #
     (case cm_role p of None \<Rightarrow> 0 | Some RIDER \<Rightarrow> 1 | Some DRIVER \<Rightarrow> 2) #
     put_text secret @ put_text (cm_sub p) @ put_option (cm_accessTokenId p) @ put_option (cm_refreshTokenId p)"

definition demo_sign :: "string \<Rightarrow> int \<Rightarrow> claims \<Rightarrow> int \<Rightarrow> string" where
  "demo_sign secret t p ttl = join_with (CHR ''.'') (map show_nat (put_claims secret (t + ttl * 1000) p))"

definition demo_verify :: "string \<Rightarrow> int \<Rightarrow> string \<Rightarrow> claims option" where
  "demo_verify secret u tok =
     (case map (\<lambda>w. case read_nat w of None \<Rightarrow> 0 | Some n \<Rightarrow> n) (split_on (CHR ''.'') tok) of
        neg # mag # role # ns \<Rightarrow>
          (case take_text ns of (sec, ns1) \<Rightarrow> case take_text ns1 of (sub, ns2) \<Rightarrow>
           case take_option ns2 of (acc, ns3) \<Rightarrow> case take_option ns3 of (ref, _) \<Rightarrow>
             if sec = secret \<and> u < (if neg = 1 then - int mag else int mag)
             then Some \<lparr>cm_sub = sub, cm_role = (if role = 0 then None else if role = 1 then Some RIDER else Some DRIVER),
                        cm_accessTokenId = acc, cm_refreshTokenId = ref\<rparr>
             else None)
      | _ \<Rightarrow> None)"

lemma take_put_text: "take_text (put_text w @ ns) = (w, ns)"
  by (simp add: put_text_def o_def)

lemma take_put_option: "take_option (put_option w @ ns) = (w, ns)"
  by (cases w) (simp_all add: put_option_def take_put_text)

lemma show_nat_plain: "\<not> is_digit c \<Longrightarrow> c \<notin> set (show_nat n)"
  using show_nat_digits [of n] by blast

lemma not_digits: "\<not> is_digit (CHR ''.'')" "\<not> is_digit (CHR '' '')"
  by (simp_all add: is_digit_def digit_val_def)

lemma read_joined:
  assumes "ns \<noteq> []"
  shows "map (\<lambda>w. case read_nat w of None \<Rightarrow> 0 | Some n \<Rightarrow> n) (split_on (CHR ''.'') (join_with (CHR ''.'') (map show_nat ns))) = ns"
proof -
  have "split_on (CHR ''.'') (join_with (CHR ''.'') (map show_nat ns)) = map show_nat ns"
    using assms by (intro split_join) (auto simp: show_nat_plain not_digits)
  then show ?thesis by (simp add: o_def)
qed

lemma demo_verify_sign:
  "demo_verify secret u (demo_sign secret t p ttl) = (if u < t + ttl * 1000 then Some p else None)"
proof -
  have ne: "put_claims secret e p \<noteq> []" for e by (simp add: put_claims_def)
  have read: "map (\<lambda>w. case read_nat w of None \<Rightarrow> 0 | Some n \<Rightarrow> n) (split_on (CHR ''.'') (demo_sign secret t p ttl)) =
      put_claims secret (t + ttl * 1000) p"
    unfolding demo_sign_def by (rule read_joined [OF ne])
  have last: "take_option (put_option w) = (w, [])" for w using take_put_option [of w "[]"] by simp
  have role: "(if n = 0 then None else if n = 1 then Some RIDER else Some DRIVER) = cm_role p"
    if "n = (case cm_role p of None \<Rightarrow> 0 | Some RIDER \<Rightarrow> 1 | Some DRIVER \<Rightarrow> (2 :: nat))" for n
    using that by (auto split: option.splits client_type.splits)
  show ?thesis
    unfolding demo_verify_def read put_claims_def
    by (simp add: take_put_text take_put_option last role [OF refl])
qed

lemma join_plain: "c \<noteq> sep \<Longrightarrow> \<forall>w \<in> set ws. c \<notin> set w \<Longrightarrow> c \<notin> set (join_with sep ws)"
  by (induction sep ws rule: join_with.induct) auto

definition demo_auth :: auth_env where
  "demo_auth = \<lparr>jwt_secret = ''s'', accessTokenTtl = 3600, refreshTokenTtl = 604800, otp_ttl = Some 180000,
     skip_sms_notif = Some ''false'', sms_service_url = None,
     bcrypt_hash = (\<lambda>_ x. CHR ''h'' # x), bcrypt_compare = (\<lambda>x h. h = CHR ''h'' # x),
     jwt_sign = demo_sign, jwt_verify = demo_verify, randomUUID = show_nat, math_random = (\<lambda>_. Fin (1 / 2)),
     otp_queue_error = None\<rparr>"

lemma demo_jwt: "jwt_correct demo_auth"
proof -
  have "demo_sign secret t p ttl \<noteq> []" for secret t p ttl
    by (simp add: demo_sign_def put_claims_def)
  moreover have "CHR '' '' \<notin> set (demo_sign secret t p ttl)" for secret t p ttl
    unfolding demo_sign_def by (rule join_plain) (auto simp: show_nat_plain not_digits)
  ultimately show ?thesis by (simp add: jwt_correct_def demo_auth_def demo_verify_sign)
qed

lemma demo_bcrypt: "bcrypt_correct demo_auth"
  by (auto simp: bcrypt_correct_def demo_auth_def)

definition demo_client :: client_row where
  "demo_client = \<lparr>cl_id = ''7'', cl_msisdn = ''+62811'', cl_role = RIDER\<rparr>"

definition demo_rider :: rider_profile where
  "demo_rider = \<lparr>rp_id = ''7'', rp_msisdn = ''+62811'', rp_name = None, rp_role = RIDER, rp_status = ACTIVE,
     rp_createdAt = 0, rp_updatedAt = 0, rp_deletedAt = None\<rparr>"

definition demo_signed_up :: auth_world where
  "demo_signed_up = \<lparr>profiles = \<lparr>riders = [demo_rider], drivers = [], riderSeq = 8, driverSeq = 1, advisory = [], db_now = 0\<rparr>,
     cache = (\<lambda>_. None), au_now = 0, otp_jobs = [], otp_events = [], drawn = 0\<rparr>"

lemma demo_is_client: "is_client demo_client demo_signed_up"
  by (simp add: is_client_def demo_client_def demo_signed_up_def demo_rider_def lookup_client_def findRiderbyId_def rider_row_def)

section \<open>The guarantees on the concrete environment\<close>

theorem otp_six_digits_witness:
  "length (generateOtp demo_auth 0) = 6 \<and> list_all is_digit (generateOtp demo_auth 0)"
  by (rule otp_six_digits [of _ _ "1 / 2"]) (simp_all add: demo_auth_def)


lemma demo_conf:
  "0 < accessTokenTtl demo_auth" "0 < refreshTokenTtl demo_auth" "inj (randomUUID demo_auth)"
  "au_now demo_signed_up \<le> 5" "5 < au_now demo_signed_up + refreshTokenTtl demo_auth"
  "5 < au_now demo_signed_up + refreshTokenTtl demo_auth * 1000"
  "5 < au_now demo_signed_up + accessTokenTtl demo_auth * 1000"
  by (simp_all add: demo_auth_def demo_signed_up_def inj_def)

abbreviation demo_issued :: auth_world where
  "demo_issued \<equiv> at_time 5 (after_issue demo_auth demo_client demo_signed_up)"

theorem refresh_rotates_witness:
  "\<exists>tk2 s2. getRefreshToken demo_auth (tk_refreshToken (issued demo_auth demo_client demo_signed_up)) demo_issued =
     (Inr tk2, s2)"
  using refresh_rotates [OF demo_jwt demo_conf(3,1) demo_is_client demo_conf(4,6) refl refl] demo_conf(5) by auto

theorem logout_ends_witness:
  "\<exists>s2. logout demo_auth (tk_refreshToken (issued demo_auth demo_client demo_signed_up)) demo_issued =
     (Inr ''successfully logout'', s2)"
  using logout_ends [OF demo_jwt demo_is_client demo_conf(4,5,2) refl refl] by blast

theorem logout_leaves_open_witness:
  "\<exists>s2 c. snd (logout demo_auth (tk_refreshToken (issued demo_auth demo_client demo_signed_up)) demo_issued) = s2 \<and>
     accessTokenGuard demo_auth (bearer (tk_refreshToken (issued demo_auth demo_client demo_signed_up))) s2 = (Inr c, s2)"
proof (cases "logout demo_auth (tk_refreshToken (issued demo_auth demo_client demo_signed_up)) demo_issued")
  case (Pair res s2)
  from logout_leaves_open [OF demo_jwt demo_is_client demo_conf(4,5,2,7) refl refl this]
  show ?thesis unfolding Pair by auto
qed

section \<open>Asking for a code again\<close>

text \<open>
  Asking again while the first message is still in the queue (waiting, or kept after it
  failed): the new code replaces the old one in the cache, but the queue keeps the job with
  the old code under the same id, so the only message that is, or ever will be, sent for the
  number carries a code that no longer opens a session.
\<close>

theorem second_code_not_sent:
  assumes lib: "bcrypt_correct env" and c: "is_client c s" and sms: "\<not> truthy (skip_sms_notif env)" "otp_queue_error env = None"
    and first: "getOtp env (cl_id c) (cl_role c) s = (Inr m1, s1)"
    and second: "getOtp env (cl_id c) (cl_role c) s1 = (Inr m2, s2)"
    and drawn: "generateOtp env (drawn s) \<noteq> generateOtp env (drawn s1)"
    and none: "\<forall>j \<in> set (otp_jobs s). oj_id j \<noteq> ''send-otp-'' @ cl_msisdn c @ CHR ''-'' # client_type_text (cl_role c)"
    and live: "otp_life env 0"
  shows "\<exists>job. otp_jobs s2 = otp_jobs s @ [job] \<and> oj_msisdn job = cl_msisdn c \<and>
    fst (verifyOtp env (cl_id c) (cl_role c) (oj_otp job) s2) = Inl (Unauthorized ''invalid otp-code'')"
proof -
  define jid where "jid = ''send-otp-'' @ cl_msisdn c @ CHR ''-'' # client_type_text (cl_role c)"
  define job where "job = \<lparr>oj_id = jid, oj_msisdn = cl_msisdn c, oj_otp = generateOtp env (drawn s)\<rparr>"
  have c1: "is_client c s1" using run_getOtp [OF c first] c by (simp add: is_client_def)
  have c2: "is_client c s2" using run_getOtp [OF c1 second] c1 by (simp add: is_client_def)
  have q1: "otp_jobs s1 = otp_jobs s @ [job]"
    using first sms none run_client [OF c]
    by (auto simp: getOtp_def auth_run emitOtpSimulationEvent_def sendOtpQueue_add_def Let_def jid_def job_def split: if_splits)
  then have "\<exists>j \<in> set (otp_jobs s1). oj_id j = jid" by (simp add: job_def)
  then have q2: "otp_jobs s2 = otp_jobs s1"
    using second sms run_client [OF c1]
    by (auto simp: getOtp_def auth_run emitOtpSimulationEvent_def sendOtpQueue_add_def Let_def jid_def split: if_splits)
  have "cached s2 (getOtpCachedKey (cl_msisdn c)) = Some (bcrypt_hash env (Suc (drawn s1)) (generateOtp env (drawn s1)))"
    using run_getOtp [OF c1 second] live by (cases "otp_ttl env") (simp_all add: cached_def otp_life_def)
  then have "fst (verifyOtp env (cl_id c) (cl_role c) (oj_otp job) s2) = Inl (Unauthorized ''invalid otp-code'')"
    using run_verify [OF c2] lib drawn by (simp add: bcrypt_correct_def job_def)
  then show ?thesis using q1 q2 by (intro exI [of _ job]) (simp add: job_def)
qed

definition demo_sms :: auth_env where
  "demo_sms = demo_auth\<lparr>skip_sms_notif := None, math_random := (\<lambda>n. if n = 0 then Fin 0 else Fin (1 / 2))\<rparr>"

theorem second_code_not_sent_witness:
  "\<exists>job. otp_jobs (snd (getOtp demo_sms ''7'' RIDER (snd (getOtp demo_sms ''7'' RIDER demo_signed_up)))) = [job]"
proof -
  have id: "cl_id demo_client = ''7''" "cl_role demo_client = RIDER" by (simp_all add: demo_client_def)
  have lib: "bcrypt_correct demo_sms" using demo_bcrypt by (simp add: bcrypt_correct_def demo_sms_def)
  have conf: "\<not> truthy (skip_sms_notif demo_sms)" "otp_queue_error demo_sms = None" "otp_life demo_sms 0"
    by (simp_all add: demo_sms_def demo_auth_def otp_life_def)
  have run: "\<exists>m s'. getOtp demo_sms (cl_id demo_client) (cl_role demo_client) s = (Inr m, s')" if "is_client demo_client s" for s
    using run_client [OF that] conf
    by (simp add: getOtp_def auth_run emitOtpSimulationEvent_def sendOtpQueue_add_def Let_def)
  obtain m1 s1 where first: "getOtp demo_sms (cl_id demo_client) (cl_role demo_client) demo_signed_up = (Inr m1, s1)"
    using run [OF demo_is_client] by blast
  have s1: "is_client demo_client s1" "drawn s1 = 2"
    using run_getOtp [OF demo_is_client first] demo_is_client by (simp_all add: is_client_def demo_signed_up_def)
  obtain m2 s2 where second: "getOtp demo_sms (cl_id demo_client) (cl_role demo_client) s1 = (Inr m2, s2)"
    using run [OF s1(1)] by blast
  have drawn: "generateOtp demo_sms (drawn demo_signed_up) \<noteq> generateOtp demo_sms (drawn s1)"
    by (simp add: s1(2)) (simp add: demo_signed_up_def generateOtp_def demo_sms_def otp_number_def integer_text_def js_simps)
  have none: "\<forall>j \<in> set (otp_jobs demo_signed_up). oj_id j \<noteq>
      ''send-otp-'' @ cl_msisdn demo_client @ CHR ''-'' # client_type_text (cl_role demo_client)"
    by (simp add: demo_signed_up_def)
  from second_code_not_sent [OF lib demo_is_client conf(1,2) first second drawn none conf(3)]
  show ?thesis using first second unfolding id by (auto simp: demo_signed_up_def)
qed

end
