(* ===== verification/Geolocation.thy ===== *)
theory Geolocation
  imports Ride_Repositories
begin

text \<open>
  Driver locations: the repository over Redis
  (\<open>location/domain/services/geolocation.repository.ts\<close>), the service in front of it
  (\<open>location.service.ts\<close>), the worker that stores updates (\<open>location.processor.ts\<close>) and the
  maintenance job that drops idle drivers (\<open>maintenance.processor.ts\<close>,
  \<open>maintenance-scheduler.service.ts\<close>).

  The Redis keys are parts of the state: the geo set, the hash per driver with its expiry,
  the metadata hash, and the sorted set of last activity, as a list of members with scores.
  Outside the repository: what GEORADIUS replies for a geo set, and the answer of the queue.
  A value written with \<open>String(x)\<close> is kept as the number \<open>x\<close>.
\<close>

section \<open>State\<close>

record driver_location_input =
  dl_longitude :: jsnum
  dl_latitude :: jsnum
  dl_accuracyMeters :: "jsnum option"

record driver_location_entry =
  de_longitude :: jsnum
  de_latitude :: jsnum
  de_accuracyMeters :: "jsnum option"
  de_updatedAt :: string

record location_hash =
  lh_longitude :: jsnum
  lh_latitude :: jsnum
  lh_accuracyMeters :: jsnum
  lh_updatedAt :: string

datatype metadata_text = EntryJson driver_location_entry | NotJson string

record geo_world =
  drivers_geo :: "string \<Rightarrow> (jsnum \<times> jsnum) option"
  driver_loc :: "string \<Rightarrow> (location_hash \<times> int) option"
  drivers_metadata :: "string \<Rightarrow> metadata_text option"
  drivers_active :: "(string \<times> int) list"
  loc_updates :: "(string \<times> driver_location_entry) list"
  geo_now :: int

definition threshold_driver_idle_ms :: int where
  "threshold_driver_idle_ms = 5 * 60 * 1000"

definition cleanup_driver_idle_loc_batch :: nat where
  "cleanup_driver_idle_loc_batch = 1000"

text \<open>The constructor's reading of DRIVER_LOCATION_TTL_SECONDS.\<close>

definition driverLocationTtlSeconds :: "jsnum \<Rightarrow> jsnum" where
  "driverLocationTtlSeconds parsedTtl =
     (if is_finite parsedTtl \<and> js_lt (Fin 0) parsedTtl then js_max (Fin 180) (js_floor parsedTtl) else Fin 300)"

section \<open>Storing a location\<close>

definition zadd :: "string \<Rightarrow> int \<Rightarrow> (string \<times> int) list \<Rightarrow> (string \<times> int) list" where
  "zadd k score z = (k, score) # filter (\<lambda>p. fst p \<noteq> k) z"

definition storeDriverLocation ::
  "jsnum \<Rightarrow> (int \<Rightarrow> string) \<Rightarrow> string \<Rightarrow> driver_location_input \<Rightarrow> string option \<Rightarrow> geo_world \<Rightarrow> geo_world" where
  "storeDriverLocation ttl toISOString driver loc eventTimestamp s =
     (let timestamp = (case eventTimestamp of None \<Rightarrow> toISOString (geo_now s) | Some t \<Rightarrow> t);
          entry = \<lparr>de_longitude = dl_longitude loc, de_latitude = dl_latitude loc,
                   de_accuracyMeters = dl_accuracyMeters loc, de_updatedAt = timestamp\<rparr>;
          hash = \<lparr>lh_longitude = dl_longitude loc, lh_latitude = dl_latitude loc,
                  lh_accuracyMeters = (case dl_accuracyMeters loc of None \<Rightarrow> Fin 0 | Some a \<Rightarrow> a),
                  lh_updatedAt = timestamp\<rparr>;
          expiry = geo_now s + 1000 * (case ttl of Fin x \<Rightarrow> \<lfloor>x\<rfloor> | _ \<Rightarrow> 0)
      in s\<lparr>drivers_geo := (drivers_geo s)(driver := Some (dl_longitude loc, dl_latitude loc)),
           driver_loc := (driver_loc s)(driver := Some (hash, expiry)),
           drivers_metadata := (drivers_metadata s)(driver := Some (EntryJson entry)),
           drivers_active := zadd driver (geo_now s) (drivers_active s),
           loc_updates := loc_updates s @ [(driver, entry)]\<rparr>)"

section \<open>Finding nearby drivers\<close>

text \<open>
  An element of GEORADIUS's reply: not an array starting with a text, an array of fewer than
  three elements, or identifier, distance and coordinates, whose texts are read as numbers.
\<close>

datatype raw_entry =
    BadEntry
  | ShortEntry string
  | RawEntry string string "(string \<times> string) option"

type_synonym georadius = "(string \<Rightarrow> (jsnum \<times> jsnum) option) \<Rightarrow> jsnum \<Rightarrow> jsnum \<Rightarrow> jsnum \<Rightarrow> jsnum \<Rightarrow> raw_entry list"

record geo_result =
  gr_driverId :: string
  gr_distanceMeters :: jsnum
  gr_longitude :: jsnum
  gr_latitude :: jsnum
  gr_metadata :: "(jsnum option \<times> string) option"

fun entry_id :: "raw_entry \<Rightarrow> string option" where
  "entry_id BadEntry = None"
| "entry_id (ShortEntry k) = Some k"
| "entry_id (RawEntry k d c) = Some k"

definition zmscore :: "(string \<times> int) list \<Rightarrow> string \<Rightarrow> int option" where
  "zmscore z k = map_of z k"

fun mapGeoradiusEntry ::
  "(string \<Rightarrow> (jsnum option \<times> string) option) \<Rightarrow> string list \<Rightarrow> raw_entry \<Rightarrow> geo_result option" where
  "mapGeoradiusEntry metadataMap activeDriverSet BadEntry = None"
| "mapGeoradiusEntry metadataMap activeDriverSet (ShortEntry k) = None"
| "mapGeoradiusEntry metadataMap activeDriverSet (RawEntry k distanceRaw coordinatesRaw) =
     (if k \<notin> set activeDriverSet then None
      else let (lon0, lat0) =
                 (case coordinatesRaw of None \<Rightarrow> (NaN, NaN)
                  | Some (lon, lat) \<Rightarrow> (number_of_string lon, number_of_string lat));
               distanceMeters = number_of_string distanceRaw
           in if \<not> is_finite lon0 \<or> \<not> is_finite lat0 then None
              else Some \<lparr>gr_driverId = k,
                gr_distanceMeters = (if is_finite distanceMeters then distanceMeters else Fin 0),
                gr_longitude = lon0, gr_latitude = lat0, gr_metadata = metadataMap k\<rparr>)"

definition active_ids :: "geo_world \<Rightarrow> string list \<Rightarrow> string list" where
  "active_ids s driverIds =
     filter (\<lambda>k. case zmscore (drivers_active s) k of
                   None \<Rightarrow> False | Some score \<Rightarrow> \<not> score < geo_now s - threshold_driver_idle_ms) driverIds"

definition metadata_map :: "geo_world \<Rightarrow> string list \<Rightarrow> string \<Rightarrow> (jsnum option \<times> string) option" where
  "metadata_map s activeDriverIds k =
     (if k \<in> set activeDriverIds
      then (case drivers_metadata s k of
              Some (EntryJson e) \<Rightarrow> Some (de_accuracyMeters e, de_updatedAt e) | _ \<Rightarrow> None)
      else None)"

definition repo_getNearbyDrivers ::
  "georadius \<Rightarrow> jsnum \<Rightarrow> jsnum \<Rightarrow> jsnum \<Rightarrow> jsnum \<Rightarrow> geo_world \<Rightarrow> geo_result list" where
  "repo_getNearbyDrivers search lon0 lat0 radiusMeters limit s =
     (let rawResults = search (drivers_geo s) lon0 lat0 radiusMeters limit
      in if rawResults = [] then []
         else let driverIds = List.map_filter entry_id rawResults;
                  activeDriverIds = active_ids s driverIds
              in if activeDriverIds = [] then []
                 else List.map_filter
                   (mapGeoradiusEntry (metadata_map s activeDriverIds) activeDriverIds) rawResults)"

section \<open>LocationService\<close>

definition searchRadiusMeters :: "jsnum \<Rightarrow> jsnum" where
  "searchRadiusMeters parsedRadius =
     (if is_finite parsedRadius \<and> js_lt (Fin 0) parsedRadius then parsedRadius else Fin 3000)"

record found_driver =
  fn_driverId :: string
  fn_distanceMeters :: jsnum
  fn_accuracyMeters :: "jsnum option"
  fn_updatedAt :: "string option"

definition getNearbyDrivers ::
  "georadius \<Rightarrow> jsnum \<Rightarrow> jsnum \<Rightarrow> jsnum \<Rightarrow> jsnum option \<Rightarrow> geo_world \<Rightarrow> found_driver list" where
  "getNearbyDrivers search radius lon0 lat0 limit s =
     map (\<lambda>r. \<lparr>fn_driverId = gr_driverId r, fn_distanceMeters = gr_distanceMeters r,
               fn_accuracyMeters = (case gr_metadata r of None \<Rightarrow> None | Some (a, _) \<Rightarrow> a),
               fn_updatedAt = map_option snd (gr_metadata r)\<rparr>)
       (repo_getNearbyDrivers search lon0 lat0 radius (case limit of None \<Rightarrow> Fin 10 | Some n \<Rightarrow> n) s)"

text \<open>
  Queueing an update. The queue may refuse with an error, described by its name and message;
  an error that says the job exists is swallowed when that job is running.
\<close>

record queue_error =
  qe_isObject :: bool
  qe_name :: string
  qe_message :: string

record location_job =
  lj_id :: string
  lj_driverId :: string
  lj_location :: driver_location_input
  lj_eventTimestamp :: string

fun prefix_of :: "string \<Rightarrow> string \<Rightarrow> bool" where
  "prefix_of [] cs = True"
| "prefix_of (p # ps) [] = False"
| "prefix_of (p # ps) (c # cs) = (p = c \<and> prefix_of ps cs)"

fun contains_text :: "string \<Rightarrow> string \<Rightarrow> bool" where
  "contains_text w [] = (w = [])"
| "contains_text w (c # cs) = (prefix_of w (c # cs) \<or> contains_text w cs)"

definition isJobIdAlreadyExistsError :: "queue_error \<Rightarrow> bool" where
  "isJobIdAlreadyExistsError e \<longleftrightarrow>
     qe_isObject e \<and> (qe_name e = ''JobIdAlreadyExistsError'' \<or> contains_text ''JobIdAlreadyExists'' (qe_message e))"

text \<open>The answer of \<open>add\<close>, the state of the existing job, and the queued jobs (a known id is ignored).\<close>

definition upsertDriverLocation ::
  "(int \<Rightarrow> string) \<Rightarrow> (location_job \<Rightarrow> queue_error option) \<Rightarrow> (string \<Rightarrow> string option) \<Rightarrow> string \<Rightarrow>
    driver_location_input \<Rightarrow> int \<Rightarrow> location_job list \<Rightarrow> (queue_error + driver_location_entry) \<times> location_job list" where
  "upsertDriverLocation toISOString add_error job_state driver loc now queue =
     (let eventTimestamp = toISOString now;
          entry = \<lparr>de_longitude = dl_longitude loc, de_latitude = dl_latitude loc,
                   de_accuracyMeters = dl_accuracyMeters loc, de_updatedAt = eventTimestamp\<rparr>;
          jobId = ''driver-'' @ driver;
          job = \<lparr>lj_id = jobId, lj_driverId = driver, lj_location = loc, lj_eventTimestamp = eventTimestamp\<rparr>
      in case add_error job of
           None \<Rightarrow> (Inr entry, if \<exists>j \<in> set queue. lj_id j = jobId then queue else queue @ [job])
         | Some e \<Rightarrow>
             if isJobIdAlreadyExistsError e \<and> job_state jobId = Some ''active'' then (Inr entry, queue)
             else (Inl e, queue))"

section \<open>Workers\<close>

text \<open>One job of the location queue, by its name.\<close>

definition process_location ::
  "jsnum \<Rightarrow> (int \<Rightarrow> string) \<Rightarrow> string \<Rightarrow> location_job \<Rightarrow> geo_world \<Rightarrow> geo_world" where
  "process_location ttl toISOString name job s =
     (if name = ''upsert-driver-location''
      then storeDriverLocation ttl toISOString (lj_driverId job) (lj_location job) (Some (lj_eventTimestamp job)) s
      else s)"

text \<open>\<open>ZRANGEBYSCORE 0 cutoff LIMIT 0 n\<close>: the first \<open>n\<close> members in the order of their scores.\<close>

definition idle :: "int \<Rightarrow> (string \<times> int) \<Rightarrow> bool" where
  "idle cutoff p \<longleftrightarrow> 0 \<le> snd p \<and> snd p \<le> cutoff"

definition stale_ids :: "nat \<Rightarrow> int \<Rightarrow> (string \<times> int) list \<Rightarrow> string list" where
  "stale_ids n cutoff z = take n (map fst (sort_key snd (filter (idle cutoff) z)))"

text \<open>The transaction that removes the given drivers from every key.\<close>

definition remove_drivers :: "string list \<Rightarrow> geo_world \<Rightarrow> geo_world" where
  "remove_drivers ids s =
     s\<lparr>drivers_active := filter (\<lambda>p. fst p \<notin> set ids) (drivers_active s),
       drivers_geo := (\<lambda>k. if k \<in> set ids then None else drivers_geo s k),
       driver_loc := (\<lambda>k. if k \<in> set ids then None else driver_loc s k),
       drivers_metadata := (\<lambda>k. if k \<in> set ids then None else drivers_metadata s k)\<rparr>"

lemma stale_ids_subset: "set (stale_ids n cutoff z) \<subseteq> fst ` set (filter (idle cutoff) z)"
  unfolding stale_ids_def by (auto dest!: in_set_takeD)

lemma remove_shrinks:
  assumes "stale_ids n cutoff (drivers_active s) \<noteq> []"
  shows "length (filter (idle cutoff) (drivers_active (remove_drivers (stale_ids n cutoff (drivers_active s)) s))) <
    length (filter (idle cutoff) (drivers_active s))"
proof -
  let ?ids = "stale_ids n cutoff (drivers_active s)" and ?z = "drivers_active s"
  obtain k where k: "k \<in> set ?ids" using assms by (cases ?ids) auto
  then obtain sc where "(k, sc) \<in> set (filter (idle cutoff) ?z)" using stale_ids_subset by fastforce
  then have "\<exists>p \<in> set (filter (idle cutoff) ?z). \<not> fst p \<notin> set ?ids" using k by (intro bexI [of _ "(k, sc)"]) auto
  then have "length (filter (\<lambda>p. fst p \<notin> set ?ids) (filter (idle cutoff) ?z)) < length (filter (idle cutoff) ?z)"
    by (metis length_filter_less)
  moreover have "filter (idle cutoff) (filter (\<lambda>p. fst p \<notin> set ?ids) ?z) =
      filter (\<lambda>p. fst p \<notin> set ?ids) (filter (idle cutoff) ?z)"
    by (simp add: conj_commute)
  ultimately show ?thesis by (simp add: remove_drivers_def)
qed

text \<open>The loop of the maintenance job, batch by batch.\<close>

function cleanup_loop :: "nat \<Rightarrow> int \<Rightarrow> geo_world \<Rightarrow> geo_world" where
  "cleanup_loop batch cutoff s =
     (let staleIds = stale_ids batch cutoff (drivers_active s)
      in if staleIds = [] then s
         else let s' = remove_drivers staleIds s
              in if length staleIds < batch then s' else cleanup_loop batch cutoff s')"
  by pat_completeness auto
termination
  by (relation "measure (\<lambda>(batch, cutoff, s). length (filter (idle cutoff) (drivers_active s)))")
    (auto simp: remove_shrinks)

declare cleanup_loop.simps [simp del]

definition cleanup_process :: "string \<Rightarrow> geo_world \<Rightarrow> geo_world" where
  "cleanup_process name s =
     (if name \<noteq> ''cleanup-idle-drivers'' then s
      else cleanup_loop cleanup_driver_idle_loc_batch (geo_now s - threshold_driver_idle_ms) s)"

text \<open>The scheduler registers one repeated job; registering it again changes nothing.\<close>

definition schedule_maintenance :: "(string \<times> int) list \<Rightarrow> (string \<times> int) list" where
  "schedule_maintenance jobs = List.insert (''cleanup-idle-drivers'', 60000) jobs"

end
