(* ===== verification/Location_Guarantees.thy ===== *)
theory Location_Guarantees
  imports Geolocation Ride_Guarantees
begin

text \<open>
  What the location service guarantees: who is found near a point, how long a stored location
  is kept, that the maintenance loop removes exactly the idle drivers whatever the batches,
  and that the drivers it supplies are what the creation of a ride relies on.
\<close>

section \<open>The maintenance loop\<close>

lemma remove_none [simp]: "remove_drivers [] s = s"
  by (simp add: remove_drivers_def)

lemma remove_remove: "remove_drivers xs (remove_drivers ys s) = remove_drivers (ys @ xs) s"
  by (auto simp: remove_drivers_def fun_eq_iff intro!: filter_cong)

lemma remove_set: "set xs = set ys \<Longrightarrow> remove_drivers xs s = remove_drivers ys s"
  by (simp add: remove_drivers_def)

abbreviation idle_ids :: "int \<Rightarrow> geo_world \<Rightarrow> string list" where
  "idle_ids cutoff s \<equiv> map fst (filter (idle cutoff) (drivers_active s))"

lemma stale_all: "length (stale_ids n cutoff z) < n \<Longrightarrow> set (stale_ids n cutoff z) = set (map fst (filter (idle cutoff) z))"
  unfolding stale_ids_def by simp

lemma stale_none: "0 < n \<Longrightarrow> stale_ids n cutoff z = [] \<Longrightarrow> filter (idle cutoff) z = []"
  unfolding stale_ids_def by (metis list.map_disc_iff length_0_conv length_sort neq0_conv take_eq_Nil)

lemma cleanup_loop_all: "0 < batch \<Longrightarrow> cleanup_loop batch cutoff s = remove_drivers (idle_ids cutoff s) s"
proof (induction batch cutoff s rule: cleanup_loop.induct)
  case (1 batch cutoff s)
  let ?ids = "stale_ids batch cutoff (drivers_active s)"
  show ?case
  proof (cases "?ids = []")
    case True
    then show ?thesis using stale_none [OF "1.prems" True] by (simp add: cleanup_loop.simps)
  next
    case False
    show ?thesis
    proof (cases "length ?ids < batch")
      case True
      then show ?thesis
        using False stale_all [OF True] by (subst cleanup_loop.simps) (simp add: Let_def remove_set [of ?ids "idle_ids cutoff s"])
    next
      case more: False
      have "cleanup_loop batch cutoff s = remove_drivers (idle_ids cutoff (remove_drivers ?ids s)) (remove_drivers ?ids s)"
        using "1.IH" [OF refl False refl more "1.prems"] False more by (subst cleanup_loop.simps) (simp add: Let_def)
      also have "\<dots> = remove_drivers (?ids @ idle_ids cutoff (remove_drivers ?ids s)) s" by (rule remove_remove)
      also have "\<dots> = remove_drivers (idle_ids cutoff s) s"
        using stale_ids_subset [of batch cutoff "drivers_active s"]
        by (intro remove_set) (auto simp: remove_drivers_def)
      finally show ?thesis .
    qed
  qed
qed

text \<open>
  C40. The maintenance job, a loop over batches of a thousand, ends and has the effect of one
  sweep: exactly the drivers idle for five minutes are removed, from the sorted set, the geo
  set, the location hashes and the metadata together, every other driver keeps all four, and
  no idle driver is left.
\<close>

theorem cleanup_removes_idle:
  "let cutoff = geo_now s - 5 * 60 * 1000; s' = cleanup_process ''cleanup-idle-drivers'' s; gone = set (idle_ids cutoff s)
   in s' = remove_drivers (idle_ids cutoff s) s \<and> filter (idle cutoff) (drivers_active s') = [] \<and>
     (if k \<in> gone then drivers_geo s' k = None \<and> driver_loc s' k = None \<and> drivers_metadata s' k = None
      else drivers_geo s' k = drivers_geo s k \<and> driver_loc s' k = driver_loc s k \<and> drivers_metadata s' k = drivers_metadata s k)"
proof -
  have "cleanup_process ''cleanup-idle-drivers'' s = remove_drivers (idle_ids (geo_now s - threshold_driver_idle_ms) s) s"
    by (simp add: cleanup_process_def cleanup_loop_all cleanup_driver_idle_loc_batch_def)
  moreover have "filter (idle c) (drivers_active (remove_drivers (idle_ids c s) s)) = []" for c
    by (force simp: remove_drivers_def filter_empty_conv)
  ultimately show ?thesis
    by (simp add: Let_def threshold_driver_idle_ms_def) (simp add: remove_drivers_def)
qed

text \<open>
  How long a location is kept: a driver whose location was stored is found in the geo set,
  with the coordinates and the metadata of that update, by every maintenance run of the next
  five minutes, and is gone from every key at the first run after them.
\<close>

theorem location_kept_five_minutes:
  assumes "0 \<le> geo_now s"
    and "s1 = storeDriverLocation ttl toISOString k loc (Some ts) s"
    and "s2 = cleanup_process ''cleanup-idle-drivers'' (s1\<lparr>geo_now := t\<rparr>)"
  shows "if t < geo_now s + 5 * 60 * 1000
    then drivers_geo s2 k = Some (dl_longitude loc, dl_latitude loc) \<and> zmscore (drivers_active s2) k = Some (geo_now s) \<and>
      drivers_metadata s2 k = Some (EntryJson \<lparr>de_longitude = dl_longitude loc, de_latitude = dl_latitude loc,
        de_accuracyMeters = dl_accuracyMeters loc, de_updatedAt = ts\<rparr>)
    else drivers_geo s2 k = None \<and> zmscore (drivers_active s2) k = None \<and> drivers_metadata s2 k = None \<and> driver_loc s2 k = None"
proof -
  define u where "u = s1\<lparr>geo_now := t\<rparr>"
  define ids where "ids = idle_ids (t - threshold_driver_idle_ms) u"
  have s2: "s2 = remove_drivers ids u"
    using assms(3) by (simp add: u_def ids_def cleanup_process_def cleanup_loop_all cleanup_driver_idle_loc_batch_def)
  have "k \<in> set ids \<longleftrightarrow> geo_now s + 5 * 60 * 1000 \<le> t"
    using assms(1) by (auto simp: ids_def u_def assms(2) storeDriverLocation_def zadd_def Let_def idle_def threshold_driver_idle_ms_def)
  then show ?thesis
    by (auto simp: s2 u_def assms(2) remove_drivers_def storeDriverLocation_def zadd_def zmscore_def Let_def map_of_eq_None_iff)
qed

definition demo_geo :: geo_world where
  "demo_geo = \<lparr>drivers_geo = (\<lambda>_. None), driver_loc = (\<lambda>_. None), drivers_metadata = (\<lambda>_. None), drivers_active = [],
     loc_updates = [], geo_now = 1000\<rparr>"

definition demo_location :: driver_location_input where
  "demo_location = \<lparr>dl_longitude = Fin 106, dl_latitude = Fin (- 6), dl_accuracyMeters = Some (Fin 5)\<rparr>"

theorem location_kept_five_minutes_witness:
  "drivers_geo (cleanup_process ''cleanup-idle-drivers''
     ((storeDriverLocation (Fin 300) (\<lambda>_. []) ''11'' demo_location (Some ''now'') demo_geo)\<lparr>geo_now := 2000\<rparr>)) ''11'' =
     Some (Fin 106, Fin (- 6))"
  using location_kept_five_minutes [where s = demo_geo and ttl = "Fin 300" and toISOString = "\<lambda>_. []" and k = "''11''"
      and loc = demo_location and ts = "''now''" and t = 2000, OF _ refl refl]
  by (simp add: demo_geo_def demo_location_def)

section \<open>Nearby drivers\<close>

text \<open>A reply element with identifier and readable coordinates, and a driver seen in the last five minutes.\<close>

fun readable :: "raw_entry \<Rightarrow> bool" where
  "readable (RawEntry k d (Some (a, b))) = (is_finite (number_of_string a) \<and> is_finite (number_of_string b))"
| "readable _ = False"

definition recently_active :: "geo_world \<Rightarrow> string \<Rightarrow> bool" where
  "recently_active s k \<longleftrightarrow> (case zmscore (drivers_active s) k of None \<Rightarrow> False | Some t \<Rightarrow> geo_now s - 5 * 60 * 1000 \<le> t)"

lemma active_iff: "k \<in> set (active_ids s ks) \<longleftrightarrow> k \<in> set ks \<and> recently_active s k"
  by (auto simp: active_ids_def recently_active_def threshold_driver_idle_ms_def split: option.splits)

lemma map_entry_id:
  "map_option gr_driverId (mapGeoradiusEntry mm A e) =
     (if readable e \<and> the (entry_id e) \<in> set A then Some (the (entry_id e)) else None)"
  by (cases "(mm, A, e)" rule: mapGeoradiusEntry.cases) (auto simp: Let_def split: option.splits)

lemma map_filter_ids:
  "(\<And>e. e \<in> set es \<Longrightarrow> map_option gr_driverId (f e) = (if P e then Some (g e) else None)) \<Longrightarrow>
   map gr_driverId (List.map_filter f es) = map g (filter P es)"
proof (induction es)
  case (Cons e es)
  have "map_option gr_driverId (f e) = (if P e then Some (g e) else None)" using Cons.prems by simp
  then show ?case using Cons by (cases "f e") (auto simp: List.map_filter_simps split: if_splits)
qed (simp add: List.map_filter_simps)

lemma entry_ids_in: "e \<in> set es \<Longrightarrow> entry_id e = Some k \<Longrightarrow> k \<in> set (List.map_filter entry_id es)"
  by (induction es) (auto simp: List.map_filter_simps split: option.splits)

lemma nearby_ids:
  "map fn_driverId (getNearbyDrivers search radius lon lat limit s) =
     map (\<lambda>e. the (entry_id e))
       (filter (\<lambda>e. readable e \<and> recently_active s (the (entry_id e)))
         (search (drivers_geo s) lon lat radius (case limit of None \<Rightarrow> Fin 10 | Some n \<Rightarrow> n)))"
proof -
  define es where "es = search (drivers_geo s) lon lat radius (case limit of None \<Rightarrow> Fin 10 | Some n \<Rightarrow> n)"
  define ks where "ks = List.map_filter entry_id es"
  define A where "A = active_ids s ks"
  have A: "the (entry_id e) \<in> set A \<longleftrightarrow> recently_active s (the (entry_id e))" if "e \<in> set es" "readable e" for e
    using that entry_ids_in [of e es] by (cases e rule: readable.cases) (auto simp: A_def ks_def active_iff)
  have found: "map gr_driverId (List.map_filter (mapGeoradiusEntry (metadata_map s A) A) es) =
      map (\<lambda>e. the (entry_id e)) (filter (\<lambda>e. readable e \<and> recently_active s (the (entry_id e))) es)"
    using A by (intro map_filter_ids) (auto simp: map_entry_id)
  have none: "filter (\<lambda>e. readable e \<and> recently_active s (the (entry_id e))) es = []" if "A = []"
    using A that by (auto simp: filter_empty_conv)
  show ?thesis
    using found none
    by (simp add: getNearbyDrivers_def repo_getNearbyDrivers_def o_def es_def [symmetric] ks_def [symmetric] A_def [symmetric] Let_def)
qed

text \<open>
  Who is nearby: the drivers returned are exactly those of the search's reply, in its
  order, that were active within the last five minutes and whose coordinates can be read;
  nobody is added, repeated or reordered.
\<close>

theorem nearby_exactly_active:
  "map fn_driverId (getNearbyDrivers search radius lon lat limit s) =
     map (\<lambda>e. the (entry_id e))
       (filter (\<lambda>e. readable e \<and> recently_active s (the (entry_id e)))
         (search (drivers_geo s) lon lat radius (case limit of None \<Rightarrow> Fin 10 | Some n \<Rightarrow> n)))"
  by (rule nearby_ids)

text \<open>The drivers the ride service receives from the location service.\<close>

definition supplied :: "georadius \<Rightarrow> jsnum \<Rightarrow> geo_world \<Rightarrow> jsnum \<Rightarrow> jsnum \<Rightarrow> jsnum \<Rightarrow> exn + nearby_driver list" where
  "supplied search radius s lon lat n =
     Inr (map (\<lambda>d. \<lparr>nd_driverId = fn_driverId d, nd_distanceMeters = Some (fn_distanceMeters d)\<rparr>)
       (getNearbyDrivers search radius lon lat (Some n) s))"

definition reply_ok :: "raw_entry list \<Rightarrow> bool" where
  "reply_ok es \<longleftrightarrow> distinct (List.map_filter entry_id es) \<and> [] \<notin> set (List.map_filter entry_id es)"

lemma distinct_ids: "distinct (List.map_filter entry_id es) \<Longrightarrow> (\<And>e. P e \<Longrightarrow> entry_id e \<noteq> None) \<Longrightarrow>
   distinct (map (\<lambda>e. the (entry_id e)) (filter P es))"
proof (induction es)
  case (Cons e es)
  show ?case
  proof (cases "P e")
    case True
    then obtain k where k: "entry_id e = Some k" using Cons.prems(2) by blast
    have "k \<notin> set (List.map_filter entry_id es)" "distinct (List.map_filter entry_id es)"
      using Cons.prems(1) k by (simp_all add: List.map_filter_simps)
    moreover have "the (entry_id x) \<noteq> k" if "x \<in> set es" "P x" for x
      using that Cons.prems(2) [of x] entry_ids_in [of x es] calculation(1) by fastforce
    ultimately show ?thesis using True k Cons by auto
  next
    case False
    then show ?thesis using Cons by (cases "entry_id e") (simp_all add: List.map_filter_simps)
  qed
qed simp

lemma supplied_ok:
  assumes "\<And>geo lon lat r n. reply_ok (search geo lon lat r n)"
  shows "env_ok (env\<lparr>nearby := supplied search radius s\<rparr>)"
  unfolding env_ok_def
proof (intro allI impI)
  fix lon lat n ds
  assume "nearby (env\<lparr>nearby := supplied search radius s\<rparr>) lon lat n = Inr ds"
  then have ids: "map nd_driverId ds = map fn_driverId (getNearbyDrivers search radius lon lat (Some n) s)"
    by (auto simp: supplied_def o_def)
  define es where "es = search (drivers_geo s) lon lat radius n"
  define P where "P = (\<lambda>e. readable e \<and> recently_active s (the (entry_id e)))"
  have P: "entry_id e \<noteq> None" if "P e" for e
    using that by (cases e rule: readable.cases) (auto simp: P_def)
  have ok: "reply_ok es" using assms by (simp add: es_def)
  have list: "map nd_driverId ds = map (\<lambda>e. the (entry_id e)) (filter P es)"
    using ids nearby_ids [of search radius lon lat "Some n" s] by (simp add: es_def P_def)
  have "distinct (map nd_driverId ds)"
    unfolding list using distinct_ids [of es P] ok P by (simp add: reply_ok_def)
  moreover have "[] \<notin> set (map nd_driverId ds)"
  proof
    assume "[] \<in> set (map nd_driverId ds)"
    then obtain e where e: "e \<in> set es" "P e" "the (entry_id e) = []" unfolding list by auto
    then have "[] \<in> set (List.map_filter entry_id es)" using P [OF e(2)] entry_ids_in [OF e(1)] by fastforce
    then show False using ok by (simp add: reply_ok_def)
  qed
  ultimately show "nearby_ok ds" by (simp add: nearby_ok_def)
qed

text \<open>
  The location service provides what the creation of a ride relies on: when the members a
  search replies are distinct and not empty, as those of a geo set are, the drivers supplied
  to the ride service are distinct and have identifiers, in every state of the location data.
\<close>

theorem nearby_supplies_rides:
  assumes "\<And>geo lon lat r n. reply_ok (search geo lon lat r n)"
  shows "env_ok (env\<lparr>nearby := supplied search radius s\<rparr>)"
  by (rule supplied_ok [OF assms])

definition demo_search :: georadius where
  "demo_search geo lon lat r n = [RawEntry ''11'' ''120.5'' (Some (''106'', ''-6'')), RawEntry ''12'' ''300'' None]"

theorem nearby_supplies_rides_witness:
  "env_ok (demo_env\<lparr>nearby := supplied demo_search (Fin 3000) demo_geo\<rparr>)"
  by (rule nearby_supplies_rides) (simp add: reply_ok_def demo_search_def List.map_filter_simps)

end
