(* ===== verification/Notification_Stream.thy ===== *)
theory Notification_Stream
  imports Neb_Prelude
begin

text \<open>
  \<open>NotificationStreamAdapter\<close> (\<open>gateway/app/services/notification-stream.adapter.ts\<close>): the
  server-sent event streams of the clients connected to one process, on top of Redis
  publish/subscribe.

  State: the subjects of each channel, the Redis channels the process is subscribed to, the
  subscriptions under way (promises) with the cleanups waiting for them. A step is one event
  of the process: a client subscribes or disconnects, a subscription request succeeds or
  fails, a message arrives. Handlers run to completion; the callbacks of a promise run in the
  order they were attached, after its entry has been deleted (\<open>finally\<close>).
  Outside the repository: Redis' answers. Subjects and promises are numbered.
\<close>

section \<open>Channels\<close>

datatype stream_target = DriverTarget | RiderTarget | OtpSimulationTarget

fun stream_target_text :: "stream_target \<Rightarrow> string" where
  "stream_target_text DriverTarget = ''driver''"
| "stream_target_text RiderTarget = ''rider''"
| "stream_target_text OtpSimulationTarget = ''otp-simulation''"

definition getChannelKey :: "stream_target \<Rightarrow> string \<Rightarrow> string" where
  "getChannelKey t targetId = stream_target_text t @ CHR '':'' # targetId"

definition getRedisChannel :: "string \<Rightarrow> string" where
  "getRedisChannel channelKey = ''notifications:'' @ channelKey"

fun strip_prefix :: "string \<Rightarrow> string \<Rightarrow> string option" where
  "strip_prefix [] cs = Some cs"
| "strip_prefix (p # ps) [] = None"
| "strip_prefix (p # ps) (c # cs) = (if p = c then strip_prefix ps cs else None)"

definition extractChannelKey :: "string \<Rightarrow> string option" where
  "extractChannelKey redisChannel = strip_prefix ''notifications:'' redisChannel"

section \<open>State\<close>

record 'p envelope =
  ev_target :: stream_target
  ev_targetId :: string
  ev_event :: string
  ev_payload :: 'p
  ev_timestamp :: int

text \<open>A message text: the JSON of an envelope, or not JSON at all.\<close>

datatype 'p raw_payload = EnvelopeJson "'p envelope" | BrokenJson string

datatype redis_command = Subscribe string | Unsubscribe string

record 'p stream =
  channels :: "string \<Rightarrow> nat list option"
  redisSubscribedChannels :: "string \<Rightarrow> bool"
  redisSubscriptionPromises :: "string \<Rightarrow> nat option"
  cleanups :: "(nat \<times> string) list"
  next_subject :: nat
  next_promise :: nat
  received :: "(nat \<times> 'p envelope) list"
  completed :: "nat list"
  commands :: "redis_command list"

definition empty_stream :: "'p stream" where
  "empty_stream = \<lparr>channels = (\<lambda>_. None), redisSubscribedChannels = (\<lambda>_. False),
     redisSubscriptionPromises = (\<lambda>_. None), cleanups = [], next_subject = 0, next_promise = 0,
     received = [], completed = [], commands = []\<rparr>"

definition subscribers_of :: "'p stream \<Rightarrow> string \<Rightarrow> nat list" where
  "subscribers_of s key = (case channels s key of None \<Rightarrow> [] | Some xs \<Rightarrow> xs)"

section \<open>Operations\<close>

definition ensureRedisSubscription :: "string \<Rightarrow> 'p stream \<Rightarrow> 'p stream" where
  "ensureRedisSubscription channelKey s =
     (let ch = getRedisChannel channelKey
      in if redisSubscribedChannels s ch \<or> redisSubscriptionPromises s ch \<noteq> None then s
         else s\<lparr>redisSubscriptionPromises := (redisSubscriptionPromises s)(ch := Some (next_promise s)),
                next_promise := Suc (next_promise s), commands := commands s @ [Subscribe ch]\<rparr>)"

text \<open>The subject a client gets, and the state after it is registered.\<close>

definition subscribe :: "stream_target \<Rightarrow> string \<Rightarrow> 'p stream \<Rightarrow> nat \<times> 'p stream" where
  "subscribe t targetId s =
     (let channelKey = getChannelKey t targetId; subject = next_subject s;
          s1 = s\<lparr>channels := (channels s)(channelKey := Some (subscribers_of s channelKey @ [subject])),
                 next_subject := Suc subject\<rparr>
      in (subject, ensureRedisSubscription channelKey s1))"

definition cleanupRedisSubscription :: "string \<Rightarrow> 'p stream \<Rightarrow> 'p stream" where
  "cleanupRedisSubscription channelKey s =
     (let ch = getRedisChannel channelKey
      in case redisSubscriptionPromises s ch of
           Some p \<Rightarrow> s\<lparr>cleanups := cleanups s @ [(p, channelKey)]\<rparr>
         | None \<Rightarrow>
             if \<not> redisSubscribedChannels s ch then s
             else s\<lparr>redisSubscribedChannels := (redisSubscribedChannels s)(ch := False),
                    commands := commands s @ [Unsubscribe ch]\<rparr>)"

text \<open>The \<open>finalize\<close> callback of a stream: the client is gone.\<close>

definition disconnect :: "string \<Rightarrow> nat \<Rightarrow> 'p stream \<Rightarrow> 'p stream" where
  "disconnect channelKey subject s =
     (let s1 = s\<lparr>completed := completed s @ [subject]\<rparr>
      in case channels s channelKey of
           None \<Rightarrow> s1
         | Some xs \<Rightarrow>
             (let rest = filter (\<lambda>x. x \<noteq> subject) xs
              in if rest = [] then cleanupRedisSubscription channelKey (s1\<lparr>channels := (channels s)(channelKey := None)\<rparr>)
                 else s1\<lparr>channels := (channels s)(channelKey := Some rest)\<rparr>))"

text \<open>A waiting cleanup, once its subscription has succeeded.\<close>

definition run_cleanup :: "string \<Rightarrow> 'p stream \<Rightarrow> 'p stream" where
  "run_cleanup channelKey s =
     (if subscribers_of s channelKey \<noteq> [] then s else cleanupRedisSubscription channelKey s)"

definition settled :: "string \<Rightarrow> bool \<Rightarrow> 'p stream \<Rightarrow> 'p stream" where
  "settled ch ok s =
     (case redisSubscriptionPromises s ch of
        None \<Rightarrow> s
      | Some p \<Rightarrow>
          (let s1 = s\<lparr>redisSubscribedChannels := (redisSubscribedChannels s)(ch := ok),
                     redisSubscriptionPromises := (redisSubscriptionPromises s)(ch := None),
                     cleanups := filter (\<lambda>c. fst c \<noteq> p) (cleanups s)\<rparr>
           in if ok then fold run_cleanup (map snd (filter (\<lambda>c. fst c = p) (cleanups s))) s1 else s1))"

definition handleRedisMessage :: "string \<Rightarrow> 'p raw_payload \<Rightarrow> 'p stream \<Rightarrow> 'p stream" where
  "handleRedisMessage ch rawPayload s =
     (case extractChannelKey ch of
        None \<Rightarrow> s
      | Some channelKey \<Rightarrow>
          (if channelKey = [] then s
           else case rawPayload of
               BrokenJson _ \<Rightarrow> s
             | EnvelopeJson e \<Rightarrow>
                 s\<lparr>received := received s @ map (\<lambda>x. (x, e)) (subscribers_of s channelKey)\<rparr>))"

text \<open>
  \<open>emit\<close> waits for a subscription under way and publishes: the message and its channel, and
  whether any process has received it.
\<close>

datatype publish_reply = Published nat | PublishFails

definition stream_emit ::
  "publish_reply \<Rightarrow> stream_target \<Rightarrow> string \<Rightarrow> string \<Rightarrow> 'p \<Rightarrow> int \<Rightarrow> (string \<times> 'p raw_payload) \<times> bool" where
  "stream_emit reply t targetId event payload now =
     ((getRedisChannel (getChannelKey t targetId),
       EnvelopeJson \<lparr>ev_target = t, ev_targetId = targetId, ev_event = event, ev_payload = payload, ev_timestamp = now\<rparr>),
      case reply of Published n \<Rightarrow> n \<noteq> 0 | PublishFails \<Rightarrow> False)"

section \<open>Runs\<close>

datatype 'p stream_event =
    Connects stream_target string
  | Disconnects stream_target string nat
  | Settles string bool
  | Arrives string "'p raw_payload"

fun stream_step :: "'p stream_event \<Rightarrow> 'p stream \<Rightarrow> 'p stream" where
  "stream_step (Connects t k) s = snd (subscribe t k s)"
| "stream_step (Disconnects t k x) s = disconnect (getChannelKey t k) x s"
| "stream_step (Settles ch ok) s = settled ch ok s"
| "stream_step (Arrives ch raw) s = handleRedisMessage ch raw s"

definition run_stream :: "'p stream_event list \<Rightarrow> 'p stream" where
  "run_stream es = fold stream_step es empty_stream"

section \<open>Channel names\<close>

lemma strip_append: "strip_prefix p (p @ cs) = Some cs"
  by (induction p) simp_all

lemma extract_channel [simp]: "extractChannelKey (getRedisChannel key) = Some key"
  unfolding extractChannelKey_def getRedisChannel_def by (rule strip_append)

lemma getRedisChannel_inject [simp]: "getRedisChannel k = getRedisChannel k' \<longleftrightarrow> k = k'"
  by (simp add: getRedisChannel_def)

text \<open>Different recipients have different channels, whatever their identifiers contain.\<close>

lemma getChannelKey_inject [simp]: "getChannelKey t i = getChannelKey t' i' \<longleftrightarrow> t = t' \<and> i = i'"
  by (cases t; cases t') (simp_all add: getChannelKey_def)

lemma getChannelKey_nonempty [simp]: "getChannelKey t i \<noteq> []"
  by (simp add: getChannelKey_def)

section \<open>The invariant\<close>

text \<open>
  A registered channel has clients, each client is in one channel, every Redis subscription
  serves a registered channel, and one under way either serves a registered channel or has
  its cleanup waiting. \<open>fed\<close>: every registered channel is subscribed, or being subscribed.
\<close>

definition stream_inv :: "'p stream \<Rightarrow> bool" where
  "stream_inv s \<longleftrightarrow>
     (\<forall>k xs. channels s k = Some xs \<longrightarrow> xs \<noteq> [] \<and> distinct xs \<and> (\<forall>x \<in> set xs. x < next_subject s)) \<and>
     (\<forall>k k' x. x \<in> set (subscribers_of s k) \<longrightarrow> x \<in> set (subscribers_of s k') \<longrightarrow> k = k') \<and>
     (\<forall>ch. redisSubscribedChannels s ch \<longrightarrow> (\<exists>k. ch = getRedisChannel k \<and> channels s k \<noteq> None)) \<and>
     (\<forall>ch p. redisSubscriptionPromises s ch = Some p \<longrightarrow> \<not> redisSubscribedChannels s ch \<and> p < next_promise s \<and>
        (\<exists>k. ch = getRedisChannel k \<and> (channels s k \<noteq> None \<or> (p, k) \<in> set (cleanups s)))) \<and>
     (\<forall>ch ch' p. redisSubscriptionPromises s ch = Some p \<longrightarrow> redisSubscriptionPromises s ch' = Some p \<longrightarrow> ch = ch') \<and>
     (\<forall>p k. (p, k) \<in> set (cleanups s) \<longrightarrow> redisSubscriptionPromises s (getRedisChannel k) = Some p)"

definition fed :: "'p stream \<Rightarrow> bool" where
  "fed s \<longleftrightarrow> (\<forall>k. channels s k \<noteq> None \<longrightarrow>
     redisSubscribedChannels s (getRedisChannel k) \<or> redisSubscriptionPromises s (getRedisChannel k) \<noteq> None)"

lemma inv_empty: "stream_inv empty_stream" "fed empty_stream"
  by (simp_all add: stream_inv_def fed_def empty_stream_def subscribers_of_def)

lemma inv_message: "stream_inv (handleRedisMessage ch raw s) = stream_inv s" "fed (handleRedisMessage ch raw s) = fed s"
  by (simp_all add: handleRedisMessage_def stream_inv_def fed_def subscribers_of_def split: option.split raw_payload.split)

end
