(* ===== verification/Stream_Guarantees.thy ===== *)
theory Stream_Guarantees
  imports Notification_Stream
begin

text \<open>
  What the notification streams guarantee: under any sequence of connections, disconnections,
  subscription answers and messages, the Redis subscriptions are those the connected clients
  need, and a message reaches exactly the clients of its recipient.
\<close>

section \<open>Every step keeps the invariant\<close>

lemma inv_parts:
  assumes "stream_inv s"
  shows "channels s k = Some xs \<Longrightarrow> xs \<noteq> [] \<and> distinct xs \<and> (\<forall>x \<in> set xs. x < next_subject s)"
    and "x \<in> set (subscribers_of s k) \<Longrightarrow> x \<in> set (subscribers_of s k') \<Longrightarrow> k = k'"
    and "redisSubscribedChannels s ch \<Longrightarrow> \<exists>k. ch = getRedisChannel k \<and> channels s k \<noteq> None"
    and "redisSubscriptionPromises s ch = Some p \<Longrightarrow> \<not> redisSubscribedChannels s ch \<and> p < next_promise s \<and>
      (\<exists>k. ch = getRedisChannel k \<and> (channels s k \<noteq> None \<or> (p, k) \<in> set (cleanups s)))"
    and "redisSubscriptionPromises s ch = Some p \<Longrightarrow> redisSubscriptionPromises s ch' = Some p \<Longrightarrow> ch = ch'"
    and "(p, k) \<in> set (cleanups s) \<Longrightarrow> redisSubscriptionPromises s (getRedisChannel k) = Some p"
  using assms unfolding stream_inv_def by blast+

lemma inv_intro:
  assumes "\<And>k xs. channels s k = Some xs \<Longrightarrow> xs \<noteq> [] \<and> distinct xs \<and> (\<forall>x \<in> set xs. x < next_subject s)"
    and "\<And>k k' x. x \<in> set (subscribers_of s k) \<Longrightarrow> x \<in> set (subscribers_of s k') \<Longrightarrow> k = k'"
    and "\<And>ch. redisSubscribedChannels s ch \<Longrightarrow> \<exists>k. ch = getRedisChannel k \<and> channels s k \<noteq> None"
    and "\<And>ch p. redisSubscriptionPromises s ch = Some p \<Longrightarrow> \<not> redisSubscribedChannels s ch \<and> p < next_promise s \<and>
      (\<exists>k. ch = getRedisChannel k \<and> (channels s k \<noteq> None \<or> (p, k) \<in> set (cleanups s)))"
    and "\<And>ch ch' p. redisSubscriptionPromises s ch = Some p \<Longrightarrow> redisSubscriptionPromises s ch' = Some p \<Longrightarrow> ch = ch'"
    and "\<And>p k. (p, k) \<in> set (cleanups s) \<Longrightarrow> redisSubscriptionPromises s (getRedisChannel k) = Some p"
  shows "stream_inv s"
  unfolding stream_inv_def using assms by blast

lemma subscribers_in: "x \<in> set (subscribers_of s k) \<longleftrightarrow> (\<exists>xs. channels s k = Some xs \<and> x \<in> set xs)"
  by (cases "channels s k") (simp_all add: subscribers_of_def)

lemma subscribers_old: "stream_inv s \<Longrightarrow> x \<in> set (subscribers_of s k) \<Longrightarrow> x < next_subject s"
  using inv_parts(1) [of s k] by (auto simp: subscribers_in)

text \<open>Registering the new subject keeps everything; asking Redis for the channel then feeds it.\<close>

definition registered :: "string \<Rightarrow> 'p stream \<Rightarrow> 'p stream" where
  "registered key s = s\<lparr>channels := (channels s)(key := Some (subscribers_of s key @ [next_subject s])),
     next_subject := Suc (next_subject s)\<rparr>"

lemma registered_simps [simp]:
  "channels (registered key s) = (channels s)(key := Some (subscribers_of s key @ [next_subject s]))"
  "next_subject (registered key s) = Suc (next_subject s)" "next_promise (registered key s) = next_promise s"
  "redisSubscribedChannels (registered key s) = redisSubscribedChannels s" "cleanups (registered key s) = cleanups s"
  "redisSubscriptionPromises (registered key s) = redisSubscriptionPromises s"
  by (simp_all add: registered_def)

lemma inv_registered:
  assumes inv: "stream_inv s"
  shows "stream_inv (registered key s)"
proof (rule inv_intro)
  fix k xs assume "channels (registered key s) k = Some xs"
  moreover have "next_subject s \<notin> set (subscribers_of s key)" using subscribers_old [OF inv, of "next_subject s" key] by blast
  ultimately show "xs \<noteq> [] \<and> distinct xs \<and> (\<forall>x \<in> set xs. x < next_subject (registered key s))"
    using inv_parts(1) [OF inv, of k] subscribers_old [OF inv, of _ key]
    by (auto simp: subscribers_of_def less_Suc_eq split: if_splits option.splits)
next
  fix k k' x assume "x \<in> set (subscribers_of (registered key s) k)" "x \<in> set (subscribers_of (registered key s) k')"
  then have "x \<in> set (subscribers_of s k) \<or> (k = key \<and> x = next_subject s)"
    "x \<in> set (subscribers_of s k') \<or> (k' = key \<and> x = next_subject s)"
    by (auto simp: subscribers_of_def split: if_splits)
  then show "k = k'" using inv_parts(2) [OF inv, of x k k'] subscribers_old [OF inv, of x] by auto
next
  fix ch assume "redisSubscribedChannels (registered key s) ch"
  then show "\<exists>k. ch = getRedisChannel k \<and> channels (registered key s) k \<noteq> None" using inv_parts(3) [OF inv, of ch] by auto
next
  fix ch p assume "redisSubscriptionPromises (registered key s) ch = Some p"
  then show "\<not> redisSubscribedChannels (registered key s) ch \<and> p < next_promise (registered key s) \<and>
      (\<exists>k. ch = getRedisChannel k \<and> (channels (registered key s) k \<noteq> None \<or> (p, k) \<in> set (cleanups (registered key s))))"
    using inv_parts(4) [OF inv, of ch p] by auto
next
  fix ch ch' p
  assume "redisSubscriptionPromises (registered key s) ch = Some p" "redisSubscriptionPromises (registered key s) ch' = Some p"
  then show "ch = ch'" using inv_parts(5) [OF inv, of ch p ch'] by simp
next
  fix p k assume "(p, k) \<in> set (cleanups (registered key s))"
  then show "redisSubscriptionPromises (registered key s) (getRedisChannel k) = Some p" using inv_parts(6) [OF inv] by simp
qed

lemma inv_ensure:
  assumes inv: "stream_inv s" and here: "channels s key \<noteq> None"
  shows "stream_inv (ensureRedisSubscription key s)"
proof (cases "redisSubscribedChannels s (getRedisChannel key) \<or> redisSubscriptionPromises s (getRedisChannel key) \<noteq> None")
  case True
  then show ?thesis using inv by (simp add: ensureRedisSubscription_def Let_def)
next
  case False
  let ?s = "ensureRedisSubscription key s"
  have same: "channels ?s = channels s" "next_subject ?s = next_subject s"
    "redisSubscribedChannels ?s = redisSubscribedChannels s" "cleanups ?s = cleanups s" "next_promise ?s = Suc (next_promise s)"
    "redisSubscriptionPromises ?s = (redisSubscriptionPromises s)(getRedisChannel key := Some (next_promise s))"
    using False by (simp_all add: ensureRedisSubscription_def Let_def)
  then have sub: "subscribers_of ?s k = subscribers_of s k" for k by (simp add: subscribers_of_def)
  have old: "p < next_promise s" if "redisSubscriptionPromises s ch = Some p" for ch p
    using inv_parts(4) [OF inv that] by simp
  show ?thesis
  proof (rule inv_intro)
    fix ch p assume "redisSubscriptionPromises ?s ch = Some p"
    then show "\<not> redisSubscribedChannels ?s ch \<and> p < next_promise ?s \<and>
        (\<exists>k. ch = getRedisChannel k \<and> (channels ?s k \<noteq> None \<or> (p, k) \<in> set (cleanups ?s)))"
      using inv_parts(4) [OF inv, of ch p] False here by (auto simp: same split: if_splits)
  next
    fix ch ch' p assume "redisSubscriptionPromises ?s ch = Some p" "redisSubscriptionPromises ?s ch' = Some p"
    then show "ch = ch'" using inv_parts(5) [OF inv, of ch p ch'] old by (auto simp: same split: if_splits)
  next
    fix p k assume "(p, k) \<in> set (cleanups ?s)"
    then show "redisSubscriptionPromises ?s (getRedisChannel k) = Some p" using inv_parts(6) [OF inv, of p k] False by (auto simp: same)
  qed (use inv_parts(1,2,3) [OF inv] in \<open>auto simp: same sub\<close>)
qed

lemma subscribe_run: "subscribe t i s =
    (next_subject s, ensureRedisSubscription (getChannelKey t i) (registered (getChannelKey t i) s))"
  by (simp add: subscribe_def registered_def Let_def)

lemma inv_subscribe: "stream_inv s \<Longrightarrow> stream_inv (snd (subscribe t i s))"
  unfolding subscribe_run by (simp add: inv_ensure inv_registered)

lemma fed_subscribe: "fed s \<Longrightarrow> fed (snd (subscribe t i s))"
  unfolding subscribe_run by (auto simp: fed_def ensureRedisSubscription_def registered_def Let_def)

text \<open>Cleaning up after the last client of a channel.\<close>

lemma inv_cleanup:
  assumes inv: "stream_inv s"
  shows "stream_inv (cleanupRedisSubscription key (s\<lparr>channels := (channels s)(key := None), completed := c\<rparr>))"
proof -
  let ?s = "cleanupRedisSubscription key (s\<lparr>channels := (channels s)(key := None), completed := c\<rparr>)"
  let ?ch = "getRedisChannel key"
  have cl: "set (cleanups ?s) = set (cleanups s) \<union> (case redisSubscriptionPromises s ?ch of None \<Rightarrow> {} | Some p \<Rightarrow> {(p, key)})"
    and ch: "channels ?s = (channels s)(key := None)" and nx: "next_subject ?s = next_subject s" "next_promise ?s = next_promise s"
    and pr: "redisSubscriptionPromises ?s = redisSubscriptionPromises s"
    by (auto simp: cleanupRedisSubscription_def Let_def split: option.splits)
  have red: "redisSubscribedChannels ?s d \<longleftrightarrow> d \<noteq> ?ch \<and> redisSubscribedChannels s d" for d
    using inv_parts(4) [OF inv, of ?ch] by (auto simp: cleanupRedisSubscription_def Let_def split: option.splits)
  have sub: "x \<in> set (subscribers_of ?s k) \<Longrightarrow> x \<in> set (subscribers_of s k)" for x k
    by (auto simp: subscribers_in ch split: if_splits)
  show ?thesis
  proof (rule inv_intro)
    fix k xs assume "channels ?s k = Some xs"
    then show "xs \<noteq> [] \<and> distinct xs \<and> (\<forall>x \<in> set xs. x < next_subject ?s)"
      using inv_parts(1) [OF inv, of k xs] by (simp add: ch nx split: if_splits)
  next
    fix k k' x assume "x \<in> set (subscribers_of ?s k)" "x \<in> set (subscribers_of ?s k')"
    then show "k = k'" using inv_parts(2) [OF inv] sub by blast
  next
    fix d assume "redisSubscribedChannels ?s d"
    then show "\<exists>k. d = getRedisChannel k \<and> channels ?s k \<noteq> None" using inv_parts(3) [OF inv, of d] by (auto simp: red ch)
  next
    fix d p assume "redisSubscriptionPromises ?s d = Some p"
    then have p: "redisSubscriptionPromises s d = Some p" by (simp add: pr)
    then obtain k where k: "d = getRedisChannel k" "channels s k \<noteq> None \<or> (p, k) \<in> set (cleanups s)"
        "\<not> redisSubscribedChannels s d" "p < next_promise s" using inv_parts(4) [OF inv p] by blast
    have "channels ?s k \<noteq> None \<or> (p, k) \<in> set (cleanups ?s)"
      using k(2) p k(1) by (cases "k = key") (auto simp: ch cl)
    then show "\<not> redisSubscribedChannels ?s d \<and> p < next_promise ?s \<and>
        (\<exists>k. d = getRedisChannel k \<and> (channels ?s k \<noteq> None \<or> (p, k) \<in> set (cleanups ?s)))"
      using k by (auto simp: red nx)
  next
    fix d d' p assume "redisSubscriptionPromises ?s d = Some p" "redisSubscriptionPromises ?s d' = Some p"
    then show "d = d'" using inv_parts(5) [OF inv, of d p d'] by (simp add: pr)
  next
    fix p k assume "(p, k) \<in> set (cleanups ?s)"
    then show "redisSubscriptionPromises ?s (getRedisChannel k) = Some p"
      using inv_parts(6) [OF inv, of p k] by (auto simp: pr cl split: option.splits)
  qed
qed

lemma inv_shrink:
  assumes inv: "stream_inv s" and xs: "channels s key = Some xs" and rest: "rest \<noteq> []" "distinct rest" "set rest \<subseteq> set xs"
  shows "stream_inv (s\<lparr>channels := (channels s)(key := Some rest), completed := c\<rparr>)"
proof -
  let ?s = "s\<lparr>channels := (channels s)(key := Some rest), completed := c\<rparr>"
  have sub: "x \<in> set (subscribers_of ?s k) \<Longrightarrow> x \<in> set (subscribers_of s k)" for x k
    using xs rest(3) by (auto simp: subscribers_in split: if_splits)
  show ?thesis
  proof (rule inv_intro)
    fix k ys assume "channels ?s k = Some ys"
    then show "ys \<noteq> [] \<and> distinct ys \<and> (\<forall>x \<in> set ys. x < next_subject ?s)"
      using inv_parts(1) [OF inv, of k] xs rest by (auto split: if_splits)
  next
    fix k k' x assume "x \<in> set (subscribers_of ?s k)" "x \<in> set (subscribers_of ?s k')"
    then show "k = k'" using inv_parts(2) [OF inv] sub by blast
  next
    fix ch assume "redisSubscribedChannels ?s ch"
    then show "\<exists>k. ch = getRedisChannel k \<and> channels ?s k \<noteq> None" using inv_parts(3) [OF inv, of ch] by auto
  next
    fix ch p assume "redisSubscriptionPromises ?s ch = Some p"
    then show "\<not> redisSubscribedChannels ?s ch \<and> p < next_promise ?s \<and>
        (\<exists>k. ch = getRedisChannel k \<and> (channels ?s k \<noteq> None \<or> (p, k) \<in> set (cleanups ?s)))"
      using inv_parts(4) [OF inv, of ch p] by auto
  next
    fix d d' p assume "redisSubscriptionPromises ?s d = Some p" "redisSubscriptionPromises ?s d' = Some p"
    then show "d = d'" using inv_parts(5) [OF inv, of d p d'] by simp
  next
    fix p k assume "(p, k) \<in> set (cleanups ?s)"
    then show "redisSubscriptionPromises ?s (getRedisChannel k) = Some p" using inv_parts(6) [OF inv, of p k] by simp
  qed
qed

lemma inv_disconnect:
  assumes inv: "stream_inv s"
  shows "stream_inv (disconnect key x s)"
proof (cases "channels s key")
  case None
  then have "disconnect key x s = s\<lparr>completed := completed s @ [x]\<rparr>" by (simp add: disconnect_def Let_def)
  then show ?thesis using inv by (simp add: stream_inv_def subscribers_of_def)
next
  case (Some xs)
  have comm: "s\<lparr>completed := c, channels := m\<rparr> = s\<lparr>channels := m, completed := c\<rparr>" for c m by simp
  show ?thesis
  proof (cases "filter (\<lambda>y. y \<noteq> x) xs = []")
    case True
    then show ?thesis
      using Some inv_cleanup [OF inv, of key "completed s @ [x]"] by (simp add: disconnect_def Let_def comm del: filter_empty_conv)
  next
    case False
    moreover have "distinct (filter (\<lambda>y. y \<noteq> x) xs)" using inv_parts(1) [OF inv Some] by simp
    ultimately show ?thesis
      using Some inv_shrink [OF inv Some False, of "completed s @ [x]"] by (auto simp add: disconnect_def Let_def comm)
  qed
qed

lemma fed_disconnect: "stream_inv s \<Longrightarrow> fed s \<Longrightarrow> fed (disconnect key x s)"
  by (auto simp: fed_def disconnect_def cleanupRedisSubscription_def Let_def split: option.splits)

text \<open>A subscription that is answered: the waiting cleanups all concern its channel.\<close>

lemma fold_cleanups:
  assumes "\<forall>k' \<in> set ks. k' = k" and "redisSubscriptionPromises s (getRedisChannel k) = None"
  shows "fold run_cleanup ks s =
    (if ks = [] \<or> subscribers_of s k \<noteq> [] \<or> \<not> redisSubscribedChannels s (getRedisChannel k) then s
     else s\<lparr>redisSubscribedChannels := (redisSubscribedChannels s)(getRedisChannel k := False),
            commands := commands s @ [Unsubscribe (getRedisChannel k)]\<rparr>)"
  using assms
proof (induction ks arbitrary: s)
  case (Cons j ks)
  have j: "j = k" "\<forall>k' \<in> set ks. k' = k" using Cons.prems(1) by simp_all
  show ?case
  proof (cases "subscribers_of s k \<noteq> [] \<or> \<not> redisSubscribedChannels s (getRedisChannel k)")
    case True
    then have "run_cleanup k s = s" using Cons.prems(2) by (auto simp: run_cleanup_def cleanupRedisSubscription_def Let_def)
    then show ?thesis using True j Cons.IH [of s] Cons.prems(2) by auto
  next
    case False
    define t where "t = s\<lparr>redisSubscribedChannels := (redisSubscribedChannels s)(getRedisChannel k := False),
            commands := commands s @ [Unsubscribe (getRedisChannel k)]\<rparr>"
    have "run_cleanup k s = t"
      using False Cons.prems(2) by (simp add: run_cleanup_def cleanupRedisSubscription_def Let_def t_def)
    moreover have "fold run_cleanup ks t = t" using Cons.IH [of t] j Cons.prems(2) by (simp add: t_def)
    ultimately show ?thesis using False j by (simp add: t_def)
  qed
qed simp

text \<open>What an answer leaves: the channel subscribed if it succeeded and someone still needs it.\<close>

lemma settled_run:
  assumes inv: "stream_inv s" and p: "redisSubscriptionPromises s (getRedisChannel k) = Some p"
  shows "\<exists>cmds. settled (getRedisChannel k) ok s =
    s\<lparr>redisSubscribedChannels := (redisSubscribedChannels s)(getRedisChannel k := (ok \<and> channels s k \<noteq> None)),
      redisSubscriptionPromises := (redisSubscriptionPromises s)(getRedisChannel k := None),
      cleanups := filter (\<lambda>c. fst c \<noteq> p) (cleanups s), commands := cmds\<rparr>"
proof -
  define ks where "ks = map snd (filter (\<lambda>c. fst c = p) (cleanups s))"
  define s1 where "s1 = s\<lparr>redisSubscribedChannels := (redisSubscribedChannels s)(getRedisChannel k := ok),
      redisSubscriptionPromises := (redisSubscriptionPromises s)(getRedisChannel k := None),
      cleanups := filter (\<lambda>c. fst c \<noteq> p) (cleanups s)\<rparr>"
  have ks: "\<forall>k' \<in> set ks. k' = k"
    using inv_parts(6) [OF inv] inv_parts(5) [OF inv p] by (fastforce simp: ks_def)
  have run: "settled (getRedisChannel k) ok s = (if ok then fold run_cleanup ks s1 else s1)"
    using p by (simp add: settled_def s1_def ks_def Let_def)
  have sub: "subscribers_of s1 k = [] \<longleftrightarrow> channels s k = None"
    using inv_parts(1) [OF inv, of k] by (auto simp: subscribers_of_def s1_def split: option.splits)
  have none: "ks \<noteq> []" if "channels s k = None"
  proof -
    have "(p, k) \<in> set (cleanups s)" using inv_parts(4) [OF inv p] that by auto
    then show ?thesis by (force simp: ks_def filter_empty_conv)
  qed
  have fold: "fold run_cleanup ks s1 = (if ks = [] \<or> subscribers_of s1 k \<noteq> [] \<or> \<not> ok then s1
     else s1\<lparr>redisSubscribedChannels := (redisSubscribedChannels s1)(getRedisChannel k := False),
            commands := commands s1 @ [Unsubscribe (getRedisChannel k)]\<rparr>)"
    using fold_cleanups [OF ks, of s1] by (simp add: s1_def)
  show ?thesis
  proof (cases "ok \<and> channels s k = None")
    case True
    then show ?thesis using run fold sub none by (intro exI [of _ "commands s @ [Unsubscribe (getRedisChannel k)]"]) (simp add: s1_def)
  next
    case False
    then show ?thesis using run fold sub by (intro exI [of _ "commands s"]) (auto simp: s1_def)
  qed
qed

lemma inv_settled:
  assumes inv: "stream_inv s"
  shows "stream_inv (settled ch ok s)"
proof (cases "redisSubscriptionPromises s ch")
  case None
  then show ?thesis using inv by (simp add: settled_def)
next
  case (Some p)
  obtain k where k: "ch = getRedisChannel k" "channels s k \<noteq> None \<or> (p, k) \<in> set (cleanups s)"
    using inv_parts(4) [OF inv Some] by blast
  obtain cmds where run: "settled ch ok s =
    s\<lparr>redisSubscribedChannels := (redisSubscribedChannels s)(ch := (ok \<and> channels s k \<noteq> None)),
      redisSubscriptionPromises := (redisSubscriptionPromises s)(ch := None),
      cleanups := filter (\<lambda>c. fst c \<noteq> p) (cleanups s), commands := cmds\<rparr>"
    using settled_run [OF inv Some [unfolded k(1)]] k(1) by blast
  let ?s = "settled ch ok s"
  have sub: "subscribers_of ?s j = subscribers_of s j" for j by (simp add: run subscribers_of_def)
  show ?thesis
  proof (rule inv_intro)
    fix j xs assume "channels ?s j = Some xs"
    then show "xs \<noteq> [] \<and> distinct xs \<and> (\<forall>x \<in> set xs. x < next_subject ?s)" using inv_parts(1) [OF inv, of j xs] by (simp add: run)
  next
    fix j j' x assume "x \<in> set (subscribers_of ?s j)" "x \<in> set (subscribers_of ?s j')"
    then show "j = j'" using inv_parts(2) [OF inv] by (simp add: sub)
  next
    fix d assume "redisSubscribedChannels ?s d"
    then have "d = ch \<and> channels s k \<noteq> None \<or> redisSubscribedChannels s d" by (auto simp: run split: if_splits)
    moreover have "channels ?s = channels s" by (simp add: run)
    ultimately show "\<exists>j. d = getRedisChannel j \<and> channels ?s j \<noteq> None"
      using inv_parts(3) [OF inv, of d] k(1) by metis
  next
    fix d q assume q: "redisSubscriptionPromises ?s d = Some q"
    then have d: "d \<noteq> ch" "redisSubscriptionPromises s d = Some q" by (auto simp: run split: if_splits)
    then have "q \<noteq> p" using inv_parts(5) [OF inv Some, of d] by auto
    then show "\<not> redisSubscribedChannels ?s d \<and> q < next_promise ?s \<and>
        (\<exists>j. d = getRedisChannel j \<and> (channels ?s j \<noteq> None \<or> (q, j) \<in> set (cleanups ?s)))"
      using inv_parts(4) [OF inv d(2)] d(1) by (auto simp: run)
  next
    fix d d' q assume "redisSubscriptionPromises ?s d = Some q" "redisSubscriptionPromises ?s d' = Some q"
    then show "d = d'" using inv_parts(5) [OF inv, of d q d'] by (auto simp: run split: if_splits)
  next
    fix q j assume "(q, j) \<in> set (cleanups ?s)"
    then have "q \<noteq> p" "redisSubscriptionPromises s (getRedisChannel j) = Some q" using inv_parts(6) [OF inv, of q j] by (auto simp: run)
    then show "redisSubscriptionPromises ?s (getRedisChannel j) = Some q" using Some by (auto simp: run)
  qed
qed

lemma fed_settled:
  assumes inv: "stream_inv s" and "fed s"
  shows "fed (settled ch True s)"
proof (cases "redisSubscriptionPromises s ch")
  case None
  then show ?thesis using assms(2) by (simp add: settled_def)
next
  case (Some p)
  obtain k where k: "ch = getRedisChannel k" using inv_parts(4) [OF inv Some] by blast
  obtain cmds where run: "settled ch True s =
    s\<lparr>redisSubscribedChannels := (redisSubscribedChannels s)(ch := (True \<and> channels s k \<noteq> None)),
      redisSubscriptionPromises := (redisSubscriptionPromises s)(ch := None),
      cleanups := filter (\<lambda>c. fst c \<noteq> p) (cleanups s), commands := cmds\<rparr>"
    using settled_run [OF inv Some [unfolded k], of True] k by blast
  show ?thesis using assms(2) k unfolding fed_def run by auto
qed

section \<open>The guarantees\<close>

lemma inv_event: "stream_inv s \<Longrightarrow> stream_inv (stream_step e s)"
  by (cases e) (simp_all add: inv_subscribe inv_disconnect inv_settled inv_message)

lemma inv_fold: "stream_inv s \<Longrightarrow> stream_inv (fold stream_step es s)"
  by (induction es arbitrary: s) (simp_all add: inv_event)

lemma stream_inv_run: "stream_inv (run_stream es)"
  unfolding run_stream_def by (rule inv_fold) (rule inv_empty)

fun refused :: "'p stream_event \<Rightarrow> bool" where
  "refused (Settles ch ok) = (\<not> ok)"
| "refused _ = False"

lemma fed_event: "stream_inv s \<Longrightarrow> fed s \<Longrightarrow> \<not> refused e \<Longrightarrow> fed (stream_step e s)"
  by (cases e) (simp_all add: fed_subscribe fed_disconnect fed_settled inv_message)

lemma fed_fold: "list_all (\<lambda>e. \<not> refused e) es \<Longrightarrow> stream_inv s \<Longrightarrow> fed s \<Longrightarrow> fed (fold stream_step es s)"
  by (induction es arbitrary: s) (simp_all add: inv_event fed_event)

lemma fed_run: "list_all (\<lambda>e. \<not> refused e) es \<Longrightarrow> fed (run_stream es)"
  unfolding run_stream_def by (rule fed_fold) (simp_all add: inv_empty)


text \<open>
  Delivery: a message emitted for a recipient, once it arrives, is handed to every client
  connected for that recipient exactly once, in the order they connected, and to nobody else:
  no client of another recipient, of whatever role or identifier, is connected to that
  channel.
\<close>

theorem delivered_to_recipient:
  "let s = run_stream es; (msg, delivered) = stream_emit reply t i event payload now;
       e = \<lparr>ev_target = t, ev_targetId = i, ev_event = event, ev_payload = payload, ev_timestamp = now\<rparr>;
       clients = subscribers_of s (getChannelKey t i)
   in received (handleRedisMessage (fst msg) (snd msg) s) = received s @ map (\<lambda>x. (x, e)) clients \<and> distinct clients \<and>
     (if (t', i') = (t, i) then True else set clients \<inter> set (subscribers_of s (getChannelKey t' i')) = {})"
proof -
  have inv: "stream_inv (run_stream es)" by (rule stream_inv_run)
  have "distinct (subscribers_of (run_stream es) k)" for k
    using inv_parts(1) [OF inv, of k] by (cases "channels (run_stream es) k") (simp_all add: subscribers_of_def)
  moreover have "set (subscribers_of (run_stream es) (getChannelKey t i)) \<inter> set (subscribers_of (run_stream es) (getChannelKey t' i')) = {}"
    if "(t', i') \<noteq> (t, i)"
    using inv_parts(2) [OF inv, of _ "getChannelKey t i" "getChannelKey t' i'"] that by auto
  ultimately show ?thesis by (auto simp: stream_emit_def handleRedisMessage_def Let_def)
qed

end
