(* ===== verification/Stranded_Trips.thy ===== *)
theory Stranded_Trips
  imports Ride_Guarantees
begin

text \<open>
  What \<open>RidesManagementService\<close> does to a trip that has started, where its guards name the
  confirmed ride but not the started one: a cancellation is answered as a success and only
  marks the invitations, and a refusal of the driver takes him off the ride for ever. The
  invariant behind the second fact: from its confirmation on, a ride has no open invitation,
  so nobody can become its driver again.
\<close>

section \<open>No open invitation after the confirmation\<close>

definition no_invitation :: "aride \<Rightarrow> bool" where
  "no_invitation a \<longleftrightarrow> (\<forall>(d, st) \<in> set (a_cands a). st = CONFIRMED \<or> st = CCanceled \<or> st = DECLINED)"

definition way_inv :: "aride \<Rightarrow> bool" where
  "way_inv a \<longleftrightarrow> (a_status a = ENROUTE \<or> a_status a = TRIP_STARTED \<longrightarrow>
     no_invitation a \<and> (\<forall>d. a_driver a = Some d \<longrightarrow> a_cand d a \<noteq> None))"

lemma no_invitation_cand: "no_invitation a \<Longrightarrow> a_cand d a = Some st \<Longrightarrow>
    st = CONFIRMED \<or> st = CCanceled \<or> st = DECLINED"
  using a_cand_in [of d a st] by (fastforce simp: no_invitation_def)

lemma no_invitation_update:
  "(\<And>d st. st = CONFIRMED \<or> st = CCanceled \<or> st = DECLINED \<Longrightarrow>
      f d st = CONFIRMED \<or> f d st = CCanceled \<or> f d st = DECLINED) \<Longrightarrow>
    no_invitation a \<Longrightarrow> no_invitation (a_update_cands f a)"
  by (fastforce simp: no_invitation_def in_update_cands)

lemma no_invitation_confirm: "no_invitation (a_update_cands (confirm_status d) a)"
proof -
  have "confirm_status d d' x \<in> {CONFIRMED, CCanceled, DECLINED}" for d' x
    by (cases x) (auto simp: confirm_status_def)
  then show ?thesis by (fastforce simp: no_invitation_def in_update_cands)
qed

lemma no_invitation_fields [simp]:
  "no_invitation (a\<lparr>a_driver := v\<rparr>) = no_invitation a"
  "no_invitation (a_transition al nx a) = no_invitation a"
  by (simp_all add: no_invitation_def)

lemma way_decline: "way_inv a \<Longrightarrow> way_inv (spec_decline d a)"
  by (auto simp: way_inv_def spec_decline_def a_transition_status a_answer_def a_cand_update
      intro!: no_invitation_update split: option.splits if_splits)

lemma way_accept: "way_inv a \<Longrightarrow> way_inv (spec_accept d a)"
  using no_invitation_cand [of a d]
  by (auto simp: way_inv_def spec_accept_def a_transition_status a_answer_def a_cand_update
      intro!: no_invitation_update split: option.splits if_splits)

lemma way_confirm: "way_inv a \<Longrightarrow> way_inv (spec_confirm r a)"
  by (auto simp: way_inv_def spec_confirm_def a_transition_status a_cand_update no_invitation_confirm
      split: option.splits if_splits)

lemma way_turn_down: "way_inv a \<Longrightarrow> way_inv (spec_turn_down r a)"
  by (auto simp: way_inv_def spec_turn_down_def a_transition_status a_answer_def a_cand_update
      intro!: no_invitation_update split: option.splits if_splits)

lemma way_rest:
  "way_inv a \<Longrightarrow> way_inv (spec_cancel r a)" "way_inv a \<Longrightarrow> way_inv (spec_start d a)"
  "way_inv a \<Longrightarrow> way_inv (spec_complete d a)"
  by (auto simp: way_inv_def spec_cancel_def spec_start_def spec_complete_def a_transition_status
      a_cand_update intro!: no_invitation_update split: if_splits)

lemma protocol_way: "protocol a b \<Longrightarrow> way_inv a \<Longrightarrow> way_inv b"
  by (induction rule: protocol.induct)
    (simp_all add: way_accept way_decline way_confirm way_turn_down way_rest)

lemma life_way: "life a \<Longrightarrow> way_inv a"
proof (induction rule: life.induct)
  case (l_create ds r)
  then show ?case by (simp add: way_inv_def spec_create_def)
qed (rule protocol_way)

section \<open>A stranded trip\<close>

definition stranded :: "aride \<Rightarrow> bool" where
  "stranded a \<longleftrightarrow> a_status a = TRIP_STARTED \<and> a_driver a = None"

lemma protocol_stranded: "protocol a b \<Longrightarrow> way_inv a \<Longrightarrow> stranded a \<Longrightarrow> stranded b"
proof (induction rule: protocol.induct)
  case (p_accept d a)
  then show ?case using no_invitation_cand [of a d]
    by (auto simp: stranded_def way_inv_def spec_accept_def split: option.splits)
qed (auto simp: stranded_def spec_decline_def spec_confirm_def spec_turn_down_def spec_cancel_def
    spec_start_def spec_complete_def a_transition_status split: option.splits)

lemma rides_step_stranded:
  assumes "rides_step s s'" and "life a" and "abs_ride k s = Some a" and "stranded a"
  shows "\<exists>b. abs_ride k s' = Some b \<and> stranded b \<and> a_rider b = a_rider a"
  using assms(1) unfolding rides_step_def
proof (elim conjE disjE exE)
  fix j f
  assume m: "move j f s s'" and f: "\<forall>a. f a = a \<or> protocol a (f a) \<or> (life_inv a \<longrightarrow> f a = a)"
  have "stranded (f a) \<and> a_rider (f a) = a_rider a"
    using f life_life_inv [OF assms(2)] protocol_stranded [of a "f a"] life_way [OF assms(2)] assms(4)
      protocol_rider [of a "f a"] by metis
  then show ?thesis using m assms(3,4) by (cases "j = k") (auto simp: move_def)
next
  fix j rider assume "created rider j s s'"
  then show ?thesis using assms(3,4) by (auto simp: created_def) (metis option.distinct(1))
qed

lemma stranded_later:
  assumes "(world_step re te pe)\<^sup>*\<^sup>* s s'" and "reachable re te pe s" and env: "env_ok re"
    and "abs_ride k s = Some a" and "stranded a"
  shows "reachable re te pe s' \<and> (\<exists>b. abs_ride k s' = Some b \<and> stranded b \<and> a_rider b = a_rider a)"
  using assms(1)
proof induction
  case base
  then show ?case using assms by blast
next
  case (step t u)
  then obtain b where b: "reachable re te pe t" "abs_ride k t = Some b" "stranded b" "a_rider b = a_rider a"
    by blast
  have "life b" using reachable_life [OF b(1) env] b(2) by blast
  moreover have "rides_step t u"
    using world_step_rides [OF step.hyps(2)] reachable_life [OF b(1) env] env by blast
  ultimately show ?case
    using rides_step_stranded [OF _ _ b(2,3)] b(1,4) r_step [OF b(1) step.hyps(2)] by metis
qed

lemma turned_down_stranded:
  assumes "reachable re te pe s" and env: "env_ok re"
    and row: "row_find ride_id k (rides s) = Some r" and "status r = TRIP_STARTED"
    and "driverId r \<noteq> None"
  shows "\<exists>b. abs_ride k (snd (rejectDriverAcceptance k (riderId r) why s)) = Some b \<and> stranded b \<and>
    a_rider b = riderId r"
proof -
  obtain a where a: "abs_ride k s = Some a" "life a" "a_status a = TRIP_STARTED"
      "a_driver a = driverId r" "a_rider a = riderId r"
    using reachable_ride [OF assms(1,2) row] assms(4) by auto
  obtain d where d: "a_driver a = Some d" using a assms(5) by auto
  have "a_cand d a \<noteq> None" using life_way [OF a(2)] a(3) d by (simp add: way_inv_def)
  then have spec: "stranded (spec_turn_down (riderId r) a) \<and> a_rider (spec_turn_down (riderId r) a) = riderId r"
    using a(3,5) d by (simp add: spec_turn_down_def stranded_def a_transition_status)
  have "wf_world s" using reachable_life [OF assms(1,2)] by blast
  then show ?thesis
    using turn_down_implements [of s k "riderId r" why] a(1) spec by (auto simp: implements_def move_def)
qed

text \<open>
  C18. A stranded trip: when the rider turns down the driver of a trip that has started, the
  service takes the driver off the ride but leaves the trip started. From then on, whatever
  anybody does (drivers, rider, jobs, provider, time), the ride stays started and without a
  driver, so it is never completed or cancelled; and every request of that rider for a new
  ride is refused as a conflict, without any effect.
\<close>

theorem trip_stranded:
  assumes "reachable re te pe s" and "env_ok re"
    and "row_find ride_id k (rides s) = Some r" and "status r = TRIP_STARTED"
    and "driverId r \<noteq> None" and "riderId r \<noteq> []"
    and "(world_step re te pe)\<^sup>*\<^sup>* (snd (rejectDriverAcceptance k (riderId r) why s)) s'"
  shows "(\<exists>q. row_find ride_id k (rides s') = Some q \<and> status q = TRIP_STARTED \<and> driverId q = None) \<and>
    createRide re (riderId r) payload s' =
      (Inl (Conflict ''You already have an active ride. Please finish or cancel it before creating a new one.''), s')"
proof -
  let ?s1 = "snd (rejectDriverAcceptance k (riderId r) why s)"
  obtain a where a: "abs_ride k ?s1 = Some a" "stranded a" "a_rider a = riderId r"
    using turned_down_stranded [OF assms(1-5)] by blast
  have "reachable re te pe ?s1" by (rule r_step [OF assms(1) ws_turn_down])
  then obtain b where b: "reachable re te pe s'" "abs_ride k s' = Some b" "stranded b" "a_rider b = riderId r"
    using stranded_later [OF assms(7) _ assms(2) a(1,2)] a(3) by metis
  obtain q where q: "row_find ride_id k (rides s') = Some q" using b(2) by (auto simp: abs_ride_def)
  then have f: "status q = TRIP_STARTED" "driverId q = None" "riderId q = riderId r"
    using abs_ride_fields [OF b(2) q] b(3,4) by (auto simp: stranded_def)
  have "q \<in> set (rides s')" using row_find_SomeD [OF q] by simp
  then have "fst (findUnfinishedRideByRiderId (riderId r) s') \<noteq> Inr None"
    using f by (auto simp: findUnfinishedRideByRiderId_def filter_empty_conv)
  then have "createRide re (riderId r) payload s' =
      (Inl (Conflict ''You already have an active ride. Please finish or cancel it before creating a new one.''), s')"
    using assms(6) by (auto simp: createRide_def run_bind findUnfinishedRideByRiderId_def)
  then show ?thesis using q f by blast
qed

text \<open>The trip of the concrete world, started by its driver.\<close>

definition demo_started :: world where
  "demo_started = snd (startRide demo_track ''1'' ''11'' demo_spot demo_shared)"

lemma demo_started_reachable: "reachable demo_env demo_track pe demo_started"
  unfolding demo_started_def demo_shared_def
  by (rule r_step [OF r_step [OF demo_worlds_reachable(2) ws_track] ws_start])

lemma demo_started_row: "\<exists>r. row_find ride_id ''1'' (rides demo_started) = Some r \<and> riderId r = ''7'' \<and>
    driverId r = Some ''11'' \<and> status r = TRIP_STARTED"
proof -
  have "abs_ride ''1'' demo_started = map_option (spec_start ''11'') (abs_ride ''1'' demo_enroute)"
    using start_goes [OF demo_shared_facts(2) demo_start_ready] demo_shared_facts(3)
    by (auto simp: demo_started_def move_def)
  then have a: "abs_ride ''1'' demo_started = Some (spec_start ''11'' (the (abs_ride ''1'' demo_enroute)))"
    by (simp add: demo_enroute_ride)
  then obtain r where r: "row_find ride_id ''1'' (rides demo_started) = Some r"
    by (auto simp: abs_ride_def)
  show ?thesis using abs_ride_fields [OF a r] r by (auto simp: demo_enroute_ride spec_eval)
qed

theorem trip_stranded_witness:
  "fst (createRide demo_env ''7'' demo_input (snd (rejectDriverAcceptance ''1'' ''7'' None demo_started))) =
     Inl (Conflict ''You already have an active ride. Please finish or cancel it before creating a new one.'')"
proof -
  obtain r where r: "row_find ride_id ''1'' (rides demo_started) = Some r" "riderId r = ''7''"
      "driverId r = Some ''11''" "status r = TRIP_STARTED"
    using demo_started_row by blast
  show ?thesis
    using trip_stranded [OF demo_started_reachable [of undefined] demo_env_ok r(1,4),
        of None "snd (rejectDriverAcceptance ''1'' ''7'' None demo_started)" demo_input] r
    by simp
qed

text \<open>
  A cancellation of a started trip is answered with the ride as if it had succeeded, but the
  trip goes on: only the candidates are marked as cancelled.
\<close>

theorem cancel_started_trip:
  assumes wf: "wf_world s" and a: "abs_ride k s = Some a" "a_status a = TRIP_STARTED" "a_rider a = req_id req"
  shows "\<exists>r b. fst (cancelRide env k req why s) = Inr r \<and> status r = TRIP_STARTED \<and>
    abs_ride k (snd (cancelRide env k req why s)) = Some b \<and> a_status b = TRIP_STARTED \<and>
    a_driver b = a_driver a \<and> (\<forall>(d, st) \<in> set (a_cands b). st = CCanceled)"
proof -
  have spec: "a_status (spec_cancel (req_id req) a) = TRIP_STARTED \<and>
      a_driver (spec_cancel (req_id req) a) = a_driver a \<and>
      (\<forall>(d, st) \<in> set (a_cands (spec_cancel (req_id req) a)). st = CCanceled)"
    using a by (auto simp: spec_cancel_def a_transition_def in_update_cands)
  obtain r where r: "fst (cancelRide env k req why s) = Inr r"
      "row_find ride_id k (rides (snd (cancelRide env k req why s))) = Some r"
      "abs_ride k (snd (cancelRide env k req why s)) = Some (spec_cancel (req_id req) a)"
    using cancel_implements [OF wf, of env k req why] a by (auto simp: implements_def move_def)
  then show ?thesis using spec abs_ride_fields [OF r(3,2)] by metis
qed

theorem cancel_started_trip_witness:
  "\<exists>r. fst (cancelRide demo_env ''1'' \<lparr>req_id = ''7'', req_role = Some RIDER\<rparr> None demo_started) = Inr r \<and>
     status r = TRIP_STARTED"
proof -
  obtain r where r: "row_find ride_id ''1'' (rides demo_started) = Some r" "riderId r = ''7''"
      "status r = TRIP_STARTED"
    using demo_started_row by blast
  obtain a where a: "abs_ride ''1'' demo_started = Some a" "a_status a = TRIP_STARTED" "a_rider a = ''7''"
    using abs_ride_row [OF r(1)] r by auto
  have "wf_world demo_started" using reachable_life [OF demo_started_reachable demo_env_ok] by blast
  from cancel_started_trip [OF this a(1,2), of "\<lparr>req_id = ''7'', req_role = Some RIDER\<rparr>" demo_env None] a(3)
  show ?thesis by auto
qed

end
