(* ===== verification/Route_Estimation.thy ===== *)
theory Route_Estimation
  imports Ride_Guarantees
begin

text \<open>
  The route behind a new ride: the request to OpenRouteService and the reading of its answer
  (\<open>fetchRouteEstimates\<close> and below in \<open>rides/domain/services/rides-management.service.ts\<close>) and
  the worker that runs it for the queue (\<open>rides/domain/processors/ride.processor.ts\<close>). It
  supplies the parameter \<open>route_result\<close> of the ride service.

  Outside the repository: the HTTP reply, the validity of a URL (\<open>new URL\<close>) and its text.
\<close>

section \<open>The answer of the routing service\<close>

datatype jval =
    JvNull
  | JvBool bool
  | JvNum jsnum
  | JvText string
  | JvArray "jval list"
  | JvObject "(string \<times> jval) list"

text \<open>A property of a value: \<open>undefined\<close> (\<open>None\<close>) unless it is an object's own member.\<close>

fun jv_member :: "string \<Rightarrow> jval \<Rightarrow> jval option" where
  "jv_member k (JvObject ms) = map_of ms k"
| "jv_member k _ = None"

fun jv_truthy :: "jval \<Rightarrow> bool" where
  "jv_truthy JvNull = False"
| "jv_truthy (JvBool b) = b"
| "jv_truthy (JvNum n) = (\<not> is_nan n \<and> n \<noteq> Fin 0)"
| "jv_truthy (JvText t) = (t \<noteq> [])"
| "jv_truthy _ = True"

fun jv_object :: "jval \<Rightarrow> bool" where
  "jv_object (JvArray _) = True"
| "jv_object (JvObject _) = True"
| "jv_object JvNull = True"
| "jv_object _ = False"

text \<open>
  \<open>Number(x)\<close>: an array is read through its text, which is that of its only element, empty
  for \<open>null\<close>, and no number for two or more elements.
\<close>

fun jv_number :: "jval \<Rightarrow> jsnum" where
  "jv_number JvNull = Fin 0"
| "jv_number (JvBool b) = Fin (if b then 1 else 0)"
| "jv_number (JvNum n) = n"
| "jv_number (JvText t) = number_of_string t"
| "jv_number (JvArray []) = Fin 0"
| "jv_number (JvArray [JvBool _]) = NaN"
| "jv_number (JvArray [x]) = jv_number x"
| "jv_number (JvArray _) = NaN"
| "jv_number (JvObject _) = NaN"

definition number_or_nan :: "jval option \<Rightarrow> jsnum" where
  "number_or_nan x = (case x of None \<Rightarrow> NaN | Some v \<Rightarrow> jv_number v)"

text \<open>A property of a value that may be \<open>null\<close> or \<open>undefined\<close> already, by \<open>?.\<close>\<close>

definition optional_member :: "string \<Rightarrow> jval option \<Rightarrow> jval option" where
  "optional_member k x = (case x of None \<Rightarrow> None | Some v \<Rightarrow> jv_member k v)"

record route_summary =
  rs_distanceMeters :: jsnum
  rs_durationSeconds :: jsnum

definition parseRouteSummary :: "jval \<Rightarrow> exn + route_summary" where
  "parseRouteSummary payload =
     (if \<not> jv_truthy payload \<or> \<not> jv_object payload
      then Inl (JsError ''OpenRouteService response is empty or invalid'')
      else case jv_member ''features'' payload of
        Some (JvArray (firstFeature # _)) \<Rightarrow>
          (case optional_member ''summary'' (jv_member ''properties'' firstFeature) of
             None \<Rightarrow> Inl (JsError ''OpenRouteService response summary is missing'')
           | Some summary \<Rightarrow>
               if \<not> jv_truthy summary \<or> \<not> jv_object summary
               then Inl (JsError ''OpenRouteService response summary is missing'')
               else (let distance = number_or_nan (jv_member ''distance'' summary);
                         duration = number_or_nan (jv_member ''duration'' summary)
                     in if \<not> is_finite distance \<or> \<not> is_finite duration
                        then Inl (JsError ''OpenRouteService response summary is missing distance or duration'')
                        else Inr \<lparr>rs_distanceMeters = distance, rs_durationSeconds = duration\<rparr>))
      | _ \<Rightarrow> Inl (JsError ''OpenRouteService response does not contain features''))"

section \<open>The request\<close>

definition to_lower_text :: "string \<Rightarrow> string" where
  "to_lower_text = map to_lower"

definition getBooleanConfig :: "config \<Rightarrow> string \<Rightarrow> bool" where
  "getBooleanConfig cfg key =
     (case cfg key of
        CBool v \<Rightarrow> v
      | CNum v \<Rightarrow> v = Fin 1
      | CStr v \<Rightarrow> to_lower_text v \<in> {''true'', ''1'', ''yes'', ''y''}
      | COther \<Rightarrow> False)"

definition text_config :: "config \<Rightarrow> string \<Rightarrow> string option" where
  "text_config cfg key = (case cfg key of CStr v \<Rightarrow> Some v | _ \<Rightarrow> None)"

text \<open>A request: base URL, search parameters and headers, in the order they are set.\<close>

record ors_request =
  or_url :: string
  or_params :: "(string \<times> string) list"
  or_headers :: "(string \<times> string) list"

datatype http_reply = HttpJson jval | HttpError string

record ors_env =
  oe_config :: config
  url_valid :: "string \<Rightarrow> bool"
  coordinate_text :: "jsnum \<Rightarrow> string"
  http_get :: "ors_request \<Rightarrow> http_reply"

definition point_text :: "ors_env \<Rightarrow> jsnum \<times> jsnum \<Rightarrow> string" where
  "point_text env p = coordinate_text env (fst p) @ '','' @ coordinate_text env (snd p)"

definition build_ors_request :: "ors_env \<Rightarrow> string \<Rightarrow> jsnum \<times> jsnum \<Rightarrow> jsnum \<times> jsnum \<Rightarrow> ors_request" where
  "build_ors_request env baseUrl pickup dropoff =
     (let apiKey = text_config (oe_config env) ''ORS_APIKEY'';
          key = (case apiKey of None \<Rightarrow> [] | Some k \<Rightarrow> if k = [] then [] else [k])
      in \<lparr>or_url = baseUrl,
          or_params = [(''start'', point_text env pickup), (''end'', point_text env dropoff)] @
            map (\<lambda>k. (''api_key'', k)) key,
          or_headers = map (\<lambda>k. (''Authorization'', k)) key @
            (if getBooleanConfig (oe_config env) ''SKIP_ORS_CALL'' then [(''xmock'', ''true'')] else [])\<rparr>)"

text \<open>Every error on the way, except a refused request of our own, becomes the same answer.\<close>

fun handleRouteEstimationError :: "exn \<Rightarrow> exn" where
  "handleRouteEstimationError (BadRequest m) = BadRequest m"
| "handleRouteEstimationError _ =
     BadRequest ''Unable to calculate route distance at this time. Please try again later.''"

definition requestRouteSummary ::
  "ors_env \<Rightarrow> jsnum \<times> jsnum \<Rightarrow> jsnum \<times> jsnum \<Rightarrow> exn + route_summary" where
  "requestRouteSummary env pickup dropoff =
     (let baseUrlKey = (if getBooleanConfig (oe_config env) ''SKIP_ORS_CALL'' then ''MOCK_ORS_URL'' else ''ORS_URL'')
      in case text_config (oe_config env) baseUrlKey of
        None \<Rightarrow> Inl (JsError (''Missing configuration for '' @ baseUrlKey))
      | Some baseUrl \<Rightarrow>
          if baseUrl = [] then Inl (JsError (''Missing configuration for '' @ baseUrlKey))
          else if \<not> url_valid env baseUrl then Inl (JsError ''Invalid URL'')
          else (case (case http_get env (build_ors_request env baseUrl pickup dropoff) of
                       HttpError m \<Rightarrow> Inl (JsError m) | HttpJson v \<Rightarrow> parseRouteSummary v) of
                  Inl e \<Rightarrow> Inl (handleRouteEstimationError e)
                | Inr summary \<Rightarrow> Inr summary))"

definition fetchRouteEstimates ::
  "ors_env \<Rightarrow> jsnum \<times> jsnum \<Rightarrow> jsnum \<times> jsnum \<Rightarrow> exn + route_estimates" where
  "fetchRouteEstimates env pickup dropoff =
     (case requestRouteSummary env pickup dropoff of
        Inl e \<Rightarrow> Inl e
      | Inr summary \<Rightarrow> Inr \<lparr>distanceKm = roundDistanceKm (js_div (rs_distanceMeters summary) (Fin 1000)),
          durationSeconds = js_round (rs_durationSeconds summary)\<rparr>)"

section \<open>The worker\<close>

text \<open>
  A job by its name; one of another name returns nothing. What the waiting service gets: the
  result if the job ends in time without an error.
\<close>

definition process_ride_job ::
  "ors_env \<Rightarrow> string \<Rightarrow> jsnum \<times> jsnum \<Rightarrow> jsnum \<times> jsnum \<Rightarrow> exn + route_estimates option" where
  "process_ride_job env name pickup dropoff =
     (if name = ''estimate-route''
      then (case fetchRouteEstimates env pickup dropoff of Inl e \<Rightarrow> Inl e | Inr r \<Rightarrow> Inr (Some r))
      else Inr None)"

definition queue_route ::
  "ors_env \<Rightarrow> (string \<Rightarrow> bool) \<Rightarrow> string \<Rightarrow> jsnum \<times> jsnum \<Rightarrow> jsnum \<times> jsnum \<Rightarrow> route_estimates option" where
  "queue_route env in_time job pickup dropoff =
     (if \<not> in_time job then None
      else case process_ride_job env ''estimate-route'' pickup dropoff of Inl _ \<Rightarrow> None | Inr r \<Rightarrow> r)"

section \<open>Estimates are finite and exact to the metre\<close>

text \<open>The summary of an answer: the member \<open>features[0].properties.summary\<close> when it is an object.\<close>

definition ors_summary :: "jval \<Rightarrow> jval option" where
  "ors_summary v =
     (case jv_member ''features'' v of
        Some (JvArray (f # _)) \<Rightarrow>
          (case optional_member ''summary'' (jv_member ''properties'' f) of
             Some s \<Rightarrow> if jv_truthy s \<and> jv_object s then Some s else None | None \<Rightarrow> None)
      | _ \<Rightarrow> None)"

lemma parse_summary:
  "parseRouteSummary v = Inr r \<longleftrightarrow>
     (\<exists>s. ors_summary v = Some s \<and> is_finite (number_or_nan (jv_member ''distance'' s)) \<and>
        is_finite (number_or_nan (jv_member ''duration'' s)) \<and>
        r = \<lparr>rs_distanceMeters = number_or_nan (jv_member ''distance'' s),
             rs_durationSeconds = number_or_nan (jv_member ''duration'' s)\<rparr>)"
proof -
  have "jv_truthy v \<and> jv_object v" if "jv_member ''features'' v = Some x" for x
    using that by (cases v) simp_all
  then show ?thesis
    by (auto simp: parseRouteSummary_def ors_summary_def Let_def split: option.splits jval.splits list.splits)
qed

lemma parse_error: "parseRouteSummary v = Inl e \<Longrightarrow> \<exists>m. e = JsError m"
  by (auto simp: parseRouteSummary_def Let_def split: option.splits jval.splits list.splits if_splits)

text \<open>A quotient well inside the range of the doubles does not overflow.\<close>

lemma fl64_half_range: "0 \<le> z \<Longrightarrow> z \<le> 2 ^ 1000 \<Longrightarrow> fl64 z < 2 ^ 1024"
proof (cases "1 / 2 ^ 1000 \<le> z")
  case True
  assume z: "0 \<le> z" "z \<le> 2 ^ 1000"
  have "\<bar>fl64 z - z\<bar> \<le> z / 2 ^ 53" by (rule fl64_rel_error [OF True])
  moreover have "z / 2 ^ 53 \<le> z" using z(1) by (simp add: field_simps)
  ultimately have "fl64 z \<le> 2 * z" by linarith
  also have "\<dots> \<le> 2 ^ 1001" using z(2) by simp
  also have "\<dots> < (2::rat) ^ 1024" by (rule power_strict_increasing) simp_all
  finally show ?thesis .
next
  case False
  have "(1::rat) / 2 ^ 1000 \<le> 1" by simp
  then have "z \<le> of_int 1" using False by linarith
  then have "fl64 z \<le> of_int 1" by (intro fl64.fl_le_int) simp_all
  also have "\<dots> < (2::rat) ^ 1024" by simp
  finally show ?thesis .
qed

lemma round64_half_range: "\<bar>z\<bar> \<le> 2 ^ 1000 \<Longrightarrow> is_finite (round64 z)"
  using fl64_half_range [of z] fl64_half_range [of "- z"] fl64_nonneg [of z] fl64_nonneg [of "- z"]
  by (cases "0 \<le> z") (auto simp: round64_def Let_def fl64_uminus)

lemma finite_thousandths: "\<bar>n\<bar> \<le> 10 ^ 24 \<Longrightarrow> is_finite (round64 (of_int n / 1000))"
proof (rule round64_half_range)
  assume "\<bar>n\<bar> \<le> 10 ^ 24"
  then have "of_int \<bar>n\<bar> \<le> (of_int (10 ^ 24) :: rat)" by (simp only: of_int_le_iff)
  then have "\<bar>of_int n / 1000\<bar> \<le> (2 ^ 70 :: rat)" by simp
  also have "\<dots> \<le> 2 ^ 1000" by (rule power_increasing) simp_all
  finally show "\<bar>of_int n / 1000\<bar> \<le> (2 ^ 1000 :: rat)" .
qed

lemma round_distance_finite:
  assumes "is_finite d"
  shows "is_finite (roundDistanceKm d)"
proof -
  obtain y where d: "d = Fin y" using assms by (cases d) simp_all
  show ?thesis
  proof (cases "10 ^ 21 \<le> \<bar>y\<bar>")
    case True
    then show ?thesis by (simp add: roundDistanceKm_def d)
  next
    case False
    define n where "n = \<lfloor>\<bar>y\<bar> * 10 ^ 3 + 1 / 2\<rfloor>"
    have "0 \<le> n" by (simp add: n_def)
    moreover have "\<bar>y\<bar> * 10 ^ 3 + 1 / 2 < of_int (10 ^ 24) + 1" using False by simp
    then have "n \<le> 10 ^ 24" unfolding n_def by (simp only: floor_le_iff)
    moreover define m where "m = (if y < 0 then - n else n)"
    ultimately have "is_finite (round64 (of_int m / 1000))" by (intro finite_thousandths) (auto simp: m_def)
    moreover have "roundDistanceKm d = round64 (of_int m / 1000)"
      using False by (simp add: roundDistanceKm_def d n_def m_def)
    ultimately show ?thesis by simp
  qed
qed

text \<open>A metre count up to \<open>2\<^sup>5\<^sup>0\<close> is stored in kilometres to the metre.\<close>

lemma to_the_metre:
  assumes "0 \<le> x" and "x \<le> 2 ^ 50"
  shows "\<exists>k. roundDistanceKm (js_div (Fin x) (Fin 1000)) = round64 (of_int k / 1000) \<and> 0 \<le> k \<and>
    \<bar>of_int k - x\<bar> \<le> 1"
proof -
  define y where "y = fl64 (x / 1000)"
  have y0: "0 \<le> y" using assms(1) by (simp add: y_def fl64.fl_ge0)
  have near: "\<bar>y * 1000 - x\<bar> \<le> 1 / 8"
  proof (cases "1 / 2 ^ 1000 \<le> x / 1000")
    case True
    have "\<bar>y - x / 1000\<bar> \<le> x / 1000 / 2 ^ 53" unfolding y_def by (rule fl64_rel_error [OF True])
    then have "\<bar>y - x / 1000\<bar> \<le> x / 9007199254740992000" by simp
    moreover have "x \<le> 1125899906842624" using assms(2) by simp
    ultimately show ?thesis by linarith
  next
    case False
    have "(1 / 2 ^ 1000 :: rat) \<le> 1 / 2 ^ 40" by (intro divide_left_mono power_increasing) simp_all
    then have s: "x / 1000 \<le> 1 / 1099511627776" using False by simp
    have "y \<le> fl64 (1 / 1099511627776)" unfolding y_def by (rule fl64_mono [OF s])
    also have "\<dots> = 1 / 1099511627776" by (simp add: js_eval powi_two_eval)
    finally have "y \<le> 1 / 1099511627776" .
    then show ?thesis using y0 s assms(1) by linarith
  qed
  have "x \<le> 1125899906842624" using assms(2) by simp
  then have "y < 1000000000000000000000" using near by linarith
  then have big: "y < 10 ^ 21" by simp
  then have round: "js_div (Fin x) (Fin 1000) = Fin y"
    using y0 by (simp add: round64_def Let_def y_def)
  define k where "k = \<lfloor>y * 1000 + 1 / 2\<rfloor>"
  have "\<bar>of_int k - y * 1000\<bar> \<le> 1 / 2" unfolding k_def by linarith
  then have "\<bar>of_int k - x\<bar> \<le> 1" using near by linarith
  moreover have "roundDistanceKm (Fin y) = round64 (of_int k / 1000)"
    using y0 big by (simp add: roundDistanceKm_def k_def)
  moreover have "0 \<le> k" using y0 by (simp add: k_def)
  ultimately show ?thesis using round by auto
qed

section \<open>What is fetched\<close>

abbreviation no_route :: exn where
  "no_route \<equiv> BadRequest ''Unable to calculate route distance at this time. Please try again later.''"

definition base_url :: "ors_env \<Rightarrow> string option" where
  "base_url env = text_config (oe_config env)
     (if getBooleanConfig (oe_config env) ''SKIP_ORS_CALL'' then ''MOCK_ORS_URL'' else ''ORS_URL'')"

lemma fetch_cases:
  assumes "base_url env = Some url" and "url \<noteq> []" and "url_valid env url"
    and reply: "http_get env (build_ors_request env url p q) = r"
  shows "fetchRouteEstimates env p q =
    (case r of HttpError _ \<Rightarrow> Inl no_route
     | HttpJson v \<Rightarrow> (case parseRouteSummary v of Inl _ \<Rightarrow> Inl no_route
        | Inr sm \<Rightarrow> Inr \<lparr>distanceKm = roundDistanceKm (js_div (rs_distanceMeters sm) (Fin 1000)),
                        durationSeconds = js_round (rs_durationSeconds sm)\<rparr>))"
proof -
  have "handleRouteEstimationError e = no_route" if "parseRouteSummary v = Inl e" for v e
    using parse_error [OF that] by auto
  then show ?thesis
    using assms by (auto simp: fetchRouteEstimates_def requestRouteSummary_def base_url_def Let_def
        split: http_reply.splits sum.splits)
qed

text \<open>
  Reading the routing service: with a valid configuration the answer is used exactly when
  it has an object at \<open>features[0].properties.summary\<close> whose distance and duration read as
  finite numbers; then the estimates are its distance in kilometres rounded to three decimals
  and its duration in whole seconds. Every other answer, and every failure of the call, is
  the same refusal.
\<close>

theorem route_estimates_outcome:
  assumes "base_url env = Some url" and "url \<noteq> []" and "url_valid env url"
  shows "fetchRouteEstimates env p q =
    (case http_get env (build_ors_request env url p q) of
       HttpError _ \<Rightarrow> Inl no_route
     | HttpJson v \<Rightarrow> (case ors_summary v of
         None \<Rightarrow> Inl no_route
       | Some s \<Rightarrow>
           (let d = number_or_nan (jv_member ''distance'' s); t = number_or_nan (jv_member ''duration'' s)
            in if is_finite d \<and> is_finite t
               then Inr \<lparr>distanceKm = roundDistanceKm (js_div d (Fin 1000)), durationSeconds = js_round t\<rparr>
               else Inl no_route)))"
proof (cases "http_get env (build_ors_request env url p q)")
  case (HttpError m)
  then show ?thesis using fetch_cases [OF assms] by simp
next
  case (HttpJson v)
  then have fetch: "fetchRouteEstimates env p q =
      (case parseRouteSummary v of Inl _ \<Rightarrow> Inl no_route
       | Inr sm \<Rightarrow> Inr \<lparr>distanceKm = roundDistanceKm (js_div (rs_distanceMeters sm) (Fin 1000)),
                       durationSeconds = js_round (rs_durationSeconds sm)\<rparr>)"
    using fetch_cases [OF assms] by simp
  show ?thesis
  proof (cases "parseRouteSummary v")
    case (Inl e)
    then have "\<not> (\<exists>r. parseRouteSummary v = Inr r)" by simp
    then have "\<And>s. ors_summary v = Some s \<Longrightarrow> \<not> (is_finite (number_or_nan (jv_member ''distance'' s)) \<and>
        is_finite (number_or_nan (jv_member ''duration'' s)))"
      by (simp add: parse_summary)
    then show ?thesis using HttpJson fetch Inl by (auto simp: Let_def split: option.split)
  next
    case (Inr sm)
    then obtain s where "ors_summary v = Some s" "is_finite (number_or_nan (jv_member ''distance'' s))"
        "is_finite (number_or_nan (jv_member ''duration'' s))"
        "sm = \<lparr>rs_distanceMeters = number_or_nan (jv_member ''distance'' s),
               rs_durationSeconds = number_or_nan (jv_member ''duration'' s)\<rparr>"
      by (auto simp: parse_summary)
    then show ?thesis using HttpJson fetch Inr by (simp add: Let_def)
  qed
qed

definition demo_ors :: ors_env where
  "demo_ors = \<lparr>oe_config = (\<lambda>k. if k = ''ORS_URL'' then CStr ''http://ors/route'' else COther),
     url_valid = (\<lambda>_. True), coordinate_text = (\<lambda>_. ''0''),
     http_get = (\<lambda>_. HttpJson (JvObject [(''features'', JvArray [JvObject [(''properties'', JvObject
       [(''summary'', JvObject [(''distance'', JvNum (Fin 2500)), (''duration'', JvNum (Fin (1199 / 2)))])])]])]))\<rparr>"

lemma demo_base: "base_url demo_ors = Some ''http://ors/route''"
  by (simp add: base_url_def demo_ors_def getBooleanConfig_def text_config_def)

theorem route_estimates_outcome_witness:
  "\<exists>r. fetchRouteEstimates demo_ors (Fin 106, Fin (- 6)) (Fin 107, Fin (- 6)) = Inr r \<and> durationSeconds r = Fin 600"
  using route_estimates_outcome [OF demo_base, of "(Fin 106, Fin (- 6))" "(Fin 107, Fin (- 6))"]
  by (simp add: demo_ors_def ors_summary_def optional_member_def number_or_nan_def Let_def floor_numeral_frac)

text \<open>
  Every route summary that is read gives a pair of finite estimates, which survive the
  queue's JSON and the database columns; the duration is a whole number of seconds; and a
  distance of up to \<open>2\<^sup>5\<^sup>0\<close> metres is stored, in kilometres, with an error of at most a metre.
\<close>

theorem route_estimates_bounds:
  assumes "requestRouteSummary env p q = Inr sm" and "rs_distanceMeters sm = Fin x" and "\<bar>x\<bar> \<le> 2 ^ 1000"
  shows "\<exists>r. fetchRouteEstimates env p q = Inr r \<and> is_finite (distanceKm r) \<and>
    (\<exists>k. durationSeconds r = Fin (of_int k)) \<and>
    (if 0 \<le> x \<and> x \<le> 2 ^ 50
     then \<exists>k. distanceKm r = round64 (of_int k / 1000) \<and> 0 \<le> k \<and> \<bar>of_int k - x\<bar> \<le> 1 else True)"
proof -
  obtain v where "parseRouteSummary v = Inr sm"
    using assms(1)
    by (auto simp: requestRouteSummary_def Let_def split: option.splits if_splits sum.splits http_reply.splits)
  then obtain t where t: "rs_durationSeconds sm = Fin t" by (auto simp: parse_summary is_finite_iff)
  have "\<bar>x / 1000\<bar> \<le> 2 ^ 1000" using assms(3) by (simp add: abs_divide)
  then have "is_finite (roundDistanceKm (js_div (Fin x) (Fin 1000)))"
    by (simp add: round_distance_finite round64_half_range)
  then show ?thesis
    using assms(1,2) t to_the_metre [of x] by (simp add: fetchRouteEstimates_def)
qed

theorem route_estimates_bounds_witness:
  "\<exists>r k. fetchRouteEstimates demo_ors (Fin 106, Fin (- 6)) (Fin 107, Fin (- 6)) = Inr r \<and>
     distanceKm r = round64 (of_int k / 1000) \<and> \<bar>of_int k - (2500 :: rat)\<bar> \<le> 1"
proof -
  have "requestRouteSummary demo_ors (Fin 106, Fin (- 6)) (Fin 107, Fin (- 6)) =
      Inr \<lparr>rs_distanceMeters = Fin 2500, rs_durationSeconds = Fin (1199 / 2)\<rparr>"
    by (simp add: requestRouteSummary_def demo_ors_def parseRouteSummary_def optional_member_def
        number_or_nan_def text_config_def getBooleanConfig_def)
  from route_estimates_bounds [OF this, of 2500] show ?thesis by auto
qed

end
