(* ===== verification/Matching.thy ===== *)
theory Matching
  imports Route_Estimation Location_Guarantees
begin

text \<open>
  Creating a ride over the components that supply it: the route worker behind the queue
  (\<open>Route_Estimation\<close>), the location service (\<open>Geolocation\<close>) and the ride service
  (\<open>Rides_Management\<close>) composed as in \<open>createRide\<close>
  (\<open>rides/domain/services/rides-management.service.ts\<close>).
\<close>

section \<open>The environment the other components provide\<close>

definition matching_env ::
  "ors_env \<Rightarrow> (string \<Rightarrow> bool) \<Rightarrow> georadius \<Rightarrow> jsnum \<Rightarrow> geo_world \<Rightarrow> ride_env \<Rightarrow> ride_env" where
  "matching_env ors in_time search radius geo env =
     env\<lparr>route_result := queue_route ors in_time, nearby := supplied search radius geo\<rparr>"

text \<open>The drivers a search would find: those of the reply that are readable and recently active.\<close>

definition matched :: "georadius \<Rightarrow> jsnum \<Rightarrow> geo_world \<Rightarrow> create_ride_input \<Rightarrow> string list" where
  "matched search radius geo payload =
     map (\<lambda>e. the (entry_id e)) (filter (\<lambda>e. readable e \<and> recently_active geo (the (entry_id e)))
       (search (drivers_geo geo) (fst (ci_pickup payload)) (snd (ci_pickup payload)) radius
          (resolveCandidateLimit (ci_maxDrivers payload))))"

lemma matching_env_ok:
  assumes "\<And>geo lon lat r n. reply_ok (search geo lon lat r n)"
  shows "env_ok (matching_env ors in_time search radius geo env)"
  using supplied_ok [where search = search and env = "env\<lparr>route_result := queue_route ors in_time\<rparr>"
      and radius = radius and s = geo] assms
  by (simp add: matching_env_def)


lemma demo_coordinates: "is_finite (number_of_string ''106'')" "is_finite (number_of_string ''-6'')"
  by (simp_all add: number_of_string_def js_trim_def js_space_def radix_literal_def split_sign.simps
      unsigned_decimal_def is_digit_def digit_val_def read_nat_def ten_powi_def Let_def upt_rec js_simps)


end
