(* ===== verification/Responses.thy ===== *)
theory Responses
  imports Ride_Types
begin

text \<open>
  What the clients are answered: the JSON of a ride (\<open>RideResponseService\<close>,
  \<open>rides/domain/services/ride-response.service.ts\<close>), the envelope around every answer
  (\<open>ResponseInterceptor\<close>, \<open>app/interceptors/response.interceptor.ts\<close>) and the answer to an
  error thrown before the interceptor runs (\<open>CustomExceptionFilter\<close>,
  \<open>app/filters/custom-exception.filter.ts\<close>).

  A JavaScript object is the list of its members in order; a missing member reads as
  \<open>undefined\<close>, here \<open>None\<close>. The text of a date is given by the parameter \<open>toISOString\<close>.
\<close>

section \<open>JSON values\<close>

datatype body =
    VNull
  | VText string
  | VNum jsnum
  | VMoney numtext
  | VInt int
  | VList "body list"
  | VObj "(string \<times> body) list"

fun get_member :: "string \<Rightarrow> body \<Rightarrow> body option" where
  "get_member k (VObj ms) = map_of ms k"
| "get_member k _ = None"

fun delete_member :: "string \<Rightarrow> body \<Rightarrow> body" where
  "delete_member k (VObj ms) = VObj (filter (\<lambda>f. fst f \<noteq> k) ms)"
| "delete_member k b = b"

text \<open>\<open>x ?? null\<close>\<close>

definition or_null :: "('a \<Rightarrow> body) \<Rightarrow> 'a option \<Rightarrow> body" where
  "or_null f x = (case x of None \<Rightarrow> VNull | Some v \<Rightarrow> f v)"

text \<open>A member with an undefined value is not written by \<open>JSON.stringify\<close>.\<close>

definition opt_member :: "string \<Rightarrow> body option \<Rightarrow> (string \<times> body) list" where
  "opt_member k x = (case x of None \<Rightarrow> [] | Some v \<Rightarrow> [(k, v)])"

section \<open>RideResponseService\<close>

fun payment_status_text :: "payment_status \<Rightarrow> string" where
  "payment_status_text PayPending = ''pending''"
| "payment_status_text ON_PROCESS = ''on_process''"
| "payment_status_text PAID = ''paid''"

fun candidate_status_text :: "candidate_status \<Rightarrow> string" where
  "candidate_status_text INVITED = ''invited''"
| "candidate_status_text CAccepted = ''accepted''"
| "candidate_status_text DECLINED = ''declined''"
| "candidate_status_text CONFIRMED = ''confirmed''"
| "candidate_status_text CCanceled = ''canceled''"

definition candidate_response :: "(int \<Rightarrow> string) \<Rightarrow> candidate \<Rightarrow> body" where
  "candidate_response toISOString c = VObj
     [(''driverId'', VText (cand_driverId c)),
      (''status'', VText (candidate_status_text (cand_status c))),
      (''reason'', or_null VText (reason c)),
      (''distanceMeters'', or_null VNum (distanceMeters c)),
      (''respondedAt'', or_null (\<lambda>t. VText (toISOString t)) (respondedAt c)),
      (''createdAt'', VText (toISOString (cand_createdAt c)))]"

definition toRideResponse :: "(int \<Rightarrow> string) \<Rightarrow> ride \<Rightarrow> candidate list option \<Rightarrow> body" where
  "toRideResponse toISOString r cs = VObj (
     [(''id'', VText (ride_id r)),
      (''riderId'', VText (riderId r)),
      (''driverId'', or_null VText (driverId r)),
      (''pickup'', VObj [(''longitude'', VNum (pickupLongitude r)), (''latitude'', VNum (pickupLatitude r))]),
      (''dropoff'', VObj [(''longitude'', VNum (dropoffLongitude r)), (''latitude'', VNum (dropoffLatitude r))]),
      (''status'', VText (ride_status_text (status r))),
      (''fareEstimated'', or_null VMoney (fareEstimated r)),
      (''fareFinal'', or_null VMoney (fareFinal r)),
      (''distanceEstimatedKm'', or_null VNum (distanceEstimatedKm r)),
      (''durationEstimatedSeconds'', or_null VNum (durationEstimatedSeconds r)),
      (''distanceActualKm'', or_null VNum (distanceActualKm r)),
      (''discountPercent'', or_null VNum (ride_discountPercent r)),
      (''discountAmount'', or_null VMoney (ride_discountAmount r)),
      (''appFeeAmount'', or_null VMoney (ride_appFeeAmount r)),
      (''paymentUrl'', or_null VText (paymentUrl r)),
      (''paymentStatus'', or_null (\<lambda>st. VText (payment_status_text st)) (paymentStatus r)),
      (''createdAt'', VText (toISOString (createdAt r)))] @
     (case cs of
        None \<Rightarrow> []
      | Some xs \<Rightarrow> if status r = COMPLETED then []
                   else [(''candidates'', VList (map (candidate_response toISOString) xs))]))"

section \<open>Errors\<close>

text \<open>The status of an exception and its message, as NestJS builds them.\<close>

fun http_status :: "exn \<Rightarrow> nat" where
  "http_status (BadRequest _) = 400"
| "http_status (Unauthorized _) = 401"
| "http_status (Forbidden _) = 403"
| "http_status (NotFound _) = 404"
| "http_status (Conflict _) = 409"
| "http_status (InternalServerError _) = 500"
| "http_status (ServiceUnavailable _) = 503"
| "http_status (JsError _) = 500"

fun error_message :: "exn \<Rightarrow> string" where
  "error_message (BadRequest m) = m"
| "error_message (Unauthorized m) = m"
| "error_message (Forbidden m) = m"
| "error_message (NotFound m) = m"
| "error_message (Conflict m) = m"
| "error_message (InternalServerError m) = m"
| "error_message (ServiceUnavailable m) = m"
| "error_message (JsError m) = m"

definition meta_body :: "nat \<Rightarrow> string \<Rightarrow> body" where
  "meta_body code msg = VObj [(''meta'', VObj [(''code'', VInt (int code)), (''message'', VText msg)])]"

text \<open>\<open>catchError\<close> in the interceptor: the body and status of the new exception.\<close>

definition intercept_error :: "exn \<Rightarrow> nat \<times> body" where
  "intercept_error e =
     (let statusCode = http_status e;
          msg = (if statusCode = 413 then ''File too large. Maximum size allowed is 5MB.''
                 else if error_message e \<noteq> [] then error_message e
                 else ''Internal Server Error'')
      in (statusCode, meta_body statusCode msg))"

text \<open>
  The filter of the exceptions thrown outside the interceptor. An exception of another class
  goes to the framework's own handler (\<open>default_answer\<close>); so does one rethrown because the host
  has a handler.
\<close>

definition custom_exception_filter :: "bool \<Rightarrow> (exn \<Rightarrow> nat \<times> body) \<Rightarrow> exn \<Rightarrow> nat \<times> body" where
  "custom_exception_filter has_handler default_answer e =
     (if http_status e \<notin> {401, 403, 404} then default_answer e
      else if \<not> has_handler
      then (http_status e,
            meta_body (http_status e) (if error_message e \<noteq> [] then error_message e else ''Unauthorized''))
      else default_answer e)"

section \<open>The envelope\<close>

datatype header = NoHeader | OneHeader string | ManyHeaders "string list"

fun includes_text :: "string \<Rightarrow> string \<Rightarrow> bool" where
  "includes_text w [] = (w = [])"
| "includes_text w (c # cs) = (take (length w) (c # cs) = w \<or> includes_text w cs)"

fun acceptsEventStream :: "header \<Rightarrow> bool" where
  "acceptsEventStream NoHeader = False"
| "acceptsEventStream (OneHeader h) = includes_text ''text/event-stream'' h"
| "acceptsEventStream (ManyHeaders hs) = (\<exists>h \<in> set hs. includes_text ''text/event-stream'' h)"

definition is_excluded :: "string list \<Rightarrow> string \<Rightarrow> bool" where
  "is_excluded excludePaths url \<longleftrightarrow> (\<exists>p \<in> set excludePaths. p = url \<or> take (length p) url = p)"

fun defaultMessageResponse :: "nat \<Rightarrow> string" where
  "defaultMessageResponse n =
     (if n = 200 then ''OK'' else if n = 201 then ''Created'' else if n = 202 then ''Accepted''
      else if n = 203 then ''NonAuthoritativeInfo'' else if n = 204 then ''NoContent''
      else if n = 205 then ''ResetContent'' else if n = 206 then ''PartialContent'' else [])"

definition part_of :: "string \<Rightarrow> body \<Rightarrow> (string \<times> body) list" where
  "part_of k b = opt_member k (get_member k b)"

text \<open>
  The members of \<open>meta\<close> after code and message, and the body once its paging members are
  removed: \<open>averageData\<close> and \<open>paginationV2\<close> leave their own member in the body.
\<close>

definition paging :: "body \<Rightarrow> (string \<times> body) list \<times> body" where
  "paging b =
     (case get_member ''pagination'' b of
        Some p \<Rightarrow> (part_of ''totalData'' p @ part_of ''totalPage'' p @ part_of ''limit'' p @ part_of ''offset'' p,
                   delete_member ''pagination'' b)
      | None \<Rightarrow> (case get_member ''totalData'' b of
          Some v \<Rightarrow> ([(''totalData'', v)], delete_member ''totalData'' b)
        | None \<Rightarrow> (case get_member ''averageData'' b of
            Some v \<Rightarrow> ([(''averageData'', v)], delete_member ''totalData'' b)
          | None \<Rightarrow> (case get_member ''paginationV2'' b of
              Some p \<Rightarrow> (part_of ''totalData'' p @ part_of ''totalPage'' p @ part_of ''page'' p,
                         delete_member ''totalData'' b)
            | None \<Rightarrow> ([], b)))))"

text \<open>
  The body of a request that did not throw: \<open>None\<close> is a handler that returned \<open>undefined\<close>. A
  handler that returned \<open>null\<close> makes the interceptor itself throw.
\<close>

definition intercept :: "string list \<Rightarrow> header \<Rightarrow> string \<Rightarrow> nat \<Rightarrow> body option \<Rightarrow> exn + body option" where
  "intercept excludePaths accept url code result =
     (if acceptsEventStream accept then Inr result
      else case result of
        None \<Rightarrow> Inr (Some (VObj [(''message'', VNull)]))
      | Some b0 \<Rightarrow>
          if is_excluded excludePaths url then Inr (Some b0)
          else if b0 = VNull then Inl (JsError ''Cannot read properties of null'')
          else (let msg = (case get_member ''messageResponse'' b0 of
                             None \<Rightarrow> VText (defaultMessageResponse code) | Some v \<Rightarrow> v);
                    b1 = (if get_member ''messageResponse'' b0 = None then b0
                          else delete_member ''messageResponse'' b0);
                    (extra, b2) = paging b1
                in Inr (Some (VObj
                     [(''meta'', VObj ([(''code'', VInt (int code)), (''message'', msg)] @ extra)),
                      (''data'', case get_member ''data'' b2 of Some d \<Rightarrow> d | None \<Rightarrow> b2)]))))"

section \<open>Facts about the envelope\<close>

lemma map_of_filter_key: "k \<noteq> j \<Longrightarrow> map_of (filter (\<lambda>f. fst f \<noteq> j) ms) k = map_of ms k"
  by (induction ms) auto

lemma member_delete [simp]: "k \<noteq> j \<Longrightarrow> get_member k (delete_member j b) = get_member k b"
  by (cases b) (simp_all add: map_of_filter_key)

lemma intercept_plain:
  assumes "\<not> acceptsEventStream accept" and "\<not> is_excluded paths url"
    and "map_of ms ''pagination'' = None" "map_of ms ''totalData'' = None"
      "map_of ms ''averageData'' = None" "map_of ms ''paginationV2'' = None"
    and "map_of ms ''data'' = Some d"
  shows "intercept paths accept url code (Some (VObj ms)) = Inr (Some (VObj
    [(''meta'', VObj [(''code'', VInt (int code)),
        (''message'', case map_of ms ''messageResponse'' of
           None \<Rightarrow> VText (defaultMessageResponse code) | Some v \<Rightarrow> v)]),
     (''data'', d)]))"
proof -
  let ?b = "if map_of ms ''messageResponse'' = None then VObj ms
    else delete_member ''messageResponse'' (VObj ms)"
  have "get_member k ?b = map_of ms k" if "k \<noteq> ''messageResponse''" for k
    using member_delete [OF that, of "VObj ms"] by simp
  then have "paging ?b = ([], ?b)" "get_member ''data'' ?b = Some d"
    using assms(3-7) by (simp_all only: paging_def list.inject char.inject simp_thms) simp_all
  then show ?thesis
    using assms(1,2) by (simp add: intercept_def Let_def del: delete_member.simps)
qed

end
