(* ===== verification/Row_Mapping.thy ===== *)
theory Row_Mapping
  imports Payment Responses
begin

text \<open>
  Between the rows of the database driver and the entities: \<open>mapRideRow\<close>, \<open>mergeRideData\<close>,
  \<open>extractRideParams\<close> and the UPDATE of \<open>updateRide\<close> in
  \<open>rides/infrastructure/repositories/ride.repository.ts\<close>, the candidate rows there and in
  \<open>ride-driver-candidate.repository.ts\<close>, the ride row of \<open>ride-payment.repository.ts\<close>, and the
  INSERT of many tracks in \<open>trip-track.repository.ts\<close>.

  \<open>Ride_Repositories\<close> works on typed rides; here the members of an entity may be
  \<open>undefined\<close> or \<open>null\<close>, and a row is the list of its columns. The results show that the
  typed operations are what the driver rows go through. Outside the repository: the driver
  (a bigint, text or enum column is a text, a \<open>numeric\<close> column the text of a number, here
  \<open>CMoney\<close>, a double or integer column a number, a timestamp a date, a \<open>jsonb\<close> column an object), and the texts and dates of
  values of another kind, the fields of \<open>js_lib\<close>.
\<close>

section \<open>Values and rows\<close>

datatype 'a js = Undef | Null | Val 'a

text \<open>\<open>x ?? y\<close>\<close>

fun js_or :: "'a js \<Rightarrow> 'a js \<Rightarrow> 'a js" where
  "js_or (Val v) _ = Val v"
| "js_or _ y = y"

text \<open>The documents of the JSON columns: a request, the members of a response, a notification.\<close>

datatype json_doc = RequestDoc request_payload | MembersDoc "(string \<times> json) list" | NoticeDoc payment_notification

datatype col = CNull | CText string | CNumber jsnum | CMoney numtext | CDate int | CDoc json_doc

type_synonym row = "(string \<times> col) list"

record js_lib =
  string_of :: "col \<Rightarrow> string"
  date_of :: "col \<Rightarrow> int"

text \<open>A column: \<open>undefined\<close> if the row does not have it.\<close>

fun js_value :: "col \<Rightarrow> col js" where
  "js_value CNull = Null"
| "js_value c = Val c"

definition column :: "row \<Rightarrow> string \<Rightarrow> col js" where
  "column row k = (case map_of row k of None \<Rightarrow> Undef | Some c \<Rightarrow> js_value c)"

fun to_text :: "js_lib \<Rightarrow> col \<Rightarrow> string" where
  "to_text lib (CText t) = t"
| "to_text lib c = string_of lib c"

text \<open>\<open>row.k?.toString?.()\<close>\<close>

definition text_column :: "js_lib \<Rightarrow> row \<Rightarrow> string \<Rightarrow> string js" where
  "text_column lib row k = (case column row k of Val c \<Rightarrow> Val (to_text lib c) | _ \<Rightarrow> Undef)"

fun to_number :: "col \<Rightarrow> jsnum" where
  "to_number CNull = Fin 0"
| "to_number (CText t) = number_of_string t"
| "to_number (CNumber n) = n"
| "to_number (CMoney m) = number_of_text m"
| "to_number (CDate d) = Fin (of_int d)"
| "to_number (CDoc d) = NaN"

text \<open>\<open>Number(row.k1)\<close> if present, else \<open>Number(row.k2)\<close> if present, else the default.\<close>

definition number_column :: "row \<Rightarrow> string \<Rightarrow> string \<Rightarrow> jsnum js \<Rightarrow> jsnum js" where
  "number_column row k1 k2 dflt =
     (case column row k1 of Val c \<Rightarrow> Val (to_number c)
      | _ \<Rightarrow> (case column row k2 of Val c \<Rightarrow> Val (to_number c) | _ \<Rightarrow> dflt))"

fun col_truthy :: "col \<Rightarrow> bool" where
  "col_truthy CNull = False"
| "col_truthy (CText t) = (t \<noteq> [])"
| "col_truthy (CNumber n) = (\<not> is_nan n \<and> n \<noteq> Fin 0)"
| "col_truthy (CMoney _) = True"
| "col_truthy (CDate _) = True"
| "col_truthy (CDoc _) = True"

fun new_date :: "js_lib \<Rightarrow> col \<Rightarrow> int" where
  "new_date lib (CDate d) = d"
| "new_date lib c = date_of lib c"

definition date_or :: "js_lib \<Rightarrow> col js \<Rightarrow> int js \<Rightarrow> int js" where
  "date_or lib c other = (case c of Val v \<Rightarrow> if col_truthy v then Val (new_date lib v) else other | _ \<Rightarrow> other)"

definition date_column :: "js_lib \<Rightarrow> row \<Rightarrow> string \<Rightarrow> string \<Rightarrow> int js \<Rightarrow> int js" where
  "date_column lib row k1 k2 dflt = date_or lib (column row k1) (date_or lib (column row k2) dflt)"

section \<open>RideRepository\<close>

record ride_entity =
  e_id :: "string js"
  e_riderId :: "string js"
  e_driverId :: "string js"
  e_pickupLongitude :: "jsnum js"
  e_pickupLatitude :: "jsnum js"
  e_dropoffLongitude :: "jsnum js"
  e_dropoffLatitude :: "jsnum js"
  e_status :: "ride_status js"
  e_fareEstimated :: "col js"
  e_fareFinal :: "col js"
  e_discountPercent :: "jsnum js"
  e_discountAmount :: "col js"
  e_appFeeAmount :: "col js"
  e_distanceEstimatedKm :: "jsnum js"
  e_durationEstimatedSeconds :: "jsnum js"
  e_distanceActualKm :: "jsnum js"
  e_paymentUrl :: "col js"
  e_paymentStatus :: "col js"
  e_note :: "col js"
  e_cancelReason :: "col js"
  e_createdAt :: "int js"
  e_updatedAt :: "int js"
  e_deletedAt :: "int js"

definition all_ride_statuses :: "ride_status list" where
  "all_ride_statuses = [NYSTART, REQUESTED, CANDIDATES_COMPUTED, ASSIGNED, ACCEPTED, ENROUTE,
     TRIP_STARTED, COMPLETED, CANCELED]"

definition normalizeStatus :: "js_lib \<Rightarrow> col js \<Rightarrow> ride_status option" where
  "normalizeStatus lib st =
     (case st of
        Val c \<Rightarrow> List.find (\<lambda>x. ride_status_text x = map to_lower (to_text lib c)) all_ride_statuses
      | _ \<Rightarrow> None)"

text \<open>\<open>new Ride()\<close> has only undefined members, so every fallback to \<open>ride.x\<close> is \<open>undefined\<close>.\<close>

definition mapRideRow :: "js_lib \<Rightarrow> row \<Rightarrow> ride_entity" where
  "mapRideRow lib row = \<lparr>
     e_id = text_column lib row ''id'',
     e_riderId = js_or (text_column lib row ''rider_id'') (text_column lib row ''riderId''),
     e_driverId = js_or (text_column lib row ''driver_id'') (js_or (text_column lib row ''driverId'') Null),
     e_pickupLongitude = number_column row ''pickup_lon'' ''pickupLongitude'' Undef,
     e_pickupLatitude = number_column row ''pickup_lat'' ''pickupLatitude'' Undef,
     e_dropoffLongitude = number_column row ''dropoff_lon'' ''dropoffLongitude'' Undef,
     e_dropoffLatitude = number_column row ''dropoff_lat'' ''dropoffLatitude'' Undef,
     e_status = Val (case normalizeStatus lib (column row ''status'') of None \<Rightarrow> REQUESTED | Some st \<Rightarrow> st),
     e_fareEstimated = js_or (column row ''fare_estimated'') (js_or (column row ''fareEstimated'') Undef),
     e_fareFinal = js_or (column row ''fare_final'') (js_or (column row ''fareFinal'') Undef),
     e_discountPercent = number_column row ''discount_percent'' ''discountPercent'' Null,
     e_discountAmount = js_or (column row ''discount_amount'') (js_or (column row ''discountAmount'') Undef),
     e_appFeeAmount = js_or (column row ''app_fee_amount'') (js_or (column row ''appFeeAmount'') Undef),
     e_distanceEstimatedKm = number_column row ''distance_estimated_km'' ''distanceEstimatedKm'' Null,
     e_durationEstimatedSeconds =
       number_column row ''duration_estimated_seconds'' ''durationEstimatedSeconds'' Null,
     e_distanceActualKm = number_column row ''distance_actual_km'' ''distanceActualKm'' Null,
     e_paymentUrl = js_or (column row ''payment_url'') (js_or (column row ''paymentUrl'') Null),
     e_paymentStatus = js_or (column row ''payment_status'') (js_or (column row ''paymentStatus'') Null),
     e_note = js_or (column row ''note'') Null,
     e_cancelReason = js_or (column row ''cancel_reason'') (js_or (column row ''cancelReason'') Null),
     e_createdAt = date_column lib row ''created_at'' ''createdAt'' Undef,
     e_updatedAt = date_column lib row ''updated_at'' ''updatedAt'' Undef,
     e_deletedAt = date_column lib row ''deleted_at'' ''deletedAt'' Null\<rparr>"

text \<open>A member of \<open>changes\<close> counts unless it is \<open>undefined\<close>; \<open>null\<close> counts.\<close>

fun overwrite :: "'a js \<Rightarrow> 'a js \<Rightarrow> 'a js" where
  "overwrite Undef current = current"
| "overwrite changed _ = changed"

definition merge_entity :: "ride_entity \<Rightarrow> ride_entity \<Rightarrow> ride_entity" where
  "merge_entity current changes = \<lparr>
     e_id = overwrite (e_id changes) (e_id current),
     e_riderId = overwrite (e_riderId changes) (e_riderId current),
     e_driverId = overwrite (e_driverId changes) (e_driverId current),
     e_pickupLongitude = overwrite (e_pickupLongitude changes) (e_pickupLongitude current),
     e_pickupLatitude = overwrite (e_pickupLatitude changes) (e_pickupLatitude current),
     e_dropoffLongitude = overwrite (e_dropoffLongitude changes) (e_dropoffLongitude current),
     e_dropoffLatitude = overwrite (e_dropoffLatitude changes) (e_dropoffLatitude current),
     e_status = overwrite (e_status changes) (e_status current),
     e_fareEstimated = overwrite (e_fareEstimated changes) (e_fareEstimated current),
     e_fareFinal = overwrite (e_fareFinal changes) (e_fareFinal current),
     e_discountPercent = overwrite (e_discountPercent changes) (e_discountPercent current),
     e_discountAmount = overwrite (e_discountAmount changes) (e_discountAmount current),
     e_appFeeAmount = overwrite (e_appFeeAmount changes) (e_appFeeAmount current),
     e_distanceEstimatedKm = overwrite (e_distanceEstimatedKm changes) (e_distanceEstimatedKm current),
     e_durationEstimatedSeconds =
       overwrite (e_durationEstimatedSeconds changes) (e_durationEstimatedSeconds current),
     e_distanceActualKm = overwrite (e_distanceActualKm changes) (e_distanceActualKm current),
     e_paymentUrl = overwrite (e_paymentUrl changes) (e_paymentUrl current),
     e_paymentStatus = overwrite (e_paymentStatus changes) (e_paymentStatus current),
     e_note = overwrite (e_note changes) (e_note current),
     e_cancelReason = overwrite (e_cancelReason changes) (e_cancelReason current),
     e_createdAt = overwrite (e_createdAt changes) (e_createdAt current),
     e_updatedAt = overwrite (e_updatedAt changes) (e_updatedAt current),
     e_deletedAt = overwrite (e_deletedAt changes) (e_deletedAt current)\<rparr>"

text \<open>A query parameter: \<open>undefined\<close> and \<open>null\<close> are both sent as NULL.\<close>

definition param :: "('a \<Rightarrow> col) \<Rightarrow> 'a js \<Rightarrow> col" where
  "param f x = (case x of Val v \<Rightarrow> f v | _ \<Rightarrow> CNull)"

definition extractRideParams :: "ride_entity \<Rightarrow> col list" where
  "extractRideParams r = [
     param CText (e_riderId r), param CText (e_driverId r),
     param CNumber (e_pickupLongitude r), param CNumber (e_pickupLatitude r),
     param CNumber (e_dropoffLongitude r), param CNumber (e_dropoffLatitude r),
     param (CText \<circ> ride_status_text) (e_status r),
     param id (e_fareEstimated r), param id (e_fareFinal r),
     param CNumber (e_discountPercent r), param id (e_discountAmount r), param id (e_appFeeAmount r),
     param CNumber (e_distanceEstimatedKm r), param CNumber (e_durationEstimatedSeconds r),
     param CNumber (e_distanceActualKm r),
     param id (e_paymentUrl r), param id (e_paymentStatus r), param id (e_note r), param id (e_cancelReason r)]"

text \<open>The SET clause: its columns in the order of the parameters, and \<open>updated_at = NOW()\<close>.\<close>

definition updated_columns :: "string list" where
  "updated_columns = [''rider_id'', ''driver_id'', ''pickup_lon'', ''pickup_lat'', ''dropoff_lon'',
     ''dropoff_lat'', ''status'', ''fare_estimated'', ''fare_final'', ''discount_percent'',
     ''discount_amount'', ''app_fee_amount'', ''distance_estimated_km'', ''duration_estimated_seconds'',
     ''distance_actual_km'', ''payment_url'', ''payment_status'', ''note'', ''cancel_reason'']"

definition set_columns :: "(string \<times> col) list \<Rightarrow> row \<Rightarrow> row" where
  "set_columns sets row = map (\<lambda>(k, v). (k, case map_of sets k of None \<Rightarrow> v | Some v' \<Rightarrow> v')) row"

definition find_row :: "string \<Rightarrow> row list \<Rightarrow> row option" where
  "find_row k rows = List.find (\<lambda>row. column row ''id'' = Val (CText k)) rows"

definition row_updateRide :: "js_lib \<Rightarrow> int \<Rightarrow> ride_entity \<Rightarrow> row list \<Rightarrow> (exn + ride_entity) \<times> row list" where
  "row_updateRide lib now changes rows =
     (case e_id changes of
        Val (c # cs) \<Rightarrow>
          (case find_row (c # cs) rows of
             None \<Rightarrow> (Inl (JsError ''Ride not found while updating''), rows)
           | Some row \<Rightarrow>
               (let merged = merge_entity (mapRideRow lib row) changes;
                    key = (case e_id merged of Val k \<Rightarrow> k | _ \<Rightarrow> []);
                    sets = zip updated_columns (extractRideParams merged) @ [(''updated_at'', CDate now)];
                    rows' = map (\<lambda>x. if column x ''id'' = Val (CText key) then set_columns sets x else x) rows
                in case find_row key rows' of
                     None \<Rightarrow> (Inl (JsError ''Ride not found after update''), rows')
                   | Some persisted \<Rightarrow> (Inr (mapRideRow lib persisted), rows')))
      | _ \<Rightarrow> (Inl (JsError ''Ride id is required for updates''), rows))"

section \<open>Candidates\<close>

record candidate_entity =
  ce_id :: "string js"
  ce_rideId :: "string js"
  ce_driverId :: "string js"
  ce_status :: "col js"
  ce_distanceMeters :: "jsnum js"
  ce_reason :: "col js"
  ce_respondedAt :: "int js"
  ce_createdAt :: "int js"
  ce_updatedAt :: "int js"

text \<open>In the ride repository, after the INSERT of a new ride's candidates.\<close>

definition mapCandidateRow :: "js_lib \<Rightarrow> row \<Rightarrow> candidate_entity" where
  "mapCandidateRow lib row = \<lparr>
     ce_id = text_column lib row ''id'',
     ce_rideId = js_or (text_column lib row ''ride_id'') (text_column lib row ''rideId''),
     ce_driverId = js_or (text_column lib row ''driver_id'') (text_column lib row ''driverId''),
     ce_status = js_or (column row ''status'') Null,
     ce_distanceMeters = (case column row ''distance_meters'' of Val c \<Rightarrow> Val (to_number c) | _ \<Rightarrow> Null),
     ce_reason = js_or (column row ''reason'') Null,
     ce_respondedAt = date_column lib row ''responded_at'' ''respondedAt'' Null,
     ce_createdAt = date_column lib row ''created_at'' ''createdAt'' Undef,
     ce_updatedAt = date_column lib row ''updated_at'' ''updatedAt'' Undef\<rparr>"

text \<open>In the repository of the candidates.\<close>

definition candidate_mapRowToEntity :: "js_lib \<Rightarrow> row \<Rightarrow> candidate_entity" where
  "candidate_mapRowToEntity lib row = \<lparr>
     ce_id = js_or (text_column lib row ''id'') (js_or Undef Null),
     ce_rideId = js_or (text_column lib row ''ride_id'') Null,
     ce_driverId = js_or (text_column lib row ''driver_id'') (js_or (text_column lib row ''driverId'') Null),
     ce_status = js_or (column row ''status'') Null,
     ce_distanceMeters = (case column row ''distance_meters'' of Val c \<Rightarrow> Val (to_number c) | _ \<Rightarrow> Null),
     ce_reason = js_or (column row ''reason'') Null,
     ce_respondedAt = date_or lib (column row ''responded_at'') Null,
     ce_createdAt = date_or lib (column row ''created_at'') Undef,
     ce_updatedAt = date_or lib (column row ''updated_at'') Undef\<rparr>"

section \<open>The rides and candidates of the payment repository\<close>

text \<open>
  Its queries name the columns in camel case and cast the identifiers and amounts to text; the
  values are copied as they come.
\<close>

record ride_view =
  v_id :: "string js"
  v_riderId :: "col js"
  v_driverId :: "col js"
  v_pickupLongitude :: "jsnum js"
  v_pickupLatitude :: "jsnum js"
  v_dropoffLongitude :: "jsnum js"
  v_dropoffLatitude :: "jsnum js"
  v_status :: "col js"
  v_fareEstimated :: "col js"
  v_fareFinal :: "col js"
  v_discountPercent :: "jsnum js"
  v_discountAmount :: "col js"
  v_appFeeAmount :: "col js"
  v_distanceEstimatedKm :: "jsnum js"
  v_durationEstimatedSeconds :: "jsnum js"
  v_distanceActualKm :: "jsnum js"
  v_paymentUrl :: "col js"
  v_paymentStatus :: "col js"
  v_createdAt :: "int js"

definition number_or :: "col js \<Rightarrow> jsnum js \<Rightarrow> jsnum js" where
  "number_or c dflt = (case c of Val v \<Rightarrow> Val (to_number v) | _ \<Rightarrow> dflt)"

definition mapRideRowToEntity :: "js_lib \<Rightarrow> row \<Rightarrow> ride_view" where
  "mapRideRowToEntity lib row = \<lparr>
     v_id = js_or (text_column lib row ''id'') Null,
     v_riderId = js_or (column row ''riderId'') Null,
     v_driverId = js_or (column row ''driverId'') Null,
     v_pickupLongitude = number_or (column row ''pickupLongitude'') Undef,
     v_pickupLatitude = number_or (column row ''pickupLatitude'') Undef,
     v_dropoffLongitude = number_or (column row ''dropoffLongitude'') Undef,
     v_dropoffLatitude = number_or (column row ''dropoffLatitude'') Undef,
     v_status = js_or (column row ''status'') Null,
     v_fareEstimated = js_or (column row ''fareEstimated'') Undef,
     v_fareFinal = js_or (column row ''fareFinal'') Undef,
     v_discountPercent = number_or (column row ''discountPercent'') Null,
     v_discountAmount = js_or (column row ''discountAmount'') Undef,
     v_appFeeAmount = js_or (column row ''appFeeAmount'') Undef,
     v_distanceEstimatedKm = number_or (column row ''distanceEstimatedKm'') Null,
     v_durationEstimatedSeconds = number_or (column row ''durationEstimatedSeconds'') Null,
     v_distanceActualKm = number_or (column row ''distanceActualKm'') Null,
     v_paymentUrl = js_or (column row ''paymentUrl'') Null,
     v_paymentStatus = js_or (column row ''paymentStatus'') Null,
     v_createdAt = date_or lib (column row ''createdAt'') Undef\<rparr>"

record candidate_view =
  cv_driverId :: "col js"
  cv_status :: "col js"
  cv_reason :: "col js"
  cv_distanceMeters :: "jsnum js"
  cv_respondedAt :: "int js"
  cv_createdAt :: "int js"

definition payment_mapCandidateRow :: "js_lib \<Rightarrow> row \<Rightarrow> candidate_view" where
  "payment_mapCandidateRow lib row = \<lparr>
     cv_driverId = js_or (column row ''driverId'') Undef,
     cv_status = js_or (column row ''status'') Undef,
     cv_reason = js_or (column row ''reason'') Null,
     cv_distanceMeters = number_or (column row ''distanceMeters'') Undef,
     cv_respondedAt = date_or lib (column row ''respondedAt'') Undef,
     cv_createdAt = date_or lib (column row ''createdAt'') Undef\<rparr>"

section \<open>Inserting many tracks\<close>

text \<open>
  The statement has eight numbered placeholders for each entry; here the rows of its VALUES
  clause are the lists of their numbers.
\<close>

definition track_params :: "trip_track \<Rightarrow> col list" where
  "track_params e = [CText (tt_rideId e), CText (tt_clientId e),
     CText (case tt_clientRole e of RIDER \<Rightarrow> ''rider'' | DRIVER \<Rightarrow> ''driver''),
     CNumber (tt_longitude e), CNumber (tt_latitude e), CNumber (tt_distanceDeltaMeters e),
     (case tt_totalDistanceMeters e of None \<Rightarrow> CNull | Some x \<Rightarrow> CNumber x), CText (tt_recordedAt e)]"

fun insert_many :: "nat \<Rightarrow> trip_track list \<Rightarrow> nat list list \<times> col list \<Rightarrow> nat list list \<times> col list" where
  "insert_many index [] acc = acc"
| "insert_many index (e # es) (tuples, parameters) =
     (let offset = index * 8
      in insert_many (Suc index) es
           (tuples @ [[offset + 1, offset + 2, offset + 3, offset + 4, offset + 5, offset + 6, offset + 7, offset + 8]],
            parameters @ track_params e))"

definition buildInsertManyStatement :: "trip_track list \<Rightarrow> nat list list \<times> col list" where
  "buildInsertManyStatement entries = insert_many 0 entries ([], [])"

text \<open>What the database inserts: each placeholder replaced by its parameter, \<open>$1\<close> being the first.\<close>

definition bound_rows :: "nat list list \<times> col list \<Rightarrow> col list list" where
  "bound_rows stmt = map (map (\<lambda>n. snd stmt ! (n - 1))) (fst stmt)"

section \<open>Typed rides and their rows\<close>

definition nullable :: "('a \<Rightarrow> col) \<Rightarrow> 'a option \<Rightarrow> col" where
  "nullable f x = (case x of None \<Rightarrow> CNull | Some v \<Rightarrow> f v)"

definition ride_row :: "ride \<Rightarrow> row" where
  "ride_row r = [
     (''id'', CText (ride_id r)), (''rider_id'', CText (riderId r)),
     (''driver_id'', nullable CText (driverId r)),
     (''pickup_lon'', CNumber (pickupLongitude r)), (''pickup_lat'', CNumber (pickupLatitude r)),
     (''dropoff_lon'', CNumber (dropoffLongitude r)), (''dropoff_lat'', CNumber (dropoffLatitude r)),
     (''status'', CText (ride_status_text (status r))),
     (''fare_estimated'', nullable CMoney (fareEstimated r)), (''fare_final'', nullable CMoney (fareFinal r)),
     (''discount_percent'', nullable CNumber (ride_discountPercent r)),
     (''discount_amount'', nullable CMoney (ride_discountAmount r)),
     (''app_fee_amount'', nullable CMoney (ride_appFeeAmount r)),
     (''distance_estimated_km'', nullable CNumber (distanceEstimatedKm r)),
     (''duration_estimated_seconds'', nullable CNumber (durationEstimatedSeconds r)),
     (''distance_actual_km'', nullable CNumber (distanceActualKm r)),
     (''payment_url'', nullable CText (paymentUrl r)),
     (''payment_status'', nullable (CText \<circ> payment_status_text) (paymentStatus r)),
     (''note'', nullable CText (ride_note r)), (''cancel_reason'', nullable CText (cancelReason r)),
     (''created_at'', CDate (createdAt r)), (''updated_at'', CDate (updatedAt r)),
     (''deleted_at'', nullable CDate (deletedAt r))]"

definition or_js :: "'b js \<Rightarrow> ('a \<Rightarrow> 'b) \<Rightarrow> 'a option \<Rightarrow> 'b js" where
  "or_js dflt f x = (case x of None \<Rightarrow> dflt | Some v \<Rightarrow> Val (f v))"

text \<open>The entity of a ride: the four absent amounts are \<open>undefined\<close>, other absent members \<open>null\<close>.\<close>

definition entity_of :: "ride \<Rightarrow> ride_entity" where
  "entity_of r = \<lparr>
     e_id = Val (ride_id r), e_riderId = Val (riderId r), e_driverId = or_js Null id (driverId r),
     e_pickupLongitude = Val (pickupLongitude r), e_pickupLatitude = Val (pickupLatitude r),
     e_dropoffLongitude = Val (dropoffLongitude r), e_dropoffLatitude = Val (dropoffLatitude r),
     e_status = Val (status r),
     e_fareEstimated = or_js Undef CMoney (fareEstimated r), e_fareFinal = or_js Undef CMoney (fareFinal r),
     e_discountPercent = or_js Null id (ride_discountPercent r),
     e_discountAmount = or_js Undef CMoney (ride_discountAmount r),
     e_appFeeAmount = or_js Undef CMoney (ride_appFeeAmount r),
     e_distanceEstimatedKm = or_js Null id (distanceEstimatedKm r),
     e_durationEstimatedSeconds = or_js Null id (durationEstimatedSeconds r),
     e_distanceActualKm = or_js Null id (distanceActualKm r),
     e_paymentUrl = or_js Null CText (paymentUrl r),
     e_paymentStatus = or_js Null (CText \<circ> payment_status_text) (paymentStatus r),
     e_note = or_js Null CText (ride_note r), e_cancelReason = or_js Null CText (cancelReason r),
     e_createdAt = Val (createdAt r), e_updatedAt = Val (updatedAt r),
     e_deletedAt = or_js Null id (deletedAt r)\<rparr>"

lemma column_simps [simp]:
  "column [] k = Undef"
  "column ((k', c) # row) k = (if k' = k then js_value c else column row k)"
  by (simp_all add: column_def)

lemma js_nullable [simp]:
  "js_value (nullable CText t) = or_js Null CText t"
  "js_value (nullable CNumber n) = or_js Null CNumber n"
  "js_value (nullable CMoney m) = or_js Null CMoney m"
  "js_value (nullable CDate d) = or_js Null CDate d"
  "js_value (nullable (CText \<circ> g) x) = or_js Null (CText \<circ> g) x"
  by (simp_all add: nullable_def or_js_def split: option.split)

lemma js_or_or_js [simp]: "js_or (or_js Null f x) d = or_js d f x" "js_or (or_js Undef f x) d = or_js d f x"
  by (simp_all add: or_js_def split: option.split)

lemma case_or_js [simp]:
  "(case or_js Null CText t of Val c \<Rightarrow> Val (to_text lib c) | _ \<Rightarrow> d) = or_js d id t"
  "(case or_js Null CNumber n of Val c \<Rightarrow> Val (to_number c) | _ \<Rightarrow> e) = or_js e id n"
  by (simp_all add: or_js_def split: option.split)

lemma date_or_js [simp]: "date_or lib (or_js Null CDate d) e = or_js e id d" "date_or lib (Val (CDate x)) e = Val x"
  "date_or lib Undef e = e" "date_or lib Null e = e"
  by (simp_all add: date_or_def or_js_def split: option.split)

lemma status_text_inverse:
  "List.find (\<lambda>x. ride_status_text x = map to_lower (ride_status_text st)) all_ride_statuses = Some st"
  by (cases st) (simp_all add: all_ride_statuses_def to_lower_def)

lemma case_or_js_eq [simp]:
  "(case or_js Null CNumber n of Undef \<Rightarrow> d | Null \<Rightarrow> e | Val c \<Rightarrow> Val (to_number c)) = or_js e id n"
  "(case or_js Null CText t of Undef \<Rightarrow> d' | Null \<Rightarrow> e' | Val c \<Rightarrow> Val (to_text lib c)) = or_js e' id t"
  by (simp_all add: or_js_def split: option.split)

lemma normalize_status_text: "normalizeStatus lib (Val (CText (ride_status_text st))) = Some st"
  by (simp add: normalizeStatus_def status_text_inverse)

lemma map_ride_row: "mapRideRow lib (ride_row r) = entity_of r"
  unfolding mapRideRow_def entity_of_def ride_row_def
  by (simp add: text_column_def number_column_def date_column_def normalize_status_text)

lemma param_simps [simp]: "param f (Val v) = f v" "param f (or_js Null g x) = nullable (f \<circ> g) x"
    "param f (or_js Undef g x) = nullable (f \<circ> g) x"
  by (simp_all add: param_def or_js_def nullable_def split: option.split)

lemma overwrite_simps [simp]: "overwrite (Val v) w = Val v" "overwrite (or_js Null f x) w = or_js Null f x"
    "overwrite (or_js Undef f x) (or_js Undef f y) = or_js Undef f (or_current x y)"
  by (simp_all add: or_js_def or_current_def split: option.split)

lemma extract_entity:
  "extractRideParams (merge_entity (entity_of cur) (entity_of r)) =
     map snd (take 19 (tl (ride_row (saved_ride now cur r))))"
  by (simp add: extractRideParams_def merge_entity_def entity_of_def ride_row_def saved_ride_def updated_row_def
      mergeRideData_def comp_def)

lemma updated_columns_row: "updated_columns = map fst (take 19 (tl (ride_row r)))"
  by (simp add: updated_columns_def ride_row_def)

lemma merged_row:
  "set_columns (zip updated_columns (extractRideParams (merge_entity (entity_of cur) (entity_of r))) @
       [(''updated_at'', CDate now)]) (ride_row cur) =
     ride_row (saved_ride now cur r)"
proof -
  have "zip updated_columns (extractRideParams (merge_entity (entity_of cur) (entity_of r))) =
      take 19 (tl (ride_row (saved_ride now cur r)))"
    unfolding extract_entity [of cur r now] updated_columns_row [of "saved_ride now cur r"] by (rule zip_map_fst_snd)
  then show ?thesis
    by (simp add: set_columns_def ride_row_def saved_ride_def updated_row_def mergeRideData_def)
qed

lemma find_ride_row: "find_row k (map ride_row rs) = map_option ride_row (row_find ride_id k rs)"
proof -
  have "column (ride_row r) ''id'' = Val (CText (ride_id r))" for r by (simp add: ride_row_def)
  then show ?thesis by (induction rs) (auto simp: find_row_def)
qed

lemma row_update_found:
  assumes "e_id changes = Val k" and "k \<noteq> []" and "find_row k rows = Some row"
    and "e_id (merge_entity (mapRideRow lib row) changes) = Val key"
    and "map (\<lambda>x. if column x ''id'' = Val (CText key)
           then set_columns (zip updated_columns (extractRideParams (merge_entity (mapRideRow lib row) changes)) @
             [(''updated_at'', CDate now)]) x else x) rows = rows'"
    and "find_row key rows' = Some persisted"
  shows "row_updateRide lib now changes rows = (Inr (mapRideRow lib persisted), rows')"
  using assms by (cases k) (simp_all add: row_updateRide_def Let_def)

lemma distinct_keyD:
  "distinct (map f xs) \<Longrightarrow> x \<in> set xs \<Longrightarrow> y \<in> set xs \<Longrightarrow> f x = f y \<Longrightarrow> x = y"
  by (simp add: distinct_map inj_on_def)

text \<open>
  C20. The typed update is what the driver rows go through: on a table whose identifiers are
  distinct, reading the row, merging the changed entity over it, sending its nineteen
  parameters and reading the row back has the result and the table of \<open>updateRide\<close>; in
  particular an absent amount of the changes keeps the stored one, and any other absent member
  clears it.
\<close>

theorem update_through_rows:
  assumes "distinct (map ride_id (rides s))"
  shows "row_updateRide lib (clock s) (entity_of r) (map ride_row (rides s)) =
    (map_sum id entity_of (fst (updateRide r s)), map ride_row (rides (snd (updateRide r s))))"
proof (cases "ride_id r = []")
  case True
  then show ?thesis by (simp add: row_updateRide_def updateRide_def entity_of_def)
next
  case False
  then obtain c cs where k: "ride_id r = c # cs" by (cases "ride_id r") simp_all
  have id: "e_id (entity_of q) = Val (ride_id q)" for q by (simp add: entity_of_def)
  show ?thesis
  proof (cases "row_find ride_id (ride_id r) (rides s)")
    case None
    then show ?thesis using k by (simp add: row_updateRide_def updateRide_def eff_run id find_ride_row)
  next
    case (Some cur)
    then have cur: "ride_id cur = ride_id r" by (auto dest: row_find_SomeD)
    have only: "q = cur" if "q \<in> set (rides s)" "ride_id q = ride_id r" for q
      by (rule distinct_keyD [OF assms that(1)]) (simp_all add: row_find_SomeD [OF Some] that(2) cur)
    let ?new = "saved_ride (clock s) cur r"
    have col_id: "column (ride_row q) ''id'' = Val (CText (ride_id q))" for q by (simp add: ride_row_def)
    have key: "e_id (merge_entity (entity_of cur) (entity_of r)) = Val (ride_id r)"
      by (simp add: merge_entity_def id)
    have table: "map (\<lambda>x. if column x ''id'' = Val (CText (ride_id r))
          then set_columns (zip updated_columns (extractRideParams (merge_entity (entity_of cur) (entity_of r))) @
            [(''updated_at'', CDate (clock s))]) x else x) (map ride_row (rides s)) =
        map ride_row (row_put ride_id ?new (rides s))"
      using only by (auto simp: row_put_def col_id cur merged_row)
    have "find_row (ride_id r) (map ride_row (row_put ride_id ?new (rides s))) = Some (ride_row ?new)"
      using Some cur by (simp add: find_ride_row row_find_put)
    then have "row_updateRide lib (clock s) (entity_of r) (map ride_row (rides s)) =
        (Inr (mapRideRow lib (ride_row ?new)), map ride_row (row_put ride_id ?new (rides s)))"
      using id [of r] False Some key table
      by (intro row_update_found [where k = "ride_id r" and key = "ride_id r" and row = "ride_row cur"])
        (simp_all only: map_ride_row find_ride_row option.map simp_thms)
    moreover note map_ride_row [of lib ?new]
    ultimately show ?thesis using updateRide_run [OF Some False] by simp
  qed
qed

definition demo_stored :: ride where
  "demo_stored = \<lparr>ride_id = ''1'', riderId = ''7'', driverId = Some ''11'', pickupLongitude = Fin 106,
     pickupLatitude = Fin (- 6), dropoffLongitude = Fin 107, dropoffLatitude = Fin (- 6), status = ACCEPTED,
     fareEstimated = Some (Fixed False 750000 2), fareFinal = None, ride_discountPercent = None,
     ride_discountAmount = None, ride_appFeeAmount = None, distanceEstimatedKm = Some (Fin 3),
     durationEstimatedSeconds = Some (Fin 600), distanceActualKm = None, paymentUrl = None,
     paymentStatus = None, ride_note = None, cancelReason = None, createdAt = 5, updatedAt = 5, deletedAt = None\<rparr>"

theorem update_through_rows_witness:
  "\<forall>lib. snd (row_updateRide lib 9 (entity_of (demo_stored\<lparr>driverId := None, fareEstimated := None\<rparr>)) [ride_row demo_stored]) =
     [ride_row (demo_stored\<lparr>driverId := None, updatedAt := 9\<rparr>)]"
proof
  fix lib :: js_lib
  let ?s = "empty_world\<lparr>clock := 9, rides := [demo_stored]\<rparr>"
  let ?r = "demo_stored\<lparr>driverId := None, fareEstimated := None\<rparr>"
  have "updateRide ?r ?s = (Inr (saved_ride 9 demo_stored ?r), ?s\<lparr>rides := [saved_ride 9 demo_stored ?r]\<rparr>)"
    using updateRide_run [of ?r ?s demo_stored] by (simp add: demo_stored_def)
  moreover have "saved_ride 9 demo_stored ?r = demo_stored\<lparr>driverId := None, updatedAt := 9\<rparr>"
    by (simp add: saved_ride_def updated_row_def mergeRideData_def demo_stored_def)
  ultimately show "snd (row_updateRide lib 9 (entity_of ?r) [ride_row demo_stored]) =
      [ride_row (demo_stored\<lparr>driverId := None, updatedAt := 9\<rparr>)]" using update_through_rows [of ?s lib ?r] by simp
qed

text \<open>
  What is read is what was stored: the entity made of a ride's row has the ride's values,
  \<open>undefined\<close> for its absent amounts and \<open>null\<close> for its other absent members.
\<close>

theorem row_roundtrip: "mapRideRow lib (ride_row r) = entity_of r"
  by (rule map_ride_row)

section \<open>Candidates are read alike\<close>

definition candidate_row :: "candidate \<Rightarrow> row" where
  "candidate_row c = [(''id'', CText (cand_id c)), (''ride_id'', CText (cand_rideId c)),
     (''driver_id'', CText (cand_driverId c)), (''status'', CText (candidate_status_text (cand_status c))),
     (''distance_meters'', nullable CNumber (distanceMeters c)), (''reason'', nullable CText (reason c)),
     (''responded_at'', nullable CDate (respondedAt c)), (''created_at'', CDate (cand_createdAt c)),
     (''updated_at'', CDate (cand_updatedAt c))]"

definition candidate_entity_of :: "candidate \<Rightarrow> candidate_entity" where
  "candidate_entity_of c = \<lparr>ce_id = Val (cand_id c), ce_rideId = Val (cand_rideId c),
     ce_driverId = Val (cand_driverId c), ce_status = Val (CText (candidate_status_text (cand_status c))),
     ce_distanceMeters = or_js Null id (distanceMeters c), ce_reason = or_js Null CText (reason c),
     ce_respondedAt = or_js Null id (respondedAt c), ce_createdAt = Val (cand_createdAt c),
     ce_updatedAt = Val (cand_updatedAt c)\<rparr>"

lemma candidate_readers_agree:
  "mapCandidateRow lib (candidate_row c) = candidate_entity_of c"
  "candidate_mapRowToEntity lib (candidate_row c) = candidate_entity_of c"
  unfolding mapCandidateRow_def candidate_mapRowToEntity_def candidate_row_def candidate_entity_of_def
  by (simp_all add: text_column_def date_column_def)

section \<open>The tracks of a flush are inserted as they are\<close>

lemma insert_many_rows:
  assumes "length parameters = index * 8" and "bound_rows (tuples, parameters) = map track_params entered"
    and "\<forall>v \<in> set tuples. \<forall>n \<in> set v. 1 \<le> n \<and> n \<le> length parameters"
  shows "bound_rows (insert_many index es (tuples, parameters)) = map track_params (entered @ es)"
  using assms
proof (induction es arbitrary: index "tuples" parameters "entered")
  case Nil
  then show ?case by simp
next
  case (Cons e es)
  let ?new = "[index * 8 + 1, index * 8 + 2, index * 8 + 3, index * 8 + 4, index * 8 + 5, index * 8 + 6,
    index * 8 + 7, index * 8 + 8]"
  let ?tuples = "tuples @ [?new]" and ?parameters = "parameters @ track_params e"
  have len: "length ?parameters = Suc index * 8" using Cons.prems(1) by (simp add: track_params_def)
  have old: "map (map (\<lambda>n. ?parameters ! (n - 1))) tuples = map track_params entered"
  proof -
    have "map (map (\<lambda>n. ?parameters ! (n - 1))) tuples = map (map (\<lambda>n. parameters ! (n - 1))) tuples"
      using Cons.prems(3) by (intro map_cong refl) (fastforce simp: nth_append)
    also have "\<dots> = map track_params entered" using Cons.prems(2) by (simp add: bound_rows_def)
    finally show ?thesis .
  qed
  have "map (\<lambda>n. ?parameters ! (n - 1)) ?new = track_params e"
    using Cons.prems(1) by (simp add: nth_append track_params_def)
  then have "bound_rows (?tuples, ?parameters) = map track_params (entered @ [e])"
    using old by (simp add: bound_rows_def)
  moreover have "\<forall>v \<in> set ?tuples. \<forall>n \<in> set v. 1 \<le> n \<and> n \<le> length ?parameters"
    using Cons.prems(1,3) len by fastforce
  ultimately have "bound_rows (insert_many (Suc index) es (?tuples, ?parameters)) =
      map track_params ((entered @ [e]) @ es)"
    by (rule Cons.IH [OF len])
  then show ?case by (simp only: insert_many.simps Let_def append_assoc append.simps)
qed

text \<open>
  The generated INSERT binds every track to its own row: replacing the numbered
  placeholders by the parameters gives the columns of the entries, in their order.
\<close>

theorem insert_binds_tracks:
  "bound_rows (buildInsertManyStatement entries) = map track_params entries"
  using insert_many_rows [of "[]" 0 "[]" "[]" entries] by (simp add: buildInsertManyStatement_def bound_rows_def)

end
