(* ===== verification/Gateway.thy ===== *)
theory Gateway
  imports Authentication Rides_Tracking Payment Geolocation Notification_Stream Responses
begin

text \<open>
  The public edge (\<open>gateway/app/controllers/gateway.controller.ts\<close>): every endpoint with its
  guards, its handler and its answer, on top of the services of the other theories.

  The state of the system is the product of the services' states. A request runs the guards
  on the identity state, then the handler of its endpoint on the state of the service it
  calls, then the interceptor on the result. The two sign-up endpoints are in
  \<open>Gateway_Signup\<close>: they start the sessions of \<open>Client_Signup\<close>, which interleave.
\<close>

section \<open>State and environment\<close>

record gateway_world =
  gw_iam :: auth_world
  gw_rides :: world
  gw_geo :: geo_world
  gw_locations :: "location_job list"
  gw_streams :: "notification stream"

record gateway_env =
  ge_iam :: auth_env
  ge_ride :: ride_env
  ge_track :: track_env
  ge_pay :: pay_env
  ge_iso :: "int \<Rightarrow> string"
  ge_search :: georadius
  ge_radius :: jsnum
  ge_location_error :: "location_job \<Rightarrow> queue_error option"
  ge_location_state :: "string \<Rightarrow> string option"
  ge_simulation_token :: "string option"
  ge_default_answer :: "exn \<Rightarrow> nat \<times> body"

type_synonym 'a geff = "(gateway_world, 'a) eff"

definition in_iam :: "'a aeff \<Rightarrow> 'a geff" where
  "in_iam m = (\<lambda>g. let (r, s) = m (gw_iam g) in (r, g\<lparr>gw_iam := s\<rparr>))"

definition in_rides :: "'a weff \<Rightarrow> 'a geff" where
  "in_rides m = (\<lambda>g. let (r, s) = m (gw_rides g) in (r, g\<lparr>gw_rides := s\<rparr>))"

section \<open>Requests\<close>

record trip_location_dto =
  tl_coordinate :: "jsnum \<times> jsnum"
  tl_accuracyMeters :: "jsnum option"
  tl_recordedAt :: "string option"

definition toParticipantLocation :: "(int \<Rightarrow> string) \<Rightarrow> int \<Rightarrow> trip_location_dto \<Rightarrow> location" where
  "toParticipantLocation toISOString now input =
     \<lparr>longitude = fst (tl_coordinate input), latitude = snd (tl_coordinate input),
      accuracyMeters = tl_accuracyMeters input,
      recordedAt = (case tl_recordedAt input of None \<Rightarrow> toISOString now | Some t \<Rightarrow> t)\<rparr>"

datatype endpoint =
    RequestOtp string client_type
  | SimulateGetOtp string
  | VerifyOtp string client_type string
  | RefreshToken string
  | Logout string
  | UpsertDriverLocation driver_location_input
  | NearbyDrivers jsnum jsnum "jsnum option"
  | StreamNotifications
  | CreateRide create_ride_input
  | GetRide string
  | CancelRide string "string option"
  | AcceptRideAsDriver string
  | RejectRideAsDriver string "string option"
  | ConfirmDriverAcceptance string
  | RejectDriverAcceptance string "string option"
  | StartRide string trip_location_dto
  | RecordTripLocation string trip_location_dto
  | CompleteRide string trip_location_dto "jsnum option"
  | ProceedRidePayment string
  | PaymentNotification payment_notification

record http_request =
  rq_url :: string
  rq_accept :: header
  rq_authorization :: "string option"
  rq_forwardedFor :: header
  rq_remoteAddress :: "string option"
  rq_ip :: "string option"
  rq_simulationToken :: "string option"

subsection \<open>The decorators of the endpoints\<close>

fun auth_of :: "endpoint \<Rightarrow> auth_type list option" where
  "auth_of (RequestOtp _ _) = Some [NoAuth]"
| "auth_of (SimulateGetOtp _) = Some [NoAuth]"
| "auth_of (VerifyOtp _ _ _) = Some [NoAuth]"
| "auth_of (RefreshToken _) = Some [NoAuth]"
| "auth_of (Logout _) = Some [NoAuth]"
| "auth_of (UpsertDriverLocation _) = None"
| "auth_of (NearbyDrivers _ _ _) = None"
| "auth_of (PaymentNotification _) = Some [NoAuth]"
| "auth_of _ = Some [Bearer]"

fun roles_of :: "endpoint \<Rightarrow> client_type list option" where
  "roles_of (UpsertDriverLocation _) = Some [DRIVER]"
| "roles_of (NearbyDrivers _ _ _) = Some [RIDER]"
| "roles_of (CreateRide _) = Some [RIDER]"
| "roles_of (CancelRide _ _) = Some [RIDER]"
| "roles_of (AcceptRideAsDriver _) = Some [DRIVER]"
| "roles_of (RejectRideAsDriver _ _) = Some [DRIVER]"
| "roles_of (ConfirmDriverAcceptance _) = Some [RIDER]"
| "roles_of (RejectDriverAcceptance _ _) = Some [RIDER]"
| "roles_of (StartRide _ _) = Some [DRIVER]"
| "roles_of (RecordTripLocation _ _) = Some [DRIVER, RIDER]"
| "roles_of (CompleteRide _ _ _) = Some [DRIVER]"
| "roles_of (ProceedRidePayment _) = Some [RIDER]"
| "roles_of _ = None"

text \<open>\<open>@HttpCode\<close>; the two streams are GET requests without one.\<close>

fun code_of :: "endpoint \<Rightarrow> nat" where
  "code_of (RecordTripLocation _ _) = 202"
| "code_of _ = 200"

section \<open>The caller\<close>

definition getClientId :: "auth_client option \<Rightarrow> exn + string" where
  "getClientId client =
     (case client of
        None \<Rightarrow> Inl (Unauthorized ''Client identifier not found in request'')
      | Some c \<Rightarrow> Inr (ac_sub c))"

definition client_role :: "auth_client option \<Rightarrow> client_type option" where
  "client_role client = (case client of None \<Rightarrow> None | Some c \<Rightarrow> ac_role c)"

text \<open>\<open>{ id: this.getClientId(client), role: client.role }\<close>\<close>

definition requester :: "auth_client option \<Rightarrow> exn + requesting_client" where
  "requester client =
     (case getClientId client of
        Inl e \<Rightarrow> Inl e | Inr i \<Rightarrow> Inr \<lparr>req_id = i, req_role = client_role client\<rparr>)"

definition trimmed :: "string option \<Rightarrow> string" where
  "trimmed x = (case x of None \<Rightarrow> [] | Some t \<Rightarrow> js_trim t)"

definition extractClientIp :: "http_request \<Rightarrow> string" where
  "extractClientIp rq =
     (let forwarded = (case rq_forwardedFor rq of
            OneHeader h \<Rightarrow> js_trim (hd (split_on (CHR '','') h)) | _ \<Rightarrow> [])
      in if forwarded \<noteq> [] then forwarded
         else if trimmed (rq_remoteAddress rq) \<noteq> [] then trimmed (rq_remoteAddress rq)
         else trimmed (rq_ip rq))"

section \<open>Handlers\<close>

text \<open>
  What a handler leaves: a body, no body with the cookies it has set, or the stream of the
  given subject.
\<close>

datatype result = Body body | NoBody "(string \<times> string) list" | Stream nat

definition reply :: "string \<Rightarrow> body \<Rightarrow> result" where
  "reply msg d = Body (VObj [(''messageResponse'', VText msg), (''data'', d)])"

definition status_reply :: "string \<Rightarrow> body \<Rightarrow> result" where
  "status_reply msg d = Body (VObj [(''statusCode'', VInt 200), (''message'', VText msg),
     (''error'', VNull), (''data'', d)])"

definition token_cookies :: "tokens \<Rightarrow> result" where
  "token_cookies t = NoBody [(''accesstoken'', tk_accessToken t), (''refreshtoken'', tk_refreshToken t)]"

definition ride_json :: "(int \<Rightarrow> string) \<Rightarrow> ride \<Rightarrow> body" where
  "ride_json toISOString r = VObj (
     [(''id'', VText (ride_id r)), (''riderId'', VText (riderId r)),
      (''driverId'', or_null VText (driverId r)),
      (''pickupLongitude'', VNum (pickupLongitude r)), (''pickupLatitude'', VNum (pickupLatitude r)),
      (''dropoffLongitude'', VNum (dropoffLongitude r)), (''dropoffLatitude'', VNum (dropoffLatitude r)),
      (''status'', VText (ride_status_text (status r)))] @
     opt_member ''fareEstimated'' (map_option VMoney (fareEstimated r)) @
     opt_member ''fareFinal'' (map_option VMoney (fareFinal r)) @
     [(''discountPercent'', or_null VNum (ride_discountPercent r))] @
     opt_member ''discountAmount'' (map_option VMoney (ride_discountAmount r)) @
     opt_member ''appFeeAmount'' (map_option VMoney (ride_appFeeAmount r)) @
     [(''distanceEstimatedKm'', or_null VNum (distanceEstimatedKm r)),
      (''durationEstimatedSeconds'', or_null VNum (durationEstimatedSeconds r)),
      (''distanceActualKm'', or_null VNum (distanceActualKm r)),
      (''paymentUrl'', or_null VText (paymentUrl r)),
      (''paymentStatus'', or_null (\<lambda>x. VText (payment_status_text x)) (paymentStatus r)),
      (''note'', or_null VText (ride_note r)), (''cancelReason'', or_null VText (cancelReason r)),
      (''createdAt'', VText (toISOString (createdAt r))),
      (''updatedAt'', VText (toISOString (updatedAt r))),
      (''deletedAt'', or_null (\<lambda>t. VText (toISOString t)) (deletedAt r))])"

definition candidate_json :: "(int \<Rightarrow> string) \<Rightarrow> candidate \<Rightarrow> body" where
  "candidate_json toISOString c = VObj
     [(''id'', VText (cand_id c)), (''rideId'', VText (cand_rideId c)),
      (''driverId'', VText (cand_driverId c)), (''status'', VText (candidate_status_text (cand_status c))),
      (''distanceMeters'', or_null VNum (distanceMeters c)), (''reason'', or_null VText (reason c)),
      (''respondedAt'', or_null (\<lambda>t. VText (toISOString t)) (respondedAt c)),
      (''createdAt'', VText (toISOString (cand_createdAt c))),
      (''updatedAt'', VText (toISOString (cand_updatedAt c)))]"

definition found_json :: "found_driver \<Rightarrow> body" where
  "found_json d = VObj ([(''driverId'', VText (fn_driverId d)), (''distanceMeters'', VNum (fn_distanceMeters d))] @
     opt_member ''accuracyMeters'' (map_option VNum (fn_accuracyMeters d)) @
     opt_member ''updatedAt'' (map_option VText (fn_updatedAt d)))"

definition payment_json :: "formatted_detail \<Rightarrow> body" where
  "payment_json d = VObj
     [(''id'', VText (fd_id d)), (''provider'', VText (fd_provider d)),
      (''status'', VText (detail_status_text (fd_status d))), (''token'', or_null VText (fd_token d)),
      (''redirectUrl'', or_null VText (fd_redirectUrl d)), (''orderId'', or_null VText (fd_orderId d)),
      (''providerTransactionId'', or_null VText (fd_providerTransactionId d))]"

text \<open>\<open>{ ...toRideResponse(ride), payment }\<close>\<close>

fun with_member :: "string \<Rightarrow> body \<Rightarrow> body \<Rightarrow> body" where
  "with_member k v (VObj ms) = VObj (ms @ [(k, v)])"
| "with_member k v b = b"

text \<open>An error of the location queue reaches the interceptor as a plain error.\<close>

definition queue_exn :: "queue_error \<Rightarrow> exn" where
  "queue_exn e = JsError (qe_message e)"

definition gw_upsertDriverLocation ::
  "gateway_env \<Rightarrow> string \<Rightarrow> driver_location_input \<Rightarrow> result geff" where
  "gw_upsertDriverLocation env driver dto =
     (\<lambda>g. case upsertDriverLocation (ge_iso env) (ge_location_error env) (ge_location_state env) driver dto
              (geo_now (gw_geo g)) (gw_locations g) of
        (Inl e, q) \<Rightarrow> (Inl (queue_exn e), g\<lparr>gw_locations := q\<rparr>)
      | (Inr _, q) \<Rightarrow> (Inr (reply ''processing update location'' (VObj [])), g\<lparr>gw_locations := q\<rparr>))"

definition open_stream :: "stream_target \<Rightarrow> string \<Rightarrow> result geff" where
  "open_stream t i =
     (\<lambda>g. let (x, s) = subscribe t i (gw_streams g) in (Inr (Stream x), g\<lparr>gw_streams := s\<rparr>))"

definition simulateGetOtp :: "gateway_env \<Rightarrow> http_request \<Rightarrow> string \<Rightarrow> result geff" where
  "simulateGetOtp env rq m =
     (if \<not> truthy (ge_simulation_token env) then throwE (Forbidden ''OTP simulation stream is disabled.'')
      else if rq_simulationToken rq \<noteq> ge_simulation_token env
      then throwE (Unauthorized ''Invalid OTP simulation token.'')
      else open_stream OtpSimulationTarget m)"

definition streamNotifications :: "auth_client option \<Rightarrow> result geff" where
  "streamNotifications client =
     bindE (liftE (getClientId client)) (\<lambda>clientId.
       case client_role client of
         None \<Rightarrow> throwE (Unauthorized ''Client role not found in request'')
       | Some role \<Rightarrow> open_stream (if role = DRIVER then DriverTarget else RiderTarget) clientId)"

definition gw_createRide :: "gateway_env \<Rightarrow> auth_client option \<Rightarrow> create_ride_input \<Rightarrow> result geff" where
  "gw_createRide env client dto =
     bindE (liftE (getClientId client)) (\<lambda>rider.
     bindE (in_rides (createRide (ge_ride env) rider dto)) (\<lambda>(r, cs).
       returnE (reply ''Ride requested'' (VObj [(''ride'', ride_json (ge_iso env) r),
         (''candidates'', VList (map (candidate_json (ge_iso env)) cs))]))))"

definition getRide :: "gateway_env \<Rightarrow> auth_client option \<Rightarrow> string \<Rightarrow> result geff" where
  "getRide env client k =
     bindE (liftE (requester client)) (\<lambda>req.
     bindE (in_rides (getRideById k req)) (\<lambda>r.
     bindE (if status r \<noteq> COMPLETED
            then bindE (in_rides (listRideCandidates (ride_id r))) (\<lambda>cs. returnE (Some cs))
            else returnE None) (\<lambda>cs.
       returnE (reply ''Ride retrieved'' (toRideResponse (ge_iso env) r cs)))))"

definition gw_cancelRide :: "gateway_env \<Rightarrow> auth_client option \<Rightarrow> string \<Rightarrow> string option \<Rightarrow> result geff" where
  "gw_cancelRide env client k why =
     bindE (liftE (requester client)) (\<lambda>req.
     bindE (in_rides (cancelRide (ge_ride env) k req why)) (\<lambda>r.
       returnE (status_reply ''Ride cancelled'' (toRideResponse (ge_iso env) r None))))"

definition acceptRideAsDriver :: "gateway_env \<Rightarrow> auth_client option \<Rightarrow> string \<Rightarrow> result geff" where
  "acceptRideAsDriver env client k =
     bindE (liftE (getClientId client)) (\<lambda>driver.
     bindE (in_rides (acceptRideByDriver k driver)) (\<lambda>r.
       returnE (status_reply ''Ride accepted by driver'' (toRideResponse (ge_iso env) r None))))"

definition rejectRideAsDriver ::
  "gateway_env \<Rightarrow> auth_client option \<Rightarrow> string \<Rightarrow> string option \<Rightarrow> result geff" where
  "rejectRideAsDriver env client k why =
     bindE (liftE (getClientId client)) (\<lambda>driver.
     bindE (in_rides (rejectRideByDriver k driver why)) (\<lambda>r.
       returnE (status_reply ''Ride rejected by driver'' (toRideResponse (ge_iso env) r None))))"

definition gw_confirmDriverAcceptance :: "gateway_env \<Rightarrow> auth_client option \<Rightarrow> string \<Rightarrow> result geff" where
  "gw_confirmDriverAcceptance env client k =
     bindE (liftE (getClientId client)) (\<lambda>rider.
     bindE (in_rides (confirmDriverAcceptance k rider)) (\<lambda>r.
       returnE (status_reply ''Ride confirmed by rider'' (toRideResponse (ge_iso env) r None))))"

definition gw_rejectDriverAcceptance ::
  "gateway_env \<Rightarrow> auth_client option \<Rightarrow> string \<Rightarrow> string option \<Rightarrow> result geff" where
  "gw_rejectDriverAcceptance env client k why =
     bindE (liftE (getClientId client)) (\<lambda>rider.
     bindE (in_rides (rejectDriverAcceptance k rider why)) (\<lambda>r.
       returnE (status_reply ''Ride rejected by rider'' (toRideResponse (ge_iso env) r None))))"

definition gw_startRide ::
  "gateway_env \<Rightarrow> auth_client option \<Rightarrow> string \<Rightarrow> trip_location_dto \<Rightarrow> result geff" where
  "gw_startRide env client k dto =
     bindE (liftE (getClientId client)) (\<lambda>driver.
     bindE (readE (\<lambda>g. toParticipantLocation (ge_iso env) (clock (gw_rides g)) dto)) (\<lambda>loc.
     bindE (in_rides (startRide (ge_track env) k driver loc)) (\<lambda>r.
       returnE (reply ''Ride started'' (toRideResponse (ge_iso env) r None)))))"

definition gw_recordTripLocation ::
  "gateway_env \<Rightarrow> auth_client option \<Rightarrow> string \<Rightarrow> trip_location_dto \<Rightarrow> result geff" where
  "gw_recordTripLocation env client k dto =
     bindE (liftE (requester client)) (\<lambda>req.
     bindE (readE (\<lambda>g. toParticipantLocation (ge_iso env) (clock (gw_rides g)) dto)) (\<lambda>loc.
     bindE (in_rides (recordTripLocation (ge_track env) k req loc)) (\<lambda>_.
       returnE (reply ''Location recorded'' (VObj [])))))"

definition gw_completeRide ::
  "gateway_env \<Rightarrow> auth_client option \<Rightarrow> string \<Rightarrow> trip_location_dto \<Rightarrow> jsnum option \<Rightarrow> result geff" where
  "gw_completeRide env client k dto discount =
     bindE (liftE (requester client)) (\<lambda>req.
     bindE (readE (\<lambda>g. toParticipantLocation (ge_iso env) (clock (gw_rides g)) dto)) (\<lambda>loc.
     bindE (in_rides (completeRide (ge_track env) k req loc discount)) (\<lambda>r.
       returnE (reply ''Ride completed'' (toRideResponse (ge_iso env) r None)))))"

definition gw_proceedRidePayment :: "gateway_env \<Rightarrow> auth_client option \<Rightarrow> string \<Rightarrow> result geff" where
  "gw_proceedRidePayment env client k =
     bindE (liftE (getClientId client)) (\<lambda>rider.
     bindE (in_rides (proceedRidePayment (ge_pay env) k rider)) (\<lambda>(r, payment).
       returnE (reply ''Payment initiated''
         (with_member ''payment'' (or_null payment_json payment) (toRideResponse (ge_iso env) r None)))))"

definition gw_handlePaymentNotification ::
  "gateway_env \<Rightarrow> http_request \<Rightarrow> payment_notification \<Rightarrow> result geff" where
  "gw_handlePaymentNotification env rq payload =
     bindE (in_rides (handlePaymentNotification (ge_pay env) payload (extractClientIp rq))) (\<lambda>_.
       returnE (Body (VObj [(''messageResponse'',
         VText (''Payment info for order '' @ pn_order_id payload @ '' is successfully updated''))])))"

definition gw_getNearbyDrivers :: "gateway_env \<Rightarrow> jsnum \<Rightarrow> jsnum \<Rightarrow> jsnum option \<Rightarrow> result geff" where
  "gw_getNearbyDrivers env lon0 lat0 limit =
     bindE (readE (\<lambda>g. getNearbyDrivers (ge_search env) (ge_radius env) lon0 lat0 limit (gw_geo g))) (\<lambda>items.
       returnE (Body (VObj [(''data'', VObj [(''items'', VList (map found_json items))])])))"

fun handler :: "gateway_env \<Rightarrow> http_request \<Rightarrow> auth_client option \<Rightarrow> endpoint \<Rightarrow> result geff" where
  "handler env rq client (RequestOtp i t) =
     bindE (in_iam (getOtp (ge_iam env) i t)) (\<lambda>m. returnE (Body (VText m)))"
| "handler env rq client (SimulateGetOtp m) = simulateGetOtp env rq m"
| "handler env rq client (VerifyOtp i t code) =
     bindE (in_iam (verifyOtp (ge_iam env) i t code)) (\<lambda>ts. returnE (token_cookies ts))"
| "handler env rq client (RefreshToken tk) =
     bindE (in_iam (getRefreshToken (ge_iam env) tk)) (\<lambda>ts. returnE (token_cookies ts))"
| "handler env rq client (Logout tk) =
     bindE (in_iam (logout (ge_iam env) tk)) (\<lambda>m. returnE (Body (VText m)))"
| "handler env rq client (UpsertDriverLocation dto) =
     bindE (liftE (getClientId client)) (\<lambda>driver. gw_upsertDriverLocation env driver dto)"
| "handler env rq client (NearbyDrivers lon0 lat0 limit) = gw_getNearbyDrivers env lon0 lat0 limit"
| "handler env rq client StreamNotifications = streamNotifications client"
| "handler env rq client (CreateRide dto) = gw_createRide env client dto"
| "handler env rq client (GetRide k) = getRide env client k"
| "handler env rq client (CancelRide k why) = gw_cancelRide env client k why"
| "handler env rq client (AcceptRideAsDriver k) = acceptRideAsDriver env client k"
| "handler env rq client (RejectRideAsDriver k why) = rejectRideAsDriver env client k why"
| "handler env rq client (ConfirmDriverAcceptance k) = gw_confirmDriverAcceptance env client k"
| "handler env rq client (RejectDriverAcceptance k why) = gw_rejectDriverAcceptance env client k why"
| "handler env rq client (StartRide k dto) = gw_startRide env client k dto"
| "handler env rq client (RecordTripLocation k dto) = gw_recordTripLocation env client k dto"
| "handler env rq client (CompleteRide k dto discount) = gw_completeRide env client k dto discount"
| "handler env rq client (ProceedRidePayment k) = gw_proceedRidePayment env client k"
| "handler env rq client (PaymentNotification payload) = gw_handlePaymentNotification env rq payload"

section \<open>Serving a request\<close>

record http_answer =
  an_status :: nat
  an_body :: "body option"
  an_cookies :: "(string \<times> string) list"
  an_stream :: "nat option"

text \<open>\<open>main.ts\<close>\<close>

definition excludedPaths :: "string list" where
  "excludedPaths = [''/healthz'', ''/metrics'']"

definition refusal :: "nat \<times> body \<Rightarrow> http_answer" where
  "refusal p = \<lparr>an_status = fst p, an_body = Some (snd p), an_cookies = [], an_stream = None\<rparr>"

text \<open>An error of a handler passes the interceptor unless the client asked for an event stream.\<close>

definition handler_error :: "gateway_env \<Rightarrow> http_request \<Rightarrow> exn \<Rightarrow> http_answer" where
  "handler_error env rq e = refusal
     (if acceptsEventStream (rq_accept rq)
      then custom_exception_filter False (ge_default_answer env) e else intercept_error e)"

text \<open>
  A stream asked for without the event-stream header is awaited by the interceptor until it
  ends, so nothing of it is sent.
\<close>

definition answer_of :: "gateway_env \<Rightarrow> http_request \<Rightarrow> endpoint \<Rightarrow> exn + result \<Rightarrow> http_answer" where
  "answer_of env rq ep r =
     (case r of
        Inl e \<Rightarrow> handler_error env rq e
      | Inr (Stream x) \<Rightarrow> \<lparr>an_status = code_of ep, an_body = None, an_cookies = [],
          an_stream = (if acceptsEventStream (rq_accept rq) then Some x else None)\<rparr>
      | Inr (NoBody cs) \<Rightarrow>
          (case intercept excludedPaths (rq_accept rq) (rq_url rq) (code_of ep) None of
             Inl e \<Rightarrow> refusal (ge_default_answer env e)
           | Inr b \<Rightarrow> \<lparr>an_status = code_of ep, an_body = b, an_cookies = cs, an_stream = None\<rparr>)
      | Inr (Body b) \<Rightarrow>
          (case intercept excludedPaths (rq_accept rq) (rq_url rq) (code_of ep) (Some b) of
             Inl e \<Rightarrow> refusal (ge_default_answer env e)
           | Inr b' \<Rightarrow> \<lparr>an_status = code_of ep, an_body = b', an_cookies = [], an_stream = None\<rparr>))"

definition serve :: "gateway_env \<Rightarrow> http_request \<Rightarrow> endpoint \<Rightarrow> gateway_world \<Rightarrow> http_answer \<times> gateway_world" where
  "serve env rq ep g =
     (case in_iam (guarded (ge_iam env) (auth_of ep) (roles_of ep) (rq_authorization rq)) g of
        (Inl e, g1) \<Rightarrow> (refusal (custom_exception_filter False (ge_default_answer env) e), g1)
      | (Inr client, g1) \<Rightarrow>
          (let (r, g2) = handler env rq client ep g1 in (answer_of env rq ep r, g2)))"

end
