(* ===== verification/Gateway_Guarantees.thy ===== *)
theory Gateway_Guarantees
  imports Gateway Stranded_Trips
begin

text \<open>
  What the gateway guarantees: the guards admit exactly the requests of a live session with
  the endpoint's role, and leave everything unchanged otherwise; whatever is requested, the
  rides stay in a reachable world, so that what is proved of reachable worlds holds for all
  traffic; every answer has one of three shapes; and whom a payment notification is believed
  to come from.
\<close>

section \<open>Running a part of the state\<close>

lemma in_iam_run: "m (gw_iam g) = (r, s) \<Longrightarrow> in_iam m g = (r, g\<lparr>gw_iam := s\<rparr>)"
  by (simp add: in_iam_def)

lemma in_rides_run: "in_rides m g = (fst (m (gw_rides g)), g\<lparr>gw_rides := snd (m (gw_rides g))\<rparr>)"
  by (simp add: in_rides_def split: prod.split)

section \<open>Sessions\<close>

text \<open>
  The live session a header stands for: a token that verifies, for a client that exists,
  whose access identifier is the one the cache holds for the client.
\<close>

definition client_rows :: "claims \<Rightarrow> auth_world \<Rightarrow> client_row list" where
  "client_rows c s = (if cm_role c = Some RIDER then findRiderbyId (cm_sub c) (profiles s)
     else findDriverbyId (cm_sub c) (profiles s))"

definition session_of :: "auth_env \<Rightarrow> auth_world \<Rightarrow> string option \<Rightarrow> auth_client option" where
  "session_of env s authorization =
     (case extractTokenFromHeader authorization of
        None \<Rightarrow> None
      | Some tk \<Rightarrow> if tk = [] then None else
          (case jwt_verify env (jwt_secret env) (au_now s) tk of
             None \<Rightarrow> None
           | Some c \<Rightarrow> if client_rows c s \<noteq> [] \<and>
                cached s (getAccessTokenKey (cm_role c) (cm_sub c)) = cm_accessTokenId c
               then Some \<lparr>ac_sub = cm_sub c, ac_role = cm_role c, ac_msisdn = cl_msisdn (hd (client_rows c s))\<rparr>
               else None))"

definition refused_login :: "string option \<Rightarrow> exn" where
  "refused_login authorization =
     (if truthy (extractTokenFromHeader authorization) then Unauthorized ''Authorization failed''
      else Unauthorized ''Authorization token not found'')"

lemma access_guard:
  "accessTokenGuard env authorization s =
     ((case session_of env s authorization of Some c \<Rightarrow> Inr c | None \<Rightarrow> Inl (refused_login authorization)), s)"
  by (cases "extractTokenFromHeader authorization")
    (auto simp: accessTokenGuard_def session_of_def refused_login_def eff_run getClientData_def
      cache_get_def client_rows_def Let_def split: option.split)

definition role_ok :: "client_type list option \<Rightarrow> auth_client \<Rightarrow> bool" where
  "role_ok rs c \<longleftrightarrow> (case rs of None \<Rightarrow> True | Some xs \<Rightarrow> (\<exists>r \<in> set xs. ac_role c = Some r))"

lemma guarded_bearer:
  assumes "ts = None \<or> ts = Some [Bearer]"
  shows "guarded env ts rs authorization s =
    ((case session_of env s authorization of
        None \<Rightarrow> Inl (refused_login authorization)
      | Some c \<Rightarrow> if role_ok rs c then Inr (Some c) else Inl (Forbidden ''Forbidden resource'')), s)"
  using assms
  by (auto simp: guarded_def authenticationGuard_def eff_run access_guard accessRoleGuard_def role_ok_def
      split: option.split)

lemma guarded_open: "guarded env (Some [NoAuth]) None authorization s = (Inr None, s)"
  by (simp add: guarded_def authenticationGuard_def eff_run accessRoleGuard_def)

lemma auth_cases:
  "(auth_of ep = None \<or> auth_of ep = Some [Bearer]) \<or> auth_of ep = Some [NoAuth] \<and> roles_of ep = None"
  by (cases ep) simp_all



section \<open>The rides under all traffic\<close>

lemma same_world: "gw_rides (g\<lparr>gw_iam := a\<rparr>) = gw_rides g" "gw_rides (g\<lparr>gw_streams := b\<rparr>) = gw_rides g"
  "gw_rides (g\<lparr>gw_locations := c\<rparr>) = gw_rides g"
  by simp_all

definition calm :: "'a geff \<Rightarrow> bool" where
  "calm m \<longleftrightarrow> (\<forall>g. gw_rides (snd (m g)) = gw_rides g)"

lemma calm_frame: "calm m = frame gw_rides m"
  by (simp add: calm_def frame_def)

lemma frame_in_iam [frames]: "frame gw_rides (in_iam m)"
  by (simp add: frame_def in_iam_def split: prod.split)

lemma frame_open_stream [frames]: "frame gw_rides (open_stream t i)"
  by (simp add: frame_def open_stream_def split: prod.split)

lemma frame_upsert [frames]: "frame gw_rides (gw_upsertDriverLocation env d dto)"
  by (simp add: frame_def gw_upsertDriverLocation_def split: prod.split sum.split)

text \<open>A service call followed by what does not touch the rides.\<close>

lemma rides_then:
  assumes "\<And>x. frame gw_rides (f x)"
  shows "gw_rides (snd (bindE (in_rides m) f g)) = snd (m (gw_rides g))"
proof -
  have "gw_rides (snd (f a g')) = gw_rides g'" for a g' using assms by (rule frameD)
  then show ?thesis by (simp add: run_bind in_rides_run split: sum.split)
qed

lemma frame_reads: "snd (m s) = s \<Longrightarrow> snd (bindE m f s) = s \<or> (\<exists>a. fst (m s) = Inr a \<and> bindE m f s = f a s)"
  by (cases "m s") (auto simp: run_bind split: sum.split)

lemma getRide_reads: "gw_rides (snd (getRide env c k g)) = gw_rides g"
proof -
  have "snd (getRideById k req s) = s" for req s
    by (simp add: getRideById_def findRideById_def eff_run split: option.split sum.split)
  moreover have "snd (listRideCandidates k s) = s" for k s
    by (simp add: listRideCandidates_def findCandidatesByRideId_def)
  ultimately show ?thesis
    by (auto simp: getRide_def run_bind in_rides_run split: sum.split)
qed

abbreviation ride_move :: "gateway_env \<Rightarrow> world \<Rightarrow> world \<Rightarrow> bool" where
  "ride_move env s s' \<equiv> s' = s \<or> world_step (ge_ride env) (ge_track env) (ge_pay env) s s'"

lemma lift_cases: "P (bindE (liftE r) f g) \<longleftrightarrow> (case r of Inl e \<Rightarrow> P (Inl e, g) | Inr a \<Rightarrow> P (f a g))"
  by (simp add: run_bind split: sum.split)

lemma read_run: "bindE (readE h) f g = f (h g) g"
  by (simp add: run_bind)

lemmas handler_defs = gw_createRide_def gw_cancelRide_def acceptRideAsDriver_def rejectRideAsDriver_def
  gw_confirmDriverAcceptance_def gw_rejectDriverAcceptance_def gw_startRide_def gw_recordTripLocation_def
  gw_completeRide_def gw_proceedRidePayment_def gw_handlePaymentNotification_def

lemma handler_frame:
  "frame gw_rides (handler env rq c ep) \<or> (\<exists>k. ep = GetRide k) \<or> roles_of ep \<noteq> None \<or>
   (\<exists>p. ep = PaymentNotification p)"
proof (cases ep)
  case (SimulateGetOtp m)
  then show ?thesis by (simp add: simulateGetOtp_def) (intro frames impI conjI disjI1)
next
  case StreamNotifications
  then show ?thesis by (simp add: streamNotifications_def) (intro frames disjI1)
qed (simp_all add: frames)

lemma handler_moves: "ride_move env (gw_rides g) (gw_rides (snd (handler env rq c ep g)))"
proof (cases "frame gw_rides (handler env rq c ep)")
  case True
  then show ?thesis by (simp add: frameD)
next
  case False
  note step = rides_then [OF frame_base(1)]
  have pair: "frame gw_rides (case p of (x, y) \<Rightarrow> returnE (h x y))" for p and h :: "'x \<Rightarrow> 'y \<Rightarrow> result"
    by (cases p) (simp add: frames)
  from False show ?thesis
  proof (cases ep)
    case (GetRide k)
    then show ?thesis by (simp add: getRide_reads)
  next
    case (CreateRide dto)
    then show ?thesis
      by (simp add: gw_createRide_def lift_cases [where P = "\<lambda>x. ride_move env _ (gw_rides (snd x))"]
          rides_then [OF pair] ws_create split: sum.split)
  next
    case (ProceedRidePayment k)
    then show ?thesis
      by (simp add: gw_proceedRidePayment_def lift_cases [where P = "\<lambda>x. ride_move env _ (gw_rides (snd x))"]
          rides_then [OF pair] ws_pay split: sum.split)
  next
    case (NearbyDrivers a b n)
    then show ?thesis by (simp add: gw_getNearbyDrivers_def read_run)
  next
    case (UpsertDriverLocation dto)
    then show ?thesis using frameD [OF frame_upsert]
      by (simp add: lift_cases [where P = "\<lambda>x. ride_move env _ (gw_rides (snd x))"] split: sum.split)
  qed (use handler_frame [of env rq c ep] in
      \<open>simp_all add: handler_defs lift_cases [where P = "\<lambda>x. ride_move env _ (gw_rides (snd x))"] read_run step
        ws_accept ws_decline ws_confirm ws_turn_down ws_cancel ws_start ws_track ws_complete ws_notification
        split: sum.split\<close>)
qed

lemma serve_moves: "ride_move env (gw_rides g) (gw_rides (snd (serve env rq ep g)))"
proof (cases "guarded (ge_iam env) (auth_of ep) (roles_of ep) (rq_authorization rq) (gw_iam g)")
  case (Pair r s)
  show ?thesis
  proof (cases r)
    case (Inl e)
    then show ?thesis using Pair by (simp add: serve_def in_iam_def)
  next
    case (Inr client)
    then show ?thesis
      using Pair handler_moves [where env = env and g = "g\<lparr>gw_iam := s\<rparr>" and rq = rq and ep = ep and c = client]
      by (cases "handler env rq client ep (g\<lparr>gw_iam := s\<rparr>)") (simp add: serve_def in_iam_def)
  qed
qed

text \<open>The requests served in a given order.\<close>

fun serve_all :: "gateway_env \<Rightarrow> (http_request \<times> endpoint) list \<Rightarrow> gateway_world \<Rightarrow> gateway_world" where
  "serve_all env [] g = g"
| "serve_all env ((rq, ep) # reqs) g = serve_all env reqs (snd (serve env rq ep g))"


text \<open>The state of the system with nothing in it but the rides of the concrete world.\<close>

definition demo_gateway :: "world \<Rightarrow> auth_world \<Rightarrow> gateway_world" where
  "demo_gateway w a = \<lparr>gw_iam = a, gw_rides = w,
     gw_geo = \<lparr>drivers_geo = (\<lambda>_. None), driver_loc = (\<lambda>_. None), drivers_metadata = (\<lambda>_. None),
       drivers_active = [], loc_updates = [], geo_now = 0\<rparr>,
     gw_locations = [], gw_streams = empty_stream\<rparr>"


section \<open>Answers\<close>

fun plain :: "result \<Rightarrow> bool" where
  "plain (Body b) \<longleftrightarrow> b \<noteq> VNull \<and> (\<forall>k \<in> {''pagination'', ''totalData'', ''averageData'', ''paginationV2''}.
     get_member k b = None)"
| "plain _ = True"

lemma plain_replies [simp]: "plain (reply m d)" "plain (status_reply m d)" "plain (token_cookies t)"
  "plain (Body (VText x))" "plain (Body (VObj [(''data'', d)]))" "plain (Body (VObj [(''messageResponse'', d)]))"
  by (simp_all add: reply_def status_reply_def token_cookies_def)

definition answers :: "(result \<Rightarrow> bool) \<Rightarrow> result geff \<Rightarrow> bool" where
  "answers P m \<longleftrightarrow> (\<forall>g r. fst (m g) = Inr r \<longrightarrow> P r)"

named_theorems answering \<open>what a handler may return\<close>

lemma answers_bind [answering]:
  assumes "\<And>x. answers P (f x)"
  shows "answers P (bindE m f)"
  unfolding answers_def
proof (intro allI impI)
  fix g r assume run: "fst (bindE m f g) = Inr r"
  then show "P r" using assms by (auto simp: answers_def run_bind split: prod.splits sum.splits)
qed

lemma answers_base [answering]:
  "P r \<Longrightarrow> answers P (returnE r)" "answers P (throwE e)" "(\<And>x. P (Stream x)) \<Longrightarrow> answers P (open_stream t i)"
  by (auto simp: answers_def open_stream_def split: prod.splits)

lemma answers_if [answering]: "answers P m \<Longrightarrow> answers P n \<Longrightarrow> answers P (if b then m else n)"
  by simp

lemma answers_option [answering]:
  "answers P m \<Longrightarrow> (\<And>x. answers P (f x)) \<Longrightarrow> answers P (case v of None \<Rightarrow> m | Some x \<Rightarrow> f x)"
  by (cases v) simp_all

lemma answers_pair [answering]: "(\<And>x y. answers P (f x y)) \<Longrightarrow> answers P (case p of (x, y) \<Rightarrow> f x y)"
  by (cases p) simp

lemma answers_upsert [answering]:
  "(\<And>m d. P (reply m d)) \<Longrightarrow> answers P (gw_upsertDriverLocation env d dto)"
  by (auto simp: answers_def gw_upsertDriverLocation_def split: prod.splits sum.splits)

lemma handler_plain: "answers plain (handler env rq c ep)"
  by (cases ep) (simp_all add: handler_defs simulateGetOtp_def streamNotifications_def getRide_def
      gw_getNearbyDrivers_def answering)

fun is_stream :: "endpoint \<Rightarrow> bool" where
  "is_stream (SimulateGetOtp _) = True"
| "is_stream StreamNotifications = True"
| "is_stream _ = False"

lemma not_streams: "reply m d \<noteq> Stream x" "status_reply m d \<noteq> Stream x" "token_cookies t \<noteq> Stream x"
  by (simp_all add: reply_def status_reply_def token_cookies_def)

lemma handler_stream: "\<not> is_stream ep \<Longrightarrow> answers (\<lambda>r. \<forall>x. r \<noteq> Stream x) (handler env rq c ep)"
  by (cases ep) (simp_all add: handler_defs getRide_def gw_getNearbyDrivers_def answering not_streams)

lemma paging_plain: "plain (Body b) \<Longrightarrow> paging b = ([], b)"
  by (simp add: paging_def)

lemma plain_delete: "plain (Body b) \<Longrightarrow> plain (Body (delete_member ''messageResponse'' b))"
  by (cases b) (simp_all add: map_of_filter_key)

lemma intercept_body:
  assumes "\<not> acceptsEventStream accept" and "\<not> is_excluded paths url" and "plain (Body b)"
  shows "\<exists>m d. intercept paths accept url code (Some b) = Inr (Some (VObj
    [(''meta'', VObj [(''code'', VInt (int code)), (''message'', m)]), (''data'', d)]))"
  using assms plain_delete [OF assms(3)]
  by (auto simp: intercept_def Let_def paging_plain simp del: plain.simps) (simp add: plain.simps)

definition enveloped :: "http_answer \<Rightarrow> bool" where
  "enveloped a \<longleftrightarrow> (\<exists>m d. an_body a = Some (VObj
     [(''meta'', VObj [(''code'', VInt (int (an_status a))), (''message'', m)]), (''data'', d)]))"

definition error_answer :: "http_answer \<Rightarrow> bool" where
  "error_answer a \<longleftrightarrow> (\<exists>m. m \<noteq> [] \<and> an_body a = Some (meta_body (an_status a) m)) \<and> an_cookies a = []"

lemma http_error: "400 \<le> http_status e"
  by (cases e) simp_all

lemma error_intercepted: "\<not> acceptsEventStream (rq_accept rq) \<Longrightarrow>
    error_answer (handler_error env rq e) \<and> an_status (handler_error env rq e) = http_status e"
  by (auto simp: handler_error_def refusal_def intercept_error_def error_answer_def Let_def)

lemma answer_shape:
  assumes "\<not> acceptsEventStream (rq_accept rq)" and "\<not> is_excluded excludedPaths (rq_url rq)"
    and "\<forall>x. r = Inr x \<longrightarrow> plain x" and "\<forall>x. r = Inr (Stream x) \<longrightarrow> is_stream ep"
    and a: "a = answer_of env rq ep r"
  shows "if 400 \<le> an_status a then error_answer a
    else an_status a = code_of ep \<and>
      (enveloped a \<or> an_body a = Some (VObj [(''message'', VNull)]) \<or> an_body a = None \<and> is_stream ep)"
proof (cases r)
  case (Inl e)
  then show ?thesis using error_intercepted [OF assms(1)] http_error [of e] a by (simp add: answer_of_def)
next
  case (Inr x)
  have code: "code_of ep < 400" by (cases ep) simp_all
  then show ?thesis
  proof (cases x)
    case (Body b)
    then obtain m d where "intercept excludedPaths (rq_accept rq) (rq_url rq) (code_of ep) (Some b) =
        Inr (Some (VObj [(''meta'', VObj [(''code'', VInt (int (code_of ep))), (''message'', m)]), (''data'', d)]))"
      using intercept_body [OF assms(1,2), of b] assms(3) Inr by blast
    then show ?thesis using a Inr Body code by (simp add: answer_of_def enveloped_def)
  qed (use a Inr code assms in \<open>simp_all add: answer_of_def intercept_def\<close>)
qed

text \<open>A request either runs its handler or is turned away by a guard.\<close>

lemma serve_cases:
  obtains (handled) client where "serve env rq ep g =
      (answer_of env rq ep (fst (handler env rq client ep g)), snd (handler env rq client ep g))"
  | (turned_away) e where "serve env rq ep g = (refusal (custom_exception_filter False (ge_default_answer env) e), g)"
      "http_status e \<in> {401, 403}" "error_message e \<noteq> []"
proof -
  from auth_cases [of ep] show ?thesis
  proof
    assume "auth_of ep = None \<or> auth_of ep = Some [Bearer]"
    note guard = guarded_bearer [OF this, of "ge_iam env" "roles_of ep" "rq_authorization rq" "gw_iam g"]
    show ?thesis
    proof (cases "session_of (ge_iam env) (gw_iam g) (rq_authorization rq)")
      case None
      then show ?thesis
        using guard by (intro turned_away [of "refused_login (rq_authorization rq)"])
          (simp_all add: serve_def in_iam_def refused_login_def)
    next
      case (Some c)
      show ?thesis
      proof (cases "role_ok (roles_of ep) c")
        case True
        then show ?thesis using Some guard
          by (intro handled [of "Some c"]) (simp add: serve_def in_iam_def split: prod.split)
      next
        case False
        then show ?thesis using Some guard
          by (intro turned_away [of "Forbidden ''Forbidden resource''"]) (simp_all add: serve_def in_iam_def)
      qed
    qed
  next
    assume "auth_of ep = Some [NoAuth] \<and> roles_of ep = None"
    then show ?thesis
      by (intro handled [of None]) (simp add: serve_def in_iam_def guarded_open split: prod.split)
  qed
qed

text \<open>
  One shape for every answer (to a request that is not for an event stream or an
  excluded path): an error, thrown by a guard or by a handler, is answered with its status
  and the body \<open>{ meta: { code, message } }\<close>, the code being that status and the message not
  empty, and sets no cookie; a success is answered with the endpoint's status and
  \<open>{ meta: { code, message }, data }\<close>, or, where the handler returns nothing, with
  \<open>{ message: null }\<close>; the two event streams send no body.
\<close>

theorem answer_envelope:
  assumes "\<not> acceptsEventStream (rq_accept rq)" and "\<not> is_excluded excludedPaths (rq_url rq)"
    and "serve env rq ep g = (a, g')"
  shows "if 400 \<le> an_status a then error_answer a
    else an_status a = code_of ep \<and>
      (enveloped a \<or> an_body a = Some (VObj [(''message'', VNull)]) \<or> an_body a = None \<and> is_stream ep)"
proof (cases rule: serve_cases [of env rq ep g])
  case (handled client)
  let ?r = "fst (handler env rq client ep g)"
  have 1: "\<forall>x. ?r = Inr x \<longrightarrow> plain x" using handler_plain unfolding answers_def by blast
  have 2: "\<forall>x. ?r = Inr (Stream x) \<longrightarrow> is_stream ep" using handler_stream unfolding answers_def by blast
  have "a = answer_of env rq ep ?r" using handled assms(3) by simp
  then show ?thesis by (rule answer_shape [OF assms(1,2) 1 2])
next
  case (turned_away e)
  then show ?thesis using assms(3)
    by (auto simp: refusal_def custom_exception_filter_def error_answer_def)
qed

definition demo_rq :: http_request where
  "demo_rq = \<lparr>rq_url = ''/api/v1/gateway/rides'', rq_accept = NoHeader, rq_authorization = None,
     rq_forwardedFor = OneHeader ''10.0.0.1, 203.0.113.9'', rq_remoteAddress = Some ''203.0.113.9'',
     rq_ip = None, rq_simulationToken = None\<rparr>"

theorem answer_envelope_witness:
  "\<forall>env g. 400 \<le> an_status (fst (serve env demo_rq (SimulateGetOtp ''+62811'') g)) \<or>
     an_status (fst (serve env demo_rq (SimulateGetOtp ''+62811'') g)) = 200"
proof (intro allI)
  fix env g
  have ok: "\<not> acceptsEventStream (rq_accept demo_rq)" "\<not> is_excluded excludedPaths (rq_url demo_rq)"
    by (simp_all add: demo_rq_def is_excluded_def excludedPaths_def)
  show "400 \<le> an_status (fst (serve env demo_rq (SimulateGetOtp ''+62811'') g)) \<or>
     an_status (fst (serve env demo_rq (SimulateGetOtp ''+62811'') g)) = 200"
    using answer_envelope [OF ok prod.collapse [symmetric], of env "SimulateGetOtp ''+62811''" g]
    by (auto split: if_splits)
qed

section \<open>Where a payment notification comes from\<close>

lemma open_run: "snd (serve env rq (PaymentNotification p) g) = snd (gw_handlePaymentNotification env rq p g)"
  by (simp add: serve_def in_iam_def guarded_open split: prod.split)

text \<open>
  The whitelist of the payment notifications is checked against an address the caller
  chooses: whoever sends the request, from whatever address, a first entry of
  \<open>X-Forwarded-For\<close> that is a whitelisted address makes the check pass, and the notification
  is applied exactly as one from that address.
\<close>

theorem notification_origin_claimed:
  assumes "ip \<in> set (whitelist (gw_rides g))" and "ip \<noteq> []" and "js_trim ip = ip" and "CHR '','' \<notin> set ip"
    and "rq_forwardedFor rq = OneHeader (ip @ CHR '','' # others)"
  shows "fst (isIpAllowed (normalizeIpAddresses (extractClientIp rq)) (gw_rides g)) = Inr True \<and>
    gw_rides (snd (serve env rq (PaymentNotification p) g)) =
      snd (handlePaymentNotification (ge_pay env) p ip (gw_rides g))"
proof -
  have ip: "extractClientIp rq = ip"
    using assms(2-5) by (simp add: extractClientIp_def split_on_word Let_def)
  have "ip \<in> set (normalizeIpAddresses ip)"
    using assms(2,3) by (simp add: normalizeIpAddresses_def Let_def)
  then have "fst (isIpAllowed (normalizeIpAddresses ip) (gw_rides g)) = Inr True"
    using assms(1,2) by (auto simp: isIpAllowed_def Let_def filter_empty_conv)
  moreover have "gw_rides (snd (serve env rq (PaymentNotification p) g)) =
      snd (handlePaymentNotification (ge_pay env) p ip (gw_rides g))"
    using rides_then [OF frame_base(1)] by (simp add: open_run gw_handlePaymentNotification_def ip)
  ultimately show ?thesis using ip by simp
qed

theorem notification_origin_claimed_witness:
  "\<forall>w. fst (isIpAllowed (normalizeIpAddresses (extractClientIp demo_rq)) (w\<lparr>whitelist := [''10.0.0.1'']\<rparr>)) = Inr True"
proof
  fix w
  show "fst (isIpAllowed (normalizeIpAddresses (extractClientIp demo_rq)) (w\<lparr>whitelist := [''10.0.0.1'']\<rparr>)) = Inr True"
    using notification_origin_claimed [of "''10.0.0.1''" "demo_gateway (w\<lparr>whitelist := [''10.0.0.1'']\<rparr>) undefined"
        demo_rq "'' 203.0.113.9''"]
    by (simp add: demo_rq_def demo_gateway_def js_trim_def js_space_def)
qed

section \<open>A message that is not shown\<close>

text \<open>
  The five endpoints that answer with \<open>message\<close> instead of \<open>messageResponse\<close>: the interceptor
  does not read it, so the client is shown the default \<open>OK\<close>. Here for a cancellation.
\<close>

theorem cancel_message_lost:
  assumes "\<not> acceptsEventStream (rq_accept rq)" and "\<not> is_excluded excludedPaths (rq_url rq)"
    and "handler env rq c (CancelRide k why) g = (Inr r, g')"
  shows "\<exists>d. an_body (answer_of env rq (CancelRide k why) (Inr r)) = Some (VObj
    [(''meta'', VObj [(''code'', VInt 200), (''message'', VText ''OK'')]), (''data'', d)])"
proof -
  obtain d where "r = status_reply ''Ride cancelled'' d"
    using assms(3) by (auto simp: gw_cancelRide_def run_bind split: sum.splits prod.splits)
  then show ?thesis
    using assms(1,2) by (simp add: answer_of_def status_reply_def intercept_plain)
qed

theorem cancel_message_lost_witness:
  "\<exists>d. intercept excludedPaths NoHeader ''/api'' 200 (Some (VObj [(''message'', VText ''Ride cancelled''), (''data'', VNull)])) =
     Inr (Some (VObj [(''meta'', VObj [(''code'', VInt 200), (''message'', VText ''OK'')]), (''data'', d)]))"
  by (simp add: intercept_def is_excluded_def excludedPaths_def paging_def)

end
