(* ===== verification/Phone_Number.thy ===== *)
theory Phone_Number
  imports Client_Guarantees Js_Number "HOL-Library.Sublist"
begin

text \<open>
  The validator of phone numbers (\<open>app/common/isPhoneNumber.validator.ts\<close>) in front of the
  sign-up: what it accepts, and what it leaves open.

  Outside the repository: \<open>libphonenumber-js\<close>; \<open>parse_phone\<close> is its parser for the default
  region ID, giving the number in E.164 form and whether it is valid.
\<close>

definition allowed_telkomsel_prefixes :: "string list" where
  "allowed_telkomsel_prefixes = [''+62811'', ''+62812'', ''+62813'', ''+62821'', ''+62822'', ''+62823'',
     ''+62851'', ''+62852'', ''+62853'']"

definition normalizePhoneNumberToE164 :: "(string \<Rightarrow> (string \<times> bool) option) \<Rightarrow> string \<Rightarrow> exn + bool" where
  "normalizePhoneNumberToE164 parse_phone input =
     (if input = [] then Inl (BadRequest ''Phone is required'')
      else let raw = js_trim input
        in case parse_phone raw of
             None \<Rightarrow> Inr False
           | Some (e164, valid) \<Rightarrow>
               if \<not> valid then Inr False
               else if \<not> (\<exists>p \<in> set allowed_telkomsel_prefixes. prefix p e164) then Inr False
               else if raw \<noteq> e164 then Inr False
               else Inr True)"

lemma trim_leading_space: "js_trim (CHR '' '' # cs) = js_trim cs"
  by (simp add: js_trim_def js_space_def)

lemma accepts_iff:
  "normalizePhoneNumberToE164 parse_phone x = Inr True \<longleftrightarrow>
     x \<noteq> [] \<and> parse_phone (js_trim x) = Some (js_trim x, True) \<and>
     (\<exists>p \<in> set allowed_telkomsel_prefixes. prefix p (js_trim x))"
  by (auto simp: normalizePhoneNumberToE164_def Let_def split: option.splits)

lemma register_free:
  assumes "request_msisdn req \<notin> set (active_msisdns db)"
  shows "set (active_msisdns (snd (register req db))) = insert (request_msisdn req) (set (active_msisdns db)) \<and>
    advisory (snd (register req db)) = advisory db \<and> (\<exists>c. fst (register req db) = Inr c)"
  using register_result [of req db] assms
  by (cases req) (auto simp: active_msisdns_def new_rider_def new_driver_def)

text \<open>
  Accepted numbers with blanks: the validator compares the trimmed text with the E.164
  form, but the profile is looked up and stored under the text as sent. So when a number is
  accepted, the same number after a blank is accepted too, and a rider and a driver can both
  be registered with it, one after the other: two active profiles of one phone number.
\<close>

theorem blank_evades_exclusivity:
  assumes "normalizePhoneNumberToE164 parse_phone p = Inr True" and "advisory db = []"
    and "p \<notin> set (active_msisdns db)" and "CHR '' '' # p \<notin> set (active_msisdns db)"
  shows "normalizePhoneNumberToE164 parse_phone (CHR '' '' # p) = Inr True \<and>
    (let w = alone h db (begin_signup (RiderSignup p n));
         w' = alone h (sw_db w) (begin_signup (DriverSignup (CHR '' '' # p) license plate n'))
     in (\<exists>s c. sessions w' = [s] \<and> pc s = Finished (Inr c)) \<and>
        {p, CHR '' '' # p} \<subseteq> set (active_msisdns (sw_db w')))"
proof -
  let ?rider = "RiderSignup p n" and ?driver = "DriverSignup (CHR '' '' # p) license plate n'"
  define w where "w = alone h db (begin_signup ?rider)"
  have accepted: "normalizePhoneNumberToE164 parse_phone (CHR '' '' # p) = Inr True"
    using assms(1) by (simp add: accepts_iff trim_leading_space)
  have "sw_db w = snd (register ?rider db)" using alone_register [OF assms(2), of h ?rider] by (auto simp: w_def)
  then have first: "set (active_msisdns (sw_db w)) = insert p (set (active_msisdns db))" "advisory (sw_db w) = []"
    using register_free [of ?rider db] assms(2,3) by simp_all
  obtain s where s: "sessions (alone h (sw_db w) (begin_signup ?driver)) = [s]"
      "pc s = Finished (fst (register ?driver (sw_db w)))"
      "sw_db (alone h (sw_db w) (begin_signup ?driver)) = snd (register ?driver (sw_db w))"
    using alone_register [OF first(2), of h ?driver] by auto
  have "request_msisdn ?driver \<notin> set (active_msisdns (sw_db w))" using first(1) assms(4) by simp
  from register_free [OF this] show ?thesis using s first(1) accepted by (auto simp: Let_def w_def)
qed

theorem blank_evades_exclusivity_witness:
  "set (active_msisdns (sw_db (alone (int \<circ> length)
       (sw_db (alone (int \<circ> length) empty_profiles (begin_signup (RiderSignup ''+6281112345678'' None))))
       (begin_signup (DriverSignup '' +6281112345678'' None None None))))) \<supseteq> {''+6281112345678'', '' +6281112345678''}"
proof -
  have "normalizePhoneNumberToE164 (\<lambda>t. Some (t, True)) ''+6281112345678'' = Inr True"
    by (simp add: accepts_iff js_trim_def js_space_def allowed_telkomsel_prefixes_def)
  from blank_evades_exclusivity [OF this, of empty_profiles "int \<circ> length" None None None None] show ?thesis
    by (simp add: empty_profiles_def active_msisdns_def Let_def)
qed

end
