(* ===== verification/Gateway_Signup.thy ===== *)
theory Gateway_Signup
  imports Gateway_Guarantees Phone_Number
begin

text \<open>
  The two sign-up endpoints of the gateway (\<open>signupRider\<close>, \<open>signupDriver\<close> in
  \<open>gateway/app/controllers/gateway.controller.ts\<close>): both are open to everybody, run the
  session of \<open>Client_Signup\<close> and answer the new client in the usual envelope, with code 201.
\<close>

section \<open>The endpoints\<close>

fun client_type_text :: "client_type \<Rightarrow> string" where
  "client_type_text RIDER = ''rider''"
| "client_type_text DRIVER = ''driver''"

definition client_json :: "client_row \<Rightarrow> body" where
  "client_json c = VObj [(''id'', VText (cl_id c)), (''msisdn'', VText (cl_msisdn c)),
     (''role'', VText (client_type_text (cl_role c)))]"

definition gw_signupRider :: "client_row \<Rightarrow> result" where
  "gw_signupRider rider = Body (VObj [(''data'', client_json rider)])"

definition gw_signupDriver :: "client_row \<Rightarrow> result" where
  "gw_signupDriver driver = Body (VObj [(''data'', client_json driver)])"

definition signup_handler :: "client_type \<Rightarrow> client_row \<Rightarrow> result" where
  "signup_handler role = (case role of RIDER \<Rightarrow> gw_signupRider | DRIVER \<Rightarrow> gw_signupDriver)"

text \<open>The answer to a sign-up whose session ends with the given outcome.\<close>

definition signup_answer :: "gateway_env \<Rightarrow> http_request \<Rightarrow> client_type \<Rightarrow> exn + client_row \<Rightarrow> http_answer" where
  "signup_answer env rq role out =
     (case out of
        Inl e \<Rightarrow> handler_error env rq e
      | Inr c \<Rightarrow>
          (case signup_handler role c of
             Body b \<Rightarrow>
               (case intercept excludedPaths (rq_accept rq) (rq_url rq) 201 (Some b) of
                  Inl e \<Rightarrow> refusal (ge_default_answer env e)
                | Inr b' \<Rightarrow> \<lparr>an_status = 201, an_body = b', an_cookies = [], an_stream = None\<rparr>)
           | _ \<Rightarrow> \<lparr>an_status = 201, an_body = None, an_cookies = [], an_stream = None\<rparr>))"

section \<open>What the caller is told\<close>

definition created_answer :: "body \<Rightarrow> http_answer" where
  "created_answer d = \<lparr>an_status = 201, an_body = Some (VObj
     [(''meta'', VObj [(''code'', VInt 201), (''message'', VText ''Created'')]), (''data'', d)]),
     an_cookies = [], an_stream = None\<rparr>"

lemma answer_created:
  assumes "\<not> acceptsEventStream (rq_accept rq)" and "\<not> is_excluded excludedPaths (rq_url rq)"
  shows "signup_answer env rq role (Inr c) = created_answer (client_json c)"
proof -
  have "intercept excludedPaths (rq_accept rq) (rq_url rq) 201 (Some (VObj [(''data'', client_json c)])) =
      Inr (Some (VObj [(''meta'', VObj [(''code'', VInt (int 201)), (''message'', VText ''Created'')]),
        (''data'', client_json c)]))"
    using assms by (subst intercept_plain) simp_all
  then show ?thesis
    by (cases role) (simp_all add: signup_answer_def signup_handler_def gw_signupRider_def gw_signupDriver_def created_answer_def)
qed

lemma answer_refused:
  assumes "\<not> acceptsEventStream (rq_accept rq)" and "m \<noteq> []"
  shows "signup_answer env rq role (Inl (Conflict m)) =
    \<lparr>an_status = 409, an_body = Some (meta_body 409 m), an_cookies = [], an_stream = None\<rparr>"
  using assms by (simp add: signup_answer_def handler_error_def refusal_def intercept_error_def)

lemma exclusivity_message:
  "ensureMsisdnExclusivity r d role = Inl e \<Longrightarrow> \<exists>m. e = Conflict m \<and> m \<noteq> []"
  by (auto simp: ensureMsisdnExclusivity_def split: if_splits client_type.splits)

lemma register_refused:
  assumes "request_msisdn req \<in> set (active_msisdns db)"
  shows "\<exists>m. fst (register req db) = Inl (Conflict m) \<and> m \<noteq> []"
proof -
  have "fst (register req db) = Inl e \<Longrightarrow> \<exists>m. e = Conflict m \<and> m \<noteq> []" for e
    using exclusivity_message by (auto simp: register_def Let_def split: sum.splits prod.splits) fastforce
  then show ?thesis using register_result [of req db] assms by auto
qed

text \<open>
  Signing up through the gateway: a sign-up that meets no other is answered 201 with the
  identifier, the number and the role of the client it has stored when the number is free,
  and 409 with the reason when it is taken; in the second case nothing is stored.
\<close>

theorem signup_end_to_end:
  assumes "advisory db = []" and "\<not> acceptsEventStream (rq_accept rq)"
    and "\<not> is_excluded excludedPaths (rq_url rq)"
  shows "\<exists>s out. sessions (alone h db (begin_signup req)) = [s] \<and> pc s = Finished out \<and>
    (if request_msisdn req \<in> set (active_msisdns db)
     then sw_db (alone h db (begin_signup req)) = db \<and>
       (\<exists>m. m \<noteq> [] \<and> signup_answer env rq (request_type req) out =
          \<lparr>an_status = 409, an_body = Some (meta_body 409 m), an_cookies = [], an_stream = None\<rparr>)
     else signup_answer env rq (request_type req) out = created_answer (VObj
         [(''id'', VText (show_nat (if request_type req = RIDER then riderSeq db else driverSeq db))),
          (''msisdn'', VText (request_msisdn req)), (''role'', VText (client_type_text (request_type req)))]) \<and>
       set (active_msisdns (sw_db (alone h db (begin_signup req)))) =
         insert (request_msisdn req) (set (active_msisdns db)))"
proof -
  obtain s where s: "sessions (alone h db (begin_signup req)) = [s]" "pc s = Finished (fst (register req db))"
      "sw_db (alone h db (begin_signup req)) = snd (register req db)"
    using alone_register [OF assms(1), of h req] by blast
  show ?thesis
  proof (cases "request_msisdn req \<in> set (active_msisdns db)")
    case True
    then obtain m where "fst (register req db) = Inl (Conflict m)" "m \<noteq> []" using register_refused by blast
    moreover have "snd (register req db) = db" using register_result [of req db] True by auto
    ultimately show ?thesis using s True answer_refused [OF assms(2)] by auto
  next
    case False
    then have "fst (register req db) = Inr \<lparr>cl_id = show_nat (if request_type req = RIDER then riderSeq db else driverSeq db),
        cl_msisdn = request_msisdn req, cl_role = request_type req\<rparr>"
      using register_result [of req db] by (cases req) simp_all
    then show ?thesis using s False register_free [OF False] answer_created [OF assms(2,3)]
      by (simp add: client_json_def)
  qed
qed

theorem signup_end_to_end_witness:
  "\<forall>env. \<exists>s out. sessions (alone (int \<circ> length) empty_profiles (begin_signup (RiderSignup ''+62811'' (Some ''x'')))) = [s] \<and>
     pc s = Finished out \<and> an_status (signup_answer env demo_rq RIDER out) = 201"
proof
  fix env
  have "advisory empty_profiles = []" "''+62811'' \<notin> set (active_msisdns empty_profiles)"
    by (simp_all add: empty_profiles_def active_msisdns_def)
  moreover have "\<not> acceptsEventStream (rq_accept demo_rq)" "\<not> is_excluded excludedPaths (rq_url demo_rq)"
    by (simp_all add: demo_rq_def is_excluded_def excludedPaths_def)
  ultimately obtain s out where "sessions (alone (int \<circ> length) empty_profiles
        (begin_signup (RiderSignup ''+62811'' (Some ''x'')))) = [s]" "pc s = Finished out"
      "\<exists>d. signup_answer env demo_rq RIDER out = created_answer d"
    using signup_end_to_end [of empty_profiles demo_rq "int \<circ> length" "RiderSignup ''+62811'' (Some ''x'')" env]
    by (simp only: request_msisdn.simps request_type.simps if_False) blast
  then show "\<exists>s out. sessions (alone (int \<circ> length) empty_profiles
        (begin_signup (RiderSignup ''+62811'' (Some ''x'')))) = [s] \<and>
     pc s = Finished out \<and> an_status (signup_answer env demo_rq RIDER out) = 201"
    by (auto simp: created_answer_def)
qed

end
