(* ===== verification/Flush_Schedule.thy ===== *)
theory Flush_Schedule
  imports Trip_Tracking
begin

text \<open>
  The start of \<open>TripTrackingService\<close>: the interval of the flush and the repeated job behind it
  (\<open>constructor\<close>, \<open>onModuleInit\<close> and \<open>ensureFlushScheduler\<close> in
  \<open>rides/domain/services/trip-tracking.service.ts\<close>).

  Outside the repository: the key BullMQ gives a repeated job, from its interval \<open>repeat_key\<close>;
  adding a repeated job whose key exists replaces it.
\<close>

section \<open>The interval\<close>

definition config_value :: "config \<Rightarrow> string \<Rightarrow> jsnum \<Rightarrow> jsnum" where
  "config_value cfg k dflt =
     (case cfg k of CNum n \<Rightarrow> n | CStr t \<Rightarrow> number_of_string t | CBool b \<Rightarrow> Fin (if b then 1 else 0) | COther \<Rightarrow> dflt)"

definition flushIntervalMs :: "config \<Rightarrow> jsnum" where
  "flushIntervalMs cfg =
     (let interval = config_value cfg ''TRIP_TRACKING_FLUSH_INTERVAL_MS'' (Fin 60000)
      in if is_finite interval \<and> js_lt (Fin 0) interval then interval else Fin 60000)"

section \<open>The repeated job\<close>

datatype every = NoEvery | EveryNumber jsnum | EveryText string

record scheduler =
  sk_key :: string
  sk_name :: string
  sk_every :: every

text \<open>\<open>Number.parseInt(text, 10)\<close>: the leading digits, after blanks and a sign.\<close>

definition parse_int :: "string \<Rightarrow> jsnum" where
  "parse_int t =
     (let (neg, cs) = split_sign (dropWhile js_space t)
      in case read_nat (takeWhile is_digit cs) of
           None \<Rightarrow> NaN
         | Some n \<Rightarrow> round64 (if neg then - of_nat n else of_nat n))"

definition existing_every :: "scheduler \<Rightarrow> jsnum option" where
  "existing_every j = (case sk_every j of NoEvery \<Rightarrow> None | EveryNumber n \<Rightarrow> Some n | EveryText t \<Rightarrow> Some (parse_int t))"

definition removeJobScheduler :: "string \<Rightarrow> scheduler list \<Rightarrow> scheduler list" where
  "removeJobScheduler k js = filter (\<lambda>j. sk_key j \<noteq> k) js"

definition add_repeated :: "(jsnum \<Rightarrow> string) \<Rightarrow> jsnum \<Rightarrow> scheduler list \<Rightarrow> scheduler list" where
  "add_repeated repeat_key n js =
     removeJobScheduler (repeat_key n) js @ [\<lparr>sk_key = repeat_key n, sk_name = ''flush-all'', sk_every = EveryNumber n\<rparr>]"

definition ensureFlushScheduler :: "(jsnum \<Rightarrow> string) \<Rightarrow> jsnum \<Rightarrow> scheduler list \<Rightarrow> scheduler list" where
  "ensureFlushScheduler repeat_key expected js =
     (case List.find (\<lambda>j. sk_name j = ''flush-all'') js of
        None \<Rightarrow> add_repeated repeat_key expected js
      | Some existing \<Rightarrow>
          if (case existing_every existing of None \<Rightarrow> False | Some n \<Rightarrow> js_eq n expected) then js
          else add_repeated repeat_key expected (removeJobScheduler (sk_key existing) js))"

section \<open>One flush job with the configured interval\<close>

lemma interval_ok: "is_finite (flushIntervalMs cfg) \<and> js_lt (Fin 0) (flushIntervalMs cfg)"
  by (simp add: flushIntervalMs_def Let_def)

abbreviation flush_jobs :: "scheduler list \<Rightarrow> scheduler list" where
  "flush_jobs \<equiv> filter (\<lambda>j. sk_name j = ''flush-all'')"

abbreviation other_jobs :: "scheduler list \<Rightarrow> scheduler list" where
  "other_jobs \<equiv> filter (\<lambda>j. sk_name j \<noteq> ''flush-all'')"

lemma flush_added:
  assumes "flush_jobs js = []" and "\<forall>j \<in> set js. sk_key j \<noteq> repeat_key n" and "is_finite n"
  shows "other_jobs (add_repeated repeat_key n js) = other_jobs js \<and>
    (\<exists>j. flush_jobs (add_repeated repeat_key n js) = [j] \<and> existing_every j = Some n) \<and>
    ensureFlushScheduler repeat_key n (add_repeated repeat_key n js) = add_repeated repeat_key n js"
proof -
  have rest: "removeJobScheduler (repeat_key n) js = js" using assms(2) by (simp add: removeJobScheduler_def)
  have "List.find (\<lambda>j. sk_name j = ''flush-all'') (js @ [\<lparr>sk_key = repeat_key n, sk_name = ''flush-all'', sk_every = EveryNumber n\<rparr>]) =
      Some \<lparr>sk_key = repeat_key n, sk_name = ''flush-all'', sk_every = EveryNumber n\<rparr>"
    using assms(1) by (induction js) (auto split: if_splits)
  moreover have "js_eq n n" using assms(3) by (cases n) simp_all
  ultimately show ?thesis using assms(1)
    by (simp add: add_repeated_def rest ensureFlushScheduler_def existing_every_def)
qed

text \<open>
  After the start of the service exactly one repeated flush is registered, with the
  configured interval; the other repeated jobs are as they were, and starting again changes
  nothing. This needs what BullMQ keeps true: different keys, and at most one flush before.
\<close>

theorem flush_scheduled_once:
  assumes "length (flush_jobs js) \<le> 1" and "distinct (map sk_key js)"
    and "\<forall>j \<in> set (other_jobs js). sk_key j \<noteq> repeat_key (flushIntervalMs cfg)"
    and "\<forall>j \<in> set (flush_jobs js). sk_key j = repeat_key (flushIntervalMs cfg) \<longrightarrow> existing_every j = Some (flushIntervalMs cfg)"
  shows "let n = flushIntervalMs cfg; js' = ensureFlushScheduler repeat_key n js
    in other_jobs js' = other_jobs js \<and> (\<exists>j. flush_jobs js' = [j] \<and> existing_every j = Some n) \<and>
       ensureFlushScheduler repeat_key n js' = js'"
proof -
  let ?n = "flushIntervalMs cfg"
  have fin: "is_finite ?n" using interval_ok by blast
  show ?thesis
  proof (cases "List.find (\<lambda>j. sk_name j = ''flush-all'') js")
    case None
    then have "flush_jobs js = []" by (auto simp: find_None_iff filter_empty_conv)
    moreover from this have "\<forall>j \<in> set js. sk_key j \<noteq> repeat_key ?n" using assms(3) by (auto simp: filter_empty_conv)
    ultimately show ?thesis using flush_added [where repeat_key = repeat_key and n = ?n, OF _ _ fin] None
      by (simp add: ensureFlushScheduler_def [of repeat_key ?n js] Let_def)
  next
    case (Some e)
    then have e: "e \<in> set js" "sk_name e = ''flush-all''" by (auto simp: find_Some_iff)
    then have "e \<in> set (flush_jobs js)" by simp
    then have one: "flush_jobs js = [e]" using assms(1) by (cases "flush_jobs js") auto
    show ?thesis
    proof (cases "existing_every e = Some ?n")
      case True
      moreover have "js_eq ?n ?n" using fin by (cases ?n) simp_all
      ultimately show ?thesis using Some one by (simp add: ensureFlushScheduler_def Let_def)
    next
      case False
      let ?js = "removeJobScheduler (sk_key e) js"
      have neq: "\<not> (case existing_every e of None \<Rightarrow> False | Some n \<Rightarrow> js_eq n ?n)"
        using False by (auto split: option.splits elim: js_eq.elims)
      have same: "j = e" if "j \<in> set js" "sk_key j = sk_key e" for j
        using assms(2) that e(1) by (auto simp: distinct_map inj_on_def)
      have only: "j = e" if "j \<in> set js" "sk_name j = ''flush-all''" for j
      proof -
        have "j \<in> set (flush_jobs js)" using that by simp
        then show ?thesis by (simp add: one)
      qed
      have none: "flush_jobs ?js = []" using only by (auto simp: removeJobScheduler_def filter_empty_conv)
      have rest: "other_jobs ?js = other_jobs js" using same e(2)
        by (auto simp: removeJobScheduler_def intro!: filter_cong)
      have "\<forall>j \<in> set ?js. sk_key j \<noteq> repeat_key ?n" using assms(3,4) only False
        by (auto simp: removeJobScheduler_def)
      from flush_added [where repeat_key = repeat_key and n = ?n, OF none this fin] show ?thesis using Some neq rest
        by (simp add: ensureFlushScheduler_def [of repeat_key ?n js] Let_def)
    qed
  qed
qed

theorem flush_scheduled_once_witness:
  "\<forall>repeat_key. flush_jobs (ensureFlushScheduler repeat_key (flushIntervalMs (\<lambda>_. COther)) []) \<noteq> []"
proof
  fix repeat_key
  obtain j where "flush_jobs (ensureFlushScheduler repeat_key (flushIntervalMs (\<lambda>_. COther)) []) = [j]"
    using flush_scheduled_once [of "[]" repeat_key "\<lambda>_. COther"] by (auto simp: Let_def)
  then show "flush_jobs (ensureFlushScheduler repeat_key (flushIntervalMs (\<lambda>_. COther)) []) \<noteq> []" by simp
qed

end
