(* ===== verification/Interleaving.thy ===== *)
theory Interleaving
  imports Neb_Prelude
begin

text \<open>
  Concurrent method calls. A call is the program of its \<open>await\<close>s: between two of them the code
  runs without interruption, so each is one step on the shared state, and the steps of the
  calls in progress interleave in any order. \<open>solo\<close> runs a call without interference.

  The locale \<open>rely_guarantee\<close> is the rule by which a property of all interleavings follows
  from the steps of each call: every step keeps the invariant and stays within the guarantee,
  and what a call knows of the state is stable under the steps of the others.
\<close>

section \<open>Programs\<close>

datatype (dead 's, 'a) prog =
    Ret 'a
  | Throw exn
  | Await "'s \<Rightarrow> 's \<times> ('s, 'a) prog"

primrec bindP :: "('s, 'a) prog \<Rightarrow> ('a \<Rightarrow> ('s, 'b) prog) \<Rightarrow> ('s, 'b) prog" where
  "bindP (Ret a) g = g a"
| "bindP (Throw e) g = Throw e"
| "bindP (Await f) g = Await (\<lambda>s. map_prod id (\<lambda>p. bindP p g) (f s))"

primrec catchP :: "('s, 'a) prog \<Rightarrow> (exn \<Rightarrow> ('s, 'a) prog) \<Rightarrow> ('s, 'a) prog" where
  "catchP (Ret a) h = Ret a"
| "catchP (Throw e) h = h e"
| "catchP (Await f) h = Await (\<lambda>s. map_prod id (\<lambda>p. catchP p h) (f s))"

text \<open>One awaited call that takes effect at once.\<close>

definition awaitE :: "('s, 'a) eff \<Rightarrow> ('s, 'a) prog" where
  "awaitE m = Await (\<lambda>s. case m s of (Inl e, s') \<Rightarrow> (s', Throw e) | (Inr a, s') \<Rightarrow> (s', Ret a))"

primrec solo :: "('s, 'a) prog \<Rightarrow> ('s, 'a) eff" where
  "solo (Ret a) = returnE a"
| "solo (Throw e) = throwE e"
| "solo (Await f) = (\<lambda>s. case map_prod id solo (f s) of (s', m) \<Rightarrow> m s')"

lemma solo_await [simp]: "solo (awaitE m) = m"
  by (auto simp: awaitE_def fun_eq_iff split: prod.split sum.split)

lemma solo_bind [simp]: "solo (bindP p g) = bindE (solo p) (\<lambda>a. solo (g a))"
proof (induction p)
  case (Await f)
  have IH: "solo (bindP (snd (f s)) g) = bindE (solo (snd (f s))) (\<lambda>a. solo (g a))" for s
    by (rule Await [of "f s" "snd (f s)"]) (auto simp: snds.simps)
  show ?case
  proof
    fix s
    obtain s' p where fs: "f s = (s', p)" by (cases "f s")
    then show "solo (bindP (Await f) g) s = bindE (solo (Await f)) (\<lambda>a. solo (g a)) s"
      using IH [of s] by (simp add: run_bind)
  qed
qed (simp_all add: fun_eq_iff run_bind)

lemma solo_catch [simp]: "solo (catchP p h) = catchE (solo p) (\<lambda>e. solo (h e))"
proof (induction p)
  case (Await f)
  have IH: "solo (catchP (snd (f s)) h) = catchE (solo (snd (f s))) (\<lambda>e. solo (h e))" for s
    by (rule Await [of "f s" "snd (f s)"]) (auto simp: snds.simps)
  show ?case
  proof
    fix s
    obtain s' p where fs: "f s = (s', p)" by (cases "f s")
    then show "solo (catchP (Await f) h) s = catchE (solo (Await f)) (\<lambda>e. solo (h e)) s"
      using IH [of s] by (simp add: run_catch)
  qed
qed (simp_all add: fun_eq_iff run_catch)

lemma solo_simps [simp]:
  "solo (if b then p else q) = (if b then solo p else solo q)"
  "solo (case x of None \<Rightarrow> p | Some y \<Rightarrow> f y) = (case x of None \<Rightarrow> solo p | Some y \<Rightarrow> solo (f y))"
  "solo (case z of (u, v) \<Rightarrow> g u v) = (case z of (u, v) \<Rightarrow> solo (g u v))"
  by (simp_all split: option.split prod.split)

section \<open>Pools of calls\<close>

type_synonym ('s, 'a) pool = "'s \<times> ('s, 'a) prog list"

fun pool_step :: "nat \<Rightarrow> ('s, 'a) pool \<Rightarrow> ('s, 'a) pool" where
  "pool_step i (s, ps) =
     (if i < length ps
      then case ps ! i of Await f \<Rightarrow> (case f s of (s', p) \<Rightarrow> (s', ps[i := p])) | _ \<Rightarrow> (s, ps)
      else (s, ps))"

definition run_pool :: "nat list \<Rightarrow> ('s, 'a) pool \<Rightarrow> ('s, 'a) pool" where
  "run_pool schedule c = fold pool_step schedule c"

lemma run_pool_Nil [simp]: "run_pool [] c = c"
  by (simp add: run_pool_def)

lemma run_pool_Cons [simp]: "run_pool (i # is) c = run_pool is (pool_step i c)"
  by (simp add: run_pool_def)

lemma run_pool_append: "run_pool (is @ js) c = run_pool js (run_pool is c)"
  by (simp add: run_pool_def)

subsection \<open>Runs of one call\<close>

fun own_steps :: "nat \<Rightarrow> 's \<times> ('s, 'a) prog \<Rightarrow> 's \<times> ('s, 'a) prog" where
  "own_steps 0 c = c"
| "own_steps (Suc n) (s, Await f) = own_steps n (f s)"
| "own_steps (Suc n) c = c"

lemma own_steps_ended [simp]: "own_steps n (s, Ret a) = (s, Ret a)" "own_steps n (s, Throw e) = (s, Throw e)"
  by (cases n; simp)+

lemma run_own:
  "run_pool (replicate n i) (s, ps) =
     (if i < length ps then (fst (own_steps n (s, ps ! i)), ps[i := snd (own_steps n (s, ps ! i))]) else (s, ps))"
proof (induction n arbitrary: s ps)
  case (Suc n)
  show ?case
  proof (cases "i < length ps")
    case True
    then show ?thesis using Suc.IH by (cases "ps ! i") (simp_all split: prod.split)
  qed (use Suc.IH in simp)
qed simp

lemma solo_own: "\<exists>n. own_steps n (s, p) = (snd (solo p s), case fst (solo p s) of Inl e \<Rightarrow> Throw e | Inr a \<Rightarrow> Ret a)"
proof (induction p arbitrary: s)
  case (Await f)
  obtain s' q where fs: "f s = (s', q)" by (cases "f s")
  have "\<exists>n. own_steps n (s', q) = (snd (solo q s'), case fst (solo q s') of Inl e \<Rightarrow> Throw e | Inr a \<Rightarrow> Ret a)"
    by (rule Await [OF rangeI [of f s]]) (simp add: fs snds.simps)
  then obtain n where "own_steps n (s', q) = (snd (solo q s'), case fst (solo q s') of Inl e \<Rightarrow> Throw e | Inr a \<Rightarrow> Ret a)" ..
  then show ?case using fs by (intro exI [of _ "Suc n"]) simp
qed (auto intro: exI [of _ 0])

lemma solo_reach: "solo p s = (Inr a, t) \<Longrightarrow> \<exists>n. own_steps n (s, p) = (t, Ret a)"
  using solo_own [of s p] by simp

lemma bindP_assoc: "bindP (bindP p f) g = bindP p (\<lambda>a. bindP (f a) g)"
proof (induction p)
  case (Await h)
  have "bindP (bindP (snd (h s)) f) g = bindP (snd (h s)) (\<lambda>a. bindP (f a) g)" for s
    by (rule Await [of "h s"]) (auto simp: snds.simps)
  then show ?case by (simp add: fun_eq_iff map_prod_def split: prod.split) (metis snd_conv)
qed simp_all

lemma own_await:
  "own_steps (Suc n) (s, bindP (awaitE m) g) =
     (case m s of (Inl e, s') \<Rightarrow> own_steps n (s', Throw e) | (Inr a, s') \<Rightarrow> own_steps n (s', g a))"
  by (simp add: awaitE_def split: prod.split sum.split)

subsection \<open>Calls that end\<close>

text \<open>At most \<open>n\<close> steps of its own, whatever the others do in between.\<close>

fun ends_within :: "nat \<Rightarrow> ('s, 'a) prog \<Rightarrow> bool" where
  "ends_within (Suc n) (Await f) = (\<forall>s. ends_within n (snd (f s)))"
| "ends_within 0 (Await f) = False"
| "ends_within n p = True"

lemma ends_mono: "ends_within n p \<Longrightarrow> n \<le> m \<Longrightarrow> ends_within m p"
proof (induction n p arbitrary: m rule: ends_within.induct)
  case (1 n f)
  then obtain l where "m = Suc l" "n \<le> l" by (cases m) auto
  then show ?case using 1 by simp
qed simp_all

lemma ends_ended [simp]: "ends_within n (Ret a)" "ends_within n (Throw e)"
  by (cases n; simp)+

lemma ends_bind: "ends_within n p \<Longrightarrow> (\<And>a. ends_within m (g a)) \<Longrightarrow> ends_within (n + m) (bindP p g)"
proof (induction p arbitrary: n)
  case (Ret a)
  then show ?case using ends_mono [of m "g a" "n + m"] by simp
next
  case (Await f)
  then obtain l where n: "n = Suc l" "\<And>s. ends_within l (snd (f s))" by (cases n) simp_all
  have "ends_within (l + m) (bindP (snd (f s)) g)" for s
    by (rule Await.IH [OF rangeI [of f s] _ n(2) Await.prems(2)]) (simp add: snds.simps prod_eq_iff)
  then show ?case using n(1) by simp
qed simp

lemma ends_catch: "ends_within n p \<Longrightarrow> n + m \<le> l \<Longrightarrow> (\<And>e. ends_within m (h e)) \<Longrightarrow> ends_within l (catchP p h)"
proof (induction p arbitrary: n l)
  case (Throw e)
  then show ?case using ends_mono [of m "h e" l] by simp
next
  case (Await f)
  then obtain i where n: "n = Suc i" "\<And>s. ends_within i (snd (f s))" by (cases n) simp_all
  then obtain j where l: "l = Suc j" "i + m \<le> j" using Await.prems(2) by (cases l) simp_all
  have "ends_within j (catchP (snd (f s)) h)" for s
    by (rule Await.IH [OF rangeI [of f s] _ n(2) l(2) Await.prems(3)]) (simp add: snds.simps prod_eq_iff)
  then show ?case using l(1) by simp
qed simp

lemma ends_await: "0 < n \<Longrightarrow> ends_within n (awaitE m)"
  by (cases n) (auto simp: awaitE_def split: prod.split sum.split)

text \<open>The bound of a program from those of its parts.\<close>

lemma ends_seq: "ends_within n p \<Longrightarrow> n \<le> m \<Longrightarrow> (\<And>a. ends_within (m - n) (g a)) \<Longrightarrow> ends_within m (bindP p g)"
  using ends_bind [of n p "m - n" g] by simp

lemma ends_step: "0 < n \<Longrightarrow> (\<And>a. ends_within (n - 1) (g a)) \<Longrightarrow> ends_within n (bindP (awaitE m) g)"
  using ends_seq [of 1 "awaitE m" n g] ends_await [of 1 m] by simp

lemmas ends_intros = ends_await ends_step

lemma ended: "ends_within 0 p \<Longrightarrow> p \<noteq> Await f"
  by auto

lemma ends_pool:
  assumes "i < length ps" and "ends_within (n + count_list schedule i) (ps ! i)"
  shows "ends_within n (snd (run_pool schedule (s, ps)) ! i) \<and> length (snd (run_pool schedule (s, ps))) = length ps"
  using assms
proof (induction schedule arbitrary: s ps)
  case (Cons j schedule)
  obtain s' ps' where step: "pool_step j (s, ps) = (s', ps')" by (cases "pool_step j (s, ps)")
  have "length ps' = length ps \<and> ends_within (n + count_list schedule i) (ps' ! i)"
  proof (cases "j < length ps \<and> (\<exists>f. ps ! j = Await f)")
    case True
    then obtain f t q where f: "ps ! j = Await f" "f s = (t, q)" by (metis surj_pair)
    then have "s' = t" "ps' = ps[j := q]" using step True by auto
    moreover have "ends_within (n + count_list schedule i) q" if "j = i"
    proof -
      have "ends_within (Suc (n + count_list schedule i)) (Await f)" using Cons.prems f(1) that by simp
      then have "ends_within (n + count_list schedule i) (snd (f s))" by simp
      then show ?thesis using f(2) by simp
    qed
    ultimately show ?thesis using Cons.prems by (cases "j = i") simp_all
  next
    case False
    then have same: "ps' = ps" using step by (auto split: prog.splits if_splits)
    have "ends_within (n + count_list schedule i) (ps ! i)"
    proof (cases "j = i")
      case True
      then have "\<forall>f. ps ! i \<noteq> Await f" using False Cons.prems(1) by blast
      then show ?thesis by (cases "ps ! i") simp_all
    qed (use Cons.prems in simp)
    then show ?thesis using same by simp
  qed
  then show ?case using Cons.IH [of ps' s'] Cons.prems(1) step by (simp del: pool_step.simps)
qed simp

lemma pool_ends:
  assumes "\<forall>p \<in> set ps. ends_within n p" and "\<forall>i < length ps. n \<le> count_list schedule i"
    and "run_pool schedule (s, ps) = (s', qs)"
  shows "length qs = length ps \<and> (\<forall>q \<in> set qs. (\<exists>r. q = Ret r) \<or> (\<exists>e. q = Throw e))"
proof (cases "ps = []")
  case True
  have "run_pool schedule (s, ps) = (s, ps)" unfolding True by (induction schedule) simp_all
  then show ?thesis using True assms(3) by simp
next
  case False
  have call: "ends_within 0 (qs ! i) \<and> length qs = length ps" if i: "i < length ps" for i
  proof -
    have "ends_within n (ps ! i)" using assms(1) i by simp
    then have "ends_within (0 + count_list schedule i) (ps ! i)" using assms(2) i by (auto intro: ends_mono)
    from ends_pool [OF i this, of s] show ?thesis using assms(3) by simp
  qed
  have len: "length qs = length ps" using call [of 0] False by simp
  have "(\<exists>r. q = Ret r) \<or> (\<exists>e. q = Throw e)" if "q \<in> set qs" for q
  proof -
    obtain i where i: "i < length ps" "q = qs ! i" using \<open>q \<in> set qs\<close> len unfolding in_set_conv_nth by auto
    then have "ends_within 0 q" using call by simp
    then show ?thesis by (cases q) simp_all
  qed
  then show ?thesis using len by blast
qed

section \<open>Rely and guarantee\<close>

locale rely_guarantee =
  fixes inv :: "'s \<Rightarrow> bool" and guar :: "'s \<Rightarrow> 's \<Rightarrow> bool"
  assumes guar_refl: "guar s s"
    and guar_trans: "guar s t \<Longrightarrow> guar t u \<Longrightarrow> guar s u"
begin

definition stable :: "('s \<Rightarrow> bool) \<Rightarrow> bool" where
  "stable P \<longleftrightarrow> (\<forall>s s'. P s \<longrightarrow> inv s \<longrightarrow> inv s' \<longrightarrow> guar s s' \<longrightarrow> P s')"

inductive sat :: "('s \<Rightarrow> bool) \<Rightarrow> ('s, 'a) prog \<Rightarrow> ('a \<Rightarrow> 's \<Rightarrow> bool) \<Rightarrow> bool" where
  sat_ret: "(\<And>s. P s \<Longrightarrow> inv s \<Longrightarrow> Q a s) \<Longrightarrow> sat P (Ret a) Q"
| sat_throw: "sat P (Throw e) Q"
| sat_step: "(\<And>s. P s \<Longrightarrow> inv s \<Longrightarrow> inv (fst (f s)) \<and> guar s (fst (f s)) \<and>
      (\<exists>P'. stable P' \<and> P' (fst (f s)) \<and> sat P' (snd (f s)) Q)) \<Longrightarrow> sat P (Await f) Q"

inductive_cases sat_retE: "sat P (Ret a) Q"
inductive_cases sat_stepE: "sat P (Await f) Q"

lemma sat_weaken:
  assumes "sat P p Q" and "\<And>s. P' s \<Longrightarrow> inv s \<Longrightarrow> P s"
  shows "sat P' p Q"
  using assms(1)
proof cases
  case (sat_step f)
  show ?thesis unfolding sat_step(1)
    by (rule sat.sat_step) (rule sat_step(2) [OF assms(2)])
qed (use assms(2) in \<open>blast intro: sat_ret sat_throw\<close>)+

lemma sat_never: "sat (\<lambda>_. False) p Q"
  by (cases p) (auto intro: sat_ret sat_throw sat_step)

text \<open>A fact about values, not about the state, can be assumed.\<close>

lemma sat_fact: "(b \<Longrightarrow> sat P p Q) \<Longrightarrow> sat (\<lambda>s. P s \<and> b) p Q"
  using sat_weaken [of P p Q] sat_weaken [OF sat_never, of _ p Q] by (cases b) auto

lemma sat_bind: "sat P p M \<Longrightarrow> (\<And>a. sat (M a) (g a) Q) \<Longrightarrow> sat P (bindP p g) Q"
proof (induction rule: sat.induct)
  case (sat_ret P M a)
  have "sat P (g a) Q" by (rule sat_weaken [OF sat_ret(2)]) (rule sat_ret(1))
  then show ?case by simp
next
  case (sat_throw P e M)
  show ?case unfolding bindP.simps by (rule sat.sat_throw)
next
  case (sat_step P f M)
  show ?case unfolding bindP.simps
  proof (rule sat.sat_step)
    fix s assume "P s" "inv s"
    from sat_step.IH [OF this] obtain P' where "inv (fst (f s))" "guar s (fst (f s))" "stable P'"
        "P' (fst (f s))" "sat P' (bindP (snd (f s)) g) Q"
      using sat_step.prems by blast
    then show "inv (fst (map_prod id (\<lambda>p. bindP p g) (f s))) \<and>
        guar s (fst (map_prod id (\<lambda>p. bindP p g) (f s))) \<and>
        (\<exists>P'. stable P' \<and> P' (fst (map_prod id (\<lambda>p. bindP p g) (f s))) \<and>
          sat P' (snd (map_prod id (\<lambda>p. bindP p g) (f s))) Q)"
      by (auto simp: map_prod_def split: prod.split)
  qed
qed

text \<open>A handler knows what has been stable since before the block it protects.\<close>

lemma sat_catch:
  assumes "sat P p Q" and "stable R" and "\<And>e. sat R (h e) Q"
  shows "sat (\<lambda>s. P s \<and> R s) (catchP p h) Q"
  using assms(1,3)
proof (induction rule: sat.induct)
  case (sat_ret P Q a)
  then show ?case by (auto intro: sat.sat_ret)
next
  case (sat_throw P e Q)
  show ?case unfolding catchP.simps by (rule sat_weaken [OF sat_throw]) simp
next
  case (sat_step P f Q)
  show ?case unfolding catchP.simps
  proof (rule sat.sat_step)
    fix s assume s: "P s \<and> R s" "inv s"
    from sat_step.IH [of s] sat_step.prems s obtain P' where step: "inv (fst (f s))" "guar s (fst (f s))" "stable P'"
        "P' (fst (f s))" "sat (\<lambda>s. P' s \<and> R s) (catchP (snd (f s)) h) Q"
      by blast
    have "R (fst (f s))" using assms(2) s step(1,2) unfolding stable_def by blast
    moreover have "stable (\<lambda>s. P' s \<and> R s)" using step(3) assms(2) unfolding stable_def by blast
    ultimately show "inv (fst (map_prod id (\<lambda>p. catchP p h) (f s))) \<and>
        guar s (fst (map_prod id (\<lambda>p. catchP p h) (f s))) \<and>
        (\<exists>P'. stable P' \<and> P' (fst (map_prod id (\<lambda>p. catchP p h) (f s))) \<and>
          sat P' (snd (map_prod id (\<lambda>p. catchP p h) (f s))) Q)"
      using step by (cases "f s") auto
  qed
qed

lemma sat_await:
  assumes "\<And>s. P s \<Longrightarrow> inv s \<Longrightarrow> inv (snd (m s)) \<and> guar s (snd (m s)) \<and> (\<forall>a. fst (m s) = Inr a \<longrightarrow> M a (snd (m s)))"
    and "\<And>a. stable (M a)"
  shows "sat P (awaitE m) M"
  unfolding awaitE_def
proof (rule sat_step)
  fix s assume s: "P s" "inv s"
  obtain r s' where m: "m s = (r, s')" by (cases "m s")
  show "inv (fst (case m s of (Inl e, s') \<Rightarrow> (s', Throw e) | (Inr a, s') \<Rightarrow> (s', Ret a))) \<and>
      guar s (fst (case m s of (Inl e, s') \<Rightarrow> (s', Throw e) | (Inr a, s') \<Rightarrow> (s', Ret a))) \<and>
      (\<exists>P'. stable P' \<and> P' (fst (case m s of (Inl e, s') \<Rightarrow> (s', Throw e) | (Inr a, s') \<Rightarrow> (s', Ret a))) \<and>
        sat P' (snd (case m s of (Inl e, s') \<Rightarrow> (s', Throw e) | (Inr a, s') \<Rightarrow> (s', Ret a))) M)"
  proof (cases r)
    case (Inl e)
    have "stable (\<lambda>_. True)" by (simp add: stable_def)
    then show ?thesis using assms(1) [OF s] m Inl sat_throw by auto
  next
    case (Inr a)
    then show ?thesis using assms(1) [OF s] assms(2) [of a] m sat_ret [of "M a" M a] by auto
  qed
qed

text \<open>Early exits.\<close>

lemma sat_throw_if: "sat P p Q \<Longrightarrow> sat P (if b then Throw e else p) Q"
  by (simp add: sat_throw)

lemma sat_throw_None:
  "(\<And>x. v = Some x \<Longrightarrow> sat P (g x) Q) \<Longrightarrow> sat P (case v of None \<Rightarrow> Throw e | Some x \<Rightarrow> g x) Q"
  by (cases v) (simp_all add: sat_throw)

lemma stable_conj: "stable P \<Longrightarrow> stable Q \<Longrightarrow> stable (\<lambda>s. P s \<and> Q s)"
  unfolding stable_def by blast

lemma stable_const: "stable (\<lambda>_. b)"
  by (simp add: stable_def)

text \<open>What holds of the calls of a pool: each satisfies its result from what it knows now.\<close>

definition pool_ok :: "(nat \<Rightarrow> 'a \<Rightarrow> 's \<Rightarrow> bool) \<Rightarrow> ('s, 'a) pool \<Rightarrow> bool" where
  "pool_ok Q c \<longleftrightarrow> inv (fst c) \<and>
     (\<forall>i < length (snd c). \<exists>P. stable P \<and> P (fst c) \<and> sat P (snd c ! i) (Q i))"

lemma pool_ok_step:
  assumes "pool_ok Q (s, ps)"
  shows "pool_ok Q (pool_step i (s, ps)) \<and> guar s (fst (pool_step i (s, ps))) \<and>
    length (snd (pool_step i (s, ps))) = length ps"
proof (cases "\<exists>f. i < length ps \<and> ps ! i = Await f")
  case False
  then have "pool_step i (s, ps) = (s, ps)" by (auto split: prog.split)
  then show ?thesis using assms guar_refl by simp
next
  case True
  then obtain f where f: "i < length ps" "ps ! i = Await f" by blast
  obtain s' p where fs: "f s = (s', p)" by (cases "f s")
  have "inv s" using assms by (simp add: pool_ok_def)
  obtain P where "stable P" "P s" "sat P (Await f) (Q i)" "inv s" using assms f by (force simp: pool_ok_def)
  from sat_stepE [OF this(3)] this(2,4)
  have "inv (fst (f s)) \<and> guar s (fst (f s)) \<and> (\<exists>P'. stable P' \<and> P' (fst (f s)) \<and> sat P' (snd (f s)) (Q i))"
    by blast
  then have step: "inv s'" "guar s s'" "\<exists>P'. stable P' \<and> P' s' \<and> sat P' p (Q i)" by (simp_all add: fs)
  have "\<exists>P. stable P \<and> P s' \<and> sat P (ps[i := p] ! j) (Q j)" if j: "j < length ps" for j
  proof (cases "j = i")
    case False
    obtain P' where "stable P'" "P' s" "sat P' (ps ! j) (Q j)" using assms j by (force simp: pool_ok_def)
    then show ?thesis using False step \<open>inv s\<close> unfolding stable_def by auto
  qed (use step f in auto)
  then show ?thesis using f fs step by (simp add: pool_ok_def)
qed

lemma pool_ok_run:
  "pool_ok Q (s, ps) \<Longrightarrow> pool_ok Q (run_pool is (s, ps)) \<and> guar s (fst (run_pool is (s, ps))) \<and>
     length (snd (run_pool is (s, ps))) = length ps"
proof (induction "is" arbitrary: s ps)
  case (Cons i "is")
  obtain s' ps' where c: "pool_step i (s, ps) = (s', ps')" by (cases "pool_step i (s, ps)")
  then show ?case using pool_ok_step [OF Cons.prems, of i] Cons.IH [of s' ps'] guar_trans [of s s'] by (simp del: pool_step.simps)
qed (simp add: guar_refl)

lemma pool_result:
  assumes "pool_ok Q c" and "i < length (snd c)" and "snd c ! i = Ret a"
  shows "Q i a (fst c)"
proof -
  obtain P where "P (fst c)" "sat P (Ret a) (Q i)" using assms by (force simp: pool_ok_def)
  then show ?thesis using assms(1) by (auto simp: pool_ok_def elim: sat_retE)
qed

text \<open>A call that runs alone.\<close>

lemma solo_ok:
  assumes "sat P p Q" and "stable P" and "P s" and "inv s"
  shows "inv (snd (solo p s)) \<and> guar s (snd (solo p s)) \<and> (\<forall>a. fst (solo p s) = Inr a \<longrightarrow> Q a (snd (solo p s)))"
proof -
  obtain n where n: "own_steps n (s, p) = (snd (solo p s), case fst (solo p s) of Inl e \<Rightarrow> Throw e | Inr a \<Rightarrow> Ret a)"
    using solo_own [of s p] by (elim exE) (rule that)
  have "pool_ok (\<lambda>_. Q) (s, [p])" using assms by (auto simp: pool_ok_def)
  from pool_ok_run [OF this, of "replicate n 0"]
  have ok: "pool_ok (\<lambda>_. Q) (snd (solo p s), [case fst (solo p s) of Inl e \<Rightarrow> Throw e | Inr a \<Rightarrow> Ret a])"
    and guar: "guar s (snd (solo p s))"
    by (simp_all add: run_own n)
  have "Q a (snd (solo p s))" if "fst (solo p s) = Inr a" for a using pool_result [OF ok, of 0 a] that by simp
  then show ?thesis using ok guar by (simp add: pool_ok_def)
qed

end

end
