(* ===== verification/Concurrent_Rides.thy ===== *)
theory Concurrent_Rides
  imports Rides_Management Interleaving
begin

text \<open>
  The answers of drivers and riders arriving at the same time:
  \<open>rides/domain/services/rides-management.service.ts\<close> with a step for every awaited query, as
  the server executes it. \<open>Rides_Management\<close> runs the same methods one at a time; here each
  is proved to be its solo run.

  A query is one step. The transaction of \<open>claimDriver\<close> is one step too: it locks the row of
  the ride (\<open>FOR UPDATE\<close>) until it commits, so no other write to it comes in between. The
  loops that save the candidates of a ride, empty its queues or publish its notifications do not
  touch its row and are one step each; \<open>new Date()\<close> is a step of its own, which only adds
  schedules to those of the server.
\<close>

section \<open>Methods as programs\<close>

text \<open>The UPDATE of \<open>updateRide\<close>, on the row as it is when the statement runs.\<close>

definition write_ride :: "string \<Rightarrow> ride \<Rightarrow> unit weff" where
  "write_ride k merged = (\<lambda>s. case row_find ride_id k (rides s) of
       None \<Rightarrow> (Inl (JsError ''Ride not found while updating''), s)
     | Some current \<Rightarrow> (Inr (), s\<lparr>rides := row_put ride_id (updated_row (clock s) current merged) (rides s)\<rparr>))"

definition updateRideP :: "ride \<Rightarrow> (world, ride) prog" where
  "updateRideP r =
     (if ride_id r = [] then Throw (JsError ''Ride id is required for updates'')
      else bindP (awaitE (findRideById (ride_id r))) (\<lambda>found. case found of
          None \<Rightarrow> Throw (JsError ''Ride not found while updating'')
        | Some current \<Rightarrow>
            bindP (awaitE (write_ride (ride_id r) (mergeRideData current r))) (\<lambda>_.
            bindP (awaitE (findRideById (ride_id r))) (\<lambda>persisted. case persisted of
               None \<Rightarrow> Throw (JsError ''Ride not found after update'')
             | Some p \<Rightarrow> Ret p))))"

definition transitionRideStatusP ::
  "string \<Rightarrow> ride_status list \<Rightarrow> ride_status \<Rightarrow> string option \<Rightarrow> (world, ride \<times> bool) prog" where
  "transitionRideStatusP k allowed next ctx =
     bindP (awaitE (findRideById k)) (\<lambda>found. case found of
         None \<Rightarrow> Throw (NotFound ''Ride not found'')
       | Some r \<Rightarrow>
           if status r \<notin> set allowed then Ret (r, False)
           else if status r = next then Ret (r, False)
           else (let previous = status r;
                     r1 = r\<lparr>status := next\<rparr>;
                     r2 = (if truthy ctx \<and> next = CANCELED then r1\<lparr>cancelReason := ctx\<rparr> else r1)
                 in bindP (updateRideP r2) (\<lambda>saved.
                    bindP (awaitE (recordStatusChange (ride_id saved) (Some previous) next ctx)) (\<lambda>_.
                      Ret (saved, True)))))"

definition markCandidateSupersededP :: "candidate \<Rightarrow> int \<Rightarrow> ride \<Rightarrow> (world, unit) prog" where
  "markCandidateSupersededP c now current =
     (let c' = with_response CCanceled (Some ''Another driver already accepted this ride'') now c
      in bindP (awaitE (saveCandidate c' None)) (\<lambda>_. awaitE (notifyCandidateSuperseded current c')))"

definition takeRideP :: "candidate \<Rightarrow> int \<Rightarrow> string \<Rightarrow> ride \<Rightarrow> (world, ride) prog" where
  "takeRideP c now driver r =
     (if truthy (driverId r) then Ret r
      else bindP (awaitE (claimDriver (ride_id r) driver)) (\<lambda>claimed.
        if claimed then Ret (r\<lparr>driverId := Some driver\<rparr>)
        else bindP (awaitE (refresh (ride_id r) r)) (\<lambda>r1.
          if truthy (driverId r1) \<and> driverId r1 \<noteq> Some driver
          then bindP (markCandidateSupersededP c now r1)
                 (\<lambda>_. Throw (Conflict ''Ride already accepted by another driver''))
          else Ret r1)))"

text \<open>What follows once the driver has the ride.\<close>

definition finishAcceptP :: "candidate \<Rightarrow> int \<Rightarrow> ride \<Rightarrow> (world, ride) prog" where
  "finishAcceptP c now r2 =
     (let c' = with_response CAccepted None now c
      in bindP (awaitE (saveCandidate c' None)) (\<lambda>_.
         bindP (transitionRideStatusP (ride_id r2) [REQUESTED, CANDIDATES_COMPUTED]
                  ASSIGNED (Some ''Driver responded to invitation'')) (\<lambda>(assigned, _).
         bindP (transitionRideStatusP (ride_id assigned) [ASSIGNED, CANDIDATES_COMPUTED] ACCEPTED
                  (Some ''Driver accepted ride request'')) (\<lambda>(accepted, _).
         bindP (awaitE (notifyDriverAccepted accepted c')) (\<lambda>_.
           awaitE (refresh (ride_id assigned) accepted))))))"

definition acceptRideByDriverP :: "string \<Rightarrow> string \<Rightarrow> (world, ride) prog" where
  "acceptRideByDriverP k driver =
     bindP (awaitE (findRideById k)) (\<lambda>found. case found of
         None \<Rightarrow> Throw (NotFound ''Ride not found'')
       | Some r \<Rightarrow>
           if status r = CANCELED then Throw (BadRequest ''Cancelled ride cannot be accepted'')
           else if status r = COMPLETED
           then Throw (BadRequest ''Completed ride cannot be accepted'')
           else bindP (awaitE (findByRideAndDriver k driver)) (\<lambda>cfound. case cfound of
               None \<Rightarrow> Throw (NotFound ''Ride not available for this driver'')
             | Some c \<Rightarrow>
                 if cand_status c = CCanceled
                 then Throw (Conflict ''Ride invitation is no longer active'')
                 else if cand_status c = DECLINED
                 then Throw (BadRequest ''Ride already declined by driver'')
                 else if cand_status c = CONFIRMED \<or>
                   (cand_status c = CAccepted \<and> driverId r = Some driver \<and>
                     (status r = ACCEPTED \<or> status r = ENROUTE))
                 then Ret r
                 else bindP (awaitE (readE clock)) (\<lambda>now.
                   if truthy (driverId r) \<and> driverId r \<noteq> Some driver
                   then bindP (markCandidateSupersededP c now r)
                          (\<lambda>_. Throw (Conflict ''Ride already accepted by another driver''))
                   else bindP
                     (takeRideP c now driver r)
                     (finishAcceptP c now))))"

definition cancelCandidatesP :: "ride \<Rightarrow> string option \<Rightarrow> int \<Rightarrow> candidate list \<Rightarrow> (world, unit) prog" where
  "cancelCandidatesP updated why now cs =
     (let toUpdate = map (with_response CCanceled
                          (default_reason why ''Ride cancelled by rider'') now)
                      (filter (\<lambda>c. cand_status c \<noteq> CCanceled) cs)
      in if toUpdate = [] then Ret ()
         else bindP (awaitE (saveManyCandidates toUpdate None)) (\<lambda>_.
              awaitE (forE (\<lambda>c. notifyRideCanceledForCandidate updated c why) toUpdate)))"

definition cancelRideP :: "ride_env \<Rightarrow> string \<Rightarrow> requesting_client \<Rightarrow> string option \<Rightarrow> (world, ride) prog" where
  "cancelRideP env k req why =
     bindP (awaitE (findRideById k)) (\<lambda>found. case found of
         None \<Rightarrow> Throw (NotFound ''Ride not found'')
       | Some r \<Rightarrow>
           if riderId r \<noteq> req_id req then Throw (NotFound ''Ride not found'')
           else if status r = COMPLETED
           then Throw (BadRequest ''Completed ride cannot be cancelled'')
           else if status r = CANCELED then Ret r
           else bindP (awaitE (removePendingJobs env (ride_id r))) (\<lambda>_.
             bindP (transitionRideStatusP (ride_id r)
                      [REQUESTED, CANDIDATES_COMPUTED, ASSIGNED, ACCEPTED, ENROUTE] CANCELED
                      (default_reason why ''Ride cancelled by rider'')) (\<lambda>(updated0, _).
              let updated1 = (if truthy why then updated0\<lparr>cancelReason := why\<rparr> else updated0);
                  updated = updated1\<lparr>fareFinal := Some zero_fare\<rparr>
              in bindP (updateRideP updated) (\<lambda>_.
                 bindP (awaitE (findCandidatesByRideId (ride_id updated))) (\<lambda>cs.
                 bindP (awaitE (readE clock)) (\<lambda>now.
                 bindP (cancelCandidatesP updated why now cs) (\<lambda>_.
                   awaitE (refresh (ride_id updated) updated))))))))"

definition createMatchedRideP ::
  "ride_env \<Rightarrow> string \<Rightarrow> create_ride_input \<Rightarrow> string \<Rightarrow> (world, ride \<times> candidate list) prog" where
  "createMatchedRideP env rider payload job =
     catchP
       (bindP (awaitE (requestRouteEstimatesThroughQueue env job (ci_pickup payload) (ci_dropoff payload)))
         (\<lambda>route.
        bindP (awaitE (liftE (nearby env (fst (ci_pickup payload)) (snd (ci_pickup payload))
                       (resolveCandidateLimit (ci_maxDrivers payload))))) (\<lambda>drivers.
        if drivers = [] then Throw (JsError no_driver)
        else bindP (awaitE (createRideWithDetails (ride_details env rider payload route drivers)))
          (\<lambda>(created, cands).
           bindP (awaitE (forE (\<lambda>c. notifyRideOffered created c route) cands)) (\<lambda>_.
           bindP (awaitE (notifyRideMatched created)) (\<lambda>_.
             Ret (created, cands)))))))
       (\<lambda>err. bindP (awaitE (removeRideJob env job)) (\<lambda>_.
          if is_bad_request err \<or> exn_message err = no_driver then Throw err
          else Throw (InternalServerError ''error when creating ride'')))"

definition createRideP ::
  "ride_env \<Rightarrow> string \<Rightarrow> create_ride_input \<Rightarrow> (world, ride \<times> candidate list) prog" where
  "createRideP env rider payload =
     (if rider = [] then Throw (BadRequest ''Rider id is required to create a ride'')
      else bindP (awaitE (findUnfinishedRideByRiderId rider)) (\<lambda>existing.
        if existing \<noteq> None
        then Throw (Conflict ''You already have an active ride. Please finish or cancel it before creating a new one.'')
        else bindP (awaitE (readE clock)) (\<lambda>now. createMatchedRideP env rider payload (routeJobId rider now))))"

section \<open>Alone, they are the methods\<close>

lemma solo_update: "solo (updateRideP r) = updateRide r"
proof
  fix s
  show "solo (updateRideP r) s = updateRide r s"
  proof (cases "row_find ride_id (ride_id r) (rides s)")
    case None
    then show ?thesis by (simp add: updateRideP_def updateRide_def eff_run)
  next
    case (Some c)
    then have "ride_id c = ride_id r" by (auto dest: row_find_SomeD)
    then show ?thesis using Some
      by (simp add: updateRideP_def updateRide_def eff_run write_ride_def row_find_put)
  qed
qed

lemma solo_transition: "solo (transitionRideStatusP k allowed next ctx) = transitionRideStatus k allowed next ctx"
  by (simp add: transitionRideStatusP_def transitionRideStatus_def solo_update thenE_def Let_def cong: if_cong option.case_cong prod.case_cong)

lemma solo_superseded: "solo (markCandidateSupersededP c now r) = markCandidateSuperseded c now r"
  by (simp add: markCandidateSupersededP_def markCandidateSuperseded_def Let_def)

lemma solo_take: "solo (takeRideP c now driver r) = takeRide c now driver r"
  by (simp add: takeRideP_def takeRide_def solo_superseded thenE_def Let_def cong: if_cong)

lemma solo_accept: "solo (acceptRideByDriverP k d) = acceptRideByDriver k d"
  by (simp add: acceptRideByDriverP_def acceptRideByDriver_def finishAcceptP_def solo_transition solo_superseded solo_take
      thenE_def Let_def cong: if_cong option.case_cong prod.case_cong)

lemma solo_cancel: "solo (cancelRideP env k req why) = cancelRide env k req why"
proof -
  have "solo (cancelCandidatesP u why now cs) = cancelCandidates u why now cs" for u now cs
    by (simp add: cancelCandidatesP_def cancelCandidates_def whenE_def Let_def)
  then show ?thesis
    by (simp add: cancelRideP_def cancelRide_def solo_transition solo_update thenE_def Let_def
        cong: if_cong option.case_cong prod.case_cong)
qed

lemma solo_matched: "solo (createMatchedRideP env rider payload job) = createMatchedRide env rider payload job"
  by (simp add: createMatchedRideP_def createMatchedRide_def thenE_def cong: if_cong prod.case_cong)

lemma solo_create: "solo (createRideP env rider payload) = createRide env rider payload"
  by (simp add: createRideP_def createRide_def solo_matched cong: if_cong)

text \<open>
  The interleaved methods are the sequential ones: a creation, an acceptance or a cancellation
  that runs without interference does exactly what the method of \<open>Rides_Management\<close> does.
\<close>

theorem interleaved_alone:
  "solo (createRideP env rider payload) = createRide env rider payload \<and>
   solo (acceptRideByDriverP k d) = acceptRideByDriver k d \<and>
   solo (cancelRideP env k req why) = cancelRide env k req why"
  by (simp add: solo_create solo_accept solo_cancel)

end
