(* ===== verification/Concurrent_Guarantees.thy ===== *)
theory Concurrent_Guarantees
  imports Ride_Guarantees Concurrent_Rides
begin

text \<open>
  What holds of rides when creations, acceptances and cancellations interleave: acceptances
  never give a ride to two drivers and every call ends, but a cancellation can be overwritten
  by an acceptance and a rider can get two rides.
\<close>

section \<open>One driver per ride, however the acceptances interleave\<close>

text \<open>No empty driver, and a confirmed candidate is the driver of its ride.\<close>

definition claimed_inv :: "world \<Rightarrow> bool" where
  "claimed_inv s \<longleftrightarrow>
     (\<forall>k r. row_find ride_id k (rides s) = Some r \<longrightarrow> driverId r \<noteq> Some []) \<and>
     (\<forall>c \<in> set (candidates s). cand_status c = CONFIRMED \<longrightarrow>
        (\<forall>r. row_find ride_id (cand_rideId c) (rides s) = Some r \<longrightarrow> driverId r = Some (cand_driverId c)))"

text \<open>A ride stays, and so does its driver once it has one; no ride appears.\<close>

definition keeps_driver :: "world \<Rightarrow> world \<Rightarrow> bool" where
  "keeps_driver s s' \<longleftrightarrow>
     (\<forall>k. case row_find ride_id k (rides s) of
        None \<Rightarrow> row_find ride_id k (rides s') = None
      | Some r \<Rightarrow> \<exists>r'. row_find ride_id k (rides s') = Some r' \<and> (driverId r \<noteq> None \<longrightarrow> driverId r' = driverId r))"

definition taken :: "string \<Rightarrow> string \<Rightarrow> world \<Rightarrow> bool" where
  "taken k d s \<longleftrightarrow> (\<exists>r. row_find ride_id k (rides s) = Some r \<and> driverId r = Some d)"

lemma keeps_driver_refl: "keeps_driver s s"
  by (simp add: keeps_driver_def split: option.split)

lemma keeps_driver_trans: "keeps_driver s t \<Longrightarrow> keeps_driver t u \<Longrightarrow> keeps_driver s u"
  unfolding keeps_driver_def by (auto split: option.splits) (metis option.distinct(1) option.inject)+

interpretation accepts: rely_guarantee claimed_inv keeps_driver
  by unfold_locales (rule keeps_driver_refl, rule keeps_driver_trans)

lemma taken_keeps: "taken k d s \<Longrightarrow> keeps_driver s s' \<Longrightarrow> taken k d s'"
  by (force simp: taken_def keeps_driver_def dest: spec [where x = k])

lemma stable_taken [intro, simp]: "accepts.stable (taken k d)"
  using taken_keeps unfolding accepts.stable_def by blast

subsection \<open>The steps\<close>

lemma same_tables:
  "rides s' = rides s \<Longrightarrow> candidates s' = candidates s \<Longrightarrow> claimed_inv s \<Longrightarrow> claimed_inv s' \<and> keeps_driver s s'"
  by (auto simp: claimed_inv_def keeps_driver_def split: option.split)

lemma unconfirmed_step:
  assumes "rides s' = rides s" and "set (candidates s') \<subseteq> set (candidates s) \<union> {c. cand_status c \<noteq> CONFIRMED}"
    and "claimed_inv s"
  shows "claimed_inv s' \<and> keeps_driver s s'"
proof
  show "keeps_driver s s'" using assms(1) by (simp add: keeps_driver_def split: option.split)
  show "claimed_inv s'" using assms unfolding claimed_inv_def by auto
qed

lemma saveCandidate_step:
  assumes "cand_status c \<noteq> CONFIRMED"
  shows "rides (snd (saveCandidate c None s)) = rides s \<and>
    set (candidates (snd (saveCandidate c None s))) \<subseteq> set (candidates s) \<union> {c. cand_status c \<noteq> CONFIRMED}"
  using assms
  by (auto simp: saveCandidate_def updateCandidate_def insertCandidate_def insertCandidateRow_def eff_run Let_def
      dest!: in_row_put split: sum.split option.split)

lemma claim_step:
  assumes "claimed_inv s" and "d \<noteq> []"
  shows "claimed_inv (snd (claimDriver k d s)) \<and> keeps_driver s (snd (claimDriver k d s)) \<and>
    (\<forall>b. fst (claimDriver k d s) = Inr b \<longrightarrow> b \<and> taken k d (snd (claimDriver k d s)))"
proof (cases "row_find ride_id k (rides s)")
  case None
  then show ?thesis using assms keeps_driver_refl by (simp add: claimDriver_run)
next
  case (Some r)
  then have id: "ride_id r = k" by (auto dest: row_find_SomeD)
  show ?thesis
  proof (cases "driverId r")
    case None
    then show ?thesis using assms Some id
      by (auto simp: claimDriver_run claimed_inv_def keeps_driver_def taken_def row_find_put split: option.split)
  next
    case (Some d')
    then have "truthy (driverId r)" using assms(1) \<open>row_find ride_id k (rides s) = Some r\<close>
      by (auto simp: claimed_inv_def)
    then show ?thesis using assms(1) \<open>row_find ride_id k (rides s) = Some r\<close> keeps_driver_refl by (simp add: claimDriver_run)
  qed
qed

lemma write_step:
  assumes "claimed_inv s" and "taken k d s" and "driverId merged = Some d"
  shows "claimed_inv (snd (write_ride k merged s)) \<and> keeps_driver s (snd (write_ride k merged s)) \<and>
    taken k d (snd (write_ride k merged s))"
proof -
  obtain r where r: "row_find ride_id k (rides s) = Some r" "driverId r = Some d" using assms(2) by (auto simp: taken_def)
  then have "ride_id r = k" by (auto dest: row_find_SomeD)
  then show ?thesis using r assms(1,3)
    by (auto simp: write_ride_def claimed_inv_def keeps_driver_def taken_def row_find_put split: option.split)
qed

text \<open>Steps that leave the tables, or only answer an invitation, keep any stable knowledge.\<close>

lemma sat_same:
  assumes "\<And>s. rides (snd (m s)) = rides s \<and> candidates (snd (m s)) = candidates s"
    and "\<And>s a. P s \<Longrightarrow> claimed_inv s \<Longrightarrow> fst (m s) = Inr a \<Longrightarrow> M a s"
    and "\<And>a. accepts.stable (M a)"
  shows "accepts.sat P (awaitE m) M"
proof (rule accepts.sat_await [OF _ assms(3)])
  fix s assume s: "P s" "claimed_inv s"
  have step: "claimed_inv (snd (m s)) \<and> keeps_driver s (snd (m s))" using same_tables assms(1) s(2) by blast
  moreover have "M a (snd (m s))" if "fst (m s) = Inr a" for a
    using assms(2) [OF s that] assms(3) step s(2) unfolding accepts.stable_def by blast
  ultimately show "claimed_inv (snd (m s)) \<and> keeps_driver s (snd (m s)) \<and> (\<forall>a. fst (m s) = Inr a \<longrightarrow> M a (snd (m s)))"
    by blast
qed

lemma sat_save:
  assumes "cand_status c \<noteq> CONFIRMED" and "accepts.stable P"
  shows "accepts.sat P (awaitE (saveCandidate c None)) (\<lambda>_. P)"
proof (rule accepts.sat_await [OF _ assms(2)])
  fix s assume s: "P s" "claimed_inv s"
  have "claimed_inv (snd (saveCandidate c None s)) \<and> keeps_driver s (snd (saveCandidate c None s))"
    using unconfirmed_step saveCandidate_step [OF assms(1)] s(2) by blast
  then show "claimed_inv (snd (saveCandidate c None s)) \<and> keeps_driver s (snd (saveCandidate c None s)) \<and>
      (\<forall>a. fst (saveCandidate c None s) = Inr a \<longrightarrow> P (snd (saveCandidate c None s)))"
    using s assms(2) unfolding accepts.stable_def by blast
qed

subsection \<open>The methods\<close>

lemma stable_read: "accepts.stable (\<lambda>s. b \<longrightarrow> taken k d s)"
  using stable_taken unfolding accepts.stable_def by blast

definition stored :: "string \<Rightarrow> world \<Rightarrow> bool" where
  "stored k s \<longleftrightarrow> row_find ride_id k (rides s) \<noteq> None"

lemma stable_stored [intro, simp]: "accepts.stable (stored k)"
  unfolding accepts.stable_def stored_def keeps_driver_def by (force dest: spec [where x = k])

definition read_ok :: "string \<Rightarrow> string \<Rightarrow> ride option \<Rightarrow> world \<Rightarrow> bool" where
  "read_ok k d found s \<longleftrightarrow>
     (case found of None \<Rightarrow> True | Some r \<Rightarrow> (stored k s \<and> (driverId r = Some d \<longrightarrow> taken k d s)) \<and> ride_id r = k)"

lemma stable_read_ok [intro, simp]: "accepts.stable (read_ok k d found)"
  using stable_taken [of k d] stable_stored [of k] unfolding accepts.stable_def read_ok_def by (auto split: option.splits)

lemma sat_find: "accepts.sat P (awaitE (findRideById k)) (read_ok k d)"
  by (rule sat_same) (auto simp: eff_run read_ok_def taken_def stored_def dest: row_find_SomeD split: option.split)

lemma sat_find_taken:
  "accepts.sat (taken k d) (awaitE (findRideById k)) (\<lambda>found s. taken k d s \<and> (\<forall>r. found = Some r \<longrightarrow> ride_id r = k \<and> driverId r = Some d))"
proof (rule sat_same)
  show "accepts.stable (\<lambda>s. taken k d s \<and> (\<forall>r. found = Some r \<longrightarrow> ride_id r = k \<and> driverId r = Some d))" for found
    by (intro accepts.stable_conj stable_taken accepts.stable_const)
qed (auto simp: eff_run taken_def dest: row_find_SomeD)

lemma sat_updateRideP:
  assumes "ride_id r = k" and "driverId r = Some d"
  shows "accepts.sat (taken k d) (updateRideP r) (\<lambda>p s. taken k d s \<and> ride_id p = k)"
proof -
  have put: "accepts.sat (taken k d) (awaitE (write_ride k merged)) (\<lambda>_. taken k d)" if "driverId merged = Some d" for merged
    using write_step that by (intro accepts.sat_await) blast+
  have last: "accepts.sat (taken k d) (bindP (awaitE (findRideById k)) (\<lambda>persisted. case persisted of
      None \<Rightarrow> Throw e | Some p \<Rightarrow> Ret p)) (\<lambda>p s. taken k d s \<and> ride_id p = k)" for e
    by (rule accepts.sat_bind [OF sat_find_taken]) (auto intro: accepts.sat_throw accepts.sat_ret split: option.split)
  show ?thesis unfolding updateRideP_def assms(1)
    by (intro accepts.sat_throw_if accepts.sat_bind [OF sat_find_taken])
      (auto intro!: accepts.sat_throw accepts.sat_bind [OF accepts.sat_weaken [OF put] last] simp: assms split: option.split)
qed

lemma sat_keep:
  assumes "\<And>s. rides (snd (m s)) = rides s \<and> candidates (snd (m s)) = candidates s" and "accepts.stable P"
  shows "accepts.sat P (awaitE m) (\<lambda>_. P)"
  by (rule sat_same [OF assms(1)]) (use assms(2) in simp_all)

lemma same_record: "rides (snd (recordStatusChange k f t c s)) = rides s \<and>
    candidates (snd (recordStatusChange k f t c s)) = candidates s"
  by (simp add: recordStatusChange_def eff_run Let_def)

lemma stable_taken_and [intro, simp]: "accepts.stable (\<lambda>s. taken k d s \<and> b)"
  by (intro accepts.stable_conj stable_taken accepts.stable_const)

lemma sat_transitionP:
  "accepts.sat (taken k d) (transitionRideStatusP k allowed next ctx) (\<lambda>p s. taken k d s \<and> ride_id (fst p) = k)"
proof -
  have entry: "accepts.sat (\<lambda>s. taken k d s \<and> ride_id saved = k)
      (bindP (awaitE (recordStatusChange j f t c)) (\<lambda>_. Ret (saved, True)))
      (\<lambda>p s. taken k d s \<and> ride_id (fst p) = k)" for saved j f t c
    by (rule accepts.sat_bind [OF sat_keep [OF same_record stable_taken_and]]) (simp add: accepts.sat_ret)
  have change: "accepts.sat (taken k d) (bindP (updateRideP r) (\<lambda>saved. bindP (awaitE (recordStatusChange (ride_id saved) f t c))
      (\<lambda>_. Ret (saved, True)))) (\<lambda>p s. taken k d s \<and> ride_id (fst p) = k)"
    if "ride_id r = k" "driverId r = Some d" for r f t c
    by (rule accepts.sat_bind [OF sat_updateRideP [OF that] entry])
  show ?thesis unfolding transitionRideStatusP_def
    by (rule accepts.sat_bind [OF sat_find_taken], rule accepts.sat_fact)
      (auto intro!: accepts.sat_throw accepts.sat_ret change simp: Let_def split: option.split)
qed

lemma same_rows: "only_publishes m \<Longrightarrow> rides (snd (m s)) = rides s \<and> candidates (snd (m s)) = candidates s"
  by (simp add: same_publish)

lemma sat_superseded: "accepts.stable P \<Longrightarrow> accepts.sat P (bindP (markCandidateSupersededP c now r) (\<lambda>_. Throw e)) Q"
  unfolding markCandidateSupersededP_def Let_def
  by (intro accepts.sat_bind [where M = "\<lambda>_. P"] sat_save sat_keep same_rows superseded.publishes accepts.sat_throw)
    (simp_all add: with_response_def)

lemma sat_takeP:
  assumes "d \<noteq> []" and "\<not> (truthy (driverId r) \<and> driverId r \<noteq> Some d)"
  shows "accepts.sat (read_ok k d (Some r)) (takeRideP c now d r) (\<lambda>r2 s. taken k d s \<and> ride_id r2 = k)"
proof (cases "truthy (driverId r)")
  case True
  then show ?thesis using assms by (auto simp: takeRideP_def read_ok_def intro!: accepts.sat_ret)
next
  case False
  have claim: "accepts.sat (read_ok k d (Some r)) (awaitE (claimDriver (ride_id r) d))
      (\<lambda>claimed s. taken k d s \<and> claimed \<and> ride_id r = k)"
    using claim_step [OF _ assms(1), of _ "ride_id r"]
    by (intro accepts.sat_await) (auto simp: read_ok_def)
  have program: "takeRideP c now d r = bindP (awaitE (claimDriver (ride_id r) d)) (\<lambda>claimed.
      if claimed then Ret (r\<lparr>driverId := Some d\<rparr>)
      else bindP (awaitE (refresh (ride_id r) r)) (\<lambda>r1.
        if truthy (driverId r1) \<and> driverId r1 \<noteq> Some d
        then bindP (markCandidateSupersededP c now r1) (\<lambda>_. Throw (Conflict ''Ride already accepted by another driver''))
        else Ret r1))"
    using False by (simp add: takeRideP_def)
  show ?thesis unfolding program
    by (rule accepts.sat_bind [OF claim], rule accepts.sat_fact) (auto intro!: accepts.sat_ret)
qed

lemma sat_finish:
  assumes "ride_id r2 = k"
  shows "accepts.sat (taken k d) (finishAcceptP c now r2) (\<lambda>_. taken k d)"
proof -
  let ?c = "with_response CAccepted None now c"
  have refresh: "accepts.sat (taken k d) (bindP (awaitE (notifyDriverAccepted q ?c)) (\<lambda>_. awaitE (refresh i q))) (\<lambda>_. taken k d)" for q i
  proof (rule accepts.sat_bind [where M = "\<lambda>_. taken k d"])
    show "accepts.sat (taken k d) (awaitE (notifyDriverAccepted q ?c)) (\<lambda>_. taken k d)"
      by (intro sat_keep same_rows accepted.publishes stable_taken)
    show "accepts.sat (taken k d) (awaitE (refresh i q)) (\<lambda>_. taken k d)" by (rule sat_keep) (simp_all add: eff_run)
  qed
  have accept: "accepts.sat (taken k d) (bindP (transitionRideStatusP j allowed next why) (\<lambda>(q, _).
      bindP (awaitE (notifyDriverAccepted q ?c)) (\<lambda>_. awaitE (refresh i q)))) (\<lambda>_. taken k d)" if "j = k" for i j allowed "next" why
    unfolding that
    by (rule accepts.sat_bind [OF sat_transitionP]) (auto intro: accepts.sat_weaken [OF refresh] split: prod.split)
  have save: "accepts.sat (taken k d) (awaitE (saveCandidate ?c None)) (\<lambda>_. taken k d)"
    by (rule sat_save) (simp_all add: with_response_def)
  show ?thesis unfolding finishAcceptP_def Let_def assms
  proof (rule accepts.sat_bind [OF save], rule accepts.sat_bind [OF sat_transitionP])
    fix p :: "ride \<times> bool"
    obtain q changed where p: "p = (q, changed)" by (cases p)
    show "accepts.sat (\<lambda>s. taken k d s \<and> ride_id (fst p) = k) (case p of (assigned, _) \<Rightarrow>
        bindP (transitionRideStatusP (ride_id assigned) [ASSIGNED, CANDIDATES_COMPUTED] ACCEPTED (Some ''Driver accepted ride request''))
          (\<lambda>(accepted, _). bindP (awaitE (notifyDriverAccepted accepted ?c)) (\<lambda>_. awaitE (refresh (ride_id assigned) accepted))))
        (\<lambda>_. taken k d)"
      unfolding p split fst_conv by (rule accepts.sat_fact) (rule accept)
  qed
qed

definition invited :: "string \<Rightarrow> string \<Rightarrow> ride \<Rightarrow> candidate option \<Rightarrow> world \<Rightarrow> bool" where
  "invited k d r cfound s \<longleftrightarrow> read_ok k d (Some r) s \<and>
     (\<forall>c. cfound = Some c \<longrightarrow> cand_status c = CONFIRMED \<longrightarrow> taken k d s)"

lemma stable_invited [intro, simp]: "accepts.stable (invited k d r cfound)"
  using stable_taken [of k d] stable_read_ok [of k d "Some r"] unfolding accepts.stable_def invited_def by blast

lemma sat_candidate:
  "accepts.sat (read_ok k d (Some r)) (awaitE (findByRideAndDriver k d)) (invited k d r)"
proof (rule sat_same)
  fix s cf assume s: "read_ok k d (Some r) s" "claimed_inv s" "fst (findByRideAndDriver k d s) = Inr cf"
  have "taken k d s" if "cf = Some c" "cand_status c = CONFIRMED" for c
  proof -
    have "c \<in> set (candidates s)" "cand_rideId c = k" "cand_driverId c = d"
      using s(3) that(1) by (auto simp: eff_run find_Some_iff)
    then show ?thesis using s(1,2) that(2) by (auto simp: read_ok_def stored_def claimed_inv_def taken_def)
  qed
  then show "invited k d r cf s" using s(1) by (simp add: invited_def)
qed (simp_all add: eff_run)

lemma sat_answer:
  assumes "d \<noteq> []"
  shows "accepts.sat (invited k d r (Some c))
    (if cand_status c = CONFIRMED \<or> (cand_status c = CAccepted \<and> driverId r = Some d \<and>
         (status r = ACCEPTED \<or> status r = ENROUTE))
     then Ret r
     else bindP (awaitE (readE clock)) (\<lambda>now.
       if truthy (driverId r) \<and> driverId r \<noteq> Some d
       then bindP (markCandidateSupersededP c now r)
              (\<lambda>_. Throw (Conflict ''Ride already accepted by another driver''))
       else bindP (takeRideP c now d r) (finishAcceptP c now))) (\<lambda>_. taken k d)"
    (is "accepts.sat _ (if ?held then _ else _) _")
proof (cases ?held)
  case True
  then show ?thesis by (auto simp: invited_def read_ok_def intro!: accepts.sat_ret)
next
  case False
  have clock: "accepts.sat (invited k d r (Some c)) (awaitE (readE clock)) (\<lambda>_. invited k d r (Some c))"
    by (rule sat_keep) simp_all
  have take: "accepts.sat (invited k d r (Some c)) (bindP (takeRideP c now d r) (finishAcceptP c now)) (\<lambda>_. taken k d)"
    if "\<not> (truthy (driverId r) \<and> driverId r \<noteq> Some d)" for now
    by (rule accepts.sat_weaken [OF accepts.sat_bind [OF sat_takeP [OF assms that]]])
      (auto simp: invited_def intro: accepts.sat_fact sat_finish)
  show ?thesis using False
    by (simp only: if_False) (rule accepts.sat_bind [OF clock], auto intro: sat_superseded take)
qed

text \<open>An acceptance that returns has its driver on the ride.\<close>

lemma sat_acceptP:
  assumes "d \<noteq> []"
  shows "accepts.sat (\<lambda>_. True) (acceptRideByDriverP k d) (\<lambda>_. taken k d)"
  unfolding acceptRideByDriverP_def
proof (rule accepts.sat_bind [OF sat_find [where d = d]])
  fix found
  show "accepts.sat (read_ok k d found) (case found of
         None \<Rightarrow> Throw (NotFound ''Ride not found'')
       | Some r \<Rightarrow>
           if status r = CANCELED then Throw (BadRequest ''Cancelled ride cannot be accepted'')
           else if status r = COMPLETED then Throw (BadRequest ''Completed ride cannot be accepted'')
           else bindP (awaitE (findByRideAndDriver k d)) (\<lambda>cfound. case cfound of
               None \<Rightarrow> Throw (NotFound ''Ride not available for this driver'')
             | Some c \<Rightarrow>
                 if cand_status c = CCanceled then Throw (Conflict ''Ride invitation is no longer active'')
                 else if cand_status c = DECLINED then Throw (BadRequest ''Ride already declined by driver'')
                 else if cand_status c = CONFIRMED \<or> (cand_status c = CAccepted \<and> driverId r = Some d \<and>
                     (status r = ACCEPTED \<or> status r = ENROUTE))
                 then Ret r
                 else bindP (awaitE (readE clock)) (\<lambda>now.
                   if truthy (driverId r) \<and> driverId r \<noteq> Some d
                   then bindP (markCandidateSupersededP c now r)
                          (\<lambda>_. Throw (Conflict ''Ride already accepted by another driver''))
                   else bindP (takeRideP c now d r) (finishAcceptP c now)))) (\<lambda>_. taken k d)"
  proof (cases found)
    case (Some r)
    show ?thesis unfolding Some option.case
    proof (intro accepts.sat_throw_if, rule accepts.sat_bind [OF sat_candidate])
      fix cf
      show "accepts.sat (invited k d r cf) (case cf of
               None \<Rightarrow> Throw (NotFound ''Ride not available for this driver'')
             | Some c \<Rightarrow>
                 if cand_status c = CCanceled then Throw (Conflict ''Ride invitation is no longer active'')
                 else if cand_status c = DECLINED then Throw (BadRequest ''Ride already declined by driver'')
                 else if cand_status c = CONFIRMED \<or> (cand_status c = CAccepted \<and> driverId r = Some d \<and>
                     (status r = ACCEPTED \<or> status r = ENROUTE))
                 then Ret r
                 else bindP (awaitE (readE clock)) (\<lambda>now.
                   if truthy (driverId r) \<and> driverId r \<noteq> Some d
                   then bindP (markCandidateSupersededP c now r)
                          (\<lambda>_. Throw (Conflict ''Ride already accepted by another driver''))
                   else bindP (takeRideP c now d r) (finishAcceptP c now))) (\<lambda>_. taken k d)"
        by (cases cf) (simp_all only: option.case accepts.sat_throw, intro accepts.sat_throw_if sat_answer [OF assms])
    qed
  qed (simp add: accepts.sat_throw)
qed

lemma reachable_claimed:
  assumes "reachable re te pe s" and "env_ok re"
  shows "claimed_inv s"
  unfolding claimed_inv_def
proof (intro conjI allI ballI impI)
  fix k r assume "row_find ride_id k (rides s) = Some r"
  then show "driverId r \<noteq> Some []"
    using reachable_life [OF assms] row_find_SomeD unfolding wf_world_def by metis
next
  fix c r assume c: "c \<in> set (candidates s)" "cand_status c = CONFIRMED"
    and r: "row_find ride_id (cand_rideId c) (rides s) = Some r"
  obtain a where a: "abs_ride (cand_rideId c) s = Some a" "life_inv a" "a_driver a = driverId r"
    using reachable_ride [OF assms r] by blast
  then have "(cand_driverId c, CONFIRMED) \<in> set (a_cands a)"
    using c by (force simp: abs_ride_def candidatesOfRide_def)
  then show "driverId r = Some (cand_driverId c)" using life_inv_taker [OF a(2)] a(3) by metis
qed

lemma acceptances_ok:
  assumes "claimed_inv s" and "\<forall>(k, d) \<in> set calls. d \<noteq> []"
  shows "accepts.pool_ok (\<lambda>i _. taken (fst (calls ! i)) (snd (calls ! i)))
    (s, map (\<lambda>(k, d). acceptRideByDriverP k d) calls)"
proof -
  have "accepts.sat (\<lambda>_. True) (acceptRideByDriverP (fst (calls ! i)) (snd (calls ! i)))
      (\<lambda>_. taken (fst (calls ! i)) (snd (calls ! i)))" if "i < length calls" for i
    using assms(2) that by (intro sat_acceptP) (auto simp: split_beta dest: nth_mem)
  moreover have "accepts.stable (\<lambda>_. True)" by (rule accepts.stable_const)
  ultimately show ?thesis using assms(1) unfolding accepts.pool_ok_def
    by (auto simp: split_beta intro!: exI [of _ "\<lambda>_. True"])
qed

text \<open>
  C6. One driver per ride, whatever the schedule: any number of drivers accept at the same
  time, for the same ride or for others, and their queries interleave in any order. Then all
  acceptances of one ride that return were by the same driver, who is the driver of the ride;
  and a ride that had a driver before still has that one.
\<close>

theorem one_driver_wins:
  assumes "reachable re te pe s" and "env_ok re" and "\<forall>(k, d) \<in> set calls. d \<noteq> []"
    and "run_pool schedule (s, map (\<lambda>(k, d). acceptRideByDriverP k d) calls) = (s', ps)"
    and "i < length calls" and "calls ! i = (k, d)" and "ps ! i = Ret r"
    and "j < length calls" and "calls ! j = (k, d')" and "ps ! j = Ret r'"
  shows "d = d' \<and> (\<exists>q. row_find ride_id k (rides s') = Some q \<and> driverId q = Some d) \<and>
    (\<forall>k' q d0. row_find ride_id k' (rides s) = Some q \<longrightarrow> driverId q = Some d0 \<longrightarrow>
       (\<exists>q'. row_find ride_id k' (rides s') = Some q' \<and> driverId q' = Some d0))"
proof -
  have run: "accepts.pool_ok (\<lambda>i _. taken (fst (calls ! i)) (snd (calls ! i))) (s', ps) \<and>
      keeps_driver s s' \<and> length ps = length calls"
    using accepts.pool_ok_run [OF acceptances_ok [OF reachable_claimed [OF assms(1,2)] assms(3)], of schedule] assms(4)
    by simp
  then have result: "taken (fst (calls ! n)) (snd (calls ! n)) s'" if "n < length calls" "ps ! n = Ret x" for n x
    using accepts.pool_result [of "\<lambda>i _. taken (fst (calls ! i)) (snd (calls ! i))" "(s', ps)" n x] that by simp
  have "taken k d s'" "taken k d' s'" using result [OF assms(5,7)] result [OF assms(8,10)] assms(6,9) by simp_all
  moreover have "taken k' d0 s'" if "taken k' d0 s" for k' d0 using taken_keeps that run by blast
  ultimately show ?thesis by (auto simp: taken_def)
qed

section \<open>Every call ends\<close>

lemma ends_update: "ends_within 3 (updateRideP r)"
  unfolding updateRideP_def by (auto intro!: ends_intros split: option.split)

lemma ends_transition: "ends_within 5 (transitionRideStatusP k allowed next ctx)"
  unfolding transitionRideStatusP_def Let_def
  by (auto intro!: ends_intros ends_seq [OF ends_update] split: option.split)

lemma ends_superseded: "ends_within 2 (markCandidateSupersededP c now r)"
  unfolding markCandidateSupersededP_def Let_def by (auto intro!: ends_intros)

lemma ends_take: "ends_within 4 (takeRideP c now d r)"
  unfolding takeRideP_def by (auto intro!: ends_intros ends_seq [OF ends_superseded])

lemma ends_finish: "ends_within 13 (finishAcceptP c now r)"
  unfolding finishAcceptP_def Let_def
  by (auto intro!: ends_intros ends_seq [OF ends_transition] split: prod.split)

lemma ends_accept: "ends_within 20 (acceptRideByDriverP k d)"
  unfolding acceptRideByDriverP_def
  by (auto intro!: ends_intros ends_seq [OF ends_superseded] ends_seq [OF ends_take] ends_mono [OF ends_finish]
      split: option.split)

lemma ends_cancelCandidates: "ends_within 2 (cancelCandidatesP u why now cs)"
  unfolding cancelCandidatesP_def Let_def by (auto intro!: ends_intros)

lemma ends_cancel: "ends_within 20 (cancelRideP env k req why)"
  unfolding cancelRideP_def Let_def
  by (auto intro!: ends_intros ends_seq [OF ends_transition] ends_seq [OF ends_update] ends_seq [OF ends_cancelCandidates]
      split: option.split prod.split)

text \<open>
  No acceptance or cancellation waits for another: whatever others are in progress and
  however their queries interleave, each has returned or thrown after at most twenty steps of
  its own (the row lock of a claim is held within one step).
\<close>

theorem every_call_ends:
  assumes "\<forall>p \<in> set ps. (\<exists>k d. p = acceptRideByDriverP k d) \<or> (\<exists>env k req why. p = cancelRideP env k req why)"
    and "\<forall>i < length ps. 20 \<le> count_list schedule i"
    and "run_pool schedule (s, ps) = (s', qs)"
  shows "length qs = length ps \<and> (\<forall>q \<in> set qs. (\<exists>r. q = Ret r) \<or> (\<exists>e. q = Throw e))"
proof (rule pool_ends [OF _ assms(2,3)], rule ballI)
  fix p assume "p \<in> set ps"
  then have "(\<exists>k d. p = acceptRideByDriverP k d) \<or> (\<exists>env k req why. p = cancelRideP env k req why)"
    by (rule bspec [OF assms(1)])
  then show "ends_within 20 p" by (elim disjE exE) (simp_all add: ends_accept ends_cancel)
qed

theorem every_call_ends_witness:
  "\<exists>s' q1 q2 q3. run_pool (concat (replicate 20 [0, 1, 2])) (demo_world, [acceptRideByDriverP ''1'' ''11'',
      acceptRideByDriverP ''1'' ''12'', cancelRideP demo_env ''1'' \<lparr>req_id = ''7'', req_role = Some RIDER\<rparr> None]) =
        (s', [q1, q2, q3]) \<and> (\<forall>q \<in> {q1, q2, q3}. (\<exists>r. q = Ret r) \<or> (\<exists>e. q = Throw e))"
proof -
  let ?ps = "[acceptRideByDriverP ''1'' ''11'', acceptRideByDriverP ''1'' ''12'',
    cancelRideP demo_env ''1'' \<lparr>req_id = ''7'', req_role = Some RIDER\<rparr> None]"
  let ?turns = "concat (replicate 20 [0, 1, 2 :: nat])"
  have calls: "\<forall>p \<in> set ?ps. (\<exists>k d. p = acceptRideByDriverP k d) \<or> (\<exists>env k req why. p = cancelRideP env k req why)"
    unfolding set_simps ball_simps by blast
  have turns: "\<forall>i < length ?ps. 20 \<le> count_list ?turns i"
    by (simp add: eval_nat_numeral All_less_Suc)
  obtain s' qs where run: "run_pool ?turns (demo_world, ?ps) = (s', qs)" by fastforce
  from every_call_ends [OF calls turns run]
  have ended: "length qs = 3" "\<forall>q \<in> set qs. (\<exists>r. q = Ret r) \<or> (\<exists>e. q = Throw e)" by simp_all
  from ended(1) obtain q1 q2 q3 where "qs = [q1, q2, q3]" by (auto simp: length_Suc_conv eval_nat_numeral)
  then show ?thesis using run ended(2) by auto
qed

section \<open>Two requests of one rider at the same time\<close>

text \<open>
  C14. Two rides for one rider: nothing in the code or in the tables makes the check of
  \<open>createRide\<close> and the insertion of the ride one step. Two requests of a rider without a
  ride that arrive together, such as a double tap, can both pass the check; both are then
  answered with a ride, and the rider has two rides waiting for a driver. (One at a time the
  second is refused.)
\<close>

theorem double_ride:
  assumes "wf_world s" and "env_ok env" and "rider \<noteq> []"
    and "\<forall>x \<in> set (rides s). riderId x = rider \<longrightarrow> status x = COMPLETED \<or> status x = CANCELED"
    and "route_result env (routeJobId rider (clock s)) (ci_pickup payload) (ci_dropoff payload) = Some route"
    and "nearby env (fst (ci_pickup payload)) (snd (ci_pickup payload))
      (resolveCandidateLimit (ci_maxDrivers payload)) = Inr drivers" and "drivers \<noteq> []"
  shows "\<exists>schedule s' a cs b ds.
    run_pool schedule (s, [createRideP env rider payload, createRideP env rider payload]) = (s', [Ret (a, cs), Ret (b, ds)]) \<and>
    ride_id a \<noteq> ride_id b \<and>
    (\<forall>k \<in> {ride_id a, ride_id b}. \<exists>x. row_find ride_id k (rides s') = Some x \<and> riderId x = rider \<and> status x = CANDIDATES_COMPUTED)"
proof -
  let ?job = "routeJobId rider (clock s)" and ?new = "spec_create rider (map nd_driverId drivers)"
  let ?rest = "createMatchedRideP env rider payload ?job"
  have none: "findUnfinishedRideByRiderId rider s = (Inr None, s)"
    using assms(4) by (auto simp: findUnfinishedRideByRiderId_def filter_empty_conv)
  have first: "own_steps 2 (s, createRideP env rider payload) = (s, ?rest)"
    using assms(3) none by (simp add: createRideP_def numeral_2_eq_2 own_await eff_run)
  obtain b ds s1 where b: "createRide env rider payload s = (Inr (b, ds), s1)"
      "row_find ride_id (ride_id b) (rides s1) = Some b" "\<forall>j. abs_ride j s1 = (if j = ride_id b then Some ?new else abs_ride j s)"
    using create_goes [OF assms] by blast
  obtain m where second: "own_steps m (s, createRideP env rider payload) = (s1, Ret (b, ds))"
    using solo_own [of s "createRideP env rider payload"] b(1) by (auto simp: solo_create)
  have wf1: "wf_world s1" using createRide_outcome [OF assms(1,2), of rider payload] b(1) by (auto simp: created_def)
  obtain a cs s2 where a: "createMatchedRide env rider payload ?job s1 = (Inr (a, cs), s2)"
      "row_find ride_id (ride_id a) (rides s1) = None" "row_find ride_id (ride_id a) (rides s2) = Some a"
      "\<forall>j. abs_ride j s2 = (if j = ride_id a then Some ?new else abs_ride j s1)"
    using matched_goes [OF wf1 assms(2,3,5,6,7)] by blast
  obtain l where last: "own_steps l (s1, ?rest) = (s2, Ret (a, cs))"
    using solo_own [of s1 ?rest] a(1) by (auto simp: solo_matched)
  have run: "run_pool (replicate 2 0 @ replicate m 1 @ replicate l 0)
      (s, [createRideP env rider payload, createRideP env rider payload]) = (s2, [Ret (a, cs), Ret (b, ds)])"
    using first second last by (simp add: run_pool_append run_own)
  have ids: "ride_id a \<noteq> ride_id b" using a(2) b(2) by auto
  have "abs_ride (ride_id a) s2 = Some ?new" "abs_ride (ride_id b) s2 = Some ?new" using a(4) b(3) ids by simp_all
  then have "\<forall>k \<in> {ride_id a, ride_id b}. \<exists>x. row_find ride_id k (rides s2) = Some x \<and> riderId x = rider \<and> status x = CANDIDATES_COMPUTED"
    by (auto simp: abs_ride_def spec_create_def split: option.splits)
  then show ?thesis using run ids by blast
qed

theorem double_ride_witness:
  "\<exists>schedule s' a cs b ds. run_pool schedule (demo_start, [createRideP demo_env ''7'' demo_input, createRideP demo_env ''7'' demo_input]) =
     (s', [Ret (a, cs), Ret (b, ds)]) \<and> ride_id a \<noteq> ride_id b"
proof -
  let ?ds = "[\<lparr>nd_driverId = ''11'', nd_distanceMeters = Some (Fin 120)\<rparr>,
    \<lparr>nd_driverId = ''12'', nd_distanceMeters = None\<rparr>]"
  have env: "route_result demo_env (routeJobId ''7'' (clock demo_start)) (ci_pickup demo_input) (ci_dropoff demo_input) =
      Some \<lparr>distanceKm = Fin (5 / 2), durationSeconds = Fin 600\<rparr>"
    "nearby demo_env (fst (ci_pickup demo_input)) (snd (ci_pickup demo_input))
      (resolveCandidateLimit (ci_maxDrivers demo_input)) = Inr ?ds"
    "\<forall>x \<in> set (rides demo_start). riderId x = ''7'' \<longrightarrow> status x = COMPLETED \<or> status x = CANCELED"
    by (simp_all add: demo_env_def demo_start_def empty_world_def)
  show ?thesis
    using double_ride [OF demo_start_wf demo_env_ok _ env(3,1,2)] by blast
qed

section \<open>A cancellation and an acceptance at the same time\<close>

lemma transition_run:
  assumes "row_find ride_id k (rides s) = Some r" and "k \<noteq> []" and "status r \<in> set allowed" and "status r \<noteq> nx"
  shows "\<exists>r' s'. transitionRideStatus k allowed nx ctx s = (Inr (r', True), s') \<and>
    row_find ride_id k (rides s') = Some r' \<and> status r' = nx \<and> driverId r' = driverId r"
proof -
  have k: "ride_id r = k" using assms(1) by (auto dest: row_find_SomeD)
  define r2 where "r2 = (if truthy ctx \<and> nx = CANCELED then r\<lparr>status := nx, cancelReason := ctx\<rparr> else r\<lparr>status := nx\<rparr>)"
  have r2: "ride_id r2 = k" "status r2 = nx" "driverId r2 = driverId r" by (simp_all add: r2_def k)
  have "updateRide r2 s = (Inr (saved_ride (clock s) r r2), s\<lparr>rides := row_put ride_id (saved_ride (clock s) r r2) (rides s)\<rparr>)"
    using updateRide_run [of r2 s r] assms(1,2) r2 by simp
  then show ?thesis using assms r2 k
    by (simp add: transitionRideStatus_def run_bind run_then eff_run r2_def [symmetric] recordStatusChange_def
        row_find_put Let_def)
qed

text \<open>The first steps of an acceptance, up to the UPDATE of its first status change.\<close>

definition pending_update :: "ride \<Rightarrow> candidate \<Rightarrow> int \<Rightarrow> (world, ride) prog" where
  "pending_update r c now =
     bindP (bindP (awaitE (write_ride (ride_id r) (mergeRideData r (r\<lparr>status := ASSIGNED\<rparr>)))) (\<lambda>_.
            bindP (awaitE (findRideById (ride_id r))) (\<lambda>persisted. case persisted of
               None \<Rightarrow> Throw (JsError ''Ride not found after update'')
             | Some p \<Rightarrow> Ret p)))
       (\<lambda>saved. bindP (bindP (awaitE (recordStatusChange (ride_id saved) (Some CANDIDATES_COMPUTED) ASSIGNED
                  (Some ''Driver responded to invitation''))) (\<lambda>_. Ret (saved, True)))
       (\<lambda>(assigned, _).
         bindP (transitionRideStatusP (ride_id assigned) [ASSIGNED, CANDIDATES_COMPUTED] ACCEPTED
                  (Some ''Driver accepted ride request'')) (\<lambda>(accepted, _).
         bindP (awaitE (notifyDriverAccepted accepted (with_response CAccepted None now c))) (\<lambda>_.
           awaitE (refresh (ride_id assigned) accepted)))))"

lemma pending_outcome:
  assumes "row_find ride_id k (rides s) = Some q" and "ride_id r = k" and "k \<noteq> []" and "driverId r = Some d"
  shows "\<exists>p s'. solo (pending_update r c now) s = (Inr p, s') \<and> row_find ride_id k (rides s') = Some p \<and>
    status p = ACCEPTED \<and> driverId p = Some d"
proof -
  let ?w = "updated_row (clock s) q (mergeRideData r (r\<lparr>status := ASSIGNED\<rparr>))"
  let ?s = "s\<lparr>rides := row_put ride_id ?w (rides s)\<rparr>"
  have q: "ride_id q = k" using assms(1) by (auto dest: row_find_SomeD)
  let ?h = "\<lparr>hist_id = show_nat (historySeq s), hist_rideId = k, fromStatus = Some CANDIDATES_COMPUTED,
      toStatus = ASSIGNED, hist_context = Some ''Driver responded to invitation'', hist_createdAt = clock s\<rparr>"
  let ?s2 = "?s\<lparr>history := history s @ [?h], historySeq := Suc (historySeq s)\<rparr>"
  have row: "row_find ride_id k (rides ?s2) = Some ?w" using assms(1) q by (simp add: row_find_put)
  have "status ?w \<in> set [ASSIGNED, CANDIDATES_COMPUTED]" "status ?w \<noteq> ACCEPTED" by simp_all
  from transition_run [OF row assms(3) this, of "Some ''Driver accepted ride request''"] obtain p s3
    where p: "transitionRideStatus k [ASSIGNED, CANDIDATES_COMPUTED] ACCEPTED (Some ''Driver accepted ride request'') ?s2 =
        (Inr (p, True), s3)" "row_find ride_id k (rides s3) = Some p" "status p = ACCEPTED" "driverId p = driverId ?w"
    by blast
  obtain ns where "notifyDriverAccepted p (with_response CAccepted None now c) s3 = (Inr (), s3\<lparr>published := published s3 @ ns\<rparr>)"
    using accepted.run_one by blast
  then show ?thesis using p assms q row
    by (simp add: pending_update_def run_bind eff_run write_ride_def row_find_put recordStatusChange_def solo_transition Let_def)
qed

lemma accept_prefix:
  assumes wf: "wf_world s" and r: "row_find ride_id k (rides s) = Some r" and free: "driverId r = None"
    and new: "status r = CANDIDATES_COMPUTED" and d: "d \<noteq> []"
    and c: "List.find (\<lambda>c. cand_rideId c = k \<and> cand_driverId c = d) (candidates s) = Some c" "cand_status c = INVITED"
  shows "\<exists>n s'. own_steps n (s, acceptRideByDriverP k d) =
      (s', pending_update (r\<lparr>driverId := Some d, updatedAt := clock s\<rparr>) c (clock s)) \<and>
    wf_world s' \<and> row_find ride_id k (rides s') = Some (r\<lparr>driverId := Some d, updatedAt := clock s\<rparr>)"
proof -
  let ?r = "r\<lparr>driverId := Some d, updatedAt := clock s\<rparr>"
  let ?s1 = "s\<lparr>rides := row_put ride_id ?r (rides s)\<rparr>"
  have k: "ride_id r = k" "k \<noteq> []" using wf_ride [OF wf r] by simp_all
  have cand: "c \<in> set (candidates s)" "cand_rideId c = k" "cand_driverId c = d" using c(1) by (auto simp: find_Some_iff)
  have claim: "claimDriver k d s = (Inr True, ?s1)" using r free k by (simp add: claimDriver_run)
  then have wf1: "wf_world ?s1" using claimDriver_move [OF wf r free d] by (auto simp: move_def)
  have cand1: "c \<in> set (candidates ?s1)" using cand(1) by simp
  obtain x s2 where save: "saveCandidate (with_response CAccepted None (clock s) c) None ?s1 = (Inr x, s2)"
      "wf_world s2" "rides s2 = rides ?s1" "clock s2 = clock s"
    using saveCandidate_move [OF wf1 cand1, of CAccepted None "clock s"] by (auto simp: move_def)
  have row: "row_find ride_id k (rides s2) = Some ?r" using save(3) r k by (simp add: row_find_put)
  have "own_steps 7 (s, acceptRideByDriverP k d) = (s2, pending_update ?r c (clock s))"
    using r c save(1) claim row k new free cand
    by (simp add: eval_nat_numeral acceptRideByDriverP_def takeRideP_def finishAcceptP_def transitionRideStatusP_def
        updateRideP_def pending_update_def own_await bindP_assoc eff_run Let_def)
  then show ?thesis using save(2) row by blast
qed

lemma demo_row: "\<exists>r c. row_find ride_id ''1'' (rides demo_world) = Some r \<and> driverId r = None \<and>
    status r = CANDIDATES_COMPUTED \<and> riderId r = ''7'' \<and>
    List.find (\<lambda>c. cand_rideId c = ''1'' \<and> cand_driverId c = ''11'') (candidates demo_world) = Some c \<and>
    cand_status c = INVITED"
proof -
  obtain r where r: "row_find ride_id ''1'' (rides demo_world) = Some r" using demo_ride by (auto simp: abs_ride_def)
  obtain a where a: "abs_ride ''1'' demo_world = Some a" "a_cand ''11'' a = map_option cand_status
      (List.find (\<lambda>c. cand_rideId c = ''1'' \<and> cand_driverId c = ''11'') (candidates demo_world))"
    using abs_found [OF r] by blast
  have "a_cand ''11'' a = Some INVITED" using a(1) demo_ride by (auto simp: spec_create_def a_cand_def)
  then show ?thesis using a r abs_ride_fields [OF demo_ride r] by (auto simp: spec_create_def)
qed

theorem one_driver_wins_witness:
  "\<exists>schedule s' ps p q. run_pool schedule (demo_world, map (\<lambda>(k, d). acceptRideByDriverP k d) [(''1'', ''11''), (''1'', ''12'')]) =
     (s', ps) \<and> ps ! 0 = Ret p \<and> row_find ride_id ''1'' (rides s') = Some q \<and> driverId q = Some ''11''"
proof -
  have "accept_refusal ''11'' (abs_ride ''1'' demo_world) = None"
    by (simp add: demo_ride spec_create_def a_cand_def)
  then obtain p where p: "fst (acceptRideByDriver ''1'' ''11'' demo_world) = Inr p"
    using accept_implements [OF demo_wf, of "''1''" "''11''"] by (auto simp: implements_def)
  obtain n where n: "own_steps n (demo_world, acceptRideByDriverP ''1'' ''11'') =
      (snd (acceptRideByDriver ''1'' ''11'' demo_world), Ret p)"
    using solo_own [of demo_world "acceptRideByDriverP ''1'' ''11''"] p by (auto simp: solo_accept)
  let ?calls = "[(''1'', ''11''), (''1'', ''12'')]"
  have run: "run_pool (replicate n 0) (demo_world, map (\<lambda>(k, d). acceptRideByDriverP k d) ?calls) =
      (snd (acceptRideByDriver ''1'' ''11'' demo_world), [Ret p, acceptRideByDriverP ''1'' ''12''])"
    by (simp add: run_own n)
  have ids: "\<forall>(k, d) \<in> set ?calls. d \<noteq> []" by simp
  have at: "0 < length ?calls" "?calls ! 0 = (''1'', ''11'')" "[Ret p, acceptRideByDriverP ''1'' ''12''] ! 0 = Ret p" by simp_all
  show ?thesis
    using one_driver_wins [OF demo_reachable [of undefined undefined] demo_env_ok ids run at at] run at(3) by blast
qed

text \<open>
  C15. A lost cancellation: while a driver's acceptance is between reading the ride and writing
  its new status, the rider's cancellation can run from start to end and is answered with the
  cancelled ride; the acceptance then writes the row it has read, and the ride ends accepted,
  with the driver on his way to a rider who has cancelled. (One at a time, a cancelled ride
  stays cancelled.)
\<close>

theorem cancellation_lost:
  assumes "wf_world s" and "row_find ride_id k (rides s) = Some r" and "driverId r = None"
    and "status r = CANDIDATES_COMPUTED" and "riderId r = req_id req" and "d \<noteq> []"
    and "List.find (\<lambda>c. cand_rideId c = k \<and> cand_driverId c = d) (candidates s) = Some c" and "cand_status c = INVITED"
  shows "\<exists>schedule s' p q x.
    run_pool schedule (s, [acceptRideByDriverP k d, cancelRideP env k req why]) = (s', [Ret p, Ret q]) \<and>
    status q = CANCELED \<and> status p = ACCEPTED \<and>
    row_find ride_id k (rides s') = Some x \<and> status x = ACCEPTED \<and> driverId x = Some d"
proof -
  let ?r = "r\<lparr>driverId := Some d, updatedAt := clock s\<rparr>"
  obtain n s1 where first: "own_steps n (s, acceptRideByDriverP k d) = (s1, pending_update ?r c (clock s))"
      "wf_world s1" "row_find ride_id k (rides s1) = Some ?r"
    using accept_prefix [OF assms(1-4,6-8)] by blast
  have k: "ride_id r = k" "k \<noteq> []" using wf_ride [OF assms(1,2)] by simp_all
  obtain a where a: "abs_ride k s1 = Some a" "a_status a = CANDIDATES_COMPUTED" "a_rider a = req_id req"
    using first(3) assms(4,5) by (simp add: abs_ride_def)
  then have "cancel_refusal (req_id req) (abs_ride k s1) = None" by simp
  then obtain q where q: "fst (cancelRide env k req why s1) = Inr q"
      "row_find ride_id k (rides (snd (cancelRide env k req why s1))) = Some q"
    using cancel_implements [OF first(2), of env k req why] by (auto simp: implements_def)
  have "abs_ride k (snd (cancelRide env k req why s1)) = Some (spec_cancel (req_id req) a)"
    using cancel_implements [OF first(2), of env k req why] a(1) by (simp add: implements_def move_def)
  moreover have "a_status (spec_cancel (req_id req) a) = CANCELED"
    using a(2,3) by (simp add: spec_cancel_def closed_def a_transition_def)
  ultimately have canceled: "status q = CANCELED" using abs_ride_fields [OF _ q(2)] by auto
  let ?s2 = "snd (cancelRide env k req why s1)"
  obtain m where second: "own_steps m (s1, cancelRideP env k req why) = (?s2, Ret q)"
    using solo_own [of s1 "cancelRideP env k req why"] solo_cancel [of env k req why] q(1) by auto
  obtain p s3 where third: "solo (pending_update ?r c (clock s)) ?s2 = (Inr p, s3)"
      "row_find ride_id k (rides s3) = Some p" "status p = ACCEPTED" "driverId p = Some d"
    using pending_outcome [OF q(2), of ?r d c "clock s"] k by auto
  obtain l where last: "own_steps l (?s2, pending_update ?r c (clock s)) = (s3, Ret p)"
    using solo_own [of ?s2 "pending_update ?r c (clock s)"] third(1) by auto
  have "run_pool (replicate n 0 @ replicate m 1 @ replicate l 0)
      (s, [acceptRideByDriverP k d, cancelRideP env k req why]) = (s3, [Ret p, Ret q])"
    using first(1) second last by (simp add: run_pool_append run_own)
  then show ?thesis using canceled third(2-4) by blast
qed

theorem cancellation_lost_witness:
  "\<exists>schedule s' p q x. run_pool schedule (demo_world, [acceptRideByDriverP ''1'' ''11'',
      cancelRideP demo_env ''1'' \<lparr>req_id = ''7'', req_role = Some RIDER\<rparr> None]) = (s', [Ret p, Ret q]) \<and>
     status q = CANCELED \<and> row_find ride_id ''1'' (rides s') = Some x \<and> status x = ACCEPTED"
proof -
  obtain r c where "row_find ride_id ''1'' (rides demo_world) = Some r" "driverId r = None"
      "status r = CANDIDATES_COMPUTED" "riderId r = ''7''"
      "List.find (\<lambda>c. cand_rideId c = ''1'' \<and> cand_driverId c = ''11'') (candidates demo_world) = Some c"
      "cand_status c = INVITED"
    using demo_row by blast
  then show ?thesis
    using cancellation_lost [OF demo_wf, of "''1''" r "\<lparr>req_id = ''7'', req_role = Some RIDER\<rparr>" "''11''" c demo_env None]
    by simp blast
qed

end
