(* ===== verification/Concurrent_Payments.thy ===== *)
theory Concurrent_Payments
  imports Payment Interleaving
begin

text \<open>
  Riders and the payment provider at the same time: \<open>RidesPaymentService\<close>
  (\<open>rides/domain/services/rides-payment.service.ts\<close>) and \<open>PaymentService\<close>
  (\<open>payment.service.ts\<close>) with a step for every awaited query or transaction. The worker that
  runs the job of a payment runs while its request waits for it, so its steps are steps of that
  call; between two of them, in particular while the provider is asked, others may run.
\<close>

section \<open>Methods as programs\<close>

definition processOutboxP :: "pay_env \<Rightarrow> string \<Rightarrow> (world, payment_job_result) prog" where
  "processOutboxP env outboxId =
     bindP (awaitE (liftE (ensurePaymentConfiguration env))) (\<lambda>_.
     bindP (awaitE (findOutboxById outboxId)) (\<lambda>found. case found of
         None \<Rightarrow> Throw (JsError (''Payment outbox entry '' @ outboxId @ '' not found''))
       | Some ob \<Rightarrow> bindP (awaitE (findDetailById (paymentDetailId ob))) (\<lambda>dfound. case dfound of
           None \<Rightarrow> Throw (JsError (''Payment detail '' @ paymentDetailId ob @ '' not found for outbox '' @ outboxId))
         | Some d \<Rightarrow> bindP (awaitE (readE clock)) (\<lambda>now.
             let ob1 = ob\<lparr>ob_status := OProcessing, attempts := attempts ob + 1,
                         lastAttemptedAt := Some now\<rparr>
             in bindP (awaitE (saveOutbox ob1)) (\<lambda>_.
                case psp env outboxId (attempts ob1) (ob_requestPayload ob1) of
                  PspOk response \<Rightarrow>
                    (let d1 = d\<lparr>pd_status := DInitiated, responsePayload := response,
                               requestPayload := Some (ob_requestPayload ob1),
                               orderId := Some (ob_orderId ob1),
                               token := extractResponseString response ''token'',
                               redirectUrl := extractResponseString response ''redirect_url''\<rparr>
                     in bindP (awaitE (saveDetail d1)) (\<lambda>saved.
                        bindP (awaitE (saveOutbox (ob1\<lparr>ob_status := OCompleted, lastError := None,
                                               processedAt := Some now\<rparr>))) (\<lambda>_.
                          Ret \<lparr>pj_paymentDetailId = pd_id saved, pj_status = pd_status saved,
                                   pj_token = token saved, pj_redirectUrl = redirectUrl saved\<rparr>)))
                | err \<Rightarrow>
                    (let message = describePaymentError err
                     in bindP (awaitE (saveOutbox (ob1\<lparr>ob_status := OFailed, lastError := Some message\<rparr>))) (\<lambda>_.
                        bindP (awaitE (saveDetail (d\<lparr>pd_status := DFailed, responsePayload := None\<rparr>))) (\<lambda>_.
                          Throw (JsError message)))))))))"

fun runPaymentJobP :: "pay_env \<Rightarrow> nat \<Rightarrow> string \<Rightarrow> (world, bool) prog" where
  "runPaymentJobP env 0 outboxId = Ret False"
| "runPaymentJobP env (Suc n) outboxId =
     catchP (bindP (processOutboxP env outboxId) (\<lambda>_. Ret True)) (\<lambda>_. runPaymentJobP env n outboxId)"

text \<open>What follows when the detail found has no payment link yet.\<close>

definition requestPaymentP :: "pay_env \<Rightarrow> ride \<Rightarrow> payment_detail option \<Rightarrow> (world, payment_detail) prog" where
  "requestPaymentP env r found =
     bindP (awaitE (readE clock)) (\<lambda>now.
       let d0 = (case found of
                   None \<Rightarrow> create_detail (ride_id r) (paymentProvider env) DPending
                 | Some d \<Rightarrow> d);
           oid = (case orderId d0 of None \<Rightarrow> ulid env now | Some x \<Rightarrow> x)
       in bindP (awaitE (liftE (buildPaymentRequestPayload r oid))) (\<lambda>req.
          bindP (awaitE (saveDetailAndOutbox (queued_detail d0 oid req) oid req OPending)) (\<lambda>(d1, ob).
          bindP (awaitE (writeE (\<lambda>s. s\<lparr>paymentJobs :=
                    List.insert (paymentJobId (ride_id r) (ob_id ob), ob_id ob) (paymentJobs s)\<rparr>))) (\<lambda>_.
          bindP (awaitE (saveOutbox (ob\<lparr>jobId := Some (paymentJobId (ride_id r) (ob_id ob))\<rparr>))) (\<lambda>_.
          bindP (runPaymentJobP env (min payment_queue_attempts (worker_attempts env (ob_id ob))) (ob_id ob))
            (\<lambda>finished.
          if \<not> finished then Throw (BadRequest ''Failed to initiate payment'')
          else bindP (awaitE (findDetailById (pd_id d1))) (\<lambda>refreshed. case refreshed of
               None \<Rightarrow> Throw (BadRequest ''Payment detail not found after processing'')
             | Some d2 \<Rightarrow>
                 if \<not> truthy (redirectUrl d2)
                 then Throw (BadRequest ''Payment gateway did not return a redirect URL'')
                 else Ret d2)))))))"

definition initiatePaymentP :: "pay_env \<Rightarrow> ride \<Rightarrow> (world, payment_detail) prog" where
  "initiatePaymentP env r =
     bindP (awaitE (liftE (ensurePaymentConfiguration env))) (\<lambda>_.
     bindP (awaitE (findDetailByRideId (ride_id r))) (\<lambda>found.
       if (case found of None \<Rightarrow> False | Some d \<Rightarrow> truthy (token d) \<and> truthy (redirectUrl d))
       then Ret (the found)
       else requestPaymentP env r found))"

text \<open>What follows once the ride has a payment link.\<close>

definition storeLinkP ::
  "pay_env \<Rightarrow> ride \<Rightarrow> payment_detail \<Rightarrow> (world, ride \<times> formatted_detail option) prog" where
  "storeLinkP env r d =
     bindP (awaitE (updatePaymentState (update_result env) (ride_id r) (Some ON_PROCESS) (redirectUrl d))) (\<lambda>_.
     bindP (awaitE (findRideForPayment (ride_id r))) (\<lambda>refreshed.
       Ret (case refreshed of None \<Rightarrow> r | Some x \<Rightarrow> x, formatPaymentDetail (Some d))))"

definition proceedRidePaymentP ::
  "pay_env \<Rightarrow> string \<Rightarrow> string \<Rightarrow> (world, ride \<times> formatted_detail option) prog" where
  "proceedRidePaymentP env k rider =
     bindP (awaitE (findRideForPayment k)) (\<lambda>found. case found of
         None \<Rightarrow> Throw (NotFound ''Ride not found'')
       | Some r \<Rightarrow>
           if riderId r \<noteq> rider then Throw (Unauthorized ''Ride not available for this rider'')
           else if status r \<noteq> COMPLETED
           then Throw (BadRequest ''Ride must be completed before payment'')
           else if paymentStatus r = Some PAID
           then bindP (awaitE (findDetailByRideId (ride_id r))) (\<lambda>d. Ret (r, formatPaymentDetail d))
           else bindP (initiatePaymentP env r) (storeLinkP env r))"

definition handlePaymentNotificationP ::
  "pay_env \<Rightarrow> payment_notification \<Rightarrow> string \<Rightarrow> (world, ride \<times> formatted_detail option) prog" where
  "handlePaymentNotificationP env payload sourceIp =
     bindP (awaitE (isIpAllowed (normalizeIpAddresses sourceIp))) (\<lambda>allowed.
       if \<not> allowed then Throw (Unauthorized ''Source IP not allowed'')
       else if pn_order_id payload = [] then Throw (BadRequest ''order_id is required'')
       else bindP (awaitE (findDetailByOrderId (pn_order_id payload))) (\<lambda>dfound. case dfound of
           None \<Rightarrow> Throw (NotFound ''Payment detail not found for this notification'')
         | Some d \<Rightarrow> bindP (awaitE (findRideById (pd_rideId d))) (\<lambda>rfound. case rfound of
             None \<Rightarrow> Throw (NotFound ''Ride not found'')
           | Some r \<Rightarrow>
               (let (d1, paid, ou) = applyNotification r payload d;
                    r1 = (if paid then r\<lparr>paymentStatus := Some PAID, paymentUrl := None\<rparr> else r)
                in bindP (awaitE (saveDetailWithRideUpdate (update_result env) d1
                     (if paid then Some \<lparr>ru_rideId = ride_id r1, ru_paymentStatus = Some PAID,
                                         ru_paymentUrl = None\<rparr> else None)
                     (map_option (\<lambda>(st, setp, err).
                        \<lparr>ou_rideId = ride_id r1, ou_paymentDetailId = pd_id d1,
                         ou_orderId = (case orderId d1 of None \<Rightarrow> pn_order_id payload | Some x \<Rightarrow> x),
                         ou_status = st, ou_lastError = err, ou_setProcessedAt = setp\<rparr>) ou)))
                     (\<lambda>saved.
                   bindP (awaitE (refresh (ride_id r1) r1)) (\<lambda>refreshed.
                   bindP (awaitE (whenE paid (notifyRidePaid refreshed (transaction_id payload)))) (\<lambda>_.
                     Ret (refreshed, formatPaymentDetail (Some saved)))))))))"

section \<open>Alone, they are the methods\<close>

lemma solo_reply:
  "solo (case reply of PspOk x \<Rightarrow> f x | PspHttpError c m \<Rightarrow> g c m | PspError m \<Rightarrow> h m | PspUnknown \<Rightarrow> u) =
     (case reply of PspOk x \<Rightarrow> solo (f x) | PspHttpError c m \<Rightarrow> solo (g c m) | PspError m \<Rightarrow> solo (h m)
        | PspUnknown \<Rightarrow> solo u)"
  by (simp split: psp_reply.split)

lemma solo_process: "solo (processOutboxP env i) = processOutbox env i"
  by (simp add: processOutboxP_def processOutbox_def solo_reply thenE_def Let_def
      cong: option.case_cong psp_reply.case_cong)

lemma solo_job: "solo (runPaymentJobP env n i) = runPaymentJob env n i"
  by (induction n) (simp_all add: solo_process thenE_def)

lemma solo_initiate: "solo (initiatePaymentP env r) = initiatePayment env r"
  by (simp add: initiatePaymentP_def requestPaymentP_def initiatePayment_def solo_job thenE_def Let_def
      cong: if_cong option.case_cong prod.case_cong)

lemma solo_proceed: "solo (proceedRidePaymentP env k rider) = proceedRidePayment env k rider"
  by (simp add: proceedRidePaymentP_def proceedRidePayment_def storeLinkP_def solo_initiate thenE_def
      cong: if_cong option.case_cong)

lemma solo_notification: "solo (handlePaymentNotificationP env n ip) = handlePaymentNotification env n ip"
  by (simp add: handlePaymentNotificationP_def handlePaymentNotification_def thenE_def Let_def
      cong: if_cong option.case_cong prod.case_cong)

end
