(* ===== verification/Concurrent_Payment_Guarantees.thy ===== *)
theory Concurrent_Payment_Guarantees
  imports Payment_Guarantees Concurrent_Payments
begin

text \<open>
  What holds when payment requests and notifications interleave: the tables of the payments
  stay consistent and notifications never undo each other, but a request for a payment link
  can undo a notification, and two requests can leave the provider with an order that the
  tables no longer know.
\<close>

section \<open>Notifications among themselves\<close>

definition paid_ride :: "string \<Rightarrow> world \<Rightarrow> bool" where
  "paid_ride k s \<longleftrightarrow> (\<exists>r. row_find ride_id k (rides s) = Some r \<and> paymentStatus r = Some PAID)"

definition known_ride :: "string \<Rightarrow> world \<Rightarrow> bool" where
  "known_ride k s \<longleftrightarrow> row_find ride_id k (rides s) \<noteq> None"

definition keeps_paid :: "world \<Rightarrow> world \<Rightarrow> bool" where
  "keeps_paid s s' \<longleftrightarrow> (\<forall>k. (known_ride k s \<longrightarrow> known_ride k s') \<and> (paid_ride k s \<longrightarrow> paid_ride k s'))"

interpretation notices: rely_guarantee "\<lambda>_. True" keeps_paid
  by unfold_locales (simp_all add: keeps_paid_def)

lemma stable_paid [intro, simp]: "notices.stable (paid_ride k)" "notices.stable (known_ride k)"
  by (simp_all add: notices.stable_def keeps_paid_def)

lemma stable_paid_if [intro, simp]: "notices.stable (\<lambda>s. b \<longrightarrow> paid_ride k s)"
  by (auto simp: notices.stable_def keeps_paid_def)

lemma keeps_paid_same: "rides s' = rides s \<Longrightarrow> keeps_paid s s'"
  by (simp add: keeps_paid_def paid_ride_def known_ride_def)

lemma notice_keep:
  assumes "\<And>s. rides (snd (m s)) = rides s" and "notices.stable P"
    and "\<And>s a. P s \<Longrightarrow> fst (m s) = Inr a \<Longrightarrow> M a"
  shows "notices.sat P (awaitE m) (\<lambda>a s. P s \<and> M a)"
proof (rule notices.sat_await)
  fix s assume s: "P s"
  then have "P (snd (m s))" using assms(2) keeps_paid_same [OF assms(1)] unfolding notices.stable_def by blast
  then show "True \<and> keeps_paid s (snd (m s)) \<and> (\<forall>a. fst (m s) = Inr a \<longrightarrow> P (snd (m s)) \<and> M a)"
    using keeps_paid_same [OF assms(1)] assms(3) s by blast
qed (use assms(2) in \<open>auto simp: notices.stable_def\<close>)

lemma pay_rides_paid:
  "keeps_paid s s' \<and> (known_ride k s \<longrightarrow> paid_ride k s')"
  if "rides s' = pay_rides (Some \<lparr>ru_rideId = k, ru_paymentStatus = Some PAID, ru_paymentUrl = None\<rparr>) now (rides s)"
proof (cases "row_find ride_id k (rides s)")
  case None
  then show ?thesis using that keeps_paid_same by (simp add: pay_rides_def known_ride_def)
next
  case (Some r)
  then have "ride_id r = k" by (auto dest: row_find_SomeD)
  then show ?thesis using that Some
    by (auto simp: pay_rides_def keeps_paid_def paid_ride_def known_ride_def row_find_put put_payment_state_def)
qed

lemma notice_save:
  assumes "ru = (if b then Some \<lparr>ru_rideId = k, ru_paymentStatus = Some PAID, ru_paymentUrl = None\<rparr> else None)"
  shows "notices.sat (known_ride k) (awaitE (saveDetailWithRideUpdate ul d ru ou)) (\<lambda>_ s. b \<longrightarrow> paid_ride k s)"
proof (rule notices.sat_await)
  fix s assume known: "known_ride k s"
  obtain res s' where run: "saveDetailWithRideUpdate ul d ru ou s = (res, s')" by force
  show "True \<and> keeps_paid s (snd (saveDetailWithRideUpdate ul d ru ou s)) \<and>
      (\<forall>a. fst (saveDetailWithRideUpdate ul d ru ou s) = Inr a \<longrightarrow>
        b \<longrightarrow> paid_ride k (snd (saveDetailWithRideUpdate ul d ru ou s)))"
  proof (cases res)
    case (Inl e)
    then have "s' = s" using run by (auto simp: saveDetailWithRideUpdate_def dest: transact_atomic)
    then show ?thesis using run Inl keeps_paid_same by simp
  next
    case (Inr saved)
    then have "rides s' = pay_rides ru (clock s) (rides s)" using saveDetailWithRideUpdate_ok run by blast
    then show ?thesis
      using run Inr assms known pay_rides_paid [of s' k "clock s" s] keeps_paid_same [of s' s]
      by (cases b) (simp_all add: pay_rides_def)
  qed
qed simp

lemma notice_refresh:
  "notices.sat P (awaitE (refresh (ride_id r) r)) (\<lambda>a s. P s \<and> ride_id a = ride_id r)" if "notices.stable P"
  using that by (rule notice_keep [rotated]) (auto simp: run_refresh dest: row_find_SomeD split: option.splits)

lemma sat_notification:
  "notices.sat (\<lambda>_. True) (handlePaymentNotificationP env n ip)
     (\<lambda>out s. isSuccessfulPaymentStatus (normalizePaymentStatus (transaction_status n)) \<longrightarrow> paid_ride (ride_id (fst out)) s)"
    (is "notices.sat _ _ (\<lambda>out s. ?paid \<longrightarrow> _ out s)")
proof -
  have finish: "notices.sat (\<lambda>s. b \<longrightarrow> paid_ride (ride_id r) s)
      (bindP (awaitE (refresh (ride_id r) r)) (\<lambda>refreshed.
        bindP (awaitE (whenE b (notifyRidePaid refreshed t))) (\<lambda>_. Ret (refreshed, x))))
      (\<lambda>out s. b \<longrightarrow> paid_ride (ride_id (fst out)) s)" for b r t and x :: "formatted_detail option"
  proof (rule notices.sat_bind [OF notice_refresh], simp, rule notices.sat_bind)
    fix a
    show "notices.sat (\<lambda>s. (b \<longrightarrow> paid_ride (ride_id r) s) \<and> ride_id a = ride_id r)
        (awaitE (whenE b (notifyRidePaid a t))) (\<lambda>_ s. ((b \<longrightarrow> paid_ride (ride_id r) s) \<and> ride_id a = ride_id r) \<and> True)"
      by (rule notice_keep) (auto simp: run_when notices.stable_def keeps_paid_def same_publish [OF paid.publishes])
  qed (auto intro: notices.sat_ret)
  have update: "notices.sat (known_ride (ride_id r)) (let (d1, paid, ou) = applyNotification r n d;
        r1 = (if paid then r\<lparr>paymentStatus := Some PAID, paymentUrl := None\<rparr> else r)
      in bindP (awaitE (saveDetailWithRideUpdate (update_result env) d1
           (if paid then Some \<lparr>ru_rideId = ride_id r1, ru_paymentStatus = Some PAID, ru_paymentUrl = None\<rparr> else None)
           (map_option (\<lambda>(st, setp, err). \<lparr>ou_rideId = ride_id r1, ou_paymentDetailId = pd_id d1,
              ou_orderId = (case orderId d1 of None \<Rightarrow> pn_order_id n | Some x \<Rightarrow> x),
              ou_status = st, ou_lastError = err, ou_setProcessedAt = setp\<rparr>) ou))) (\<lambda>saved.
         bindP (awaitE (refresh (ride_id r1) r1)) (\<lambda>refreshed.
         bindP (awaitE (whenE paid (notifyRidePaid refreshed (transaction_id n)))) (\<lambda>_.
           Ret (refreshed, formatPaymentDetail (Some saved))))))
      (\<lambda>out s. ?paid \<longrightarrow> paid_ride (ride_id (fst out)) s)" for r d
  proof -
    obtain d1 ou where app: "applyNotification r n d = (d1, ?paid, ou)"
      by (simp add: applyNotification_def Let_def)
    define r1 where "r1 = (if ?paid then r\<lparr>paymentStatus := Some PAID, paymentUrl := None\<rparr> else r)"
    have r1: "ride_id r1 = ride_id r" by (simp add: r1_def)
    show ?thesis unfolding app Let_def prod.case r1_def [symmetric] r1 [symmetric]
      by (rule notices.sat_bind [OF notice_save [OF refl]]) (rule finish)
  qed
  have ride: "notices.sat (\<lambda>_. True) (awaitE (findRideById k)) (\<lambda>f s. \<forall>r. f = Some r \<longrightarrow> known_ride (ride_id r) s)" for k
    by (rule notices.sat_await)
      (auto simp: run_findRideById known_ride_def keeps_paid_same notices.stable_def keeps_paid_def dest: row_find_SomeD)
  have read: "notices.sat (\<lambda>_. True) (awaitE m) (\<lambda>_ _. True)" if "\<And>s. rides (snd (m s)) = rides s" for m :: "'x weff"
    using notice_keep [of m "\<lambda>_. True" "\<lambda>_. True"] that by (simp add: notices.stable_def)
  have same: "rides (snd (isIpAllowed xs s)) = rides s" "rides (snd (findDetailByOrderId i s)) = rides s" for xs i s
    by (simp_all add: isIpAllowed_run findDetailByOrderId_def)
  have found: "notices.sat (\<lambda>s. \<forall>r. f = Some r \<longrightarrow> known_ride (ride_id r) s)
      (case f of None \<Rightarrow> Throw e | Some r \<Rightarrow> g r) Q"
    if "\<And>r. notices.sat (known_ride (ride_id r)) (g r) Q" for f e g and Q :: "ride \<times> formatted_detail option \<Rightarrow> world \<Rightarrow> bool"
    by (rule notices.sat_throw_None) (auto intro: notices.sat_weaken [OF that])
  show ?thesis unfolding handlePaymentNotificationP_def
    by (rule notices.sat_bind [OF read [OF same(1)]], intro notices.sat_throw_if,
        rule notices.sat_bind [OF read [OF same(2)]], rule notices.sat_throw_None, rule notices.sat_bind [OF ride],
        rule found, rule update)
qed

text \<open>
  C31. Notifications never undo each other: the provider's notifications arrive in any number and
  their queries interleave in any order. Then a ride that was paid stays paid, and the ride a
  notification of a successful payment was answered with is paid.
\<close>

theorem notifications_settle:
  assumes "run_pool schedule (s, map (\<lambda>(n, ip). handlePaymentNotificationP env n ip) calls) = (s', ps)"
  shows "(\<forall>k r. row_find ride_id k (rides s) = Some r \<longrightarrow> paymentStatus r = Some PAID \<longrightarrow>
      (\<exists>r'. row_find ride_id k (rides s') = Some r' \<and> paymentStatus r' = Some PAID)) \<and>
    (\<forall>i < length calls. \<forall>out. ps ! i = Ret out \<longrightarrow>
      isSuccessfulPaymentStatus (normalizePaymentStatus (transaction_status (fst (calls ! i)))) \<longrightarrow>
      (\<exists>r. row_find ride_id (ride_id (fst out)) (rides s') = Some r \<and> paymentStatus r = Some PAID))"
proof -
  let ?Q = "\<lambda>i out s. isSuccessfulPaymentStatus (normalizePaymentStatus (transaction_status (fst (calls ! i)))) \<longrightarrow>
    paid_ride (ride_id (fst out)) s"
  have "notices.pool_ok ?Q (s, map (\<lambda>(n, ip). handlePaymentNotificationP env n ip) calls)"
    unfolding notices.pool_ok_def
    by (auto simp: split_beta intro!: exI [of _ "\<lambda>_. True"] sat_notification notices.stable_const)
  from notices.pool_ok_run [OF this, of schedule]
  have run: "notices.pool_ok ?Q (s', ps)" "keeps_paid s s'" "length ps = length calls"
    using assms by simp_all
  have "paid_ride (ride_id (fst out)) s'"
    if "i < length calls" "ps ! i = Ret out"
      "isSuccessfulPaymentStatus (normalizePaymentStatus (transaction_status (fst (calls ! i))))" for i out
    using notices.pool_result [OF run(1), of i out] run(3) that by simp
  then show ?thesis using run(2) unfolding keeps_paid_def paid_ride_def by blast
qed

theorem notifications_settle_witness:
  "\<exists>schedule s' ps out r. run_pool schedule (demo_due, map (\<lambda>(n, ip). handlePaymentNotificationP demo_pay_env n ip)
      [(demo_paid_notice, demo_provider_ip), (demo_paid_notice, demo_stranger)]) = (s', ps) \<and> ps ! 0 = Ret out \<and>
     row_find ride_id (ride_id (fst out)) (rides s') = Some r \<and> paymentStatus r = Some PAID"
proof -
  let ?calls = "[(demo_paid_notice, demo_provider_ip), (demo_paid_notice, demo_stranger)]"
  obtain out t where alone: "handlePaymentNotification demo_pay_env demo_paid_notice demo_provider_ip demo_due = (Inr out, t)"
    using demo_notified by blast
  obtain n where "own_steps n (demo_due, handlePaymentNotificationP demo_pay_env demo_paid_notice demo_provider_ip) = (t, Ret out)"
    using solo_own [of demo_due "handlePaymentNotificationP demo_pay_env demo_paid_notice demo_provider_ip"] alone
    by (auto simp: solo_notification)
  then have run: "run_pool (replicate n 0) (demo_due, map (\<lambda>(n, ip). handlePaymentNotificationP demo_pay_env n ip) ?calls) =
      (t, [Ret out, handlePaymentNotificationP demo_pay_env demo_paid_notice demo_stranger])"
    by (simp add: run_own)
  have "isSuccessfulPaymentStatus (normalizePaymentStatus (transaction_status (fst (?calls ! 0))))"
    by (simp add: demo_paid_notice_def) code_simp
  then obtain r where "row_find ride_id (ride_id (fst out)) (rides t) = Some r" "paymentStatus r = Some PAID"
    using notifications_settle [OF run] by (metis length_greater_0_conv list.distinct(1) nth_Cons_0)
  then show ?thesis using run by (metis nth_Cons_0)
qed

section \<open>A request for the link and a notification\<close>

text \<open>
  C33. A forgotten payment: a rider who already has a payment link asks for it again, and the
  provider's notification of his payment arrives between the moment the request has read that
  the ride is unpaid and the moment it stores the link. The ride is then PAID for an instant,
  and ends ON_PROCESS with the old link; both calls are answered as successful.
\<close>

theorem payment_forgotten:
  assumes "row_find ride_id k (rides s) = Some r" and "riderId r = rider" and "status r = COMPLETED"
    and "paymentStatus r \<noteq> Some PAID" and "ensurePaymentConfiguration env = Inr ()"
    and "findDetailByOrderId (pn_order_id n) s = (Inr (Some d), s)" and "pd_rideId d = k"
    and "row_find pd_rideId k (details s) = Some d" and "truthy (token d)" and "truthy (redirectUrl d)"
    and "update_result env 1 \<noteq> 0" and "handlePaymentNotification env n ip s = (Inr out, t)"
    and "isSuccessfulPaymentStatus (normalizePaymentStatus (transaction_status n))"
  shows "\<exists>before after s1 ps x s' p q y.
    run_pool before (s, [proceedRidePaymentP env k rider, handlePaymentNotificationP env n ip]) = (s1, ps) \<and>
    row_find ride_id k (rides s1) = Some x \<and> paymentStatus x = Some PAID \<and>
    run_pool after (s1, ps) = (s', [Ret p, Ret q]) \<and>
    row_find ride_id k (rides s') = Some y \<and> paymentStatus y = Some ON_PROCESS \<and> paymentUrl y = redirectUrl d"
proof -
  have k: "ride_id r = k" using row_find_SomeD [OF assms(1)] by simp
  let ?v = "payment_view r"
  have v: "riderId ?v = rider" "status ?v = COMPLETED" "paymentStatus ?v \<noteq> Some PAID" "ride_id ?v = k"
    using assms(2-4) k by (simp_all add: payment_view_def)
  have first: "own_steps 3 (s, proceedRidePaymentP env k rider) = (s, storeLinkP env ?v d)"
    using assms(1,5,8,9,10) v
    by (simp add: proceedRidePaymentP_def initiatePaymentP_def eval_nat_numeral own_await bindP_assoc
        findRideForPayment_def findDetailByRideId_def)
  obtain d' r' where *: "findDetailByOrderId (pn_order_id n) s = (Inr (Some d'), s)"
      "row_find ride_id (pd_rideId d') (rides s) = Some r'"
      "rides t = row_put ride_id (r'\<lparr>paymentStatus := Some PAID, paymentUrl := None, updatedAt := clock s\<rparr>) (rides s)"
    using notification_rides [OF assms(12)] assms(13) by auto
  then have t: "row_find ride_id k (rides t) = Some (r\<lparr>paymentStatus := Some PAID, paymentUrl := None, updatedAt := clock s\<rparr>)"
    using assms(1,6,7) k by (simp add: row_find_put)
  obtain m where second: "own_steps m (s, handlePaymentNotificationP env n ip) = (t, Ret out)"
    using solo_own [of s "handlePaymentNotificationP env n ip"] assms(12) by (auto simp: solo_notification)
  obtain p s' y where third: "solo (storeLinkP env ?v d) t = (Inr p, s')"
      "row_find ride_id k (rides s') = Some y" "paymentStatus y = Some ON_PROCESS" "paymentUrl y = redirectUrl d"
    using t v k assms(11)
    by (auto simp: storeLinkP_def run_bind updatePaymentState_def updateRidePayment_run pay_rides_def findRideForPayment_def
        row_find_put put_payment_state_def)
  obtain l where last: "own_steps l (t, storeLinkP env ?v d) = (s', Ret p)"
    using solo_own [of t "storeLinkP env ?v d"] third(1) by auto
  have "run_pool (replicate 3 0 @ replicate m 1) (s, [proceedRidePaymentP env k rider, handlePaymentNotificationP env n ip]) =
      (t, [storeLinkP env ?v d, Ret out])"
    using first second by (simp add: run_pool_append run_own)
  moreover have "run_pool (replicate l 0) (t, [storeLinkP env ?v d, Ret out]) = (s', [Ret p, Ret out])"
    using last by (simp add: run_own)
  ultimately show ?thesis using t third(2-4)
    by (intro exI [of _ "replicate 3 0 @ replicate m 1"] exI [of _ "replicate l 0"] exI [of _ t]) auto
qed

lemma demo_linked_notified:
  "\<exists>out t. handlePaymentNotification demo_pay_env demo_paid_notice demo_provider_ip demo_linked = (Inr out, t)"
proof -
  have "case fst (handlePaymentNotification demo_pay_env demo_paid_notice demo_provider_ip demo_linked) of
      Inl _ \<Rightarrow> False | Inr _ \<Rightarrow> True"
    by code_simp
  then show ?thesis by (auto split: sum.splits) (metis prod.collapse)
qed

theorem payment_forgotten_witness:
  "\<exists>before after s1 ps x s' p q y.
    run_pool before (demo_linked, [proceedRidePaymentP demo_pay_env ''1'' ''7'',
      handlePaymentNotificationP demo_pay_env demo_paid_notice demo_provider_ip]) = (s1, ps) \<and>
    row_find ride_id ''1'' (rides s1) = Some x \<and> paymentStatus x = Some PAID \<and>
    run_pool after (s1, ps) = (s', [Ret p, Ret q]) \<and>
    row_find ride_id ''1'' (rides s') = Some y \<and> paymentStatus y = Some ON_PROCESS \<and> paymentUrl y = Some ''link''"
proof -
  let ?d = "demo_detail\<lparr>pd_status := DInitiated, token := Some ''tok'', redirectUrl := Some ''link''\<rparr>"
  obtain out t where run: "handlePaymentNotification demo_pay_env demo_paid_notice demo_provider_ip demo_linked = (Inr out, t)"
    using demo_linked_notified by blast
  have rows: "row_find ride_id ''1'' (rides demo_linked) = Some demo_due_ride"
    "row_find pd_rideId ''1'' (details demo_linked) = Some ?d"
    "findDetailByOrderId (pn_order_id demo_paid_notice) demo_linked = (Inr (Some ?d), demo_linked)"
    by (simp_all add: demo_linked_def demo_pay_defs findDetailByOrderId_def demo_paid_notice_def)
  have paid: "isSuccessfulPaymentStatus (normalizePaymentStatus (transaction_status demo_paid_notice))"
    by code_simp
  have facts: "riderId demo_due_ride = ''7''" "status demo_due_ride = COMPLETED" "paymentStatus demo_due_ride \<noteq> Some PAID"
    "pd_rideId ?d = ''1''" "truthy (token ?d)" "truthy (redirectUrl ?d)" "update_result demo_pay_env 1 \<noteq> 0"
    by (simp_all add: demo_pay_defs truthy_def)
  show ?thesis
    using payment_forgotten [OF rows(1) facts(1-3) demo_configured rows(3) facts(4) rows(2) facts(5-7) run paid]
    by simp
qed

section \<open>The tables of the payments\<close>

text \<open>One detail per ride, and every outbox entry belongs to the detail of its ride.\<close>

definition wf_payments :: "world \<Rightarrow> bool" where
  "wf_payments s \<longleftrightarrow>
     distinct (map pd_id (details s)) \<and> distinct (map pd_rideId (details s)) \<and>
     (\<forall>d \<in> set (details s). issued (detailSeq s) (pd_id d)) \<and>
     distinct (map ob_id (outboxes s)) \<and>
     (\<forall>ob \<in> set (outboxes s). issued (outboxSeq s) (ob_id ob) \<and>
        (\<exists>d \<in> set (details s). pd_id d = paymentDetailId ob \<and> pd_rideId d = ob_rideId ob))"

definition entered :: "string \<Rightarrow> world \<Rightarrow> bool" where
  "entered i s \<longleftrightarrow> row_find ob_id i (outboxes s) \<noteq> None"

definition keeps_entries :: "world \<Rightarrow> world \<Rightarrow> bool" where
  "keeps_entries s s' \<longleftrightarrow> (\<forall>i. entered i s \<longrightarrow> entered i s')"

interpretation payments: rely_guarantee wf_payments keeps_entries
  by unfold_locales (simp_all add: keeps_entries_def)

lemma stable_entered [intro, simp]: "payments.stable (entered i)" "payments.stable (\<lambda>_. b)"
  by (simp_all add: payments.stable_def keeps_entries_def)

lemma entry_row:
  assumes "wf_payments s" and "entered i s"
  shows "\<exists>ob. row_find ob_id i (outboxes s) = Some ob \<and> ob_id ob = i \<and> i \<noteq> []"
proof -
  obtain ob where ob: "row_find ob_id i (outboxes s) = Some ob" using assms(2) by (auto simp: entered_def)
  then have "ob_id ob = i" "ob \<in> set (outboxes s)" by (auto dest: row_find_SomeD)
  then show ?thesis using ob assms(1) by (auto simp: wf_payments_def dest: issued_nonempty)
qed

text \<open>Steps that need to know nothing: they keep the tables well formed and every entry.\<close>

definition steady :: "'a weff \<Rightarrow> bool" where
  "steady m \<longleftrightarrow> (\<forall>s. wf_payments s \<longrightarrow> wf_payments (snd (m s)) \<and> keeps_entries s (snd (m s)))"

named_theorems steadies

lemma steady_same:
  assumes "\<And>s. details (snd (m s)) = details s \<and> detailSeq (snd (m s)) = detailSeq s \<and>
    outboxes (snd (m s)) = outboxes s \<and> outboxSeq (snd (m s)) = outboxSeq s"
  shows "steady m"
  using assms by (simp add: steady_def wf_payments_def keeps_entries_def entered_def)

lemma steady_pure [steadies]: "steady (returnE a)" "steady (throwE e)" "steady (readE f)" "steady (liftE v)"
  by (simp_all add: steady_same)

lemma steady_bind [steadies]: "steady m \<Longrightarrow> (\<And>a. steady (f a)) \<Longrightarrow> steady (bindE m f)"
proof (unfold steady_def, intro allI impI)
  fix s
  assume m: "\<forall>s. wf_payments s \<longrightarrow> wf_payments (snd (m s)) \<and> keeps_entries s (snd (m s))"
    and f: "\<And>a. \<forall>s. wf_payments s \<longrightarrow> wf_payments (snd (f a s)) \<and> keeps_entries s (snd (f a s))" and s: "wf_payments s"
  obtain r t where run: "m s = (r, t)" by force
  then have "wf_payments t" "keeps_entries s t" using m s by force+
  then show "wf_payments (snd (bindE m f s)) \<and> keeps_entries s (snd (bindE m f s))"
    using f run by (cases r) (auto simp: run_bind keeps_entries_def)
qed

lemma steady_then [steadies]: "steady m \<Longrightarrow> steady n \<Longrightarrow> steady (thenE m n)"
  unfolding thenE_def by (rule steady_bind)

lemma steady_transact [steadies]: "steady m \<Longrightarrow> steady (transactE m)"
  by (auto simp: steady_def run_transact keeps_entries_def split: prod.split sum.split)

lemma steady_if [steadies]: "steady m \<Longrightarrow> steady n \<Longrightarrow> steady (if b then m else n)"
  by simp

lemma steady_option [steadies]: "steady m \<Longrightarrow> (\<And>x. steady (f x)) \<Longrightarrow> steady (case v of None \<Rightarrow> m | Some x \<Rightarrow> f x)"
  by (cases v) simp_all

lemma saveOutbox_step:
  assumes "wf_payments s" and "entered (ob_id ob) s"
  shows "wf_payments (snd (saveOutbox ob s)) \<and> keeps_entries s (snd (saveOutbox ob s))"
proof -
  obtain cur where cur: "row_find ob_id (ob_id ob) (outboxes s) = Some cur" "ob_id cur = ob_id ob" "ob_id ob \<noteq> []"
    using entry_row [OF assms] by blast
  have "cur \<in> set (outboxes s)" using cur(1) by (auto dest: row_find_SomeD)
  then show ?thesis using assms(1) cur
    by (auto simp: saveOutbox_def Let_def wf_payments_def keeps_entries_def entered_def row_find_put
        dest!: in_row_put)
qed

lemma wf_payments_ids:
  assumes "map (\<lambda>d. (pd_id d, pd_rideId d)) (details s') = map (\<lambda>d. (pd_id d, pd_rideId d)) (details s)"
    and "detailSeq s' = detailSeq s" and "outboxes s' = outboxes s" and "outboxSeq s' = outboxSeq s"
  shows "wf_payments s' = wf_payments s"
proof -
  have "map pd_id (details s') = map pd_id (details s)" "map pd_rideId (details s') = map pd_rideId (details s)"
    using arg_cong [OF assms(1), of "map fst"] arg_cong [OF assms(1), of "map snd"] by (simp_all add: comp_def)
  moreover have "(\<exists>d \<in> set (details t). pd_id d = i \<and> pd_rideId d = k) =
      ((i, k) \<in> set (map (\<lambda>d. (pd_id d, pd_rideId d)) (details t)))" for t :: world and i k
    by force
  moreover have "(\<forall>d \<in> set (details t). issued n (pd_id d)) = list_all (issued n) (map pd_id (details t))" for t :: world and n
    by (simp add: list_all_iff)
  ultimately show ?thesis using assms by (simp only: wf_payments_def)
qed

lemma persistDetail_step:
  assumes "wf_payments s"
  shows "\<exists>row s'. persistDetail d s = (Inr row, s') \<and> wf_payments s' \<and> outboxes s' = outboxes s \<and>
    row \<in> set (details s') \<and> pd_rideId row = pd_rideId d"
proof (cases "row_find pd_rideId (pd_rideId d) (details s)")
  case None
  then have "pd_rideId d \<notin> pd_rideId ` set (details s)" by (auto simp: row_find_None_iff)
  moreover have "show_nat (detailSeq s) \<notin> pd_id ` set (details s)"
    using assms issued_fresh [of "detailSeq s"] unfolding wf_payments_def by (metis imageE)
  ultimately show ?thesis using None assms
    by (auto simp: persistDetail_def Let_def wf_payments_def issued_next intro: issued_Suc)
next
  case (Some cur)
  let ?row = "d\<lparr>pd_id := pd_id cur, pd_createdAt := pd_createdAt cur, pd_updatedAt := clock s\<rparr>"
  have cur: "cur \<in> set (details s)" "pd_rideId cur = pd_rideId d" using Some by (auto dest: row_find_SomeD)
  have same: "pd_id ?row = pd_id d0" if "d0 \<in> set (details s)" "pd_rideId d0 = pd_rideId d" for d0
  proof -
    have "inj_on pd_rideId (set (details s))" using assms by (simp add: wf_payments_def distinct_map)
    from inj_onD [OF this, of cur d0] show ?thesis using that cur by simp
  qed
  then have ids: "map (\<lambda>d. (pd_id d, pd_rideId d)) (row_put pd_rideId ?row (details s)) =
      map (\<lambda>d. (pd_id d, pd_rideId d)) (details s)"
    by (simp add: row_put_def)
  have mem: "?row \<in> set (row_put pd_rideId ?row (details s))"
    using cur by (force simp: row_put_def)
  have "wf_payments (s\<lparr>details := row_put pd_rideId ?row (details s)\<rparr>)"
    using wf_payments_ids [of "s\<lparr>details := row_put pd_rideId ?row (details s)\<rparr>" s] ids assms by simp
  then show ?thesis using Some mem by (auto simp: persistDetail_def Let_def)
qed

lemma steady_saveDetail [steadies]: "steady (saveDetail d)" "steady (persistDetail d)"
  using persistDetail_step [of _ d] by (force simp: steady_def saveDetail_def keeps_entries_def entered_def)+

lemma saveDetailAndOutbox_step:
  assumes "wf_payments s"
  shows "\<exists>d1 ob s'. saveDetailAndOutbox d oid req st s = (Inr (d1, ob), s') \<and> wf_payments s' \<and> keeps_entries s s' \<and>
    entered (ob_id ob) s'"
proof -
  obtain row s1 where row: "persistDetail d s = (Inr row, s1)" "wf_payments s1" "outboxes s1 = outboxes s"
      "row \<in> set (details s1)"
    using persistDetail_step [OF assms] by blast
  have new: "show_nat (outboxSeq s1) \<notin> ob_id ` set (outboxes s1)"
    using row(2) issued_fresh [of "outboxSeq s1"] unfolding wf_payments_def by (metis imageE)
  let ?ob = "\<lparr>ob_id = show_nat (outboxSeq s1), ob_rideId = pd_rideId row, paymentDetailId = pd_id row,
    ob_orderId = oid, ob_status = st, attempts = 0, jobId = None, ob_requestPayload = req, lastError = None,
    lastAttemptedAt = None, processedAt = None, ob_createdAt = clock s1, ob_updatedAt = clock s1\<rparr>"
  let ?s = "s1\<lparr>outboxes := outboxes s1 @ [?ob], outboxSeq := Suc (outboxSeq s1)\<rparr>"
  have "wf_payments ?s"
    using row(2,4) new by (auto simp: wf_payments_def issued_next intro: issued_Suc)
  moreover have "keeps_entries s ?s" "entered (ob_id ?ob) ?s"
    using row(3) by (auto simp: keeps_entries_def entered_def row_find_append split: option.splits)
  moreover have "saveDetailAndOutbox d oid req st s = (Inr (row, ?ob), ?s)"
    using row(1) by (simp add: saveDetailAndOutbox_def saveDetail_def insertOutboxRow_def eff_run Let_def)
  ultimately show ?thesis by blast
qed

lemma apply_outbox_ids [simp]:
  "ob_id (apply_outbox_update u now ob) = ob_id ob" "ob_rideId (apply_outbox_update u now ob) = ob_rideId ob"
  "paymentDetailId (apply_outbox_update u now ob) = paymentDetailId ob"
  by (simp_all add: apply_outbox_update_def)

lemma steady_updateOutboxes [steadies]: "steady (updateOutboxes ul u)"
proof -
  have "steady (writeE (\<lambda>s. s\<lparr>outboxes := map (apply_outbox_update u (clock s)) (outboxes s)\<rparr>))"
  proof (unfold steady_def, intro allI impI conjI)
    fix s :: world
    assume wf: "wf_payments s"
    then show "wf_payments (snd (writeE (\<lambda>s. s\<lparr>outboxes := map (apply_outbox_update u (clock s)) (outboxes s)\<rparr>) s))"
      by (simp add: wf_payments_def comp_def)
    show "keeps_entries s (snd (writeE (\<lambda>s. s\<lparr>outboxes := map (apply_outbox_update u (clock s)) (outboxes s)\<rparr>) s))"
      by (auto simp: keeps_entries_def entered_def row_find_None_iff)
  qed
  then show ?thesis unfolding updateOutboxes_def by (intro steadies)
qed

lemma steady_updateRidePayment [steadies]: "steady (updateRidePayment ul k st url msg)"
  by (rule steady_same) (simp add: updateRidePayment_run)

lemma steady_saveDetailWithRideUpdate [steadies]: "steady (saveDetailWithRideUpdate ul d ru ou)"
  unfolding saveDetailWithRideUpdate_def by (intro steadies)

lemma steady_reads [steadies]:
  "steady (findDetailById i)" "steady (findDetailByRideId k)" "steady (findDetailByOrderId x)" "steady (findOutboxById i)"
  "steady (findRideForPayment k)" "steady (findRideById k)" "steady (isIpAllowed xs)"
  by (simp_all add: steady_same findDetailById_def findDetailByRideId_def findDetailByOrderId_def findOutboxById_def
      findRideForPayment_def run_findRideById isIpAllowed_run)

lemma steady_rides [steadies]: "steady (refresh k r)" "steady (updatePaymentState ul k st url)"
  by (simp_all add: steady_same run_refresh updatePaymentState_def updateRidePayment_run)

lemma steady_publish: "only_publishes m \<Longrightarrow> steady m"
proof (rule steady_same)
  fix s
  assume "only_publishes m"
  then obtain a ns where "m s = (Inr a, s\<lparr>published := published s @ ns\<rparr>)" unfolding only_publishes_def by blast
  then show "details (snd (m s)) = details s \<and> detailSeq (snd (m s)) = detailSeq s \<and>
      outboxes (snd (m s)) = outboxes s \<and> outboxSeq (snd (m s)) = outboxSeq s" by simp
qed

subsection \<open>Every step of every call\<close>

lemma sat_steady: "steady m \<Longrightarrow> payments.stable P \<Longrightarrow> payments.sat P (awaitE m) (\<lambda>_. P)"
  by (rule payments.sat_await) (auto simp: steady_def payments.stable_def)

lemma sat_steady_then:
  "steady m \<Longrightarrow> payments.stable P \<Longrightarrow> (\<And>a. payments.sat P (g a) Q) \<Longrightarrow> payments.sat P (bindP (awaitE m) g) Q"
  by (rule payments.sat_bind [OF sat_steady])

lemma sat_saveOutbox: "payments.sat (entered (ob_id ob)) (awaitE (saveOutbox ob)) (\<lambda>_. entered (ob_id ob))"
  using saveOutbox_step by (intro payments.sat_await) (auto simp: keeps_entries_def)

lemma sat_saveOutbox_then:
  "ob_id ob = i \<Longrightarrow> (\<And>a. payments.sat (entered i) (g a) Q) \<Longrightarrow> payments.sat (entered i) (bindP (awaitE (saveOutbox ob)) g) Q"
  using payments.sat_bind [OF sat_saveOutbox] by blast

lemma sat_findOutbox:
  assumes "\<And>ob. ob_id ob = i \<Longrightarrow> payments.sat (entered i) (g ob) Q"
  shows "payments.sat (entered i) (bindP (awaitE (findOutboxById i)) (\<lambda>f. case f of None \<Rightarrow> Throw e | Some ob \<Rightarrow> g ob)) Q"
proof (rule payments.sat_bind)
  show "payments.sat (entered i) (awaitE (findOutboxById i)) (\<lambda>f s. entered i s \<and> (\<forall>ob. f = Some ob \<longrightarrow> ob_id ob = i))"
    by (rule payments.sat_await)
      (auto simp: findOutboxById_def keeps_entries_def payments.stable_def dest: row_find_SomeD)
  show "payments.sat (\<lambda>s. entered i s \<and> (\<forall>ob. f = Some ob \<longrightarrow> ob_id ob = i)) (case f of None \<Rightarrow> Throw e | Some ob \<Rightarrow> g ob) Q" for f
    by (rule payments.sat_fact) (auto intro: payments.sat_throw_None assms)
qed

lemma sat_processOutbox: "payments.sat (entered i) (processOutboxP env i) (\<lambda>_ _. True)"
proof -
  have replied: "payments.sat (entered j) (case reply of PspOk x \<Rightarrow> f x | PspHttpError c m \<Rightarrow> g c m | PspError m \<Rightarrow> h m | PspUnknown \<Rightarrow> u) Q"
    if "\<And>x. payments.sat (entered j) (f x) Q" "\<And>c m. payments.sat (entered j) (g c m) Q" "\<And>m. payments.sat (entered j) (h m) Q"
      "payments.sat (entered j) u Q" for j reply f g h u and Q :: "payment_job_result \<Rightarrow> world \<Rightarrow> bool"
    using that by (cases reply) simp_all
  show ?thesis unfolding processOutboxP_def Let_def
    by (rule sat_steady_then, intro steadies, simp, rule sat_findOutbox)
      (auto intro!: sat_steady_then sat_saveOutbox_then payments.sat_throw_None payments.sat_throw replied
        payments.sat_ret steadies)
qed

lemma sat_job: "payments.sat (entered i) (runPaymentJobP env n i) (\<lambda>_ _. True)"
proof (induction n)
  case (Suc n)
  have "payments.sat (entered i) (bindP (processOutboxP env i) (\<lambda>_. Ret True)) (\<lambda>_ _. True)"
    by (rule payments.sat_bind [OF sat_processOutbox]) (simp add: payments.sat_ret)
  from payments.sat_catch [OF this stable_entered(1) Suc.IH] show ?case by simp
qed (simp add: payments.sat_ret)

lemma sat_request: "payments.sat (\<lambda>_. True) (requestPaymentP env r found) (\<lambda>_ _. True)"
proof -
  have enter: "payments.sat (\<lambda>_. True) (awaitE (saveDetailAndOutbox d oid req st)) (\<lambda>(d1, ob). entered (ob_id ob))" for d oid req st
    using saveDetailAndOutbox_step [of _ d oid req st] by (intro payments.sat_await) force+
  have jobs: "steady (writeE (\<lambda>s. s\<lparr>paymentJobs := f (paymentJobs s)\<rparr>))" for f by (rule steady_same) simp
  have wait: "payments.sat (entered i) (bindP (runPaymentJobP env n i) (\<lambda>finished.
      if \<not> finished then Throw e else bindP (awaitE (findDetailById j)) (\<lambda>f. case f of None \<Rightarrow> Throw e1 | Some d2 \<Rightarrow>
        if \<not> truthy (redirectUrl d2) then Throw e2 else Ret d2))) (\<lambda>_ _. True)" for i n j e e1 e2
    by (rule payments.sat_bind [OF sat_job])
      (auto intro!: sat_steady_then payments.sat_throw payments.sat_ret steadies split: option.split)
  have entered: "payments.sat (entered (ob_id ob)) (bindP (awaitE (writeE (\<lambda>s. s\<lparr>paymentJobs := f (paymentJobs s)\<rparr>))) (\<lambda>_.
      bindP (awaitE (saveOutbox (ob\<lparr>jobId := j\<rparr>))) (\<lambda>_. p))) (\<lambda>_ _. True)"
    if "payments.sat (entered (ob_id ob)) p (\<lambda>_ _. True)" for ob f j and p :: "(world, payment_detail) prog"
    by (intro sat_steady_then jobs stable_entered sat_saveOutbox_then that) simp
  show ?thesis unfolding requestPaymentP_def Let_def
    by (rule sat_steady_then, rule steadies, simp, rule sat_steady_then, rule steadies, simp, rule payments.sat_bind [OF enter])
      (auto intro!: entered wait split: prod.split)
qed

lemma sat_initiate: "payments.sat (\<lambda>_. True) (initiatePaymentP env r) (\<lambda>_ _. True)"
  unfolding initiatePaymentP_def
  by (auto intro!: sat_steady_then steadies sat_request payments.sat_ret)

lemma sat_proceed: "payments.sat (\<lambda>_. True) (proceedRidePaymentP env k rider) (\<lambda>_ _. True)"
proof -
  have link: "payments.sat (\<lambda>_. True) (storeLinkP env r d) (\<lambda>_ _. True)" for r d
    unfolding storeLinkP_def by (auto intro!: sat_steady_then steadies payments.sat_ret)
  show ?thesis unfolding proceedRidePaymentP_def
    by (auto intro!: sat_steady_then steadies payments.sat_throw payments.sat_ret payments.sat_bind [OF sat_initiate] link
        split: option.split)
qed

lemma sat_notice: "payments.sat (\<lambda>_. True) (handlePaymentNotificationP env n ip) (\<lambda>_ _. True)"
proof -
  have told: "steady (whenE b (notifyRidePaid x t))" for b x t
    unfolding whenE_def by (intro steadies steady_publish paid.publishes)
  show ?thesis unfolding handlePaymentNotificationP_def Let_def
    by (auto intro!: sat_steady_then steadies told payments.sat_throw payments.sat_ret split: option.split prod.split)
qed


lemma demo_linked_wf: "wf_payments demo_linked"
proof -
  have "issued 2 ''1''" unfolding issued_def using show_one by (metis one_less_numeral_iff semiring_norm(76) zero_less_one)
  then show ?thesis by (simp add: wf_payments_def demo_linked_def demo_pay_defs)
qed


section \<open>Two requests for one payment\<close>

lemma saveOutbox_details: "ob_id ob \<noteq> [] \<Longrightarrow> \<exists>row os. saveOutbox ob s = (Inr row, s\<lparr>outboxes := os\<rparr>)"
  by (auto simp: saveOutbox_def Let_def split: option.split)

lemma detail_of_id: "wf_payments s \<Longrightarrow> d \<in> set (details s) \<Longrightarrow> row_find pd_id (pd_id d) (details s) = Some d"
proof -
  assume wf: "wf_payments s" and d: "d \<in> set (details s)"
  then obtain x where x: "row_find pd_id (pd_id d) (details s) = Some x"
    by (cases "row_find pd_id (pd_id d) (details s)") (auto simp: row_find_None_iff)
  then show ?thesis using wf d row_find_SomeD [OF x] by (auto simp: wf_payments_def distinct_map dest: inj_onD)
qed

lemma detail_of_ride: "wf_payments s \<Longrightarrow> d \<in> set (details s) \<Longrightarrow> row_find pd_rideId (pd_rideId d) (details s) = Some d"
proof -
  assume wf: "wf_payments s" and d: "d \<in> set (details s)"
  then obtain x where x: "row_find pd_rideId (pd_rideId d) (details s) = Some x"
    by (cases "row_find pd_rideId (pd_rideId d) (details s)") (auto simp: row_find_None_iff)
  then show ?thesis using wf d row_find_SomeD [OF x] by (auto simp: wf_payments_def distinct_map dest: inj_onD)
qed

lemma processOutbox_success:
  assumes "ensurePaymentConfiguration env = Inr ()" and "i \<noteq> []" and "row_find ob_id i (outboxes s) = Some ob"
    and d: "row_find pd_rideId k (details s) = Some d" "row_find pd_id (paymentDetailId ob) (details s) = Some d"
    and "psp env i (attempts ob + 1) (ob_requestPayload ob) = PspOk x"
  shows "\<exists>out s' d'. processOutbox env i s = (Inr out, s') \<and>
    (\<forall>j. row_find pd_rideId j (details s') = (if j = k then Some d' else row_find pd_rideId j (details s))) \<and>
    pd_id d' = pd_id d \<and> orderId d' = Some (ob_orderId ob) \<and> redirectUrl d' = extractResponseString x ''redirect_url''"
proof -
  have ids: "ob_id ob = i" "pd_rideId d = k" using row_find_SomeD [OF assms(3)] row_find_SomeD [OF d(1)] by simp_all
  let ?ob = "ob\<lparr>ob_status := OProcessing, attempts := attempts ob + 1, lastAttemptedAt := Some (clock s)\<rparr>"
  obtain r1 os1 where s1: "saveOutbox ?ob s = (Inr r1, s\<lparr>outboxes := os1\<rparr>)"
    using saveOutbox_details [of ?ob s] ids assms(2) by auto
  let ?d = "d\<lparr>pd_status := DInitiated, responsePayload := x, requestPayload := Some (ob_requestPayload ob),
    orderId := Some (ob_orderId ob), token := extractResponseString x ''token'',
    redirectUrl := extractResponseString x ''redirect_url''\<rparr>"
  let ?row = "?d\<lparr>pd_updatedAt := clock s\<rparr>"
  let ?t = "s\<lparr>outboxes := os1, details := row_put pd_rideId ?row (details s)\<rparr>"
  have s2: "saveDetail ?d (s\<lparr>outboxes := os1\<rparr>) = (Inr ?row, ?t)"
    using d(1) ids by (simp add: saveDetail_def persistDetail_def Let_def)
  let ?last = "?ob\<lparr>ob_status := OCompleted, lastError := None, processedAt := Some (clock s)\<rparr>"
  have "ob_id ?last \<noteq> []" using ids assms(2) by simp
  from saveOutbox_details [OF this, of ?t] obtain r3 os3 where s3: "saveOutbox ?last ?t = (Inr r3, ?t\<lparr>outboxes := os3\<rparr>)"
    by blast
  have "\<exists>out. processOutbox env i s = (Inr out, ?t\<lparr>outboxes := os3\<rparr>)"
    using assms(1,3,6) d(2) s1 s2 s3
    by (simp add: processOutbox_def findOutboxById_def findDetailById_def run_bind run_then Let_def)
  then show ?thesis using d(1) ids by (auto simp: row_find_put)
qed

text \<open>An outbox entry is created for a detail that is stored under its ride.\<close>

lemma queue_run:
  assumes "wf_payments s"
  shows "\<exists>row ob s'. saveDetailAndOutbox d oid req st s = (Inr (row, ob), s') \<and> wf_payments s' \<and>
    row_find ob_id (ob_id ob) (outboxes s') = Some ob \<and> ob_orderId ob = oid \<and> paymentDetailId ob = pd_id row \<and>
    row \<in> set (details s') \<and> pd_rideId row = pd_rideId d \<and>
    (\<forall>j. row_find pd_rideId j (details s') = (if j = pd_rideId d then Some row else row_find pd_rideId j (details s)))"
proof -
  obtain row s1 where row: "persistDetail d s = (Inr row, s1)" "wf_payments s1" "outboxes s1 = outboxes s"
      "row \<in> set (details s1)" "pd_rideId row = pd_rideId d"
    using persistDetail_step [OF assms] by blast
  have find: "\<forall>j. row_find pd_rideId j (details s1) = (if j = pd_rideId d then Some row else row_find pd_rideId j (details s))"
    using persistDetail_lookup [of d s] row(1) by auto
  obtain ob where ob: "saveDetailAndOutbox d oid req st s = (Inr (row, ob), s1\<lparr>outboxes := outboxes s1 @ [ob], outboxSeq := Suc (outboxSeq s1)\<rparr>)"
      "ob_orderId ob = oid" "paymentDetailId ob = pd_id row" "ob_id ob = show_nat (outboxSeq s1)"
    using row(1) by (simp add: saveDetailAndOutbox_def saveDetail_def insertOutboxRow_def eff_run Let_def)
  have "row_find ob_id (ob_id ob) (outboxes s1) = None"
    using row(2) issued_fresh [of "outboxSeq s1"] ob(4) unfolding wf_payments_def row_find_None_iff by metis
  then have "row_find ob_id (ob_id ob) (outboxes s1 @ [ob]) = Some ob" by (simp add: row_find_append)
  moreover have "wf_payments (s1\<lparr>outboxes := outboxes s1 @ [ob], outboxSeq := Suc (outboxSeq s1)\<rparr>)"
    using saveDetailAndOutbox_step [OF assms, of d oid req st] ob(1) by auto
  ultimately show ?thesis using ob row(4,5) find by auto
qed

lemma request_run:
  assumes wf: "wf_payments s" and conf: "ensurePaymentConfiguration env = Inr ()"
    and payable: "buildPaymentRequestPayload r (ulid env (clock s)) = Inr req"
    and accepting: "\<forall>i n q. \<exists>x. psp env i n q = PspOk x \<and> truthy (extractResponseString x ''redirect_url'')"
    and working: "\<forall>i. worker_attempts env i \<noteq> 0"
  shows "\<exists>d s'. solo (requestPaymentP env r None) s = (Inr d, s') \<and> wf_payments s' \<and> orderId d = Some (ulid env (clock s)) \<and>
    (\<forall>j. row_find pd_rideId j (details s') = (if j = ride_id r then Some d else row_find pd_rideId j (details s)))"
proof -
  let ?oid = "ulid env (clock s)"
  define qd where "qd = queued_detail (create_detail (ride_id r) (paymentProvider env) DPending) ?oid req"
  have qd: "pd_rideId qd = ride_id r" by (simp add: qd_def queued_detail_def create_detail_def)
  obtain row ob s2 where s2: "saveDetailAndOutbox qd ?oid req OPending s = (Inr (row, ob), s2)" "wf_payments s2"
      "row_find ob_id (ob_id ob) (outboxes s2) = Some ob" "ob_orderId ob = ?oid" "paymentDetailId ob = pd_id row"
      "row \<in> set (details s2)" "pd_rideId row = ride_id r"
      "\<forall>j. row_find pd_rideId j (details s2) = (if j = ride_id r then Some row else row_find pd_rideId j (details s))"
    using queue_run [OF wf, of qd ?oid req OPending] unfolding qd by blast
  let ?job = "paymentJobId (ride_id r) (ob_id ob)"
  define s3 where "s3 = s2\<lparr>paymentJobs := List.insert (?job, ob_id ob) (paymentJobs s2)\<rparr>"
  have wf3: "wf_payments s3" using s2(2) by (simp add: s3_def wf_payments_def)
  have i: "ob_id ob \<noteq> []" "entered (ob_id ob) s3"
    using entry_row [OF s2(2), of "ob_id ob"] s2(3) by (auto simp: entered_def s3_def)
  obtain r1 where r1: "saveOutbox (ob\<lparr>jobId := Some ?job\<rparr>) s3 = (Inr r1, s3\<lparr>outboxes := row_put ob_id r1 (outboxes s3)\<rparr>)"
      "ob_id r1 = ob_id ob" "ob_orderId r1 = ?oid" "paymentDetailId r1 = pd_id row"
    using saveOutbox_found [of "ob\<lparr>jobId := Some ?job\<rparr>" s3 ob] s2(3,4,5) i(1) by (auto simp: s3_def)
  define s4 where "s4 = s3\<lparr>outboxes := row_put ob_id r1 (outboxes s3)\<rparr>"
  have s4: "wf_payments s4" "entered (ob_id ob) s4" "details s4 = details s2"
    using saveOutbox_step [OF wf3, of "ob\<lparr>jobId := Some ?job\<rparr>"] r1(1) i(2) by (auto simp: s4_def keeps_entries_def s3_def)
  have entry: "row_find ob_id (ob_id ob) (outboxes s4) = Some r1"
    using s2(3) r1(2) by (simp add: s4_def s3_def row_find_put)
  have detail: "row_find pd_rideId (ride_id r) (details s4) = Some row" "row_find pd_id (paymentDetailId r1) (details s4) = Some row"
    using s2(6,8) detail_of_id [OF s4(1)] r1(4) s4(3) by simp_all
  obtain x where x: "psp env (ob_id ob) (attempts r1 + 1) (ob_requestPayload r1) = PspOk x"
      "truthy (extractResponseString x ''redirect_url'')"
    using accepting by blast
  obtain out s5 d where s5: "processOutbox env (ob_id ob) s4 = (Inr out, s5)" "pd_id d = pd_id row" "orderId d = Some ?oid"
      "redirectUrl d = extractResponseString x ''redirect_url''"
      "\<forall>j. row_find pd_rideId j (details s5) = (if j = ride_id r then Some d else row_find pd_rideId j (details s4))"
    using processOutbox_success [OF conf i(1) entry detail x(1)] r1(3) by auto
  have wf5: "wf_payments s5"
    using payments.solo_ok [OF sat_processOutbox stable_entered(1) s4(2,1), of env] s5(1) by (simp add: solo_process)
  have "row_find pd_rideId (ride_id r) (details s5) = Some d" using s5(5) by simp
  then have "row_find pd_id (pd_id row) (details s5) = Some d"
    using detail_of_id [OF wf5, of d] row_find_SomeD s5(2) by metis
  moreover obtain m where "min payment_queue_attempts (worker_attempts env (ob_id ob)) = Suc m"
    using working by (metis min_def not0_implies_Suc payment_queue_attempts_def zero_neq_numeral)
  then have "runPaymentJob env (min payment_queue_attempts (worker_attempts env (ob_id ob))) (ob_id ob) s4 = (Inr True, s5)"
    using s5(1) by (simp add: run_catch run_then)
  moreover have "orderId (create_detail (ride_id r) (paymentProvider env) DPending) = None" by (simp add: create_detail_def)
  ultimately have "solo (requestPaymentP env r None) s = (Inr d, s5)"
    using payable s2(1) r1(1) x(2) s5(4)
    by (simp add: requestPaymentP_def solo_job run_bind Let_def qd_def [symmetric] s3_def [symmetric] s4_def [symmetric]
        findDetailById_def)
  then show ?thesis using wf5 s5(3,5) s2(8) s4(3) by auto
qed

lemma link_run:
  assumes "\<forall>n. update_result env n \<noteq> 0"
  shows "\<exists>x s'. solo (storeLinkP env r d) s = (Inr (x, formatPaymentDetail (Some d)), s') \<and> details s' = details s \<and>
    (wf_payments s \<longrightarrow> wf_payments s')"
proof -
  have "steady (updatePaymentState (update_result env) (ride_id r) (Some ON_PROCESS) (redirectUrl d))" by (intro steadies)
  then have "wf_payments s \<longrightarrow> wf_payments (snd (updatePaymentState (update_result env) (ride_id r) (Some ON_PROCESS) (redirectUrl d) s))"
    by (simp add: steady_def)
  then show ?thesis using assms
    by (simp add: storeLinkP_def run_bind updatePaymentState_def updateRidePayment_run findRideForPayment_def)
qed

text \<open>
  A lost order: two requests of a rider for the payment of one ride, such as a double tap,
  both find no payment and each asks the provider for an order of its own; both are answered
  with an order and its link. The detail of the ride knows only the later order: every
  notification about the other one is refused, also the one that says it has been paid.
\<close>

theorem double_order:
  assumes wf: "wf_payments s" and r: "row_find ride_id k (rides s) = Some r" "riderId r = rider" "status r = COMPLETED"
      "paymentStatus r \<noteq> Some PAID" and new: "row_find pd_rideId k (details s) = None"
    and conf: "ensurePaymentConfiguration env = Inr ()"
    and payable: "\<forall>oid. \<exists>req. buildPaymentRequestPayload (payment_view r) oid = Inr req"
    and accepting: "\<forall>i n q. \<exists>x. psp env i n q = PspOk x \<and> truthy (extractResponseString x ''redirect_url'')"
    and working: "\<forall>i. worker_attempts env i \<noteq> 0" and updating: "\<forall>n. update_result env n \<noteq> 0"
    and orders: "ulid env (clock s) \<noteq> ulid env later" "\<forall>d \<in> set (details s). orderId d \<noteq> Some (ulid env (clock s))"
  shows "\<exists>before after s1 ps s' p q link link'.
    run_pool before (s, [proceedRidePaymentP env k rider, proceedRidePaymentP env k rider]) = (s1, ps) \<and>
    run_pool after (s1\<lparr>clock := later\<rparr>, ps) = (s', [Ret (p, Some link), Ret (q, Some link')]) \<and>
    fd_orderId link = Some (ulid env later) \<and> fd_orderId link' = Some (ulid env (clock s)) \<and>
    (\<forall>n ip. pn_order_id n = ulid env (clock s) \<longrightarrow> (\<exists>e. handlePaymentNotification env n ip s' = (Inl e, s')))"
proof -
  have k: "ride_id r = k" using row_find_SomeD [OF r(1)] by simp
  let ?v = "payment_view r" and ?call = "proceedRidePaymentP env k rider"
  let ?rest = "bindP (requestPaymentP env (payment_view r) None) (storeLinkP env (payment_view r))"
  have v: "riderId ?v = rider" "status ?v = COMPLETED" "paymentStatus ?v \<noteq> Some PAID" "ride_id ?v = k"
    using r(2-4) k by (simp_all add: payment_view_def)
  have first: "own_steps 3 (s, ?call) = (s, ?rest)"
    using r(1) conf v new
    by (simp add: proceedRidePaymentP_def initiatePaymentP_def eval_nat_numeral own_await bindP_assoc
        findRideForPayment_def findDetailByRideId_def)
  obtain req where "buildPaymentRequestPayload ?v (ulid env (clock s)) = Inr req" using payable by blast
  from request_run [OF wf conf this accepting working] obtain d1 t where
    one: "solo (requestPaymentP env ?v None) s = (Inr d1, t)" "wf_payments t" "orderId d1 = Some (ulid env (clock s))"
      "\<forall>j. row_find pd_rideId j (details t) = (if j = k then Some d1 else row_find pd_rideId j (details s))"
    unfolding v by blast
  obtain y1 s1 where s1: "solo (storeLinkP env ?v d1) t = (Inr (y1, formatPaymentDetail (Some d1)), s1)"
      "details s1 = details t" "wf_payments s1"
    using link_run [OF updating] one(2) by blast
  have "solo ?rest s = (Inr (y1, formatPaymentDetail (Some d1)), s1)" using one(1) s1(1) by (simp add: run_bind)
  then obtain m where second: "own_steps m (s, ?rest) = (s1, Ret (y1, formatPaymentDetail (Some d1)))"
    using solo_own [of s ?rest] by auto
  let ?s1 = "s1\<lparr>clock := later\<rparr>"
  have wf1: "wf_payments ?s1" using s1(3) by (simp add: wf_payments_def)
  obtain req' where req': "buildPaymentRequestPayload ?v (ulid env (clock ?s1)) = Inr req'" using payable by blast
  from request_run [OF wf1 conf req' accepting working] obtain d2 t' where
    two: "solo (requestPaymentP env ?v None) ?s1 = (Inr d2, t')" "wf_payments t'" "orderId d2 = Some (ulid env later)"
      "\<forall>j. row_find pd_rideId j (details t') = (if j = k then Some d2 else row_find pd_rideId j (details s1))"
    unfolding v by auto
  obtain y2 s' where s': "solo (storeLinkP env ?v d2) t' = (Inr (y2, formatPaymentDetail (Some d2)), s')"
      "details s' = details t'" "wf_payments s'"
    using link_run [OF updating] two(2) by blast
  have "solo ?rest ?s1 = (Inr (y2, formatPaymentDetail (Some d2)), s')" using two(1) s'(1) by (simp add: run_bind)
  then obtain l where last: "own_steps l (?s1, ?rest) = (s', Ret (y2, formatPaymentDetail (Some d2)))"
    using solo_own [of ?s1 ?rest] by auto
  have before: "run_pool (replicate 3 0 @ replicate 3 1 @ replicate m 1) (s, [?call, ?call]) =
      (s1, [?rest, Ret (y1, formatPaymentDetail (Some d1))])"
    using first second by (simp add: run_pool_append run_own)
  have after: "run_pool (replicate l 0) (?s1, [?rest, Ret (y1, formatPaymentDetail (Some d1))]) =
      (s', [Ret (y2, formatPaymentDetail (Some d2)), Ret (y1, formatPaymentDetail (Some d1))])"
    using last by (simp add: run_own)
  have "orderId d \<noteq> Some (ulid env (clock s))" if "d \<in> set (details s')" for d
  proof (cases "pd_rideId d = k")
    case True
    then have "d = d2" using detail_of_ride [OF s'(3) that] two(4) s'(2) by simp
    then show ?thesis using two(3) orders(1) by simp
  next
    case False
    then have "row_find pd_rideId (pd_rideId d) (details s) = Some d"
      using detail_of_ride [OF s'(3) that] two(4) s'(2) s1(2) one(4) by simp
    then show ?thesis using orders(2) row_find_SomeD by metis
  qed
  then have unknown: "findDetailByOrderId (ulid env (clock s)) s' = (Inr None, s')"
    by (simp add: findDetailByOrderId_def row_find_None_iff)
  have refused: "\<exists>e. handlePaymentNotification env n ip s' = (Inl e, s')" if "pn_order_id n = ulid env (clock s)" for n ip
  proof -
    obtain res t where run: "handlePaymentNotification env n ip s' = (res, t)" by force
    show ?thesis using notification_cases [OF run] run that unknown by auto
  qed
  show ?thesis
    using before after one(3) two(3) refused by (intro exI conjI) (auto simp: formatPaymentDetail_def)
qed

definition demo_order_env :: pay_env where
  "demo_order_env = demo_pay_env\<lparr>psp := \<lambda>_ _ _. PspOk (Some [(''token'', JString ''tok''), (''redirect_url'', JString ''link'')]),
     ulid := \<lambda>t. if t = 0 then ''first'' else ''second''\<rparr>"

definition demo_unasked :: world where
  "demo_unasked = demo_due\<lparr>details := [], outboxes := []\<rparr>"

theorem double_order_witness:
  "\<exists>before after s1 ps s' p q link link'.
    run_pool before (demo_unasked, [proceedRidePaymentP demo_order_env ''1'' ''7'', proceedRidePaymentP demo_order_env ''1'' ''7'']) =
      (s1, ps) \<and>
    run_pool after (s1\<lparr>clock := 5\<rparr>, ps) = (s', [Ret (p, Some link), Ret (q, Some link')]) \<and>
    fd_orderId link = Some ''second'' \<and> fd_orderId link' = Some ''first''"
proof -
  have wf: "wf_payments demo_unasked" by (simp add: wf_payments_def demo_unasked_def)
  have ride: "row_find ride_id ''1'' (rides demo_unasked) = Some demo_due_ride" "riderId demo_due_ride = ''7''"
    "status demo_due_ride = COMPLETED" "paymentStatus demo_due_ride \<noteq> Some PAID"
    "row_find pd_rideId ''1'' (details demo_unasked) = None"
    by (simp_all add: demo_unasked_def demo_pay_defs)
  have conf: "ensurePaymentConfiguration demo_order_env = Inr ()"
    by (simp add: ensurePaymentConfiguration_def demo_order_env_def demo_pay_env_def truthy_def)
  have "fareFinal (payment_view demo_due_ride) = Some (to_fixed 2 (cents 1250))"
    by (simp add: cents_to_fixed payment_view_def demo_due_ride_def)
  then have payable: "\<forall>oid. \<exists>req. buildPaymentRequestPayload (payment_view demo_due_ride) oid = Inr req"
    by (simp add: payable_amount)
  have env: "\<forall>i n q. \<exists>x. psp demo_order_env i n q = PspOk x \<and> truthy (extractResponseString x ''redirect_url'')"
    "\<forall>i. worker_attempts demo_order_env i \<noteq> 0" "\<forall>n. update_result demo_order_env n \<noteq> 0"
    "ulid demo_order_env (clock demo_unasked) \<noteq> ulid demo_order_env 5"
    "\<forall>d \<in> set (details demo_unasked). orderId d \<noteq> Some (ulid demo_order_env (clock demo_unasked))"
    "ulid demo_order_env 5 = ''second''" "ulid demo_order_env (clock demo_unasked) = ''first''"
    by (simp_all add: demo_order_env_def demo_pay_env_def extractResponseString_def truthy_def demo_unasked_def demo_due_def
        empty_world_def)
  show ?thesis using double_order [OF wf ride conf payable env(1-5)] unfolding env(6,7) by blast
qed

end
