(* ===== verification/Concurrent_Trips.thy ===== *)
theory Concurrent_Trips
  imports Rides_Tracking Concurrent_Rides
begin

text \<open>
  A trip with everything that goes on at once: the locations of driver and rider, the flush of
  the queue worker, start and completion (\<open>trip-tracking.service.ts\<close> and
  \<open>rides-tracking.service.ts\<close> under \<open>rides/domain/services\<close>) with a step for every awaited
  Redis command, transaction or query. The Redis commands of a \<open>Promise.all\<close> are steps in the
  order they are sent. \<open>Trip_Tracking\<close> and \<open>Rides_Tracking\<close> run the same methods one at a
  time; here each is proved to be its solo run.
\<close>

section \<open>TripTrackingService\<close>

text \<open>What follows once the state of the ride has been read.\<close>

definition storeLocationP ::
  "trip_env \<Rightarrow> string \<Rightarrow> string \<Rightarrow> client_type \<Rightarrow> location \<Rightarrow> trip_state \<Rightarrow> (world, jsnum \<times> jsnum) prog" where
  "storeLocationP env k clientId role loc st =
     (let previous = (if role = DRIVER then lastDriverLocation st else lastRiderLocation st)
      in bindP (case previous of
            Some p \<Rightarrow> if role = DRIVER then awaitE (returnE (calculateDistanceBetweenCoordinates env p loc)) else Ret (Fin 0)
          | None \<Rightarrow> Ret (Fin 0)) (\<lambda>delta.
        let total = (if role = DRIVER then js_add (totalDistanceMeters st) delta
                     else totalDistanceMeters st);
            updated = st\<lparr>totalDistanceMeters := total,
              lastDriverLocation := (if role = DRIVER then Some loc else lastDriverLocation st),
              lastRiderLocation := (if role = RIDER then Some loc else lastRiderLocation st)\<rparr>;
            event = \<lparr>ev_role = role, ev_clientId = clientId, ev_location = loc,
              distanceDeltaMeters = delta, ev_totalDistanceMeters = json_number total\<rparr>
        in bindP (awaitE (setState k updated)) (\<lambda>_.
           bindP (awaitE (writeE (\<lambda>s. s\<lparr>tripActive := List.insert k (tripActive s)\<rparr>))) (\<lambda>_.
           bindP (awaitE (writeE (\<lambda>s. s\<lparr>tripEvents := (tripEvents s)(k := tripEvents s k @ [Parsed event])\<rparr>)))
             (\<lambda>_. Ret (total, delta))))))"

definition recordLocationP ::
  "trip_env \<Rightarrow> string \<Rightarrow> string \<Rightarrow> client_type \<Rightarrow> location \<Rightarrow> (world, jsnum \<times> jsnum) prog" where
  "recordLocationP env k clientId role loc =
     bindP (awaitE (getState k)) (storeLocationP env k clientId role loc)"

definition markRideCompletedP :: "trip_env \<Rightarrow> string \<Rightarrow> (world, unit) prog" where
  "markRideCompletedP env k =
     bindP (awaitE (getState k)) (\<lambda>st.
       if \<not> trip_completed st
       then bindP (awaitE (setState k (st\<lparr>trip_completed := True\<rparr>))) (\<lambda>_. awaitE (enqueueFlushRideJob env k))
       else Ret ())"

definition cleanupRideP :: "string \<Rightarrow> (world, unit) prog" where
  "cleanupRideP k =
     bindP (awaitE (writeE (\<lambda>s. s\<lparr>tripStates := (tripStates s)(k := None)\<rparr>))) (\<lambda>_.
     bindP (awaitE (writeE (\<lambda>s. s\<lparr>tripEvents := (tripEvents s)(k := [])\<rparr>))) (\<lambda>_.
       awaitE (writeE (\<lambda>s. s\<lparr>tripActive := removeAll k (tripActive s)\<rparr>))))"

text \<open>What follows once there are events to move.\<close>

definition moveEventsP :: "trip_env \<Rightarrow> string \<Rightarrow> track_event stored list \<Rightarrow> (world, unit) prog" where
  "moveEventsP env k payloads =
     bindP (awaitE (writeE (\<lambda>s. s\<lparr>tripEvents := (tripEvents s)(k := [])\<rparr>))) (\<lambda>_.
       case foldl (flush_step k) ([], []) payloads of (entries, summaries) \<Rightarrow>
         bindP (awaitE (persistFlush env entries (map snd summaries))) (\<lambda>_.
         bindP (awaitE (getState k)) (\<lambda>st.
           if trip_completed st
           then bindP (awaitE (readE (\<lambda>s. length (tripEvents s k)))) (\<lambda>remaining.
                  if remaining = 0 then cleanupRideP k else Ret ())
           else Ret ())))"

definition flushRideP :: "trip_env \<Rightarrow> string \<Rightarrow> (world, unit) prog" where
  "flushRideP env k =
     bindP (awaitE (readE (\<lambda>s. tripEvents s k))) (\<lambda>payloads.
       if payloads = []
       then bindP (awaitE (getState k)) (\<lambda>st. if trip_completed st then cleanupRideP k else Ret ())
       else moveEventsP env k payloads)"

section \<open>RidesTrackingService\<close>

definition startRideP :: "track_env \<Rightarrow> string \<Rightarrow> string \<Rightarrow> location \<Rightarrow> (world, ride) prog" where
  "startRideP env k driver loc =
     (if driver = [] then Throw (BadRequest ''Driver id is required to start a ride'')
      else bindP (awaitE (findRideById k)) (\<lambda>found. case found of
          None \<Rightarrow> Throw (NotFound ''Ride not found'')
        | Some r \<Rightarrow>
            if driverId r \<noteq> Some driver then Throw (NotFound ''Ride not found'')
            else if status r = CANCELED then Throw (BadRequest ''Cancelled ride cannot be started'')
            else if status r = COMPLETED then Throw (BadRequest ''Completed ride cannot be started'')
            else if status r \<notin> {ENROUTE, TRIP_STARTED}
            then Throw (BadRequest ''Ride is not ready to start'')
            else bindP (awaitE (getLatestLocation (ride_id r) RIDER)) (\<lambda>riderLoc. case riderLoc of
                None \<Rightarrow> Throw (BadRequest
                  ''Rider location not available. Please wait for rider to share location.'')
              | Some rloc \<Rightarrow>
                  (let pickup = (pickupLongitude r, pickupLatitude r);
                       radius = tripStartProximityMeters env
                   in bindP (awaitE (ensureLocationWithinRadius env loc pickup radius
                              ''Driver must be at pickup location to start the trip.'')) (\<lambda>_.
                      bindP (awaitE (ensureLocationWithinRadius env rloc pickup radius
                              ''Rider is not at pickup location. Please confirm rider arrival.'')) (\<lambda>_.
                      bindP (awaitE (ensureParticipantsAreNearby env loc rloc radius
                              ''Driver and rider must be at the same pickup point to start the trip.'')) (\<lambda>_.
                      bindP (recordLocationP (trips env) (ride_id r) driver DRIVER loc) (\<lambda>_.
                      bindP (transitionRideStatusP (ride_id r) [ENROUTE, TRIP_STARTED] TRIP_STARTED
                               (Some ''Driver started the trip'')) (\<lambda>(updated, changed).
                      bindP (awaitE (refresh (ride_id updated) updated)) (\<lambda>current.
                      bindP (awaitE (whenE changed (notifyRideStarted current))) (\<lambda>_.
                        Ret current)))))))))))"

definition recordTripLocationP ::
  "track_env \<Rightarrow> string \<Rightarrow> requesting_client \<Rightarrow> location \<Rightarrow> (world, unit) prog" where
  "recordTripLocationP env k req loc =
     (if req_id req = [] then Throw (BadRequest ''Requester identifier is required'')
      else bindP (awaitE (findRideById k)) (\<lambda>found. case found of
          None \<Rightarrow> Throw (NotFound ''Ride not found'')
        | Some r \<Rightarrow>
            bindP (awaitE (liftE (ensureRequesterCanAccessRide r req))) (\<lambda>_.
              if status r = CANCELED then Throw (BadRequest ''Cancelled ride cannot be tracked'')
              else if status r = COMPLETED
              then Throw (BadRequest ''Completed ride cannot be tracked'')
              else case req_role req of
                  None \<Rightarrow> Throw (BadRequest ''Client role required'')
                | Some DRIVER \<Rightarrow>
                    if driverId r \<noteq> Some (req_id req) then Throw (NotFound ''Ride not found'')
                    else bindP (recordLocationP (trips env) (ride_id r) (req_id req) DRIVER loc) (\<lambda>_. Ret ())
                | Some RIDER \<Rightarrow>
                    bindP (recordLocationP (trips env) (ride_id r) (riderId r) RIDER loc) (\<lambda>_. Ret ()))))"

definition finishRideP :: "track_env \<Rightarrow> string \<Rightarrow> fare_result \<Rightarrow> (world, ride) prog" where
  "finishRideP env k fare =
     bindP (transitionRideStatusP k [ENROUTE, ACCEPTED, ASSIGNED, TRIP_STARTED] COMPLETED
              (Some ''Driver marked the ride as completed'')) (\<lambda>(updated, _).
     bindP (markRideCompletedP (trips env) k) (\<lambda>_.
     bindP (updateRideP (with_fare fare updated)) (\<lambda>saved.
     bindP (awaitE (refresh (ride_id saved) saved)) (\<lambda>refreshed.
     bindP (awaitE (notifyRideCompleted refreshed (fare_summary_of fare))) (\<lambda>_.
       Ret refreshed)))))"

definition completeRideP ::
  "track_env \<Rightarrow> string \<Rightarrow> requesting_client \<Rightarrow> location \<Rightarrow> jsnum option \<Rightarrow> (world, ride) prog" where
  "completeRideP env k req loc discount =
     (if req_id req = [] then Throw (BadRequest ''Requester identifier is required'')
      else bindP (awaitE (findRideById k)) (\<lambda>found. case found of
          None \<Rightarrow> Throw (NotFound ''Ride not found'')
        | Some r \<Rightarrow>
            if driverId r \<noteq> Some (req_id req) then Throw (NotFound ''Ride not found'')
            else if status r = CANCELED then Throw (BadRequest ''Cancelled ride cannot be completed'')
            else if status r = COMPLETED then Throw (BadRequest ''Ride already completed'')
            else bindP (awaitE (getLatestLocation (ride_id r) RIDER)) (\<lambda>riderLoc. case riderLoc of
                None \<Rightarrow> Throw (BadRequest
                  ''Unable to complete ride without rider location confirmation.'')
              | Some rloc \<Rightarrow>
                  (let dropoff = (dropoffLongitude r, dropoffLatitude r);
                       radius = tripCompletionProximityMeters env
                   in bindP (awaitE (ensureLocationWithinRadius env loc dropoff radius
                              ''Driver must arrive at the destination to complete the ride.'')) (\<lambda>_.
                      bindP (awaitE (ensureLocationWithinRadius env rloc dropoff radius
                              ''Rider location does not match destination.'')) (\<lambda>_.
                      bindP (awaitE (ensureParticipantsAreNearby env loc rloc radius
                              ''Driver and rider must be at the destination together to complete the ride.'')) (\<lambda>_.
                      bindP (if truthy (driverId r)
                             then bindP (recordLocationP (trips env) (ride_id r) (the (driverId r)) DRIVER loc) (\<lambda>_. Ret ())
                             else Ret ()) (\<lambda>_.
                      bindP (awaitE (getTotalDistanceMeters (ride_id r))) (\<lambda>totalMeters.
                      bindP (awaitE (liftE (calculateFare (fares env) (chargedDistanceKm totalMeters r) discount))) (\<lambda>fare.
                        finishRideP env (ride_id r) fare))))))))))"

section \<open>Alone, they are the methods\<close>

lemma solo_record: "solo (recordLocationP env k c role loc) = recordLocation env k c role loc"
  by (cases role) (auto simp: recordLocationP_def storeLocationP_def recordLocation_def getState_def setState_def fun_eq_iff eff_run Let_def
      split: option.split)

lemma solo_mark: "solo (markRideCompletedP env k) = markRideCompleted env k"
  by (simp add: markRideCompletedP_def markRideCompleted_def thenE_def cong: if_cong)

lemma solo_cleanup: "solo (cleanupRideP k) = cleanupRide k"
  by (simp add: cleanupRideP_def cleanupRide_def fun_eq_iff eff_run)

lemma solo_flush: "solo (flushRideP env k) = flushRide env k"
  by (simp add: flushRideP_def moveEventsP_def flushRide_def solo_cleanup thenE_def whenE_def Let_def cong: if_cong prod.case_cong)

lemma solo_start: "solo (startRideP env k driver loc) = startRide env k driver loc"
  by (simp add: startRideP_def startRide_def solo_record solo_transition thenE_def Let_def
      cong: if_cong option.case_cong prod.case_cong)

lemma solo_role: "solo (case x of RIDER \<Rightarrow> p | DRIVER \<Rightarrow> q) = (case x of RIDER \<Rightarrow> solo p | DRIVER \<Rightarrow> solo q)"
  by (simp split: client_type.split)

lemma solo_trip_location: "solo (recordTripLocationP env k req loc) = recordTripLocation env k req loc"
  by (simp add: recordTripLocationP_def recordTripLocation_def solo_record solo_role thenE_def
      cong: if_cong option.case_cong client_type.case_cong)

lemma solo_finish: "solo (finishRideP env k fare) = finishRide env k fare"
  by (simp add: finishRideP_def finishRide_def solo_transition solo_mark solo_update thenE_def cong: prod.case_cong)

lemma solo_complete: "solo (completeRideP env k req loc discount) = completeRide env k req loc discount"
  by (simp add: completeRideP_def completeRide_def solo_record solo_finish thenE_def whenE_def Let_def
      cong: if_cong option.case_cong)

end
