(* ===== verification/Concurrent_Trip_Guarantees.thy ===== *)
theory Concurrent_Trip_Guarantees
  imports Trip_Guarantees Concurrent_Trips
begin

text \<open>
  What holds of a trip whose locations, flushes and operations interleave: locations that are
  reported at the same time are all queued, but the distance a driver has covered is lost when
  the rider reports meanwhile, and a location that arrives during a flush is never stored.
\<close>

section \<open>Reports of locations are all queued\<close>

definition reportP :: "trip_env \<Rightarrow> string \<times> string \<times> client_type \<times> location \<Rightarrow> (world, unit) prog" where
  "reportP env = (\<lambda>(k, c, role, loc). bindP (recordLocationP env k c role loc) (\<lambda>_. Ret ()))"

definition queue_grows :: "world \<Rightarrow> world \<Rightarrow> bool" where
  "queue_grows s s' \<longleftrightarrow> (\<forall>k. \<exists>es. tripEvents s' k = tripEvents s k @ es) \<and>
     set (tripActive s) \<subseteq> set (tripActive s') \<and> tripTracks s' = tripTracks s"

interpretation reports: rely_guarantee "\<lambda>_. True" queue_grows
proof unfold_locales
  show "queue_grows s s" for s by (simp add: queue_grows_def)
next
  fix s t u assume st: "queue_grows s t" and tu: "queue_grows t u"
  have "\<exists>es. tripEvents u k = tripEvents s k @ es" for k
  proof -
    obtain es fs where "tripEvents t k = tripEvents s k @ es" "tripEvents u k = tripEvents t k @ fs"
      using st tu unfolding queue_grows_def by meson
    then show ?thesis by simp
  qed
  then show "queue_grows s u" using st tu by (auto simp: queue_grows_def)
qed

definition queued :: "string \<Rightarrow> string \<Rightarrow> client_type \<Rightarrow> location \<Rightarrow> world \<Rightarrow> bool" where
  "queued k c role loc s \<longleftrightarrow> (\<exists>e. Parsed e \<in> set (tripEvents s k) \<and> ev_clientId e = c \<and> ev_role e = role \<and> ev_location e = loc)"

definition active :: "string \<Rightarrow> world \<Rightarrow> bool" where
  "active k s \<longleftrightarrow> k \<in> set (tripActive s)"

lemma stable_queue [intro, simp]: "reports.stable (queued k c role loc)" "reports.stable (active k)"
    "reports.stable (\<lambda>_. True)"
proof -
  have "set (tripEvents s k) \<subseteq> set (tripEvents s' k)" if "queue_grows s s'" for s s'
  proof -
    have "\<exists>es. tripEvents s' k = tripEvents s k @ es" using that by (simp add: queue_grows_def)
    then show ?thesis by auto
  qed
  then show "reports.stable (queued k c role loc)" unfolding reports.stable_def queued_def by blast
qed (auto simp: reports.stable_def active_def queue_grows_def)

lemma sat_queue:
  assumes "\<And>s. queue_grows s (snd (m s))" and "reports.stable P" and "\<And>s a. fst (m s) = Inr a \<Longrightarrow> M a (snd (m s))"
    and "\<And>a. reports.stable (M a)"
  shows "reports.sat P (awaitE m) (\<lambda>a s. P s \<and> M a s)"
proof (rule reports.sat_await)
  show "reports.stable (\<lambda>s. P s \<and> M a s)" for a using reports.stable_conj assms(2,4) by blast
  fix s assume "P s"
  then show "True \<and> queue_grows s (snd (m s)) \<and> (\<forall>a. fst (m s) = Inr a \<longrightarrow> P (snd (m s)) \<and> M a (snd (m s)))"
    using assms(1-3) unfolding reports.stable_def by blast
qed

lemma sat_step_queue: "(\<And>s. queue_grows s (snd (m s))) \<Longrightarrow> reports.sat (\<lambda>_. True) (awaitE m) (\<lambda>_ _. True)"
  using sat_queue [of m "\<lambda>_. True" "\<lambda>_ _. True"] by simp

definition delivered :: "string \<times> string \<times> client_type \<times> location \<Rightarrow> world \<Rightarrow> bool" where
  "delivered call s = (case call of (k, c, role, loc) \<Rightarrow> active k s \<and> queued k c role loc s)"

lemma sat_report: "reports.sat (\<lambda>_. True) (reportP env (k, c, role, loc)) (\<lambda>_ s. active k s \<and> queued k c role loc s)"
proof -
  have grows: "queue_grows s (snd (getState k s))" "queue_grows s (snd (returnE x s))" "queue_grows s (snd (setState k st s))" for s x st
    by (simp_all add: queue_grows_def getState_def setState_def)
  have add: "reports.sat (\<lambda>_. True) (awaitE (writeE (\<lambda>s. s\<lparr>tripActive := List.insert k (tripActive s)\<rparr>))) (\<lambda>_. active k)"
    using sat_queue [of "writeE (\<lambda>s. s\<lparr>tripActive := List.insert k (tripActive s)\<rparr>)" "\<lambda>_. True" "\<lambda>_. active k"]
    by (simp add: queue_grows_def) (simp add: active_def subset_insertI)
  have push: "reports.sat (active k) (bindP (awaitE (writeE (\<lambda>s. s\<lparr>tripEvents := (tripEvents s)(k := tripEvents s k @ [Parsed e])\<rparr>))) Ret)
      (\<lambda>_ s. active k s \<and> queued k c role loc s)"
    if "ev_clientId e = c" "ev_role e = role" "ev_location e = loc" for e role
  proof (rule reports.sat_bind)
    show "reports.sat (active k) (awaitE (writeE (\<lambda>s. s\<lparr>tripEvents := (tripEvents s)(k := tripEvents s k @ [Parsed e])\<rparr>)))
        (\<lambda>_ s. active k s \<and> queued k c role loc s)"
      by (rule sat_queue) (simp_all add: queue_grows_def, use that in \<open>auto simp: queued_def\<close>)
  qed (auto intro: reports.sat_ret)
  show ?thesis unfolding reportP_def prod.case recordLocationP_def storeLocationP_def Let_def bindP_assoc
    by (rule reports.sat_bind [OF sat_step_queue [OF grows(1)]],
        rule reports.sat_bind [where M = "\<lambda>_ _. True"])
      (auto split: option.split intro!: reports.sat_ret sat_step_queue grows
        reports.sat_bind [OF sat_step_queue [OF grows(3)]] reports.sat_bind [OF add] push)
qed

text \<open>
  C26. No report is overtaken in the queue: however many locations of any rides are reported at
  the same time and however their commands interleave, the queues only grow, and each report
  that has returned has put its location into the queue of its ride, which is among the rides to
  be flushed.
\<close>

theorem reports_queued:
  assumes "run_pool schedule (s, map (reportP env) calls) = (s', ps)"
  shows "(\<forall>k. \<exists>es. tripEvents s' k = tripEvents s k @ es) \<and> tripTracks s' = tripTracks s \<and>
    (\<forall>i < length calls. ps ! i = Ret () \<longrightarrow> (case calls ! i of (k, c, role, loc) \<Rightarrow> k \<in> set (tripActive s') \<and>
       (\<exists>e. Parsed e \<in> set (tripEvents s' k) \<and> ev_clientId e = c \<and> ev_role e = role \<and> ev_location e = loc)))"
proof -
  let ?Q = "\<lambda>i (_::unit). delivered (calls ! i)"
  have sat: "reports.sat (\<lambda>_. True) (reportP env call) (\<lambda>_. delivered call)" for call
    using sat_report [of env "fst call" "fst (snd call)" "fst (snd (snd call))" "snd (snd (snd call))"]
    by (simp add: delivered_def [abs_def] split_beta)
  have "reports.pool_ok ?Q (s, map (reportP env) calls)"
    unfolding reports.pool_ok_def by (simp, intro allI impI exI conjI) (rule stable_queue(3), simp, rule sat)
  from reports.pool_ok_run [OF this, of schedule]
  have run: "reports.pool_ok ?Q (s', ps)" "queue_grows s s'" "length ps = length calls" using assms by simp_all
  have "delivered (calls ! i) s'" if "i < length calls" "ps ! i = Ret ()" for i
    using reports.pool_result [OF run(1), of i] run(3) that by simp
  then show ?thesis using run(2)
    by (simp add: queue_grows_def delivered_def active_def queued_def split_beta)
qed

section \<open>What is lost\<close>

lemma store_alone:
  "solo (storeLocationP env k c role loc st) s =
     (Inr (next_total env role loc st, leg env role loc st),
      s\<lparr>tripStates := (tripStates s)(k := Some (Parsed (stringify_state (next_state env role loc st)))),
        tripActive := List.insert k (tripActive s),
        tripEvents := (tripEvents s)(k := tripEvents s k @ [Parsed (next_event env c role loc st)])\<rparr>)"
  by (cases role; cases "lastDriverLocation st"; cases "lastRiderLocation st")
    (simp_all add: storeLocationP_def setState_def eff_run Let_def next_total_def leg_def next_state_def next_event_def)

text \<open>A call that has read, while the other one runs; then it goes on.\<close>

lemma overtaken:
  assumes "solo q s = (Inr y, t)" and "m s = (Inr x, s)" and "solo (g x) t = (Inr z, u)"
  shows "\<exists>schedule. run_pool schedule (s, [q, bindP (awaitE m) g]) = (u, [Ret y, Ret z])"
proof -
  obtain n where n: "own_steps n (s, q) = (t, Ret y)" using solo_own [of s q] assms(1) by auto
  obtain l where l: "own_steps l (t, g x) = (u, Ret z)" using solo_own [of t "g x"] assms(3) by auto
  have first: "pool_step 1 (s, [q, bindP (awaitE m) g]) = (s, [q, g x])"
    by (simp add: awaitE_def assms(2))
  have "run_pool (1 # replicate n 0 @ replicate l 1) (s, [q, bindP (awaitE m) g]) = (u, [Ret y, Ret z])"
    unfolding run_pool_Cons first run_pool_append by (simp add: run_own n l)
  then show ?thesis ..
qed

text \<open>
  C27. A lost distance: the driver's location is recorded after the rider's call has read the
  state of the trip and before it writes it. Both calls succeed and both events are queued, but
  the state is the old one with the rider's location: the distance the driver has covered and
  his new location are gone, and a completion charges the old distance.
\<close>

theorem distance_lost:
  assumes "is_finite (totalDistanceMeters (trip_state_of k s))"
  shows "\<exists>schedule s'. run_pool schedule (s, [reportP env (k, d, DRIVER, dloc), reportP env (k, c, RIDER, rloc)]) =
      (s', [Ret (), Ret ()]) \<and>
    trip_state_of k s' = (trip_state_of k s)\<lparr>lastRiderLocation := Some rloc\<rparr> \<and>
    tripEvents s' k = tripEvents s k @ [Parsed (next_event env d DRIVER dloc (trip_state_of k s)),
      Parsed (next_event env c RIDER rloc (trip_state_of k s))]"
proof -
  let ?st = "trip_state_of k s"
  let ?t = "snd (recordLocation env k d DRIVER dloc s)"
  let ?u = "snd (solo (storeLocationP env k c RIDER rloc ?st) ?t)"
  have "solo (reportP env (k, d, DRIVER, dloc)) s = (Inr (), ?t)"
    by (simp add: reportP_def solo_record run_bind recordLocation_run)
  moreover have "solo (bindP (storeLocationP env k c RIDER rloc ?st) (\<lambda>_. Ret ())) ?t = (Inr (), ?u)"
    by (simp add: run_bind store_alone)
  moreover have "getState k s = (Inr ?st, s)" by (simp add: getState_def)
  moreover have "reportP env (k, c, RIDER, rloc) =
      bindP (awaitE (getState k)) (\<lambda>st. bindP (storeLocationP env k c RIDER rloc st) (\<lambda>_. Ret ()))"
    by (simp add: reportP_def recordLocationP_def bindP_assoc)
  ultimately obtain schedule where run: "run_pool schedule (s, [reportP env (k, d, DRIVER, dloc), reportP env (k, c, RIDER, rloc)]) =
      (?u, [Ret (), Ret ()])"
    using overtaken by metis
  have "trip_state_of k ?u = next_state env RIDER rloc ?st"
    using assms by (simp add: store_alone trip_state_of_def [of _ "_\<lparr>tripStates := _\<rparr>"] trip_state_of_def state_roundtrip next_state_def next_total_def)
  then have "trip_state_of k ?u = ?st\<lparr>lastRiderLocation := Some rloc\<rparr>"
    by (simp add: next_state_def next_total_def)
  moreover have "tripEvents ?u k = tripEvents s k @ [Parsed (next_event env d DRIVER dloc ?st), Parsed (next_event env c RIDER rloc ?st)]"
    by (simp add: store_alone recordLocation_run)
  ultimately show ?thesis using run by blast
qed

text \<open>
  C28. A lost location: a location is recorded after the flush of its ride has read the queue and
  before it deletes it. The report succeeds and the flush stores what it has read, but the
  location is neither stored nor queued any more.
\<close>

theorem location_lost:
  assumes "tripEvents s k \<noteq> []" and "persist_error env = None" and "\<not> trip_completed (trip_state_of k s)"
  shows "\<exists>schedule s'. run_pool schedule (s, [reportP env (k, c, role, loc), flushRideP env k]) = (s', [Ret (), Ret ()]) \<and>
    tripTracks s' = tripTracks s @ map (track_of k) (parsed (tripEvents s k)) \<and> tripEvents s' k = [] \<and>
    trip_log k s' = trip_log k s"
proof -
  let ?t = "snd (recordLocation env k c role loc s)"
  let ?es = "parsed (tripEvents s k)"
  let ?u = "snd (solo (moveEventsP env k (tripEvents s k)) ?t)"
  have rep: "solo (reportP env (k, c, role, loc)) s = (Inr (), ?t)"
    by (simp add: reportP_def solo_record run_bind recordLocation_run)
  have "\<not> trip_completed (trip_state_of k ?t)"
    using assms(3) by (simp add: state_after_record next_state_def parse_state_def stringify_state_def)
  then have move: "solo (moveEventsP env k (tripEvents s k)) ?t = (Inr (), ?u) \<and>
      tripTracks ?u = tripTracks s @ map (track_of k) ?es \<and> tripEvents ?u k = []"
    using assms(2)
    by (cases "?es = []") (simp_all add: moveEventsP_def eff_run getState_def flush_fold_summaries persistFlush_def
        upsertSummaries_def trip_state_of_def recordLocation_run)
  have read: "readE (\<lambda>s. tripEvents s k) s = (Inr (tripEvents s k), s)" by simp
  have "solo (if tripEvents s k = [] then bindP (awaitE (getState k)) (\<lambda>st. if trip_completed st then cleanupRideP k else Ret ())
      else moveEventsP env k (tripEvents s k)) ?t = (Inr (), ?u)"
    using assms(1) move by simp
  then have "\<exists>schedule. run_pool schedule (s, [reportP env (k, c, role, loc), flushRideP env k]) = (?u, [Ret (), Ret ()])"
    unfolding flushRideP_def by (rule overtaken [where m = "readE (\<lambda>s. tripEvents s k)" and x = "tripEvents s k", OF rep read])
  moreover have "trip_log k ?u = trip_log k s" using move by (simp add: trip_log_def)
  ultimately show ?thesis using move by blast
qed

section \<open>Examples\<close>

text \<open>A trip whose driver has reported once.\<close>

definition demo_underway :: world where
  "demo_underway = snd (recordLocation demo_trips ''1'' ''11'' DRIVER demo_spot empty_world)"

lemma demo_underway_state:
  "trip_state_of ''1'' demo_underway = initial_trip_state\<lparr>lastDriverLocation := Some demo_spot\<rparr>"
  "tripEvents demo_underway ''1'' \<noteq> []"
  by (simp_all add: demo_underway_def state_after_record next_state_def next_total_def leg_def trip_state_of_def
      empty_world_def initial_trip_state_def state_roundtrip recordLocation_run)

theorem reports_queued_witness:
  "\<exists>schedule s' ps. run_pool schedule (demo_underway, map (reportP demo_trips)
      [(''1'', ''11'', DRIVER, demo_spot), (''1'', ''7'', RIDER, demo_spot)]) = (s', ps) \<and> ps ! 1 = Ret () \<and>
    (\<exists>e. Parsed e \<in> set (tripEvents s' ''1'') \<and> ev_clientId e = ''7'')"
proof -
  let ?call = "(''1'', ''7'', RIDER, demo_spot)"
  have "fst (solo (reportP demo_trips ?call) demo_underway) = Inr ()"
    by (simp add: reportP_def solo_record run_bind recordLocation_run)
  then obtain n t where n: "own_steps n (demo_underway, reportP demo_trips ?call) = (t, Ret ())"
    using solo_own [of demo_underway "reportP demo_trips ?call"] by auto
  have run: "run_pool (replicate n 1) (demo_underway, map (reportP demo_trips) [(''1'', ''11'', DRIVER, demo_spot), ?call]) =
      (t, [reportP demo_trips (''1'', ''11'', DRIVER, demo_spot), Ret ()])"
    by (simp add: run_own n)
  from reports_queued [OF this] obtain e where "Parsed e \<in> set (tripEvents t ''1'')" "ev_clientId e = ''7''"
    by (auto simp: All_less_Suc)
  moreover have "[reportP demo_trips (''1'', ''11'', DRIVER, demo_spot), Ret ()] ! 1 = (Ret () :: (world, unit) prog)"
    by simp
  ultimately show ?thesis using run by metis
qed

theorem distance_lost_witness:
  "\<exists>schedule s'. run_pool schedule (demo_underway,
      [reportP demo_trips (''1'', ''11'', DRIVER, demo_spot), reportP demo_trips (''1'', ''7'', RIDER, demo_spot)]) =
      (s', [Ret (), Ret ()]) \<and>
    totalDistanceMeters (trip_state_of ''1'' s') = Fin 0 \<and>
    next_total demo_trips DRIVER demo_spot (trip_state_of ''1'' demo_underway) = Fin 5"
proof -
  have "is_finite (totalDistanceMeters (trip_state_of ''1'' demo_underway))"
    by (simp add: demo_underway_state(1) initial_trip_state_def)
  note lost = distance_lost [OF this, of demo_trips "''11''" demo_spot "''7''" demo_spot]
  have "round64 5 = Fin 5" using round64_int [of 5] by simp
  then have "next_total demo_trips DRIVER demo_spot (trip_state_of ''1'' demo_underway) = Fin 5"
    by (simp add: demo_underway_state(1) next_total_def leg_def initial_trip_state_def
        calculateDistanceBetweenCoordinates_def calculateDistanceMeters_def demo_trips_def)
  moreover have "totalDistanceMeters ((trip_state_of ''1'' demo_underway)\<lparr>lastRiderLocation := Some demo_spot\<rparr>) = Fin 0"
    by (simp add: demo_underway_state(1) initial_trip_state_def)
  ultimately show ?thesis using lost by metis
qed

theorem location_lost_witness:
  "\<exists>schedule s'. run_pool schedule (demo_underway,
      [reportP demo_trips (''1'', ''7'', RIDER, demo_spot), flushRideP demo_trips ''1'']) = (s', [Ret (), Ret ()]) \<and>
    tripEvents s' ''1'' = [] \<and> trip_log ''1'' s' = trip_log ''1'' demo_underway"
proof -
  have "persist_error demo_trips = None" "\<not> trip_completed (trip_state_of ''1'' demo_underway)"
    by (simp_all add: demo_trips_def demo_underway_state(1) initial_trip_state_def)
  from location_lost [OF demo_underway_state(2) this, of "''7''" RIDER demo_spot] show ?thesis by blast
qed

end
