(* ===== verification/Concurrent_Answers.thy ===== *)
theory Concurrent_Answers
  imports Concurrent_Rides
begin

text \<open>
  The other answers of \<open>rides/domain/services/rides-management.service.ts\<close> as programs with a
  step for every awaited query: a driver who declines, a rider who confirms the driver or turns
  him down. The steps are those of \<open>Concurrent_Rides\<close>; each program alone is the method of
  \<open>Rides_Management\<close>.
\<close>

section \<open>Methods as programs\<close>

text \<open>What a driver gives back when he declines a ride he has.\<close>

definition releaseRideP :: "string \<Rightarrow> string option \<Rightarrow> ride \<Rightarrow> (world, ride) prog" where
  "releaseRideP driver rejection r =
     (if driverId r = Some driver
      then bindP (updateRideP (r\<lparr>driverId := None\<rparr>)) (\<lambda>r1.
        bindP (transitionRideStatusP (ride_id r1) [ACCEPTED, ASSIGNED] CANDIDATES_COMPUTED rejection)
          (\<lambda>(reverted, _). Ret reverted))
      else Ret r)"

definition rejectRideByDriverP :: "string \<Rightarrow> string \<Rightarrow> string option \<Rightarrow> (world, ride) prog" where
  "rejectRideByDriverP k driver why =
     bindP (awaitE (findRideById k)) (\<lambda>found. case found of
         None \<Rightarrow> Throw (NotFound ''Ride not found'')
       | Some r \<Rightarrow>
           if status r = CANCELED then Ret r
           else if status r = COMPLETED
           then Throw (BadRequest ''Completed ride cannot be declined'')
           else if status r = ENROUTE then Throw (BadRequest ''Ride already in progress'')
           else bindP (awaitE (findByRideAndDriver k driver)) (\<lambda>cfound. case cfound of
               None \<Rightarrow> Throw (NotFound ''Ride not available for this driver'')
             | Some c \<Rightarrow>
                 if cand_status c = DECLINED \<or> cand_status c = CCanceled then Ret r
                 else bindP (awaitE (readE clock)) (\<lambda>now.
                   let rejection = default_reason why ''Driver declined the ride invitation'';
                       c' = with_response DECLINED rejection now c
                   in bindP (awaitE (saveCandidate c' None)) (\<lambda>_.
                      bindP (releaseRideP driver rejection r) (\<lambda>r2.
                      bindP (awaitE (notifyDriverDeclined r2 c')) (\<lambda>_.
                        awaitE (refresh (ride_id r2) r2)))))))"

text \<open>The answers of the candidates a confirmation affects.\<close>

definition answerCandidatesP :: "ride \<Rightarrow> candidate \<Rightarrow> candidate list \<Rightarrow> candidate list \<Rightarrow> (world, ride) prog" where
  "answerCandidatesP updated c toUpdate losers =
     bindP (if toUpdate \<noteq> [] then bindP (awaitE (saveManyCandidates toUpdate None)) (\<lambda>_. Ret ()) else Ret ()) (\<lambda>_.
     bindP (awaitE (notifyRiderConfirmed updated c)) (\<lambda>_.
     bindP (awaitE (forE (notifyCandidateSuperseded updated) losers)) (\<lambda>_.
       awaitE (refresh (ride_id updated) updated))))"

definition confirmDriverAcceptanceP :: "string \<Rightarrow> string \<Rightarrow> (world, ride) prog" where
  "confirmDriverAcceptanceP k rider =
     bindP (awaitE (findRideById k)) (\<lambda>found. case found of
         None \<Rightarrow> Throw (NotFound ''Ride not found'')
       | Some r \<Rightarrow>
           if riderId r \<noteq> rider then Throw (NotFound ''Ride not found'')
           else if \<not> truthy (driverId r)
           then Throw (BadRequest ''Ride does not have an assigned driver'')
           else if status r = CANCELED
           then Throw (BadRequest ''Cancelled ride cannot be confirmed'')
           else if status r = COMPLETED then Ret r
           else if status r = ASSIGNED \<or> status r = REQUESTED
           then Throw (BadRequest ''Driver has not accepted this ride yet'')
           else if status r = ENROUTE then Ret r
           else (let driver = the (driverId r) in
             bindP (awaitE (findByRideAndDriver k driver)) (\<lambda>cfound. case cfound of
               None \<Rightarrow> Throw (Conflict ''Selected driver is no longer available'')
             | Some c \<Rightarrow>
                 if cand_status c \<noteq> CAccepted
                 then Throw (BadRequest ''Driver has not confirmed availability'')
                 else bindP (transitionRideStatusP (ride_id r) [ACCEPTED] ENROUTE
                        (Some ''Rider accepted driver confirmation'')) (\<lambda>(updated, _).
                   bindP (awaitE (findCandidatesByRideId k)) (\<lambda>cs.
                   bindP (awaitE (readE clock)) (\<lambda>now.
                   let toUpdate = map (confirmed_candidate driver now)
                                    (filter (affected_by_confirmation driver) cs)
                   in answerCandidatesP updated c toUpdate
                        (filter (\<lambda>x. cand_driverId x \<noteq> driver) toUpdate)))))))"

definition rejectDriverAcceptanceP :: "string \<Rightarrow> string \<Rightarrow> string option \<Rightarrow> (world, ride) prog" where
  "rejectDriverAcceptanceP k rider why =
     bindP (awaitE (findRideById k)) (\<lambda>found. case found of
         None \<Rightarrow> Throw (NotFound ''Ride not found'')
       | Some r \<Rightarrow>
           if riderId r \<noteq> rider then Throw (NotFound ''Ride not found'')
           else if \<not> truthy (driverId r)
           then Throw (BadRequest ''Ride does not have an assigned driver'')
           else if status r = CANCELED then Ret r
           else if status r = COMPLETED
           then Throw (BadRequest ''Completed ride cannot be rejected'')
           else if status r = ENROUTE then Throw (BadRequest ''Ride already in progress'')
           else if status r = ASSIGNED \<or> status r = REQUESTED
           then Throw (BadRequest ''Driver has not accepted this ride yet'')
           else bindP (awaitE (findByRideAndDriver k (the (driverId r)))) (\<lambda>cfound. case cfound of
               None \<Rightarrow> Throw (Conflict ''Driver invitation is no longer active'')
             | Some c \<Rightarrow>
                 bindP (awaitE (readE clock)) (\<lambda>now.
                   let rejection = default_reason why ''Rider rejected the driver acceptance'';
                       c' = with_response CCanceled rejection now c
                   in bindP (awaitE (saveCandidate c' None)) (\<lambda>_.
                      bindP (updateRideP (r\<lparr>driverId := None\<rparr>)) (\<lambda>_.
                      bindP (transitionRideStatusP (ride_id r) [ACCEPTED, ASSIGNED]
                               CANDIDATES_COMPUTED rejection) (\<lambda>(reverted, _).
                      bindP (awaitE (notifyRiderRejectedDriver reverted c' why)) (\<lambda>_.
                        awaitE (refresh (ride_id reverted) reverted))))))))"

section \<open>Alone, they are the methods\<close>

lemma solo_decline: "solo (rejectRideByDriverP k driver why) = rejectRideByDriver k driver why"
  by (simp add: rejectRideByDriverP_def releaseRideP_def rejectRideByDriver_def solo_update solo_transition thenE_def Let_def
      cong: if_cong option.case_cong prod.case_cong)

lemma solo_confirm: "solo (confirmDriverAcceptanceP k rider) = confirmDriverAcceptance k rider"
  by (simp add: confirmDriverAcceptanceP_def answerCandidatesP_def confirmDriverAcceptance_def solo_transition thenE_def whenE_def Let_def
      cong: if_cong option.case_cong prod.case_cong)

lemma solo_turn_down: "solo (rejectDriverAcceptanceP k rider why) = rejectDriverAcceptance k rider why"
  by (simp add: rejectDriverAcceptanceP_def rejectDriverAcceptance_def solo_update solo_transition thenE_def Let_def
      cong: if_cong option.case_cong prod.case_cong)

end
