(* ===== verification/Concurrent_System.thy ===== *)
theory Concurrent_System
  imports Ride_System Concurrent_Answers Concurrent_Trips Concurrent_Payments
begin

text \<open>
  The whole of the rides module at once: every request, job and notification of \<open>Ride_System\<close>
  as a program, to be put into one pool with any number of others. The passing of time and the
  expiry of Redis keys are programs of one step. A flush of all rides is a flush job for each of
  them, as its \<open>Promise.all\<close> runs them.
\<close>

datatype request =
    Create string create_ride_input
  | Cancel string requesting_client "string option"
  | Accept string string
  | Decline string string "string option"
  | Confirm string string
  | TurnDown string string "string option"
  | Start string string location
  | Track string requesting_client location
  | Complete string requesting_client location "jsnum option"
  | FlushRide "string option"
  | Pay string string
  | PaymentJob string
  | Notice payment_notification string
  | Wait nat
  | ExpireState string
  | ExpireEvents string

text \<open>The answer is dropped: only what happens to the tables is looked at here.\<close>

definition unanswered :: "(world, 'a) prog \<Rightarrow> (world, unit) prog" where
  "unanswered p = bindP p (\<lambda>_. Ret ())"

fun requestP :: "ride_env \<Rightarrow> track_env \<Rightarrow> pay_env \<Rightarrow> request \<Rightarrow> (world, unit) prog" where
  "requestP re te pe (Create rider payload) = unanswered (createRideP re rider payload)"
| "requestP re te pe (Cancel k req why) = unanswered (cancelRideP re k req why)"
| "requestP re te pe (Accept k driver) = unanswered (acceptRideByDriverP k driver)"
| "requestP re te pe (Decline k driver why) = unanswered (rejectRideByDriverP k driver why)"
| "requestP re te pe (Confirm k rider) = unanswered (confirmDriverAcceptanceP k rider)"
| "requestP re te pe (TurnDown k rider why) = unanswered (rejectDriverAcceptanceP k rider why)"
| "requestP re te pe (Start k driver loc) = unanswered (startRideP te k driver loc)"
| "requestP re te pe (Track k req loc) = recordTripLocationP te k req loc"
| "requestP re te pe (Complete k req loc discount) = unanswered (completeRideP te k req loc discount)"
| "requestP re te pe (FlushRide k) = (if truthy k then flushRideP (trips te) (the k) else Ret ())"
| "requestP re te pe (Pay k rider) = unanswered (proceedRidePaymentP pe k rider)"
| "requestP re te pe (PaymentJob outboxId) = unanswered (processOutboxP pe outboxId)"
| "requestP re te pe (Notice payload ip) = unanswered (handlePaymentNotificationP pe payload ip)"
| "requestP re te pe (Wait n) = awaitE (writeE (\<lambda>s. s\<lparr>clock := clock s + int n\<rparr>))"
| "requestP re te pe (ExpireState k) = awaitE (writeE (\<lambda>s. s\<lparr>tripStates := (tripStates s)(k := None)\<rparr>))"
| "requestP re te pe (ExpireEvents k) = awaitE (writeE (\<lambda>s. s\<lparr>tripEvents := (tripEvents s)(k := [])\<rparr>))"

text \<open>
  Each request run to its end without interference is a step of \<open>Ride_System\<close>, so one at a time
  they reach its reachable worlds and no others.
\<close>

lemma snd_unanswered: "snd (solo (unanswered p) s) = snd (solo p s)"
  by (simp add: unanswered_def run_bind split: prod.split sum.split)

theorem request_alone: "world_step re te pe s (snd (solo (requestP re te pe q) s))"
proof (cases q)
  case (FlushRide k)
  then show ?thesis using ws_trip_job [of re te pe s "FlushRideJob k"] by (simp add: solo_flush split: if_splits)
next
  case (Wait n)
  then show ?thesis using ws_time [of s "clock s + int n"] by simp
qed (simp_all add: snd_unanswered solo_create solo_cancel solo_accept solo_decline solo_confirm solo_turn_down solo_start
    solo_trip_location solo_complete solo_proceed solo_process solo_notification world_step.intros)

end
