(* ===== verification/Concurrent_System_Guarantees.thy ===== *)
theory Concurrent_System_Guarantees
  imports Payment_Guarantees Concurrent_Guarantees Concurrent_System
begin

text \<open>
  What holds whatever requests, jobs and notifications interleave: the tables stay well formed,
  a ride never disappears and keeps what its rider ordered, an invitation keeps its ride and its
  driver, and the history and the stored locations only grow.
\<close>

section \<open>The record that is kept\<close>

text \<open>What the rider ordered.\<close>

definition order_of ::
  "ride \<Rightarrow> string \<times> (jsnum \<times> jsnum) \<times> (jsnum \<times> jsnum) \<times> numtext option \<times> jsnum option \<times> jsnum option \<times>
    string option \<times> int" where
  "order_of r = (riderId r, (pickupLongitude r, pickupLatitude r), (dropoffLongitude r, dropoffLatitude r),
     fareEstimated r, distanceEstimatedKm r, durationEstimatedSeconds r, ride_note r, createdAt r)"

definition invitation_of :: "candidate \<Rightarrow> string \<times> string \<times> string" where
  "invitation_of c = (cand_id c, cand_rideId c, cand_driverId c)"

text \<open>The status changes the operations declare, from the lists they give \<open>transitionRideStatus\<close>.\<close>

fun declared :: "ride_status \<Rightarrow> ride_status set" where
  "declared REQUESTED = {}"
| "declared CANDIDATES_COMPUTED = {REQUESTED, ACCEPTED, ASSIGNED}"
| "declared ASSIGNED = {REQUESTED, CANDIDATES_COMPUTED}"
| "declared ACCEPTED = {ASSIGNED, CANDIDATES_COMPUTED}"
| "declared ENROUTE = {ACCEPTED}"
| "declared TRIP_STARTED = {ENROUTE}"
| "declared COMPLETED = {ENROUTE, ACCEPTED, ASSIGNED, TRIP_STARTED}"
| "declared CANCELED = {REQUESTED, CANDIDATES_COMPUTED, ASSIGNED, ACCEPTED, ENROUTE}"

fun change_ok :: "ride_status option \<Rightarrow> ride_status \<Rightarrow> bool" where
  "change_ok None y = (y = REQUESTED)"
| "change_ok (Some x) y = (x \<in> declared y)"

definition entry_ok :: "status_history \<Rightarrow> bool" where
  "entry_ok h \<longleftrightarrow> change_ok (fromStatus h) (toStatus h)"

definition keeps_record :: "world \<Rightarrow> world \<Rightarrow> bool" where
  "keeps_record s s' \<longleftrightarrow>
     (\<forall>k r. row_find ride_id k (rides s) = Some r \<longrightarrow>
        (\<exists>r'. row_find ride_id k (rides s') = Some r' \<and> order_of r' = order_of r)) \<and>
     invitation_of ` set (candidates s) \<subseteq> invitation_of ` set (candidates s') \<and>
     (\<exists>hs. history s' = history s @ hs \<and> (\<forall>h \<in> set hs. entry_ok h)) \<and>
     (\<exists>ts. tripTracks s' = tripTracks s @ ts)"

lemma keeps_record_refl: "keeps_record s s"
  by (simp add: keeps_record_def)

lemma record_rides:
  "keeps_record s s' \<Longrightarrow> row_find ride_id k (rides s) = Some r \<Longrightarrow>
     \<exists>r'. row_find ride_id k (rides s') = Some r' \<and> order_of r' = order_of r"
  by (simp add: keeps_record_def)

lemma record_invitations: "keeps_record s s' \<Longrightarrow> invitation_of ` set (candidates s) \<subseteq> invitation_of ` set (candidates s')"
  by (simp add: keeps_record_def)

lemma record_history: "keeps_record s s' \<Longrightarrow> \<exists>hs. history s' = history s @ hs \<and> (\<forall>h \<in> set hs. entry_ok h)"
  by (simp add: keeps_record_def)

lemma record_tracks: "keeps_record s s' \<Longrightarrow> \<exists>ts. tripTracks s' = tripTracks s @ ts"
  by (simp add: keeps_record_def)

lemma keeps_record_trans:
  assumes st: "keeps_record s t" and tu: "keeps_record t u"
  shows "keeps_record s u"
  unfolding keeps_record_def
proof (intro conjI allI impI)
  fix k r assume "row_find ride_id k (rides s) = Some r"
  then show "\<exists>r'. row_find ride_id k (rides u) = Some r' \<and> order_of r' = order_of r"
    using record_rides [OF st] record_rides [OF tu] by metis
next
  show "invitation_of ` set (candidates s) \<subseteq> invitation_of ` set (candidates u)"
    using record_invitations [OF st] record_invitations [OF tu] by (rule subset_trans)
next
  obtain hs ys where "history t = history s @ hs" "\<forall>h \<in> set hs. entry_ok h" "history u = history t @ ys" "\<forall>h \<in> set ys. entry_ok h"
    using record_history [OF st] record_history [OF tu] by (elim conjE exE) (rule that)
  then show "\<exists>hs. history u = history s @ hs \<and> (\<forall>h \<in> set hs. entry_ok h)"
    by (intro exI [of _ "hs @ ys"]) auto
next
  show "\<exists>ts. tripTracks u = tripTracks s @ ts"
    using record_tracks [OF st] record_tracks [OF tu] by (elim exE) simp
qed

interpretation traffic: rely_guarantee wf_world keeps_record
  by unfold_locales (rule keeps_record_refl, rule keeps_record_trans)

section \<open>A fact that lasts is kept by every program\<close>

context rely_guarantee
begin

lemma sat_frame:
  assumes "sat P p Q" and "stable F"
  shows "sat (\<lambda>s. P s \<and> F s) p (\<lambda>a s. Q a s \<and> F s)"
  using assms(1)
proof (induction rule: sat.induct)
  case (sat_ret P Q a)
  then show ?case by (auto intro: sat.sat_ret)
next
  case (sat_throw P e Q)
  show ?case by (rule sat.sat_throw)
next
  case (sat_step P f Q)
  show ?case
  proof (rule sat.sat_step)
    fix s assume s: "P s \<and> F s" "inv s"
    from sat_step.IH [of s] s obtain P' where step: "inv (fst (f s))" "guar s (fst (f s))" "stable P'"
        "P' (fst (f s))" "sat (\<lambda>s. P' s \<and> F s) (snd (f s)) (\<lambda>a s. Q a s \<and> F s)"
      by blast
    have "F (fst (f s))" using assms(2) s step(1,2) unfolding stable_def by blast
    moreover have "stable (\<lambda>s. P' s \<and> F s)" using step(3) assms(2) by (rule stable_conj)
    ultimately show "inv (fst (f s)) \<and> guar s (fst (f s)) \<and>
        (\<exists>P'. stable P' \<and> P' (fst (f s)) \<and> sat P' (snd (f s)) (\<lambda>a s. Q a s \<and> F s))"
      using step by blast
  qed
qed

end


section \<open>Steps that need no knowledge\<close>

definition harmless :: "'a weff \<Rightarrow> bool" where
  "harmless m \<longleftrightarrow> (\<forall>s0. keeps (\<lambda>s. wf_world s \<and> keeps_record s0 s) m)"

lemma harmlessD: "harmless m \<Longrightarrow> wf_world s \<Longrightarrow> wf_world (snd (m s)) \<and> keeps_record s (snd (m s))"
  unfolding harmless_def keeps_def using keeps_record_refl by blast

lemma harmlessI: "(\<And>s. wf_world s \<Longrightarrow> wf_world (snd (m s)) \<and> keeps_record s (snd (m s))) \<Longrightarrow> harmless m"
  unfolding harmless_def keeps_def using keeps_record_trans by blast

named_theorems harmlessly \<open>methods that keep the record whatever the caller knows\<close>

lemma harmless_base [harmlessly]: "harmless (returnE a)" "harmless (throwE e)" "harmless (readE g)" "harmless (liftE r)"
  by (simp_all add: harmless_def keeps_return keeps_throw keeps_read keeps_lift)

lemma harmless_bind [harmlessly]: "harmless m \<Longrightarrow> (\<And>x. harmless (f x)) \<Longrightarrow> harmless (bindE m f)"
  by (simp add: harmless_def keeps_bind)

lemma harmless_then [harmlessly]: "harmless m \<Longrightarrow> harmless n \<Longrightarrow> harmless (thenE m n)"
  by (simp add: harmless_def keeps_then)

lemma harmless_when [harmlessly]: "harmless m \<Longrightarrow> harmless (whenE b m)"
  by (simp add: harmless_def keeps_when)

lemma harmless_transact [harmlessly]: "harmless m \<Longrightarrow> harmless (transactE m)"
  by (simp add: harmless_def keeps_transact)

lemma harmless_for [harmlessly]: "(\<And>x. harmless (f x)) \<Longrightarrow> harmless (forE f xs)"
  by (simp add: harmless_def keeps_for)

lemma harmless_cases [harmlessly]:
  "harmless m \<Longrightarrow> harmless n \<Longrightarrow> harmless (if b then m else n)"
  "harmless m \<Longrightarrow> (\<And>x. harmless (f x)) \<Longrightarrow> harmless (case v of None \<Rightarrow> m | Some x \<Rightarrow> f x)"
  "(\<And>x y. harmless (g x y)) \<Longrightarrow> harmless (case p of (x, y) \<Rightarrow> g x y)"
  by (simp_all split: option.split prod.split)

lemma harmless_same: "(\<And>s. same_rides s (snd (m s)) \<and> tripTracks (snd (m s)) = tripTracks s) \<Longrightarrow> harmless m"
  by (rule harmlessI) (auto simp: keeps_record_def same_rides_def wf_world_def)

lemma harmless_write: "(\<And>s. same_rides s (g s) \<and> tripTracks (g s) = tripTracks s) \<Longrightarrow> harmless (writeE g)"
  by (rule harmless_same) simp

lemma harmless_publish: "only_publishes m \<Longrightarrow> harmless m"
proof (rule harmless_same)
  fix s assume "only_publishes m"
  then obtain a ns where "m s = (Inr a, s\<lparr>published := published s @ ns\<rparr>)"
    unfolding only_publishes_def by blast
  then show "same_rides s (snd (m s)) \<and> tripTracks (snd (m s)) = tripTracks s" by (simp add: publish_same)
qed

lemmas notices_published [harmlessly] =
  matched.publishes [THEN harmless_publish] offered.publishes [THEN harmless_publish]
  accepted.publishes [THEN harmless_publish] declined.publishes [THEN harmless_publish]
  confirmed.publishes [THEN harmless_publish] rejected.publishes [THEN harmless_publish]
  superseded.publishes [THEN harmless_publish] cancelled.publishes [THEN harmless_publish]
  started.publishes [THEN harmless_publish] completed.publishes [THEN harmless_publish]
  paid.publishes [THEN harmless_publish]

lemma harmless_reads [harmlessly]:
  "harmless (findRideForPayment k)" "harmless (findDetailById k)" "harmless (findDetailByRideId k)"
  "harmless (findDetailByOrderId k)" "harmless (findOutboxById k)" "harmless (refresh k r)" "harmless (isIpAllowed xs)"
  "harmless (getState k)" "harmless (getLatestLocation k role)" "harmless (getTotalDistanceMeters k)"
  "harmless (findUnfinishedRideByRiderId k)" "harmless (findRideById k)" "harmless (findByRideAndDriver k d)"
  "harmless (findCandidatesByRideId k)"
  "harmless (ensureLocationWithinRadius te loc p metres m)" "harmless (ensureParticipantsAreNearby te l1 l2 metres m)"
  unfolding findRideForPayment_def findDetailById_def findDetailByRideId_def findDetailByOrderId_def findOutboxById_def
    refresh_def isIpAllowed_def getState_def getLatestLocation_def getTotalDistanceMeters_def Let_def
    findUnfinishedRideByRiderId_def findRideById_def findByRideAndDriver_def findCandidatesByRideId_def
    ensureLocationWithinRadius_def ensureParticipantsAreNearby_def
  by (intro harmlessly)+

lemma harmless_jobs [harmlessly]:
  "harmless (removeRideJob re job)" "harmless (removePendingJobs re k)"
  "harmless (requestRouteEstimatesThroughQueue re job p q)" "harmless (enqueueFlushRideJob env k)"
  unfolding removePendingJobs_def requestRouteEstimatesThroughQueue_def removeRideJob_def enqueueFlushRideJob_def
  by (intro harmlessly harmless_write; simp add: same_rides_def)+

lemma harmless_state [harmlessly]: "harmless (setState k st)"
  unfolding setState_def by (rule harmless_write) (simp add: same_rides_def)

lemma harmless_flush [harmlessly]: "harmless (persistFlush env es ss)"
proof -
  have "harmless (writeE (\<lambda>s. s\<lparr>tripTracks := tripTracks s @ es\<rparr>))"
    by (rule harmlessI) (simp add: keeps_record_def wf_world_def)
  moreover have "harmless (upsertSummaries ss)"
    unfolding upsertSummaries_def by (rule harmless_write) (simp add: same_rides_def)
  ultimately show ?thesis unfolding persistFlush_def by (intro harmlessly)
qed

subsection \<open>Payments\<close>

lemma record_put_ride:
  assumes "wf_world s" and "row_find ride_id (ride_id r') (rides s) = Some r" and "order_of r' = order_of r"
    and "driverId r' \<noteq> Some []"
  shows "wf_world (s\<lparr>rides := row_put ride_id r' (rides s)\<rparr>) \<and> keeps_record s (s\<lparr>rides := row_put ride_id r' (rides s)\<rparr>)"
  using wf_put_ride [OF assms(1,2,4)] assms(2,3) by (auto simp: keeps_record_def row_find_put)

lemma harmless_pay_ride [harmlessly]: "harmless (updateRidePayment ul k st url msg)"
proof (rule harmlessI)
  fix s assume wf: "wf_world s"
  show "wf_world (snd (updateRidePayment ul k st url msg s)) \<and> keeps_record s (snd (updateRidePayment ul k st url msg s))"
  proof (cases "row_find ride_id k (rides s)")
    case None
    then show ?thesis using wf keeps_record_refl by (simp add: updateRidePayment_def eff_run)
  next
    case (Some r)
    let ?r = "put_payment_state st url (clock s) r"
    have "ride_id ?r = k" "order_of ?r = order_of r" "driverId ?r \<noteq> Some []"
      using wf_ride [OF wf Some] by (simp_all add: put_payment_state_def order_of_def)
    then show ?thesis using record_put_ride [OF wf, of ?r r] Some by (simp add: updateRidePayment_def eff_run)
  qed
qed

lemma harmless_payments [harmlessly]:
  "harmless (persistDetail d)" "harmless (saveDetail d)" "harmless (saveOutbox ob)" "harmless (insertOutboxRow k i oid st req)"
  "harmless (updateOutboxes ul u)" "harmless (saveDetailAndOutbox d oid req st)"
  "harmless (saveDetailWithRideUpdate ul d ru ou)" "harmless (updatePaymentState ul k st' url)"
proof -
  show rows: "harmless (persistDetail d)" "harmless (saveDetail d)" "harmless (saveOutbox ob)" "harmless (insertOutboxRow k i oid st req)"
    for d k i
    by (rule harmless_same, simp add: saveDetail_def persistDetail_def saveOutbox_def insertOutboxRow_def same_rides_def Let_def
        split: option.split)+
  show all: "harmless (updateOutboxes ul u)" for u
    unfolding updateOutboxes_def by (intro harmlessly harmless_write) (simp add: same_rides_def)
  show "harmless (saveDetailAndOutbox d oid req st)" "harmless (saveDetailWithRideUpdate ul d ru ou)"
      "harmless (updatePaymentState ul k st' url)"
    unfolding saveDetailAndOutbox_def saveDetailWithRideUpdate_def updatePaymentState_def
    by (intro harmlessly rows all)+
qed

subsection \<open>Creating a ride\<close>

definition records :: "'a weff \<Rightarrow> bool" where
  "records m \<longleftrightarrow> (\<forall>s0. keeps (keeps_record s0) m)"

lemma recordsI: "(\<And>s. keeps_record s (snd (m s))) \<Longrightarrow> records m"
  unfolding records_def keeps_def using keeps_record_trans by blast

lemma records_insert:
  "records (insertRideRow opt)" "records (insertCandidateRow k d st metres why responded)"
  "change_ok f st' \<Longrightarrow> records (insertHistoryRow k f st' ctx)"
  by (rule recordsI, auto simp: keeps_record_def insertRideRow_def insertCandidateRow_def insertHistoryRow_def entry_ok_def
      row_find_append Let_def)+

lemma records_map: "(\<And>x. x \<in> set xs \<Longrightarrow> records (g x)) \<Longrightarrow> records (mapE g xs)"
  by (induction xs) (simp_all add: records_def keeping)

lemma creation_keeps_record: "keeps_record s (snd (createRideWithDetails (ride_details re rider payload route drivers) s))"
proof -
  let ?d = "ride_details re rider payload route drivers"
  have entries: "keeps (keeps_record s) (mapE (\<lambda>e. insertHistoryRow k (hi_from e) (hi_to e) (hi_context e)) (rc_historyEntries ?d))" for k
    using records_map [of "rc_historyEntries ?d" "\<lambda>e. insertHistoryRow k (hi_from e) (hi_to e) (hi_context e)"] records_insert(3)
    by (force simp: records_def ride_details_def buildInitialHistoryEntries_def)
  have "keeps (keeps_record s) (createRideWithDetails ?d)"
    unfolding createRideWithDetails_def findRideById_def
    by (intro keeping entries records_insert(1,2) [unfolded records_def, THEN spec])
  then show ?thesis using keeps_record_refl by (simp add: keeps_def)
qed

lemma harmless_create:
  assumes "nearby_ok drivers"
  shows "harmless (createRideWithDetails (ride_details re rider payload route drivers))"
proof (rule harmlessI)
  fix s assume wf: "wf_world s"
  have "nearby_ok (rc_nearbyDrivers (ride_details re rider payload route drivers))" using assms by (simp add: ride_details_def)
  then obtain r cs s' where "createRideWithDetails (ride_details re rider payload route drivers) s = (Inr (r, cs), s')" "wf_world s'"
    using createRideWithDetails_move [OF wf, of "ride_details re rider payload route drivers"] by (auto simp: ride_details_def)
  then show "wf_world (snd (createRideWithDetails (ride_details re rider payload route drivers) s)) \<and>
      keeps_record s (snd (createRideWithDetails (ride_details re rider payload route drivers) s))"
    using creation_keeps_record [of s re rider payload route drivers] by simp
qed

section \<open>What a call knows\<close>

text \<open>The rides and candidates a call has read are still there, with the same order and the same invitation.\<close>

definition kept_ride :: "ride \<Rightarrow> world \<Rightarrow> bool" where
  "kept_ride r s \<longleftrightarrow> driverId r \<noteq> Some [] \<and>
     (\<exists>x. row_find ride_id (ride_id r) (rides s) = Some x \<and> order_of x = order_of r)"

definition knows :: "ride set \<Rightarrow> candidate set \<Rightarrow> world \<Rightarrow> bool" where
  "knows R C s \<longleftrightarrow> (\<forall>r \<in> R. kept_ride r s) \<and> invitation_of ` C \<subseteq> invitation_of ` set (candidates s)"

lemma known_stays: "kept_ride r s \<Longrightarrow> keeps_record s s' \<Longrightarrow> kept_ride r s'"
proof -
  assume r: "kept_ride r s" and kept: "keeps_record s s'"
  obtain x where "row_find ride_id (ride_id r) (rides s) = Some x" "order_of x = order_of r"
    using r by (auto simp: kept_ride_def)
  then show "kept_ride r s'" using record_rides [OF kept] r by (metis kept_ride_def)
qed

lemma knows_stays: "knows R C s \<Longrightarrow> keeps_record s s' \<Longrightarrow> knows R C s'"
  unfolding knows_def by (meson known_stays record_invitations subset_trans)

lemma stable_knows [intro!, simp]: "traffic.stable (knows R C)"
  unfolding traffic.stable_def using knows_stays by (intro allI impI)

definition safe :: "ride set \<Rightarrow> candidate set \<Rightarrow> (world, 'a) prog \<Rightarrow> bool" where
  "safe R C p \<longleftrightarrow> traffic.sat (knows R C) p (\<lambda>_ _. True)"

named_theorems safely \<open>programs that keep the record\<close>

lemma safe_ended [safely]: "safe R C (Ret a)" "safe R C (Throw e)"
  by (simp_all add: safe_def traffic.sat_ret traffic.sat_throw)

lemma safe_frame: "safe R C p \<Longrightarrow> traffic.sat (knows R C) p (\<lambda>_. knows R C)"
  using traffic.sat_frame [of "knows R C" p "\<lambda>_ _. True" "knows R C"] by (simp add: safe_def)

lemma safe_bind [safely]: "safe R C p \<Longrightarrow> (\<And>a. safe R C (g a)) \<Longrightarrow> safe R C (bindP p g)"
  using traffic.sat_bind [OF safe_frame] unfolding safe_def by blast

lemma safe_cases [safely]:
  "(b \<Longrightarrow> safe R C p) \<Longrightarrow> (\<not> b \<Longrightarrow> safe R C q) \<Longrightarrow> safe R C (if b then p else q)"
  "(v = None \<Longrightarrow> safe R C p) \<Longrightarrow> (\<And>x. v = Some x \<Longrightarrow> safe R C (f x)) \<Longrightarrow> safe R C (case v of None \<Rightarrow> p | Some x \<Rightarrow> f x)"
  "(\<And>x y. safe R C (g x y)) \<Longrightarrow> safe R C (case z of (x, y) \<Rightarrow> g x y)"
  by (simp_all split: option.split prod.split)

lemma safe_catch [safely]: "safe R C p \<Longrightarrow> (\<And>e. safe R C (h e)) \<Longrightarrow> safe R C (catchP p h)"
  using traffic.sat_catch [of "knows R C" p "\<lambda>_ _. True" "knows R C" h] by (simp add: safe_def)

lemma safe_step:
  assumes "\<And>s. wf_world s \<Longrightarrow> knows R C s \<Longrightarrow> wf_world (snd (m s)) \<and> keeps_record s (snd (m s))"
  shows "safe R C (awaitE m)"
  unfolding safe_def by (rule traffic.sat_await) (use assms in \<open>simp_all add: traffic.stable_const\<close>)

lemma safe_harmless [safely]: "harmless m \<Longrightarrow> safe R C (awaitE m)"
  by (rule safe_step) (rule harmlessD)

text \<open>A read adds to what the call knows, and with it the rest of the program is judged.\<close>

lemma safe_learn:
  assumes "traffic.sat (knows R C) p (\<lambda>a s. knows (R' a) (C' a) s \<and> F a)"
    and "\<And>a. F a \<Longrightarrow> safe (R \<union> R' a) (C \<union> C' a) (g a)"
  shows "safe R C (bindP p g)"
proof -
  have both: "knows R' C' s \<and> f \<and> knows R C s \<longleftrightarrow> knows (R \<union> R') (C \<union> C') s \<and> f" for R' C' s f
    by (auto simp: knows_def image_Un)
  have "traffic.sat (knows R C) p (\<lambda>a s. knows (R \<union> R' a) (C \<union> C' a) s \<and> F a)"
    using traffic.sat_frame [OF assms(1) stable_knows, of R C] by (simp add: both)
  then show ?thesis unfolding safe_def
    by (rule traffic.sat_bind) (rule traffic.sat_fact, use assms(2) in \<open>simp add: safe_def\<close>)
qed

lemma stable_knows_fact [intro!, simp]: "traffic.stable (\<lambda>s. knows R C s \<and> f)"
  by (rule traffic.stable_conj [OF stable_knows traffic.stable_const])

lemma sat_reads:
  assumes "harmless m" and "\<And>s a. wf_world s \<Longrightarrow> fst (m s) = Inr a \<Longrightarrow> knows (R a) (C a) s \<and> F a"
  shows "traffic.sat P (awaitE m) (\<lambda>a s. knows (R a) (C a) s \<and> F a)"
proof (rule traffic.sat_await)
  fix s assume s: "wf_world s"
  show "wf_world (snd (m s)) \<and> keeps_record s (snd (m s)) \<and>
      (\<forall>a. fst (m s) = Inr a \<longrightarrow> knows (R a) (C a) (snd (m s)) \<and> F a)"
    using harmlessD [OF assms(1) s] assms(2) [OF s] knows_stays by blast
qed simp

lemma known_read: "wf_world s \<Longrightarrow> row_find ride_id k (rides s) = Some r \<Longrightarrow> kept_ride r s \<and> ride_id r = k"
  using wf_ride by (auto simp: kept_ride_def)

lemma sat_find_ride:
  "traffic.sat P (awaitE (findRideById k)) (\<lambda>found s. knows (set_option found) {} s \<and> (\<forall>r. found = Some r \<longrightarrow> ride_id r = k))"
  by (rule sat_reads [OF harmless_reads(12)]) (auto simp: run_findRideById knows_def dest: known_read)

lemma safe_find [safely]:
  assumes "safe R C (g None)" and "\<And>r. ride_id r = k \<Longrightarrow> safe (insert r R) C (g (Some r))"
  shows "safe R C (bindP (awaitE (findRideById k)) g)"
proof (rule safe_learn [OF sat_find_ride])
  fix found :: "ride option" assume "\<forall>r. found = Some r \<longrightarrow> ride_id r = k"
  then show "safe (R \<union> set_option found) (C \<union> {}) (g found)" using assms by (cases found) simp_all
qed

lemma safe_invitation [safely]:
  assumes "safe R C (g None)" and "\<And>c. cand_driverId c = d \<Longrightarrow> d \<noteq> [] \<Longrightarrow> safe R (insert c C) (g (Some c))"
  shows "safe R C (bindP (awaitE (findByRideAndDriver k d)) g)"
proof (rule safe_learn [OF sat_reads [OF harmless_reads(13)]])
  fix s a assume "wf_world s" "fst (findByRideAndDriver k d s) = Inr a"
  then show "knows {} (set_option a) s \<and> (\<forall>c. a = Some c \<longrightarrow> cand_driverId c = d \<and> d \<noteq> [])"
    by (auto simp: run_findByRideAndDriver knows_def wf_world_def dest!: find_candidate)
next
  fix a :: "candidate option" assume "\<forall>c. a = Some c \<longrightarrow> cand_driverId c = d \<and> d \<noteq> []"
  then show "safe (R \<union> {}) (C \<union> set_option a) (g a)" using assms by (cases a) simp_all
qed

lemma safe_invitations [safely]:
  assumes "\<And>cs. safe R (C \<union> set cs) (g cs)"
  shows "safe R C (bindP (awaitE (findCandidatesByRideId k)) g)"
proof (rule safe_learn [OF sat_reads [OF harmless_reads(14)]])
  fix s a assume "fst (findCandidatesByRideId k s) = Inr a"
  then show "knows {} (set a) s \<and> True" by (auto simp: run_findCandidates knows_def candidatesOfRide_def)
qed (use assms in simp)

section \<open>The writes\<close>

lemma keep_update:
  assumes "wf_world s" and "kept_ride r s" and "order_of merged = order_of r" and "driverId merged = driverId r"
  shows "wf_world (snd (write_ride (ride_id r) merged s)) \<and> keeps_record s (snd (write_ride (ride_id r) merged s))"
proof -
  obtain x where x: "row_find ride_id (ride_id r) (rides s) = Some x" "order_of x = order_of r"
    using assms(2) by (auto simp: kept_ride_def)
  let ?r = "updated_row (clock s) x merged"
  have "ride_id x = ride_id r" using x(1) by (auto dest: row_find_SomeD)
  then have "row_find ride_id (ride_id ?r) (rides s) = Some x" using x(1) by simp
  moreover have "order_of ?r = order_of x" using x(2) assms(3) by (simp add: order_of_def updated_row_def)
  moreover have "driverId ?r \<noteq> Some []" using assms(2,4) by (simp add: kept_ride_def)
  ultimately show ?thesis using record_put_ride [OF assms(1)] x(1) by (simp add: write_ride_def)
qed

lemma order_merge: "order_of current = order_of r \<Longrightarrow> order_of (mergeRideData current r) = order_of r"
  by (auto simp: order_of_def mergeRideData_def or_current_def split: option.split)

lemma sat_update:
  assumes "\<And>s. knows R C s \<Longrightarrow> kept_ride r s"
  shows "traffic.sat (knows R C) (updateRideP r) (\<lambda>p s. knows {p} {} s \<and> ride_id p = ride_id r)"
proof -
  let ?Q = "\<lambda>p s. knows {p} {} s \<and> ride_id p = ride_id r"
  have last: "traffic.sat P (bindP (awaitE (findRideById (ride_id r))) (\<lambda>persisted. case persisted of
      None \<Rightarrow> Throw e | Some p \<Rightarrow> Ret p)) ?Q" for P e
    by (rule traffic.sat_bind [OF sat_find_ride]) (auto intro: traffic.sat_throw traffic.sat_ret split: option.split)
  have put: "traffic.sat (knows R C) (bindP (awaitE (write_ride (ride_id r) merged)) (\<lambda>_. g)) ?Q"
    if "order_of merged = order_of r" "driverId merged = driverId r" "\<And>P. traffic.sat P g ?Q" for merged g
  proof (rule traffic.sat_bind [where M = "\<lambda>_. knows R C"])
    show "traffic.sat (knows R C) (awaitE (write_ride (ride_id r) merged)) (\<lambda>_. knows R C)"
    proof (rule safe_frame, rule safe_step)
      fix s assume "wf_world s" "knows R C s"
      then show "wf_world (snd (write_ride (ride_id r) merged s)) \<and> keeps_record s (snd (write_ride (ride_id r) merged s))"
        using keep_update assms that(1,2) by blast
    qed
  qed (rule that(3))
  show ?thesis
  proof (cases "ride_id r = []")
    case True
    then show ?thesis by (simp add: updateRideP_def traffic.sat_throw)
  next
    case False
    have "traffic.sat (knows R C) (awaitE (findRideById (ride_id r)))
        (\<lambda>found s. knows R C s \<and> (\<forall>c. found = Some c \<longrightarrow> order_of c = order_of r))"
    proof (rule traffic.sat_await)
      fix s assume s: "knows R C s" "wf_world s"
      then obtain x where "row_find ride_id (ride_id r) (rides s) = Some x" "order_of x = order_of r"
        using assms by (auto simp: kept_ride_def)
      then show "wf_world (snd (findRideById (ride_id r) s)) \<and> keeps_record s (snd (findRideById (ride_id r) s)) \<and>
          (\<forall>a. fst (findRideById (ride_id r) s) = Inr a \<longrightarrow> knows R C (snd (findRideById (ride_id r) s)) \<and>
            (\<forall>c. a = Some c \<longrightarrow> order_of c = order_of r))"
        using s keeps_record_refl by (simp add: run_findRideById)
    qed simp
    then have "traffic.sat (knows R C) (bindP (awaitE (findRideById (ride_id r))) (\<lambda>found. case found of
          None \<Rightarrow> Throw (JsError ''Ride not found while updating'')
        | Some current \<Rightarrow>
            bindP (awaitE (write_ride (ride_id r) (mergeRideData current r))) (\<lambda>_.
            bindP (awaitE (findRideById (ride_id r))) (\<lambda>persisted. case persisted of
               None \<Rightarrow> Throw (JsError ''Ride not found after update'')
             | Some p \<Rightarrow> Ret p)))) ?Q"
    proof (rule traffic.sat_bind, intro traffic.sat_fact)
      fix found :: "ride option" assume order: "\<forall>c. found = Some c \<longrightarrow> order_of c = order_of r"
      show "traffic.sat (knows R C) (case found of
          None \<Rightarrow> Throw (JsError ''Ride not found while updating'')
        | Some current \<Rightarrow>
            bindP (awaitE (write_ride (ride_id r) (mergeRideData current r))) (\<lambda>_.
            bindP (awaitE (findRideById (ride_id r))) (\<lambda>persisted. case persisted of
               None \<Rightarrow> Throw (JsError ''Ride not found after update'')
             | Some p \<Rightarrow> Ret p))) ?Q"
        by (rule traffic.sat_throw_None, rule put) (use order order_merge last in auto)
    qed
    then show ?thesis using False by (simp add: updateRideP_def)
  qed
qed

lemma safe_update [safely]:
  assumes "\<And>s. knows R C s \<Longrightarrow> kept_ride r s" and "\<And>p. ride_id p = ride_id r \<Longrightarrow> safe (insert p R) C (g p)"
  shows "safe R C (bindP (updateRideP r) g)"
  by (rule safe_learn [where R' = "\<lambda>p. {p}" and C' = "\<lambda>_. {}", OF sat_update [OF assms(1)]]) (simp_all add: assms(2))

lemma keep_entry:
  assumes "wf_world s" and "row_find ride_id k (rides s) = Some x" and "change_ok f y"
  shows "wf_world (snd (recordStatusChange k f y ctx s)) \<and> keeps_record s (snd (recordStatusChange k f y ctx s))"
proof -
  have "k \<noteq> []" "issued (rideSeq s) k" using wf_ride [OF assms(1,2)] by simp_all
  then show ?thesis using assms(1,3)
    by (simp add: recordStatusChange_def eff_run Let_def keeps_record_def entry_ok_def wf_world_def)
qed

lemma sat_change:
  assumes "set allowed - {next} \<subseteq> declared next"
  shows "traffic.sat (knows {} {}) (transitionRideStatusP k allowed next ctx) (\<lambda>(p, _) s. knows {p} {} s \<and> ride_id p = k)"
proof -
  let ?Q = "\<lambda>(p, _) s. knows {p} {} s \<and> ride_id p = k"
  have entry: "traffic.sat (\<lambda>s. knows {p} {} s \<and> ride_id p = k)
      (bindP (awaitE (recordStatusChange (ride_id p) (Some x) next ctx)) (\<lambda>_. Ret (p, True))) ?Q" if "x \<in> declared next" for p x
  proof (rule traffic.sat_fact, rule traffic.sat_bind [where M = "\<lambda>_. knows {p} {}"], rule safe_frame, rule safe_step)
    fix s assume "wf_world s" "knows {p} {} s"
    then show "wf_world (snd (recordStatusChange (ride_id p) (Some x) next ctx s)) \<and>
        keeps_record s (snd (recordStatusChange (ride_id p) (Some x) next ctx s))"
      using keep_entry that by (auto simp: knows_def kept_ride_def)
  qed (simp add: traffic.sat_ret)
  have change: "traffic.sat (knows {r} {}) (bindP (updateRideP r2) (\<lambda>saved.
      bindP (awaitE (recordStatusChange (ride_id saved) (Some x) next ctx)) (\<lambda>_. Ret (saved, True)))) ?Q"
    if "x \<in> declared next" "ride_id r2 = k" "\<And>s. kept_ride r s \<Longrightarrow> kept_ride r2 s" for r r2 x
    by (rule traffic.sat_bind [OF sat_update]) (use that entry in \<open>simp_all add: knows_def\<close>)
  have same: "kept_ride r s \<Longrightarrow> kept_ride (r\<lparr>status := st\<rparr>) s"
      "kept_ride r s \<Longrightarrow> kept_ride (r\<lparr>status := st, cancelReason := why\<rparr>) s" for r s st why
    by (simp_all add: kept_ride_def order_of_def)
  have read: "traffic.sat (knows (set_option found) {}) (case found of
         None \<Rightarrow> Throw (NotFound ''Ride not found'')
       | Some r \<Rightarrow>
           if status r \<notin> set allowed then Ret (r, False)
           else if status r = next then Ret (r, False)
           else (let previous = status r;
                     r1 = r\<lparr>status := next\<rparr>;
                     r2 = (if truthy ctx \<and> next = CANCELED then r1\<lparr>cancelReason := ctx\<rparr> else r1)
                 in bindP (updateRideP r2) (\<lambda>saved.
                    bindP (awaitE (recordStatusChange (ride_id saved) (Some previous) next ctx)) (\<lambda>_.
                      Ret (saved, True))))) ?Q" if id: "\<forall>r. found = Some r \<longrightarrow> ride_id r = k" for found
  proof (rule traffic.sat_throw_None)
    fix r assume r: "found = Some r"
    show "traffic.sat (knows (set_option found) {}) (if status r \<notin> set allowed then Ret (r, False)
           else if status r = next then Ret (r, False)
           else (let previous = status r;
                     r1 = r\<lparr>status := next\<rparr>;
                     r2 = (if truthy ctx \<and> next = CANCELED then r1\<lparr>cancelReason := ctx\<rparr> else r1)
                 in bindP (updateRideP r2) (\<lambda>saved.
                    bindP (awaitE (recordStatusChange (ride_id saved) (Some previous) next ctx)) (\<lambda>_.
                      Ret (saved, True))))) ?Q"
    proof (cases "status r \<in> set allowed \<and> status r \<noteq> next")
      case True
      define r2 where "r2 = (if truthy ctx \<and> next = CANCELED then r\<lparr>status := next, cancelReason := ctx\<rparr> else r\<lparr>status := next\<rparr>)"
      have "status r \<in> declared next" "ride_id r2 = k" "\<And>s. kept_ride r s \<Longrightarrow> kept_ride r2 s"
        using assms True r id same by (auto simp: r2_def)
      from change [OF this] show ?thesis using True r by (simp add: Let_def r2_def [symmetric])
    next
      case False
      then show ?thesis using r id by (auto intro!: traffic.sat_ret)
    qed
  qed
  show ?thesis unfolding transitionRideStatusP_def
    by (rule traffic.sat_bind [OF sat_find_ride], rule traffic.sat_fact) (rule read)
qed

lemma safe_change [safely]:
  assumes "set allowed - {next} \<subseteq> declared next" and "\<And>p b. ride_id p = k \<Longrightarrow> safe (insert p R) C (g p b)"
  shows "safe R C (bindP (transitionRideStatusP k allowed next ctx) (case_prod g))"
proof (rule safe_learn [where R' = "\<lambda>a. {fst a}" and C' = "\<lambda>_. {}" and F = "\<lambda>a. ride_id (fst a) = k"])
  have "traffic.sat (knows R C) (transitionRideStatusP k allowed next ctx) (\<lambda>(p, _) s. knows {p} {} s \<and> ride_id p = k)"
    by (rule traffic.sat_weaken [OF sat_change [OF assms(1)]]) (simp add: knows_def)
  then show "traffic.sat (knows R C) (transitionRideStatusP k allowed next ctx)
      (\<lambda>a s. knows {fst a} {} s \<and> ride_id (fst a) = k)"
    by (simp add: case_prod_beta')
qed (use assms(2) in \<open>auto split: prod.split\<close>)

lemma keep_candidate:
  assumes wf: "wf_world s" and c: "invitation_of c \<in> invitation_of ` set (candidates s)"
  shows "wf_world (snd (saveCandidate c None s)) \<and> keeps_record s (snd (saveCandidate c None s))"
proof -
  obtain x where x: "x \<in> set (candidates s)" "invitation_of x = invitation_of c" using c by auto
  then have ids: "cand_id x = cand_id c" "cand_rideId x = cand_rideId c" "cand_driverId x = cand_driverId c"
    by (simp_all add: invitation_of_def)
  have distinct: "distinct (map cand_id (candidates s))" and "cand_id c \<noteq> []" "cand_rideId c \<noteq> []"
    using wf x(1) ids issued_nonempty by (auto simp: wf_world_def)
  moreover have "row_find cand_id (cand_id c) (candidates s) = Some x"
  proof -
    have "row_find cand_id (cand_id c) (candidates s) \<noteq> None" using x(1) ids(1) by (auto simp: row_find_None_iff)
    then obtain y where y: "row_find cand_id (cand_id c) (candidates s) = Some y" by blast
    then have "y = x" using inj_by_id [OF wf, of y x] x(1) ids(1) by (auto dest: row_find_SomeD)
    then show ?thesis using y by simp
  qed
  ultimately have run: "saveCandidate c None s = (Inr (saved_candidate (clock s) x c),
      s\<lparr>candidates := row_put cand_id (saved_candidate (clock s) x c) (candidates s)\<rparr>)"
    by (simp add: saveCandidate_run)
  have saved: "cand_id (saved_candidate (clock s) x c) = cand_id x" "cand_rideId (saved_candidate (clock s) x c) = cand_rideId x"
      "cand_driverId (saved_candidate (clock s) x c) = cand_driverId x"
    using ids by (simp_all add: saved_candidate_def)
  then have "map invitation_of (row_put cand_id (saved_candidate (clock s) x c) (candidates s)) = map invitation_of (candidates s)"
    unfolding put_candidate_map [OF distinct x(1) saved(1)] by (simp add: invitation_of_def)
  then have "invitation_of ` set (row_put cand_id (saved_candidate (clock s) x c) (candidates s)) = invitation_of ` set (candidates s)"
    by (metis set_map)
  then show ?thesis using move_wf [OF move_put_candidate [OF wf x(1) saved refl refl]]
    by (simp add: run keeps_record_def)
qed

lemma safe_save [safely]: "invitation_of c \<in> invitation_of ` C \<Longrightarrow> safe R C (awaitE (saveCandidate c None))"
  by (rule safe_step, rule keep_candidate) (auto simp: knows_def)

lemma safe_saves [safely]: "invitation_of ` set cs \<subseteq> invitation_of ` C \<Longrightarrow> safe R C (awaitE (saveManyCandidates cs None))"
proof (rule safe_step)
  fix s assume sub: "invitation_of ` set cs \<subseteq> invitation_of ` C" and s: "wf_world s" "knows R C s"
  let ?I = "\<lambda>s'. wf_world s' \<and> keeps_record s s'"
  have "keeps ?I (saveCandidate c None)" if "c \<in> set cs" for c
    unfolding keeps_def
  proof (intro allI impI)
    fix s' assume s': "?I s'"
    have "invitation_of c \<in> invitation_of ` C" by (rule subsetD [OF sub]) (rule imageI [OF that])
    moreover have "invitation_of ` C \<subseteq> invitation_of ` set (candidates s)" using s(2) by (simp add: knows_def)
    moreover have "invitation_of ` set (candidates s) \<subseteq> invitation_of ` set (candidates s')" using s' record_invitations by simp
    ultimately have "invitation_of c \<in> invitation_of ` set (candidates s')" by (meson subsetD)
    then show "?I (snd (saveCandidate c None s'))" using keep_candidate s' keeps_record_trans by blast
  qed
  then have "keeps ?I (mapE (\<lambda>c. saveCandidate c None) cs)" by (induction cs) (simp_all add: keeping)
  then show "?I (snd (saveManyCandidates cs None s))"
    using s(1) keeps_record_refl by (simp add: saveManyCandidates_def keeps_def)
qed

lemma safe_claim [safely]: "d \<noteq> [] \<Longrightarrow> safe R C (awaitE (claimDriver k d))"
proof (rule safe_step)
  fix s assume d: "d \<noteq> []" and wf: "wf_world s"
  show "wf_world (snd (claimDriver k d s)) \<and> keeps_record s (snd (claimDriver k d s))"
  proof (cases "row_find ride_id k (rides s)")
    case None
    then show ?thesis using wf keeps_record_refl by (simp add: claimDriver_run)
  next
    case (Some r)
    let ?r = "r\<lparr>driverId := Some d, updatedAt := clock s\<rparr>"
    have "row_find ride_id (ride_id ?r) (rides s) = Some r" "order_of ?r = order_of r"
      using Some row_find_SomeD [OF Some] by (simp_all add: order_of_def)
    then show ?thesis using record_put_ride [OF wf, of ?r r] Some wf d keeps_record_refl by (simp add: claimDriver_run)
  qed
qed

lemma invitation_answered [simp]: "invitation_of (with_response st why now c) = invitation_of c"
  "invitation_of (confirmed_candidate d now c) = invitation_of c"
  by (simp_all add: invitation_of_def with_response_def confirmed_candidate_def)

lemma knows_member: "knows R C s \<Longrightarrow> r \<in> R \<Longrightarrow> kept_ride r s"
  by (simp add: knows_def)

section \<open>Every request keeps the record\<close>

lemma safe_let [safely]: "safe R C (f v) \<Longrightarrow> safe R C (let x = v in f x)"
  by simp

lemma safe_reply [safely]:
  assumes "\<And>x. safe R C (f x)" and "\<And>c m. safe R C (g c m)" and "\<And>m. safe R C (h m)" and "safe R C u"
  shows "safe R C (case reply of PspOk x \<Rightarrow> f x | PspHttpError c m \<Rightarrow> g c m | PspError m \<Rightarrow> h m | PspUnknown \<Rightarrow> u)"
  using assms by (simp split: psp_reply.split)

lemma safe_role [safely]: "safe R C p \<Longrightarrow> safe R C q \<Longrightarrow> safe R C (case x of RIDER \<Rightarrow> p | DRIVER \<Rightarrow> q)"
  by (simp split: client_type.split)

lemma safe_process [safely]: "safe R C (processOutboxP pe i)"
  unfolding processOutboxP_def by (intro safely harmlessly)

lemma safe_job [safely]: "safe R C (runPaymentJobP pe n i)"
  by (induction n) (simp_all only: runPaymentJobP.simps, (intro safely | assumption)+)

lemma safe_proceed [safely]: "safe R C (proceedRidePaymentP pe k rider)"
proof -
  have job: "harmless (writeE (\<lambda>s. s\<lparr>paymentJobs := f s\<rparr>))" for f
    by (rule harmless_write) (simp add: same_rides_def)
  show ?thesis unfolding proceedRidePaymentP_def initiatePaymentP_def requestPaymentP_def storeLinkP_def
    by (intro safely harmlessly job)
qed

lemma safe_notice [safely]: "safe R C (handlePaymentNotificationP pe n ip)"
  unfolding handlePaymentNotificationP_def by (intro safely harmlessly)

text \<open>The rules for the rides, those that learn from a read before the general ones.\<close>

lemmas safe_rides = safe_ended safe_cases safe_let safe_find safe_invitation safe_invitations safe_update safe_change
  safe_bind safe_save safe_saves safe_claim safe_harmless safe_role

lemma safe_accept [safely]: "safe R C (acceptRideByDriverP k d)"
  unfolding acceptRideByDriverP_def takeRideP_def finishAcceptP_def markCandidateSupersededP_def
  by (intro safe_rides harmlessly) auto

lemma safe_decline [safely]: "safe R C (rejectRideByDriverP k d why)"
  unfolding rejectRideByDriverP_def releaseRideP_def
  by (intro safe_rides harmlessly) (auto simp: knows_def kept_ride_def order_of_def)

lemma safe_confirm [safely]: "safe R C (confirmDriverAcceptanceP k rider)"
  unfolding confirmDriverAcceptanceP_def answerCandidatesP_def
  by (intro safe_rides harmlessly) (auto simp: image_def)

lemma safe_turn_down [safely]: "safe R C (rejectDriverAcceptanceP k rider why)"
  unfolding rejectDriverAcceptanceP_def
  by (intro safe_rides harmlessly) (auto simp: knows_def kept_ride_def order_of_def)

lemma safe_cancel [safely]: "safe R C (cancelRideP re k req why)"
  unfolding cancelRideP_def cancelCandidatesP_def
  by (intro safe_rides harmlessly) (auto simp: knows_def kept_ride_def order_of_def)

lemma safe_create [safely]:
  assumes env: "env_ok re"
  shows "safe R C (createRideP re rider payload)"
proof -
  have drivers: "traffic.sat (knows R C) (awaitE (liftE (nearby re lon lat n))) (\<lambda>ds s. knows {} {} s \<and> nearby_ok ds)" for R C lon lat n
    by (rule sat_reads [OF harmless_base(4)]) (use env in \<open>auto simp: knows_def env_ok_def\<close>)
  have "safe R C (createMatchedRideP re rider payload job)" for job
    unfolding createMatchedRideP_def
    by (rule safe_catch, rule safe_bind, intro safe_rides harmlessly, rule safe_learn [OF drivers])
      (auto intro!: safe_rides harmlessly harmless_create)
  then show ?thesis unfolding createRideP_def by (intro safe_rides harmlessly)
qed

lemma harmless_redis [harmlessly]:
  "harmless (writeE (\<lambda>s. s\<lparr>tripActive := f s\<rparr>))" "harmless (writeE (\<lambda>s. s\<lparr>tripEvents := g s\<rparr>))"
  "harmless (writeE (\<lambda>s. s\<lparr>tripStates := h s\<rparr>))" "harmless (writeE (\<lambda>s. s\<lparr>clock := c s\<rparr>))"
  by (rule harmless_write, simp add: same_rides_def)+

lemma safe_record [safely]: "safe R C (recordLocationP env k c role loc)"
  unfolding recordLocationP_def storeLocationP_def by (intro safely harmlessly)

lemma safe_flush [safely]: "safe R C (flushRideP env k)"
  unfolding flushRideP_def moveEventsP_def cleanupRideP_def by (intro safely harmlessly)

lemma safe_mark [safely]: "safe R C (markRideCompletedP env k)"
  unfolding markRideCompletedP_def by (intro safely harmlessly)

lemma safe_track [safely]: "safe R C (recordTripLocationP te k req loc)"
  unfolding recordTripLocationP_def by (intro safe_rides safe_record harmlessly)

lemma safe_start [safely]: "safe R C (startRideP te k driver loc)"
  unfolding startRideP_def by (intro safe_rides safe_record harmlessly) auto

lemma safe_complete [safely]: "safe R C (completeRideP te k req loc discount)"
  unfolding completeRideP_def finishRideP_def
  by (intro safe_rides safe_record safe_mark harmlessly) (auto simp: knows_def kept_ride_def order_of_def with_fare_def)

lemma safe_request: "env_ok re \<Longrightarrow> safe R C (requestP re te pe q)"
  by (cases q) (auto simp: unanswered_def intro!: safely harmlessly)

text \<open>
  C5. The record survives all traffic: let any requests of riders and drivers, jobs of the queues,
  notifications of the provider, passing of time and expiry of Redis keys run at once, with their
  queries, transactions and Redis commands interleaved in any order. Then the tables stay well
  formed (identifiers are unique, no driver is invited twice to a ride, no invitation and no
  history entry is without its ride), no ride disappears or changes what its rider ordered, every
  invitation keeps its ride and driver, the history only grows, each new entry being a change
  the operations declare, and stored locations stay.
\<close>

theorem record_survives:
  assumes "reachable re te pe s" and "env_ok re"
    and "run_pool schedule (s, map (requestP re te pe) requests) = (s', ps)"
  shows "wf_world s' \<and>
    (\<forall>k r. row_find ride_id k (rides s) = Some r \<longrightarrow>
       (\<exists>r'. row_find ride_id k (rides s') = Some r' \<and> order_of r' = order_of r)) \<and>
    invitation_of ` set (candidates s) \<subseteq> invitation_of ` set (candidates s') \<and>
    (\<exists>hs. history s' = history s @ hs \<and> (\<forall>h \<in> set hs. change_ok (fromStatus h) (toStatus h))) \<and>
    (\<exists>ts. tripTracks s' = tripTracks s @ ts)"
proof -
  have wf: "wf_world s" using reachable_life [OF assms(1,2)] by blast
  have "traffic.sat (knows {} {}) (requestP re te pe q) (\<lambda>_ _. True)" for q
    using safe_request [OF assms(2), of "{}" "{}" te pe q] by (simp add: safe_def)
  then have "traffic.pool_ok (\<lambda>_ _ _. True) (s, map (requestP re te pe) requests)"
    using wf by (auto simp: traffic.pool_ok_def knows_def intro!: exI [of _ "knows {} {}"])
  from traffic.pool_ok_run [OF this, of schedule] have "wf_world s'" "keeps_record s s'"
    by (simp_all add: assms(3) traffic.pool_ok_def)
  then show ?thesis by (simp add: keeps_record_def entry_ok_def)
qed

text \<open>A trip that starts while the rider cancels, pays and reports, and the ride after any schedule.\<close>

definition demo_traffic :: "request list" where
  "demo_traffic = [Start ''1'' ''11'' demo_spot, Cancel ''1'' \<lparr>req_id = ''7'', req_role = Some RIDER\<rparr> None,
     Track ''1'' \<lparr>req_id = ''7'', req_role = Some RIDER\<rparr> demo_spot, Pay ''1'' ''7'', FlushRide (Some ''1'')]"

theorem record_survives_witness:
  "\<exists>r. row_find ride_id ''1'' (rides (fst (run_pool [0, 1, 2, 0, 2, 3, 4, 2, 0, 1, 1, 2, 4]
      (demo_enroute, map (requestP demo_env demo_track demo_pay_env) demo_traffic)))) = Some r \<and> riderId r = ''7''"
proof -
  obtain r where r: "row_find ride_id ''1'' (rides demo_enroute) = Some r" "riderId r = ''7''"
    using demo_enroute_row by blast
  obtain s' ps where run: "run_pool [0, 1, 2, 0, 2, 3, 4, 2, 0, 1, 1, 2, 4]
      (demo_enroute, map (requestP demo_env demo_track demo_pay_env) demo_traffic) = (s', ps)" by fastforce
  obtain r' where "row_find ride_id ''1'' (rides s') = Some r'" "order_of r' = order_of r"
    using record_survives [OF demo_worlds_reachable(2) [of demo_track demo_pay_env] demo_env_ok run] r(1) by blast
  then show ?thesis using r(2) run by (simp add: order_of_def)
qed

section \<open>Every request ends\<close>

lemma ends_cases: "ends_within n p \<Longrightarrow> ends_within n q \<Longrightarrow> ends_within n (case x of RIDER \<Rightarrow> p | DRIVER \<Rightarrow> q)"
  by (simp split: client_type.split)

lemma ends_create: "ends_within 8 (createRideP re rider payload)"
proof -
  have "ends_within 6 (createMatchedRideP re rider payload job)" for job
    unfolding createMatchedRideP_def
    by (rule ends_catch [where n = 5 and m = 1]) (auto intro!: ends_intros split: prod.split)
  then show ?thesis unfolding createRideP_def by (auto intro!: ends_intros)
qed

lemma ends_record: "ends_within 5 (recordLocationP env k c role loc)"
  unfolding recordLocationP_def storeLocationP_def Let_def
  by (cases role) (auto intro!: ends_intros ends_seq [OF ends_await] split: option.split)

lemma ends_release: "ends_within 8 (releaseRideP d why r)"
  unfolding releaseRideP_def
  by (auto intro!: ends_seq [OF ends_update] ends_seq [OF ends_transition] split: prod.split)

lemma ends_decline: "ends_within 14 (rejectRideByDriverP k d why)"
  unfolding rejectRideByDriverP_def Let_def
  by (auto intro!: ends_intros ends_seq [OF ends_release] split: option.split)

lemma ends_confirm: "ends_within 13 (confirmDriverAcceptanceP k rider)"
proof -
  have "ends_within 4 (answerCandidatesP u c cs ls)" for u c cs ls
    unfolding answerCandidatesP_def by (auto intro!: ends_intros ends_seq [of 1])
  then show ?thesis unfolding confirmDriverAcceptanceP_def Let_def
    by (auto intro!: ends_intros ends_seq [OF ends_transition] split: option.split prod.split)
qed

lemma ends_turn_down: "ends_within 14 (rejectDriverAcceptanceP k rider why)"
  unfolding rejectDriverAcceptanceP_def Let_def
  by (auto intro!: ends_intros ends_seq [OF ends_update] ends_seq [OF ends_transition] split: option.split prod.split)

lemma ends_flush: "ends_within 8 (flushRideP env k)"
  unfolding flushRideP_def moveEventsP_def cleanupRideP_def
  by (auto intro!: ends_intros split: prod.split)

lemma ends_mark: "ends_within 3 (markRideCompletedP env k)"
  unfolding markRideCompletedP_def by (auto intro!: ends_intros)

lemma ends_track: "ends_within 7 (recordTripLocationP te k req loc)"
  unfolding recordTripLocationP_def
  by (auto intro!: ends_intros ends_seq [OF ends_record] split: option.split client_type.split)

lemma ends_start: "ends_within 17 (startRideP te k driver loc)"
  unfolding startRideP_def Let_def
  by (auto intro!: ends_intros ends_seq [OF ends_record] ends_seq [OF ends_transition] split: option.split prod.split)

lemma ends_complete: "ends_within 26 (completeRideP te k req loc discount)"
proof -
  have finish: "ends_within 13 (finishRideP te k fare)" for k fare
    unfolding finishRideP_def
    by (auto intro!: ends_intros ends_seq [OF ends_transition] ends_seq [OF ends_mark] ends_seq [OF ends_update] split: prod.split)
  show ?thesis unfolding completeRideP_def Let_def
    by (auto simp: bindP_assoc intro!: ends_intros ends_seq [OF ends_record] ends_mono [OF finish] split: option.split)
qed

lemma ends_process: "ends_within 7 (processOutboxP pe i)"
  unfolding processOutboxP_def Let_def by (auto intro!: ends_intros split: option.split psp_reply.split)

lemma ends_job: "ends_within (7 * n) (runPaymentJobP pe n i)"
proof (induction n)
  case (Suc n)
  have "ends_within 7 (bindP (processOutboxP pe i) (\<lambda>_. Ret True))" by (rule ends_seq [OF ends_process]) simp_all
  then show ?case using Suc by (auto intro!: ends_catch [where n = 7 and m = "7 * n"])
qed simp

lemma ends_proceed: "ends_within 46 (proceedRidePaymentP pe k rider)"
proof -
  have job: "ends_within 35 (runPaymentJobP pe (min payment_queue_attempts m) i)" for m i
    by (rule ends_mono [OF ends_job]) (simp add: payment_queue_attempts_def)
  have ask: "ends_within 41 (requestPaymentP pe r found)" for r found
    unfolding requestPaymentP_def Let_def
    by (auto intro!: ends_intros ends_seq [OF job] split: option.split prod.split)
  have "ends_within 43 (initiatePaymentP pe r)" for r
    unfolding initiatePaymentP_def by (auto intro!: ends_intros ask)
  then show ?thesis unfolding proceedRidePaymentP_def storeLinkP_def
    by (auto intro!: ends_intros ends_seq [of 43] split: option.split)
qed

lemma ends_notice: "ends_within 6 (handlePaymentNotificationP pe n ip)"
  unfolding handlePaymentNotificationP_def Let_def
  by (auto intro!: ends_intros split: option.split prod.split)

lemma ends_request: "ends_within 50 (requestP re te pe q)"
proof -
  have drop: "ends_within n p \<Longrightarrow> n \<le> 50 \<Longrightarrow> ends_within 50 (unanswered p)" for n and p :: "(world, 'x) prog"
    unfolding unanswered_def by (rule ends_seq) simp_all
  show ?thesis
    by (cases q) (auto intro: drop [OF ends_create] drop [OF ends_cancel] drop [OF ends_accept] drop [OF ends_decline]
      drop [OF ends_confirm] drop [OF ends_turn_down] drop [OF ends_start] drop [OF ends_complete] drop [OF ends_proceed]
      drop [OF ends_process] drop [OF ends_notice] ends_mono [OF ends_track] ends_mono [OF ends_flush] ends_await)
qed



end
