(* ===== verification/Concurrent_Sessions.thy ===== *)
theory Concurrent_Sessions
  imports Authentication Interleaving
begin

text \<open>
  Sign-ins, refreshes and logouts at the same time: \<open>AuthenticationService\<close>
  (\<open>iam/domain/services/authentication.service.ts\<close>) with a step for every awaited query, cache
  command or call of a library. \<open>Authentication\<close> runs the same methods one at a time; here each
  is proved to be its solo run. The members of a \<open>Promise.all\<close> are steps in the order they are
  sent; drawing a random identifier is a step of its own, which only adds schedules.
\<close>

section \<open>Methods as programs\<close>

definition getOtpP :: "auth_env \<Rightarrow> string \<Rightarrow> client_type \<Rightarrow> (auth_world, string) prog" where
  "getOtpP env clientId clientType =
     bindP (awaitE (getClientData clientId (Some clientType))) (\<lambda>client.
       if client = [] then Throw (BadRequest ''Client not found'')
       else let m = cl_msisdn (hd client); cachedKey = getOtpCachedKey m;
                jobId = ''send-otp-'' @ m @ CHR ''-'' # client_type_text clientType
            in bindP (awaitE draw) (\<lambda>n. bindP (awaitE draw) (\<lambda>salt.
               let otpCode = generateOtp env n; hashedCode = bcrypt_hash env salt otpCode
               in bindP (awaitE (cache_set cachedKey hashedCode (otp_ttl env))) (\<lambda>_.
                  bindP (awaitE (emitOtpSimulationEvent m clientType otpCode)) (\<lambda>_.
                    if truthy (skip_sms_notif env) then Ret ''otp code sent''
                    else bindP (awaitE (sendOtpQueue_add env \<lparr>oj_id = jobId, oj_msisdn = m, oj_otp = otpCode\<rparr>)) (\<lambda>_.
                           Ret ''otp code sent''))))))"

definition generateTokensP :: "auth_env \<Rightarrow> client_row \<Rightarrow> (auth_world, tokens) prog" where
  "generateTokensP env client =
     bindP (awaitE draw) (\<lambda>n. bindP (awaitE draw) (\<lambda>k.
       let accessTokenId = randomUUID env n; refreshTokenId = randomUUID env k;
           base = \<lparr>cm_sub = cl_id client, cm_role = Some (cl_role client), cm_accessTokenId = None,
                   cm_refreshTokenId = None\<rparr>
       in bindP (awaitE (signToken env (accessTokenTtl env) (base\<lparr>cm_accessTokenId := Some accessTokenId\<rparr>))) (\<lambda>accessToken.
          bindP (awaitE (signToken env (refreshTokenTtl env) (base\<lparr>cm_refreshTokenId := Some refreshTokenId\<rparr>))) (\<lambda>refreshToken.
          bindP (awaitE (cache_set (getRefreshTokenCacheKey (Some (cl_role client)) (cl_id client)) refreshTokenId
                   (Some (refreshTokenTtl env)))) (\<lambda>_.
          bindP (awaitE (cache_set (getAccessTokenKey (Some (cl_role client)) (cl_id client)) accessTokenId
                   (Some (accessTokenTtl env * 1000)))) (\<lambda>_.
            Ret \<lparr>tk_accessToken = accessToken, tk_refreshToken = refreshToken\<rparr>))))))"

definition verifyOtpP :: "auth_env \<Rightarrow> string \<Rightarrow> client_type \<Rightarrow> string \<Rightarrow> (auth_world, tokens) prog" where
  "verifyOtpP env clientId clientType otpCode =
     bindP (awaitE (getClientData clientId (Some clientType))) (\<lambda>client.
       if client = [] then Throw (BadRequest ''Client not found'')
       else let cachedKey = getOtpCachedKey (cl_msisdn (hd client))
            in bindP (awaitE (cache_get cachedKey)) (\<lambda>cachedHashedOtpCode.
               if \<not> truthy cachedHashedOtpCode
               then Throw (Unauthorized (''Otp code not found : '' @ otpCode))
               else if \<not> bcrypt_compare env otpCode (the cachedHashedOtpCode)
               then Throw (Unauthorized ''invalid otp-code'')
               else bindP (awaitE (cache_del cachedKey)) (\<lambda>_. generateTokensP env (hd client))))"

definition getClientAndTokenIdInfoP ::
  "auth_env \<Rightarrow> string \<Rightarrow> (auth_world, client_row list \<times> string option) prog" where
  "getClientAndTokenIdInfoP env refreshToken =
     bindP (awaitE (readE (\<lambda>s. jwt_verify env (jwt_secret env) (au_now s) refreshToken))) (\<lambda>payload.
       case payload of
         None \<Rightarrow> Throw (JsError ''invalid token'')
       | Some c \<Rightarrow> bindP (awaitE (getClientData (cm_sub c) (cm_role c))) (\<lambda>client.
           Ret (client, cm_refreshTokenId c)))"

definition validateRefreshTokenP :: "client_row list \<Rightarrow> string option \<Rightarrow> (auth_world, bool) prog" where
  "validateRefreshTokenP client refreshTokenId =
     (let cachedRefreshTokenKey = getRefreshTokenCacheKey (Some (cl_role (hd client))) (cl_id (hd client))
      in bindP (awaitE (cache_get cachedRefreshTokenKey)) (\<lambda>refreshTokenIdFromCache.
           if refreshTokenIdFromCache = refreshTokenId
           then bindP (awaitE (cache_del cachedRefreshTokenKey)) (\<lambda>_. Ret True)
           else Ret False))"

definition getRefreshTokenP :: "auth_env \<Rightarrow> string \<Rightarrow> (auth_world, tokens) prog" where
  "getRefreshTokenP env refreshToken =
     catchP
       (bindP (getClientAndTokenIdInfoP env refreshToken) (\<lambda>(client, refreshTokenId).
        bindP (validateRefreshTokenP client refreshTokenId) (\<lambda>isValidRefreshToken.
          if isValidRefreshToken then generateTokensP env (hd client)
          else Throw (BadRequest ''error validating refresh token''))))
       (\<lambda>_. Throw (Unauthorized ''Unauthoried refreshtoken''))"

definition logoutP :: "auth_env \<Rightarrow> string \<Rightarrow> (auth_world, string) prog" where
  "logoutP env refreshToken =
     bindP (getClientAndTokenIdInfoP env refreshToken) (\<lambda>(client, refreshTokenId).
     bindP (validateRefreshTokenP client refreshTokenId) (\<lambda>isValidRefreshToken.
       if isValidRefreshToken
       then bindP (awaitE (cache_del (getAccessTokenKey (Some (cl_role (hd client))) (cl_id (hd client))))) (\<lambda>_.
              Ret ''successfully logout'')
       else Throw (BadRequest ''error validating refresh token'')))"

section \<open>Alone, they are the methods\<close>

lemma solo_getOtp: "solo (getOtpP env k t) = getOtp env k t"
  by (simp add: getOtpP_def getOtp_def thenE_def Let_def cong: if_cong)

lemma solo_tokens: "solo (generateTokensP env c) = generateTokens env c"
  by (simp add: generateTokensP_def generateTokens_def thenE_def Let_def)

lemma solo_verify: "solo (verifyOtpP env k t code) = verifyOtp env k t code"
  by (simp add: verifyOtpP_def verifyOtp_def solo_tokens thenE_def Let_def cong: if_cong)

lemma solo_info: "solo (getClientAndTokenIdInfoP env tok) = getClientAndTokenIdInfo env tok"
  by (simp add: getClientAndTokenIdInfoP_def getClientAndTokenIdInfo_def cong: option.case_cong)

lemma solo_validate: "solo (validateRefreshTokenP client i) = validateRefreshToken client i"
  by (simp add: validateRefreshTokenP_def validateRefreshToken_def thenE_def Let_def cong: if_cong)

lemma solo_refresh: "solo (getRefreshTokenP env tok) = getRefreshToken env tok"
  by (simp add: getRefreshTokenP_def getRefreshToken_def solo_info solo_validate solo_tokens cong: if_cong prod.case_cong)

lemma solo_logout: "solo (logoutP env tok) = logout env tok"
  by (simp add: logoutP_def logout_def solo_info solo_validate thenE_def cong: if_cong prod.case_cong)

end
