(* ===== verification/Concurrent_Session_Guarantees.thy ===== *)
theory Concurrent_Session_Guarantees
  imports Auth_Guarantees Concurrent_Sessions
begin

text \<open>
  What holds of sign-ins, refreshes and logouts that interleave: wrong codes never open a session
  nor disturb the right one, however many are tried at once; but a code opens two sessions, and a
  refresh that overlaps a logout leaves the client signed in.
\<close>

section \<open>Wrong codes\<close>

interpretation untouched: rely_guarantee "(=) start" "(=)" for start :: auth_world
  by unfold_locales simp_all

lemma stable_untouched [simp]: "untouched.stable start P"
  by (simp add: untouched.stable_def)

lemma guess_fails:
  assumes "\<And>m h. cached start (getOtpCachedKey m) = Some h \<Longrightarrow> \<not> bcrypt_compare env code h"
  shows "untouched.sat start (\<lambda>_. True) (verifyOtpP env k t code) (\<lambda>_ _. False)"
proof -
  have get: "fst (cache_get j start) = Inr (cached start j)" for j
    by (simp add: run_get)
  have client: "untouched.sat start P (awaitE (getClientData k (Some t))) (\<lambda>_ _. True)" for P
    by (rule untouched.sat_await) (auto simp: run_getClientData split: list.split)
  have look: "untouched.sat start P (awaitE (cache_get j)) (\<lambda>a _. fst (cache_get j start) = Inr a)" for P j
    by (rule untouched.sat_await) (auto simp: run_get)
  show ?thesis unfolding verifyOtpP_def Let_def
  proof (rule untouched.sat_bind [OF client], rule untouched.sat_throw_if, rule untouched.sat_bind [OF look])
    fix client :: "client_row list" and found
    let ?key = "getOtpCachedKey (cl_msisdn (hd client))"
    show "untouched.sat start (\<lambda>s. fst (cache_get ?key start) = Inr found)
        (if \<not> truthy found then Throw (Unauthorized (''Otp code not found : '' @ code))
         else if \<not> bcrypt_compare env code (the found) then Throw (Unauthorized ''invalid otp-code'')
         else bindP (awaitE (cache_del ?key)) (\<lambda>_. generateTokensP env (hd client))) (\<lambda>_ _. False)"
    proof (cases "cached start ?key = found \<and> truthy found \<and> bcrypt_compare env code (the found)")
      case True
      then obtain h where "found = Some h" by (cases found) simp_all
      then show ?thesis using True assms [of "cl_msisdn (hd client)" h] by simp
    next
      case False
      then consider "cached start ?key \<noteq> found" | "\<not> truthy found" | "\<not> bcrypt_compare env code (the found)" by blast
      then show ?thesis
        by cases (auto simp: get intro: untouched.sat_throw untouched.sat_weaken [OF untouched.sat_never])
    qed
  qed
qed

text \<open>
  C37. Wrong codes are harmless, however many are tried at once: when no cached code matches any of
  the guesses, then whatever way the verifications interleave, none of them returns tokens and
  nothing is changed, so the right code still opens its session.
\<close>

theorem wrong_codes_harmless:
  assumes "\<forall>(k, t, code) \<in> set guesses. \<forall>m h. cached s (getOtpCachedKey m) = Some h \<longrightarrow> \<not> bcrypt_compare env code h"
    and "run_pool schedule (s, map (\<lambda>(k, t, code). verifyOtpP env k t code) guesses) = (s', ps)"
  shows "s' = s \<and> length ps = length guesses \<and> (\<forall>p \<in> set ps. \<forall>tk. p \<noteq> Ret tk)"
proof -
  have "untouched.sat s (\<lambda>_. True) (case guess of (k, t, code) \<Rightarrow> verifyOtpP env k t code) (\<lambda>_ _. False)"
    if "guess \<in> set guesses" for guess
    using assms(1) that by (cases guess) (auto intro!: guess_fails)
  then have ok: "untouched.pool_ok s (\<lambda>_ _ _. False) (s, map (\<lambda>(k, t, code). verifyOtpP env k t code) guesses)"
    unfolding untouched.pool_ok_def by (simp, intro allI impI exI [of _ "\<lambda>_. True"]) simp
  have all: "untouched.pool_ok s (\<lambda>_ _ _. False) (s', ps) \<and> s = s' \<and> length ps = length guesses"
    by (rule untouched.pool_ok_run [OF ok, of schedule, unfolded assms(2) fst_conv snd_conv length_map])
  note run = all [THEN conjunct1] all [THEN conjunct2, THEN conjunct1] all [THEN conjunct2, THEN conjunct2]
  show ?thesis
  proof (intro conjI ballI allI)
    show "s' = s" by (rule run(2) [symmetric])
    show "length ps = length guesses" by (rule run(3))
    fix p tk assume "p \<in> set ps"
    then obtain i where i: "i < length ps" "ps ! i = p" by (auto simp: in_set_conv_nth)
    show "p \<noteq> Ret tk"
    proof
      assume "p = Ret tk"
      then show False using untouched.pool_result [OF run(1), of i tk] i by simp
    qed
  qed
qed

section \<open>A logout during a refresh\<close>

text \<open>The answers of calls of different types, side by side.\<close>

definition answered :: "('a \<Rightarrow> 'b) \<Rightarrow> ('s, 'a) prog \<Rightarrow> ('s, 'b) prog" where
  "answered f p = bindP p (\<lambda>a. Ret (f a))"

lemma solo_answered: "solo (answered f p) s = (case solo p s of (Inl e, s') \<Rightarrow> (Inl e, s') | (Inr a, s') \<Rightarrow> (Inr (f a), s'))"
  by (simp add: answered_def run_bind split: prod.split sum.split)

lemma own_catch:
  "own_steps (Suc n) (s, bindP (catchP (bindP (awaitE m) g) h) f) =
     (case m s of (Inl e, s') \<Rightarrow> own_steps n (s', bindP (h e) f) | (Inr a, s') \<Rightarrow> own_steps n (s', bindP (catchP (g a) h) f))"
  by (simp add: awaitE_def split: prod.split sum.split)

text \<open>What is left of a refresh that has found its identifier in the cache.\<close>

definition pending_refresh :: "auth_env \<Rightarrow> client_row \<Rightarrow> (auth_world, tokens) prog" where
  "pending_refresh env c =
     catchP (bindP (bindP (awaitE (cache_del (refresh_key c))) (\<lambda>_. Ret True)) (\<lambda>isValidRefreshToken.
        if isValidRefreshToken then generateTokensP env c
        else Throw (BadRequest ''error validating refresh token'')))
       (\<lambda>_. Throw (Unauthorized ''Unauthoried refreshtoken''))"

lemma refresh_prefix:
  assumes "jwt_verify env (jwt_secret env) (au_now s) tok = Some p"
    and "is_client c s" and "cm_sub p = cl_id c" and "cm_role p = Some (cl_role c)"
    and "cached s (refresh_key c) = cm_refreshTokenId p"
  shows "own_steps 3 (s, answered f (getRefreshTokenP env tok)) = (s, answered f (pending_refresh env c))"
  using assms run_client [OF assms(2)]
  by (simp add: eval_nat_numeral answered_def getRefreshTokenP_def getClientAndTokenIdInfoP_def validateRefreshTokenP_def
      bindP_assoc own_catch run_get pending_refresh_def Let_def)

lemma pending_done:
  "solo (pending_refresh env c) s =
     (Inr (issued env c s), after_issue env c (s\<lparr>cache := (cache s)(refresh_key c := None)\<rparr>))"
  by (simp add: pending_refresh_def solo_tokens auth_run run_generateTokens issued_def)

text \<open>
  C38. A logout that does not end the session: a refresh has found its identifier in the cache when
  the client logs out with the same token. The logout is answered as successful, the refresh then
  stores and returns new tokens, and the access token passes the guard although the client has
  logged out and has not signed in again.
\<close>

theorem session_reopened:
  assumes lib: "jwt_correct env" and ttl: "0 < accessTokenTtl env" and c: "is_client c s"
    and ver: "jwt_verify env (jwt_secret env) (au_now s) tok = Some p"
    and p: "cm_sub p = cl_id c" "cm_role p = Some (cl_role c)" and hit: "cached s (refresh_key c) = cm_refreshTokenId p"
  shows "\<exists>schedule s' tk. run_pool schedule (s, [answered Inl (getRefreshTokenP env tok), answered Inr (logoutP env tok)]) =
      (s', [Ret (Inl tk), Ret (Inr ''successfully logout'')]) \<and>
    accessTokenGuard env (bearer (tk_accessToken tk)) s' =
      (Inr \<lparr>ac_sub = cl_id c, ac_role = Some (cl_role c), ac_msisdn = cl_msisdn c\<rparr>, s')"
proof -
  define t where "t = s\<lparr>cache := (cache s)(refresh_key c := None, access_key c := None)\<rparr>"
  define u where "u = after_issue env c (t\<lparr>cache := (cache t)(refresh_key c := None)\<rparr>)"
  define tk where "tk = issued env c t"
  let ?p = "answered Inl (getRefreshTokenP env tok) :: (auth_world, tokens + string) prog"
  let ?q = "answered Inr (logoutP env tok) :: (auth_world, tokens + string) prog"
  let ?r = "answered Inl (pending_refresh env c) :: (auth_world, tokens + string) prog"
  have first: "own_steps 3 (s, ?p) = (s, ?r)"
    by (rule refresh_prefix [OF ver c p hit])
  have "solo (?q) s = (Inr (Inr ''successfully logout''), t)"
    using logout_run [OF ver c p] hit by (simp add: solo_answered solo_logout t_def)
  from solo_reach [OF this] obtain m where second: "own_steps m (s, ?q) = (t, Ret (Inr ''successfully logout''))" by (elim exE)
  have "solo (?r) t = (Inr (Inl tk), u)"
    by (simp only: solo_answered pending_done prod.case sum.case u_def tk_def)
  from solo_reach [OF this] obtain l where last: "own_steps l (t, ?r) = (u, Ret (Inl tk))" by (elim exE)
  have "run_pool (replicate 3 0 @ replicate m 1 @ replicate l 0)
      (s, [?p, ?q]) =
      (u, [Ret (Inl tk), Ret (Inr ''successfully logout'')])"
    using first second last by (simp add: run_pool_append run_own)
  moreover have "accessTokenGuard env (bearer (tk_accessToken tk)) u =
      (Inr \<lparr>ac_sub = cl_id c, ac_role = Some (cl_role c), ac_msisdn = cl_msisdn c\<rparr>, u)"
  proof -
    have "is_client c u" using c by (simp add: u_def t_def is_client_def)
    from guard_issued [OF lib this, of "access_claims env c (drawn s)" "au_now s" "accessTokenTtl env"]
    show ?thesis using ttl
      by (simp add: tk_def u_def t_def issued_def access_claims_def) (simp add: cached_def after_issue_def)
  qed
  ultimately show ?thesis by blast
qed

section \<open>Two sign-ins with one code\<close>

text \<open>
  A code that opens two sessions: both verifications read the code before either has removed it,
  and both are answered with tokens. The sessions share the entries of the cache, so the one
  whose tokens are stored first is dead at once: its access token does not pass the guard.
\<close>

theorem code_opens_two:
  assumes lib: "jwt_correct env" and fresh: "inj (randomUUID env)" and ttl: "0 < accessTokenTtl env" and c: "is_client c s"
    and code: "cached s (getOtpCachedKey (cl_msisdn c)) = Some h" "h \<noteq> []" "bcrypt_compare env code h"
  shows "\<exists>schedule s' tk tk'. run_pool schedule (s, [verifyOtpP env (cl_id c) (cl_role c) code, verifyOtpP env (cl_id c) (cl_role c) code]) =
      (s', [Ret tk, Ret tk']) \<and>
    accessTokenGuard env (bearer (tk_accessToken tk)) s' =
      (Inr \<lparr>ac_sub = cl_id c, ac_role = Some (cl_role c), ac_msisdn = cl_msisdn c\<rparr>, s') \<and>
    accessTokenGuard env (bearer (tk_accessToken tk')) s' = (Inl (Unauthorized ''Authorization failed''), s')"
proof -
  let ?key = "getOtpCachedKey (cl_msisdn c)"
  let ?call = "verifyOtpP env (cl_id c) (cl_role c) code"
  let ?rest = "bindP (awaitE (cache_del ?key)) (\<lambda>_. generateTokensP env c)"
  let ?del = "\<lambda>s. s\<lparr>cache := (cache s)(?key := None)\<rparr>"
  let ?t = "after_issue env c (?del s)" and ?tk' = "issued env c s"
  let ?u = "after_issue env c (?del ?t)" and ?tk = "issued env c ?t"
  have first: "own_steps 2 (s, ?call) = (s, ?rest)"
    using run_client [OF c] code by (simp add: eval_nat_numeral verifyOtpP_def own_await run_get Let_def)
  have "solo ?call s = (Inr ?tk', ?t)"
    using run_verify [OF c, of env code] code by (simp add: solo_verify)
  from solo_reach [OF this] obtain m where second: "own_steps m (s, ?call) = (?t, Ret ?tk')" by (elim exE)
  have "solo ?rest ?t = (Inr ?tk, ?u)" by (simp add: solo_tokens auth_run run_generateTokens issued_def)
  from solo_reach [OF this] obtain l where last: "own_steps l (?t, ?rest) = (?u, Ret ?tk)" by (elim exE)
  have run: "run_pool (replicate 2 0 @ replicate m 1 @ replicate l 0) (s, [?call, ?call]) = (?u, [Ret ?tk, Ret ?tk'])"
    using first second last by (simp add: run_pool_append run_own)
  have cu: "is_client c ?u" using c by (simp add: is_client_def)
  have now: "au_now ?u = au_now s" by simp
  have entry: "cached ?u (access_key c) = Some (randomUUID env (Suc (Suc (drawn s))))"
    using ttl by (simp add: cached_def after_issue_def)
  have "accessTokenGuard env (bearer (tk_accessToken ?tk)) ?u =
      (Inr \<lparr>ac_sub = cl_id c, ac_role = Some (cl_role c), ac_msisdn = cl_msisdn c\<rparr>, ?u)"
    using guard_issued [OF lib cu, of "access_claims env c (Suc (Suc (drawn s)))" "au_now s" "accessTokenTtl env"] ttl entry
    by (simp add: issued_def access_claims_def)
  moreover have "accessTokenGuard env (bearer (tk_accessToken ?tk')) ?u = (Inl (Unauthorized ''Authorization failed''), ?u)"
    using guard_issued [OF lib cu, of "access_claims env c (drawn s)" "au_now s" "accessTokenTtl env"] ttl entry fresh
    by (simp add: issued_def access_claims_def inj_eq)
  ultimately show ?thesis using run by blast
qed

section \<open>Examples\<close>

text \<open>A client with tokens, and one with a code.\<close>

theorem session_reopened_witness:
  "\<exists>schedule s' tk c. run_pool schedule (demo_issued,
      [answered Inl (getRefreshTokenP demo_auth (tk_refreshToken (issued demo_auth demo_client demo_signed_up))),
       answered Inr (logoutP demo_auth (tk_refreshToken (issued demo_auth demo_client demo_signed_up)))]) =
      (s', [Ret (Inl tk), Ret (Inr ''successfully logout'')]) \<and>
    accessTokenGuard demo_auth (bearer (tk_accessToken tk)) s' = (Inr c, s')"
proof -
  let ?tok = "tk_refreshToken (issued demo_auth demo_client demo_signed_up)"
  let ?p = "refresh_claims demo_auth demo_client (Suc (drawn demo_signed_up))"
  have ver: "jwt_verify demo_auth (jwt_secret demo_auth) (au_now demo_issued) ?tok = Some ?p"
    using jwt_verifies(1) [OF demo_jwt demo_conf(4)] demo_conf(6) by (simp add: issued_def)
  have c: "is_client demo_client demo_issued" using demo_is_client by simp
  have hit: "cached demo_issued (refresh_key demo_client) = cm_refreshTokenId ?p"
    using cached_issue(2) [of 5 demo_auth demo_client demo_signed_up] demo_conf(5) by (simp add: refresh_claims_def)
  have p: "cm_sub ?p = cl_id demo_client" "cm_role ?p = Some (cl_role demo_client)" by (simp_all add: refresh_claims_def)
  show ?thesis using session_reopened [OF demo_jwt demo_conf(1) c ver p hit] by blast
qed

definition demo_code_sent :: auth_world where
  "demo_code_sent = demo_signed_up\<lparr>cache := (cache demo_signed_up)(getOtpCachedKey ''+62811'' := Some (bcrypt_hash demo_auth 0 ''123456'', None))\<rparr>"

lemma demo_code:
  "is_client demo_client demo_code_sent"
  "cached demo_code_sent (getOtpCachedKey (cl_msisdn demo_client)) = Some (bcrypt_hash demo_auth 0 ''123456'')"
  "cached demo_code_sent (getOtpCachedKey m) = Some h \<Longrightarrow> h = bcrypt_hash demo_auth 0 ''123456''"
  using demo_is_client
  by (simp_all add: demo_code_sent_def is_client_def cached_def demo_client_def getOtpCachedKey_def demo_signed_up_def split: if_splits)

theorem code_opens_two_witness:
  "\<exists>schedule s' tk tk'. run_pool schedule (demo_code_sent,
      [verifyOtpP demo_auth ''7'' RIDER ''123456'', verifyOtpP demo_auth ''7'' RIDER ''123456'']) = (s', [Ret tk, Ret tk'])"
proof -
  have ids: "cl_id demo_client = ''7''" "cl_role demo_client = RIDER" by (simp_all add: demo_client_def)
  have "bcrypt_hash demo_auth 0 ''123456'' \<noteq> []" "bcrypt_compare demo_auth ''123456'' (bcrypt_hash demo_auth 0 ''123456'')"
    using demo_bcrypt by (simp_all add: bcrypt_correct_def)
  from code_opens_two [OF demo_jwt demo_conf(3,1) demo_code(1,2) this] show ?thesis unfolding ids by blast
qed

definition demo_guesses :: "(string \<times> client_type \<times> string) list" where
  "demo_guesses = [(''7'', RIDER, ''000000''), (''7'', RIDER, ''000001'')]"

theorem wrong_codes_harmless_witness:
  "fst (run_pool [0, 1, 0, 1, 1, 0, 1, 0] (demo_code_sent, map (\<lambda>(k, t, code). verifyOtpP demo_auth k t code) demo_guesses)) =
      demo_code_sent \<and>
    list_all (\<lambda>p. \<forall>tk. p \<noteq> Ret tk)
      (snd (run_pool [0, 1, 0, 1, 1, 0, 1, 0] (demo_code_sent, map (\<lambda>(k, t, code). verifyOtpP demo_auth k t code) demo_guesses)))"
    (is "fst ?run = _ \<and> _")
proof -
  have "\<not> bcrypt_compare demo_auth code h" if "cached demo_code_sent (getOtpCachedKey m) = Some h" "code \<noteq> ''123456''" for m h code
    using demo_code(3) [OF that(1)] that(2) demo_bcrypt by (simp add: bcrypt_correct_def)
  then have wrong: "\<forall>(k, t, code) \<in> set demo_guesses. \<forall>m h. cached demo_code_sent (getOtpCachedKey m) = Some h \<longrightarrow>
      \<not> bcrypt_compare demo_auth code h"
    by (simp add: demo_guesses_def)
  obtain s' ps where run: "?run = (s', ps)" by (rule prod.exhaust)
  show ?thesis using wrong_codes_harmless [OF wrong run] unfolding run by (simp add: list_all_iff)
qed

end
