(* ===== verification/Payment_Rows.thy ===== *)
theory Payment_Rows
  imports Row_Mapping
begin

text \<open>
  The rows under the payment repositories, as \<open>Row_Mapping\<close> has them for rides:
  \<open>create\<close>, \<open>mapRowToEntity\<close>, \<open>parseJsonColumn\<close>, \<open>normalizeStatus\<close> and the upserts of
  \<open>ride-payment-detail.repository.ts\<close> and \<open>payment-outbox.repository.ts\<close>, and the rows of
  \<open>ride-status-history.repository.ts\<close>. The typed \<open>persistDetail\<close> and \<open>saveOutbox\<close> of
  \<open>Payment_Repositories\<close> are what the driver rows go through.

  Outside the repository: what \<open>JSON.stringify\<close> writes and \<open>JSON.parse\<close> reads, and the document
  that PostgreSQL stores for a text cast to jsonb, the fields of \<open>json_lib\<close>.
\<close>

section \<open>JSON columns\<close>

record json_lib =
  stringify :: "json_doc \<Rightarrow> string"
  json_parse :: "string \<Rightarrow> col js option"
  to_jsonb :: "string \<Rightarrow> json_doc option"

text \<open>The database stores the document that was written.\<close>

definition stores_json :: "json_lib \<Rightarrow> json_doc \<Rightarrow> bool" where
  "stores_json jl d \<longleftrightarrow> to_jsonb jl (stringify jl d) = Some d"

definition parseJsonColumn :: "json_lib \<Rightarrow> col js \<Rightarrow> col js" where
  "parseJsonColumn jl v =
     (case v of
        Val c \<Rightarrow>
          if \<not> col_truthy c then Null
          else (case c of
                  CText t \<Rightarrow> (case json_parse jl t of None \<Rightarrow> Null | Some parsed \<Rightarrow> parsed)
                | _ \<Rightarrow> Val c)
      | _ \<Rightarrow> Null)"

text \<open>\<open>x ? JSON.stringify(x) : null\<close>, cast to jsonb; a text that is no document is an error.\<close>

definition jsonb_param :: "json_lib \<Rightarrow> col js \<Rightarrow> col option" where
  "jsonb_param jl v =
     (case v of
        Val (CDoc d) \<Rightarrow> map_option CDoc (to_jsonb jl (stringify jl d))
      | Val c \<Rightarrow> None
      | _ \<Rightarrow> Some CNull)"

section \<open>RidePaymentDetailRepository\<close>

record detail_entity =
  de_id :: "string js"
  de_rideId :: "string js"
  de_provider :: "col js"
  de_status :: "detail_status js"
  de_token :: "col js"
  de_redirectUrl :: "col js"
  de_orderId :: "col js"
  de_providerTransactionId :: "col js"
  de_requestPayload :: "col js"
  de_responsePayload :: "col js"
  de_notificationPayload :: "col js"
  de_createdAt :: "int js"
  de_updatedAt :: "int js"

definition detail_create :: "detail_entity \<Rightarrow> detail_entity" where
  "detail_create data = \<lparr>
     de_id = js_or (de_id data) Undef, de_rideId = de_rideId data,
     de_provider = js_or (de_provider data) Undef,
     de_status = js_or (de_status data) (js_or Undef (Val DPending)),
     de_token = js_or (de_token data) Null, de_redirectUrl = js_or (de_redirectUrl data) Null,
     de_orderId = js_or (de_orderId data) Null,
     de_providerTransactionId = js_or (de_providerTransactionId data) Null,
     de_requestPayload = js_or (de_requestPayload data) Null,
     de_responsePayload = js_or (de_responsePayload data) Null,
     de_notificationPayload = js_or (de_notificationPayload data) Null,
     de_createdAt = js_or (de_createdAt data) Undef, de_updatedAt = js_or (de_updatedAt data) Undef\<rparr>"

definition detail_normalizeStatus :: "js_lib \<Rightarrow> col js \<Rightarrow> detail_status" where
  "detail_normalizeStatus lib st =
     (case st of
        Val c \<Rightarrow>
          (case List.find (\<lambda>x. detail_status_text x = map to_lower (to_text lib c)) all_detail_statuses of
             Some x \<Rightarrow> x | None \<Rightarrow> DUnknown)
      | _ \<Rightarrow> DUnknown)"

definition detail_mapRowToEntity :: "js_lib \<Rightarrow> json_lib \<Rightarrow> row \<Rightarrow> detail_entity" where
  "detail_mapRowToEntity lib jl row = \<lparr>
     de_id = text_column lib row ''id'', de_rideId = text_column lib row ''ride_id'',
     de_provider = column row ''provider'',
     de_status = Val (detail_normalizeStatus lib (column row ''status'')),
     de_token = js_or (column row ''token'') Null, de_redirectUrl = js_or (column row ''redirect_url'') Null,
     de_orderId = js_or (column row ''order_id'') Null,
     de_providerTransactionId = js_or (column row ''provider_transaction_id'') Null,
     de_requestPayload = parseJsonColumn jl (column row ''request_payload''),
     de_responsePayload = parseJsonColumn jl (column row ''response_payload''),
     de_notificationPayload = parseJsonColumn jl (column row ''notification_payload''),
     de_createdAt = date_or lib (column row ''created_at'') Undef,
     de_updatedAt = date_or lib (column row ''updated_at'') Undef\<rparr>"

text \<open>
  The parameters of the upsert but the last one, \<open>createdAt\<close>: the values of the columns from
  \<open>provider\<close> on, which are also the columns of its SET clause.
\<close>

definition detail_columns :: "string list" where
  "detail_columns = [''provider'', ''status'', ''token'', ''redirect_url'', ''order_id'',
     ''provider_transaction_id'', ''request_payload'', ''response_payload'', ''notification_payload'']"

definition detail_params :: "json_lib \<Rightarrow> detail_entity \<Rightarrow> col list option" where
  "detail_params jl d =
     (case (jsonb_param jl (de_requestPayload d), jsonb_param jl (de_responsePayload d), jsonb_param jl (de_notificationPayload d)) of
        (Some req, Some res, Some note) \<Rightarrow>
          Some [param id (de_provider d), param (CText \<circ> detail_status_text) (de_status d), param id (de_token d),
            param id (de_redirectUrl d), param id (de_orderId d), param id (de_providerTransactionId d), req, res, note]
      | _ \<Rightarrow> None)"

definition row_with :: "string \<Rightarrow> string \<Rightarrow> row \<Rightarrow> bool" where
  "row_with k v row \<longleftrightarrow> column row k = Val (CText v)"

definition row_persistDetail ::
  "js_lib \<Rightarrow> json_lib \<Rightarrow> int \<Rightarrow> nat \<Rightarrow> detail_entity \<Rightarrow> row list \<Rightarrow> (exn + detail_entity) \<times> row list" where
  "row_persistDetail lib jl now seq d rows =
     (case (de_rideId d, detail_params jl d) of
        (Val k, Some ps) \<Rightarrow>
          (case List.find (row_with ''ride_id'' k) rows of
             Some old \<Rightarrow>
               (let sets = zip detail_columns ps @ [(''updated_at'', CDate now)]
                in (Inr (detail_mapRowToEntity lib jl (set_columns sets old)),
                    map (\<lambda>row. if row_with ''ride_id'' k row then set_columns sets row else row) rows))
           | None \<Rightarrow>
               (let row = [(''id'', CText (show_nat seq)), (''ride_id'', CText k)] @ zip detail_columns ps @
                     [(''created_at'', CDate (case de_createdAt d of Val t \<Rightarrow> t | _ \<Rightarrow> now)), (''updated_at'', CDate now)]
                in (Inr (detail_mapRowToEntity lib jl row), rows @ [row])))
      | _ \<Rightarrow> (Inl (JsError ''invalid parameter''), rows))"

section \<open>PaymentOutboxRepository\<close>

fun outbox_status_text :: "outbox_status \<Rightarrow> string" where
  "outbox_status_text OPending = ''pending''"
| "outbox_status_text OProcessing = ''processing''"
| "outbox_status_text OCompleted = ''completed''"
| "outbox_status_text OFailed = ''failed''"

record outbox_entity =
  oe_id :: "string js"
  oe_rideId :: "string js"
  oe_paymentDetailId :: "string js"
  oe_orderId :: "col js"
  oe_status :: "col js"
  oe_attempts :: "jsnum js"
  oe_jobId :: "col js"
  oe_requestPayload :: "col js"
  oe_lastError :: "col js"
  oe_lastAttemptedAt :: "int js"
  oe_processedAt :: "int js"
  oe_createdAt :: "int js"
  oe_updatedAt :: "int js"

definition outbox_create :: "outbox_entity \<Rightarrow> outbox_entity" where
  "outbox_create data = \<lparr>
     oe_id = js_or (oe_id data) Undef, oe_rideId = js_or (oe_rideId data) Undef,
     oe_paymentDetailId = js_or (oe_paymentDetailId data) Undef, oe_orderId = js_or (oe_orderId data) Undef,
     oe_status = js_or (oe_status data) Undef, oe_attempts = js_or (oe_attempts data) (Val (Fin 0)),
     oe_jobId = js_or (oe_jobId data) Null,
     oe_requestPayload = js_or (oe_requestPayload data) (Val (CDoc (MembersDoc []))),
     oe_lastError = js_or (oe_lastError data) Null, oe_lastAttemptedAt = js_or (oe_lastAttemptedAt data) Null,
     oe_processedAt = js_or (oe_processedAt data) Null,
     oe_createdAt = js_or (oe_createdAt data) Undef, oe_updatedAt = js_or (oe_updatedAt data) Undef\<rparr>"

definition outbox_mapRowToEntity :: "js_lib \<Rightarrow> json_lib \<Rightarrow> row \<Rightarrow> outbox_entity" where
  "outbox_mapRowToEntity lib jl row = \<lparr>
     oe_id = js_or (text_column lib row ''id'') Undef,
     oe_rideId = text_column lib row ''ride_id'', oe_paymentDetailId = text_column lib row ''payment_detail_id'',
     oe_orderId = column row ''order_id'', oe_status = column row ''status'',
     oe_attempts = number_or (js_or (column row ''attempts'') (Val (CNumber (Fin 0)))) Undef,
     oe_jobId = js_or (column row ''job_id'') Null,
     oe_requestPayload = js_or (parseJsonColumn jl (column row ''request_payload'')) (Val (CDoc (MembersDoc []))),
     oe_lastError = js_or (column row ''last_error'') Null,
     oe_lastAttemptedAt = date_or lib (column row ''last_attempted_at'') Null,
     oe_processedAt = date_or lib (column row ''processed_at'') Null,
     oe_createdAt = date_or lib (column row ''created_at'') Undef,
     oe_updatedAt = date_or lib (column row ''updated_at'') Undef\<rparr>"

text \<open>\<open>x ? JSON.stringify(x) : '{}'\<close>, cast to jsonb.\<close>

definition payload_param :: "json_lib \<Rightarrow> col js \<Rightarrow> col option" where
  "payload_param jl v =
     (case v of
        Val (CDoc d) \<Rightarrow> map_option CDoc (to_jsonb jl (stringify jl d))
      | Val c \<Rightarrow> None
      | _ \<Rightarrow> map_option CDoc (to_jsonb jl ''{}''))"

definition outbox_columns :: "string list" where
  "outbox_columns = [''status'', ''attempts'', ''job_id'', ''request_payload'', ''last_error'',
     ''last_attempted_at'', ''processed_at'']"

definition outbox_params :: "json_lib \<Rightarrow> outbox_entity \<Rightarrow> col list option" where
  "outbox_params jl ob =
     map_option (\<lambda>payload. [param id (oe_status ob), param CNumber (js_or (oe_attempts ob) (Val (Fin 0))),
         param id (oe_jobId ob), payload, param id (oe_lastError ob), param CDate (oe_lastAttemptedAt ob),
         param CDate (oe_processedAt ob)])
       (payload_param jl (oe_requestPayload ob))"

definition row_saveOutbox ::
  "js_lib \<Rightarrow> json_lib \<Rightarrow> int \<Rightarrow> outbox_entity \<Rightarrow> row list \<Rightarrow> (exn + outbox_entity) \<times> row list" where
  "row_saveOutbox lib jl now ob rows =
     (case oe_id ob of
        Val (c # cs) \<Rightarrow>
          (case outbox_params jl ob of
             None \<Rightarrow> (Inl (JsError ''invalid parameter''), rows)
           | Some ps \<Rightarrow>
               (case List.find (row_with ''id'' (c # cs)) rows of
                  Some old \<Rightarrow>
                    (let sets = zip outbox_columns ps @ [(''updated_at'', CDate now)]
                     in (Inr (outbox_mapRowToEntity lib jl (set_columns sets old)),
                         map (\<lambda>row. if row_with ''id'' (c # cs) row then set_columns sets row else row) rows))
                | None \<Rightarrow>
                    (let row = [(''id'', CText (c # cs)), (''ride_id'', param CText (oe_rideId ob)),
                          (''payment_detail_id'', param CText (oe_paymentDetailId ob)), (''order_id'', param id (oe_orderId ob))] @
                          zip outbox_columns ps @
                          [(''created_at'', CDate (case oe_createdAt ob of Val t \<Rightarrow> t | _ \<Rightarrow> now)), (''updated_at'', CDate now)]
                     in (Inr (outbox_mapRowToEntity lib jl row), rows @ [row]))))
      | _ \<Rightarrow> (Inl (JsError ''Outbox id is required for updates''), rows))"

text \<open>The INSERT of \<open>saveDetailAndOutbox\<close>.\<close>

definition row_insertOutbox ::
  "js_lib \<Rightarrow> json_lib \<Rightarrow> int \<Rightarrow> nat \<Rightarrow> string \<Rightarrow> string \<Rightarrow> string \<Rightarrow> outbox_status \<Rightarrow> json_doc \<Rightarrow> row list \<Rightarrow>
    (exn + outbox_entity) \<times> row list" where
  "row_insertOutbox lib jl now seq rideId detailId oid st payload rows =
     (case to_jsonb jl (stringify jl payload) of
        None \<Rightarrow> (Inl (JsError ''invalid parameter''), rows)
      | Some doc \<Rightarrow>
          (let row = [(''id'', CText (show_nat seq)), (''ride_id'', CText rideId), (''payment_detail_id'', CText detailId),
                (''order_id'', CText oid), (''status'', CText (outbox_status_text st)), (''attempts'', CNumber (Fin 0)),
                (''job_id'', CNull), (''request_payload'', CDoc doc), (''last_error'', CNull),
                (''last_attempted_at'', CNull), (''processed_at'', CNull), (''created_at'', CDate now), (''updated_at'', CDate now)]
           in (Inr (outbox_mapRowToEntity lib jl row), rows @ [row])))"

section \<open>RideStatusHistoryRepository\<close>

record history_entity =
  he_id :: "string js"
  he_rideId :: "string js"
  he_fromStatus :: "col js"
  he_toStatus :: "col js"
  he_context :: "col js"
  he_createdAt :: "int js"

definition history_mapRowToEntity :: "js_lib \<Rightarrow> row \<Rightarrow> history_entity" where
  "history_mapRowToEntity lib row = \<lparr>
     he_id = js_or (text_column lib row ''id'') Null, he_rideId = js_or (text_column lib row ''ride_id'') Null,
     he_fromStatus = js_or (column row ''from_status'') Null, he_toStatus = js_or (column row ''to_status'') Null,
     he_context = js_or (column row ''context'') Null, he_createdAt = date_or lib (column row ''created_at'') Undef\<rparr>"

section \<open>Typed details, entries and their rows\<close>

definition detail_row :: "payment_detail \<Rightarrow> row" where
  "detail_row d = [(''id'', CText (pd_id d)), (''ride_id'', CText (pd_rideId d)), (''provider'', CText (provider d)),
     (''status'', CText (detail_status_text (pd_status d))), (''token'', nullable CText (token d)),
     (''redirect_url'', nullable CText (redirectUrl d)), (''order_id'', nullable CText (orderId d)),
     (''provider_transaction_id'', nullable CText (providerTransactionId d)),
     (''request_payload'', nullable (CDoc \<circ> RequestDoc) (requestPayload d)),
     (''response_payload'', nullable (CDoc \<circ> MembersDoc) (responsePayload d)),
     (''notification_payload'', nullable (CDoc \<circ> NoticeDoc) (notificationPayload d)),
     (''created_at'', CDate (pd_createdAt d)), (''updated_at'', CDate (pd_updatedAt d))]"

text \<open>A detail that was never stored has no identifier and no times.\<close>

definition detail_entity_of :: "payment_detail \<Rightarrow> detail_entity" where
  "detail_entity_of d = \<lparr>
     de_id = (if pd_id d = [] then Undef else Val (pd_id d)), de_rideId = Val (pd_rideId d),
     de_provider = Val (CText (provider d)), de_status = Val (pd_status d),
     de_token = or_js Null CText (token d), de_redirectUrl = or_js Null CText (redirectUrl d),
     de_orderId = or_js Null CText (orderId d),
     de_providerTransactionId = or_js Null CText (providerTransactionId d),
     de_requestPayload = or_js Null (CDoc \<circ> RequestDoc) (requestPayload d),
     de_responsePayload = or_js Null (CDoc \<circ> MembersDoc) (responsePayload d),
     de_notificationPayload = or_js Null (CDoc \<circ> NoticeDoc) (notificationPayload d),
     de_createdAt = (if pd_id d = [] then Undef else Val (pd_createdAt d)),
     de_updatedAt = (if pd_id d = [] then Undef else Val (pd_updatedAt d))\<rparr>"

definition outbox_row :: "payment_outbox \<Rightarrow> row" where
  "outbox_row ob = [(''id'', CText (ob_id ob)), (''ride_id'', CText (ob_rideId ob)),
     (''payment_detail_id'', CText (paymentDetailId ob)), (''order_id'', CText (ob_orderId ob)),
     (''status'', CText (outbox_status_text (ob_status ob))), (''attempts'', CNumber (Fin (of_nat (attempts ob)))),
     (''job_id'', nullable CText (jobId ob)), (''request_payload'', CDoc (RequestDoc (ob_requestPayload ob))),
     (''last_error'', nullable CText (lastError ob)), (''last_attempted_at'', nullable CDate (lastAttemptedAt ob)),
     (''processed_at'', nullable CDate (processedAt ob)), (''created_at'', CDate (ob_createdAt ob)),
     (''updated_at'', CDate (ob_updatedAt ob))]"

definition outbox_entity_of :: "payment_outbox \<Rightarrow> outbox_entity" where
  "outbox_entity_of ob = \<lparr>
     oe_id = Val (ob_id ob), oe_rideId = Val (ob_rideId ob), oe_paymentDetailId = Val (paymentDetailId ob),
     oe_orderId = Val (CText (ob_orderId ob)), oe_status = Val (CText (outbox_status_text (ob_status ob))),
     oe_attempts = Val (Fin (of_nat (attempts ob))), oe_jobId = or_js Null CText (jobId ob),
     oe_requestPayload = Val (CDoc (RequestDoc (ob_requestPayload ob))),
     oe_lastError = or_js Null CText (lastError ob), oe_lastAttemptedAt = or_js Null id (lastAttemptedAt ob),
     oe_processedAt = or_js Null id (processedAt ob), oe_createdAt = Val (ob_createdAt ob),
     oe_updatedAt = Val (ob_updatedAt ob)\<rparr>"

lemma json_columns [simp]:
  "js_value (nullable (CDoc \<circ> f) x) = or_js Null (CDoc \<circ> f) x"
  "parseJsonColumn jl (or_js Null (CDoc \<circ> f) x) = or_js Null (CDoc \<circ> f) x"
  "parseJsonColumn jl (Val (CDoc d)) = Val (CDoc d)"
  by (simp_all add: parseJsonColumn_def nullable_def or_js_def split: option.split)

lemma json_params [simp]:
  "\<forall>v \<in> set_option x. stores_json jl (f v) \<Longrightarrow>
     jsonb_param jl (or_js Null (CDoc \<circ> f) x) = Some (nullable (CDoc \<circ> f) x)"
  "stores_json jl d \<Longrightarrow> payload_param jl (Val (CDoc d)) = Some (CDoc d)"
  by (cases x) (simp_all add: jsonb_param_def payload_param_def or_js_def nullable_def stores_json_def)

definition stores_detail :: "json_lib \<Rightarrow> payment_detail \<Rightarrow> bool" where
  "stores_detail jl d \<longleftrightarrow> (\<forall>p \<in> set_option (requestPayload d). stores_json jl (RequestDoc p)) \<and>
     (\<forall>p \<in> set_option (responsePayload d). stores_json jl (MembersDoc p)) \<and>
     (\<forall>p \<in> set_option (notificationPayload d). stores_json jl (NoticeDoc p))"

lemma detail_status_back: "detail_normalizeStatus lib (Val (CText (detail_status_text st))) = st"
  by (cases st) (simp_all add: detail_normalizeStatus_def all_detail_statuses_def to_lower_def)

lemma map_detail_row: "pd_id d \<noteq> [] \<Longrightarrow> detail_mapRowToEntity lib jl (detail_row d) = detail_entity_of d"
  unfolding detail_mapRowToEntity_def detail_row_def detail_entity_of_def
  by (simp add: text_column_def detail_status_back)

lemma map_outbox_row: "outbox_mapRowToEntity lib jl (outbox_row ob) = outbox_entity_of ob"
  unfolding outbox_mapRowToEntity_def outbox_row_def outbox_entity_of_def
  by (simp add: text_column_def number_or_def)

section \<open>The typed operations are what the rows go through\<close>

lemma find_typed:
  assumes "\<And>x. column (to_row x) k = Val (CText (key x))"
  shows "List.find (row_with k v) (map to_row xs) = map_option to_row (row_find key v xs)"
  using assms by (induction xs) (auto simp: row_with_def)

lemma update_typed:
  assumes "distinct (map key xs)" and "row_find key v xs = Some cur" and "key new = v"
    and "\<And>x. column (to_row x) k = Val (CText (key x))" and "set_columns sets (to_row cur) = to_row new"
  shows "map (\<lambda>row. if row_with k v row then set_columns sets row else row) (map to_row xs) = map to_row (row_put key new xs)"
proof -
  have cur: "cur \<in> set xs" "key cur = v" using row_find_SomeD [OF assms(2)] by simp_all
  have "x = cur" if "x \<in> set xs" "key x = v" for x
    by (rule distinct_keyD [OF assms(1) that(1) cur(1)]) (simp add: that(2) cur(2))
  then show ?thesis using assms(3-5) by (auto simp: row_put_def row_with_def)
qed

lemma detail_params_of:
  "stores_detail jl d \<Longrightarrow> detail_params jl (detail_entity_of d) = Some (map snd (take 9 (drop 2 (detail_row d))))"
  by (simp add: stores_detail_def detail_params_def detail_entity_of_def detail_row_def numeral_eq_Suc)

lemma detail_sets: "stores_detail jl d \<Longrightarrow> detail_params jl (detail_entity_of d) = Some ps \<Longrightarrow>
    zip detail_columns ps = take 9 (drop 2 (detail_row d))"
  by (auto simp: detail_params_of detail_columns_def detail_row_def numeral_eq_Suc)

lemma detail_merged:
  assumes "stores_detail jl d" and "detail_params jl (detail_entity_of d) = Some ps" and "pd_rideId cur = pd_rideId d"
  shows "set_columns (zip detail_columns ps @ [(''updated_at'', CDate now)]) (detail_row cur) =
    detail_row (d\<lparr>pd_id := pd_id cur, pd_createdAt := pd_createdAt cur, pd_updatedAt := now\<rparr>)"
  unfolding detail_sets [OF assms(1,2)] using assms(3) by (simp add: set_columns_def detail_row_def numeral_eq_Suc)

text \<open>
  The typed upsert of a payment detail is what the driver rows go through: on a table with one
  detail for each ride, sending the eleven parameters, the INSERT or the UPDATE of the conflict
  and reading the row back have the result and the table of \<open>persistDetail\<close>.
\<close>

theorem detail_through_rows:
  assumes "distinct (map pd_rideId (details s))" and "\<forall>d \<in> set (details s). pd_id d \<noteq> []" and "stores_detail jl d"
    and "persistDetail d s = (Inr saved, s')"
  shows "row_persistDetail lib jl (clock s) (detailSeq s) (detail_entity_of d) (map detail_row (details s)) =
    (Inr (detail_entity_of saved), map detail_row (details s'))"
proof -
  have id: "column (detail_row x) ''ride_id'' = Val (CText (pd_rideId x))" for x by (simp add: detail_row_def)
  obtain ps where ps: "detail_params jl (detail_entity_of d) = Some ps" using detail_params_of [OF assms(3)] by blast
  have ride: "de_rideId (detail_entity_of d) = Val (pd_rideId d)" by (simp add: detail_entity_of_def)
  show ?thesis
  proof (cases "row_find pd_rideId (pd_rideId d) (details s)")
    case (Some cur)
    let ?new = "d\<lparr>pd_id := pd_id cur, pd_createdAt := pd_createdAt cur, pd_updatedAt := clock s\<rparr>"
    have cur: "cur \<in> set (details s)" "pd_rideId cur = pd_rideId d" using row_find_SomeD [OF Some] by simp_all
    note merged = detail_merged [OF assms(3) ps cur(2), of "clock s"]
    have table: "map (\<lambda>row. if row_with ''ride_id'' (pd_rideId d) row
          then set_columns (zip detail_columns ps @ [(''updated_at'', CDate (clock s))]) row else row) (map detail_row (details s)) =
        map detail_row (row_put pd_rideId ?new (details s))"
      by (rule update_typed [OF assms(1) Some _ id merged]) simp
    have "saved = ?new" "details s' = row_put pd_rideId ?new (details s)"
      using assms(4) Some by (auto simp: persistDetail_def Let_def)
    moreover have "detail_mapRowToEntity lib jl (detail_row ?new) = detail_entity_of ?new"
      by (rule map_detail_row) (use assms(2) cur(1) in simp)
    ultimately show ?thesis
      by (simp only: row_persistDetail_def ride ps find_typed [OF id] Some js.case option.case option.map prod.case Let_def
          table merged)
  next
    case None
    let ?new = "d\<lparr>pd_id := show_nat (detailSeq s), pd_createdAt := (if pd_id d = [] then clock s else pd_createdAt d),
      pd_updatedAt := clock s\<rparr>"
    have row: "[(''id'', CText (show_nat (detailSeq s))), (''ride_id'', CText (pd_rideId d))] @ zip detail_columns ps @
        [(''created_at'', CDate (case de_createdAt (detail_entity_of d) of Val t \<Rightarrow> t | _ \<Rightarrow> clock s)), (''updated_at'', CDate (clock s))] =
        detail_row ?new"
      unfolding detail_sets [OF assms(3) ps] by (simp add: detail_row_def detail_entity_of_def numeral_eq_Suc)
    have "saved = ?new" "details s' = details s @ [?new]"
      using assms(4) None by (auto simp: persistDetail_def Let_def)
    moreover have "detail_mapRowToEntity lib jl (detail_row ?new) = detail_entity_of ?new"
      by (rule map_detail_row) simp
    ultimately show ?thesis
      by (simp only: row_persistDetail_def ride ps find_typed [OF id] None js.case option.case option.map prod.case Let_def
          row list.map map_append)
  qed
qed

lemma outbox_params_of:
  "stores_json jl (RequestDoc (ob_requestPayload ob)) \<Longrightarrow> outbox_params jl (outbox_entity_of ob) = Some (map snd (take 7 (drop 4 (outbox_row ob))))"
  by (simp add: outbox_params_def outbox_entity_of_def outbox_row_def numeral_eq_Suc)

lemma outbox_sets: "stores_json jl (RequestDoc (ob_requestPayload ob)) \<Longrightarrow> outbox_params jl (outbox_entity_of ob) = Some ps \<Longrightarrow>
    zip outbox_columns ps = take 7 (drop 4 (outbox_row ob))"
  by (auto simp: outbox_params_of outbox_columns_def outbox_row_def numeral_eq_Suc)

text \<open>
  The typed save of an outbox entry is what the driver rows go through: on a table with
  distinct identifiers, sending the parameters, the INSERT or the UPDATE of the conflict and
  reading the row back have the result and the table of \<open>saveOutbox\<close>, also its refusal of an
  entry without identifier.
\<close>

theorem outbox_through_rows:
  assumes "distinct (map ob_id (outboxes s))" and "stores_json jl (RequestDoc (ob_requestPayload ob))"
    and "saveOutbox ob s = (result, s')"
  shows "row_saveOutbox lib jl (clock s) (outbox_entity_of ob) (map outbox_row (outboxes s)) =
    (map_sum id outbox_entity_of result, map outbox_row (outboxes s'))"
proof (cases "ob_id ob")
  case Nil
  then show ?thesis using assms(3) by (auto simp: saveOutbox_def row_saveOutbox_def outbox_entity_of_def)
next
  case (Cons c cs)
  have id: "column (outbox_row x) ''id'' = Val (CText (ob_id x))" for x by (simp add: outbox_row_def)
  have oid: "oe_id (outbox_entity_of ob) = Val (c # cs)" by (simp add: outbox_entity_of_def Cons)
  obtain ps where ps: "outbox_params jl (outbox_entity_of ob) = Some ps" using outbox_params_of [OF assms(2)] by blast
  note sets = outbox_sets [OF assms(2) ps]
  show ?thesis
  proof (cases "row_find ob_id (c # cs) (outboxes s)")
    case (Some cur)
    let ?new = "cur\<lparr>ob_status := ob_status ob, attempts := attempts ob, jobId := jobId ob,
      ob_requestPayload := ob_requestPayload ob, lastError := lastError ob, lastAttemptedAt := lastAttemptedAt ob,
      processedAt := processedAt ob, ob_updatedAt := clock s\<rparr>"
    have merged: "set_columns (zip outbox_columns ps @ [(''updated_at'', CDate (clock s))]) (outbox_row cur) = outbox_row ?new"
      unfolding sets by (simp add: set_columns_def outbox_row_def numeral_eq_Suc)
    have table: "map (\<lambda>row. if row_with ''id'' (c # cs) row
          then set_columns (zip outbox_columns ps @ [(''updated_at'', CDate (clock s))]) row else row) (map outbox_row (outboxes s)) =
        map outbox_row (row_put ob_id ?new (outboxes s))"
      by (rule update_typed [OF assms(1) Some _ id merged]) (use row_find_SomeD [OF Some] in simp)
    have "result = Inr ?new" "outboxes s' = row_put ob_id ?new (outboxes s)"
      using assms(3) Some Cons by (auto simp: saveOutbox_def Let_def)
    then show ?thesis
      by (simp only: row_saveOutbox_def oid ps find_typed [OF id] Some js.case list.case option.case option.map Let_def
          table merged map_outbox_row map_sum.simps)
  next
    case None
    let ?new = "ob\<lparr>ob_updatedAt := clock s\<rparr>"
    have row: "[(''id'', CText (c # cs)), (''ride_id'', param CText (oe_rideId (outbox_entity_of ob))),
        (''payment_detail_id'', param CText (oe_paymentDetailId (outbox_entity_of ob))),
        (''order_id'', param id (oe_orderId (outbox_entity_of ob)))] @ zip outbox_columns ps @
        [(''created_at'', CDate (case oe_createdAt (outbox_entity_of ob) of Val t \<Rightarrow> t | _ \<Rightarrow> clock s)), (''updated_at'', CDate (clock s))] =
        outbox_row ?new"
      unfolding sets by (simp add: outbox_row_def outbox_entity_of_def numeral_eq_Suc Cons)
    have "result = Inr ?new" "outboxes s' = outboxes s @ [?new]"
      using assms(3) None Cons by (auto simp: saveOutbox_def Let_def)
    then show ?thesis
      by (simp only: row_saveOutbox_def oid ps find_typed [OF id] None js.case list.case option.case option.map Let_def
          row map_outbox_row map_sum.simps list.map map_append)
  qed
qed

lemma new_outbox_through_rows:
  assumes "stores_json jl (RequestDoc req)" and "insertOutboxRow k detailId oid st req s = (Inr ob, s')"
  shows "row_insertOutbox lib jl (clock s) (outboxSeq s) k detailId oid st (RequestDoc req) (map outbox_row (outboxes s)) =
    (Inr (outbox_entity_of ob), map outbox_row (outboxes s'))"
proof -
  let ?new = "\<lparr>ob_id = show_nat (outboxSeq s), ob_rideId = k, paymentDetailId = detailId,
    ob_orderId = oid, ob_status = st, attempts = 0, jobId = None, ob_requestPayload = req, lastError = None,
    lastAttemptedAt = None, processedAt = None, ob_createdAt = clock s, ob_updatedAt = clock s\<rparr>"
  have "ob = ?new" "outboxes s' = outboxes s @ [?new]" using assms(2) by (auto simp: insertOutboxRow_def Let_def)
  moreover have "outbox_row ?new = [(''id'', CText (show_nat (outboxSeq s))), (''ride_id'', CText k), (''payment_detail_id'', CText detailId),
      (''order_id'', CText oid), (''status'', CText (outbox_status_text st)), (''attempts'', CNumber (Fin 0)),
      (''job_id'', CNull), (''request_payload'', CDoc (RequestDoc req)), (''last_error'', CNull),
      (''last_attempted_at'', CNull), (''processed_at'', CNull), (''created_at'', CDate (clock s)), (''updated_at'', CDate (clock s))]"
    by (simp add: outbox_row_def nullable_def)
  ultimately show ?thesis using assms(1) map_outbox_row [of lib jl ?new]
    by (simp add: row_insertOutbox_def stores_json_def Let_def)
qed

text \<open>A status the code does not know is read as UNKNOWN, in any case of letters.\<close>

lemma unknown_detail_status:
  assumes "map to_lower t \<notin> detail_status_text ` set all_detail_statuses"
  shows "detail_normalizeStatus lib (Val (CText t)) = DUnknown"
proof -
  have "List.find (\<lambda>x. detail_status_text x = map to_lower t) all_detail_statuses = None"
    unfolding find_None_iff using assms by (metis image_eqI)
  then show ?thesis by (simp add: detail_normalizeStatus_def)
qed

text \<open>An entry of the history is read as it was stored.\<close>

definition history_row :: "status_history \<Rightarrow> row" where
  "history_row h = [(''id'', CText (hist_id h)), (''ride_id'', CText (hist_rideId h)),
     (''from_status'', nullable (CText \<circ> ride_status_text) (fromStatus h)),
     (''to_status'', CText (ride_status_text (toStatus h))), (''context'', nullable CText (hist_context h)),
     (''created_at'', CDate (hist_createdAt h))]"

lemma history_read:
  "history_mapRowToEntity lib (history_row h) =
     \<lparr>he_id = Val (hist_id h), he_rideId = Val (hist_rideId h),
      he_fromStatus = or_js Null (CText \<circ> ride_status_text) (fromStatus h),
      he_toStatus = Val (CText (ride_status_text (toStatus h))), he_context = or_js Null CText (hist_context h),
      he_createdAt = Val (hist_createdAt h)\<rparr>"
  by (simp add: history_mapRowToEntity_def history_row_def text_column_def)

text \<open>A detail whose request is stored, and an entry.\<close>

definition demo_document :: request_payload where
  "demo_document = \<lparr>order_id = ''o'', gross_amount = Fin 9, first_name = ''rider_7'', email = ''7@example.com'', phone = ''7''\<rparr>"

definition demo_json :: json_lib where
  "demo_json = \<lparr>stringify = \<lambda>d. ''document'', json_parse = \<lambda>t. None, to_jsonb = \<lambda>t. Some (RequestDoc demo_document)\<rparr>"

definition demo_first :: payment_detail where
  "demo_first = create_detail ''1'' ''psp'' DQueued\<lparr>requestPayload := Some demo_document\<rparr>"

theorem detail_through_rows_witness:
  "\<forall>lib. \<exists>saved s'. persistDetail demo_first empty_world = (Inr saved, s') \<and>
     row_persistDetail lib demo_json (clock empty_world) (detailSeq empty_world) (detail_entity_of demo_first) [] =
       (Inr (detail_entity_of saved), map detail_row (details s'))"
proof
  fix lib :: js_lib
  obtain saved s' where saved: "persistDetail demo_first empty_world = (Inr saved, s')"
    by (simp add: persistDetail_def empty_world_def Let_def)
  have "stores_detail demo_json demo_first"
    by (simp add: stores_detail_def stores_json_def demo_json_def demo_first_def create_detail_def)
  from detail_through_rows [OF _ _ this saved, of lib] saved
  show "\<exists>saved s'. persistDetail demo_first empty_world = (Inr saved, s') \<and>
     row_persistDetail lib demo_json (clock empty_world) (detailSeq empty_world) (detail_entity_of demo_first) [] =
       (Inr (detail_entity_of saved), map detail_row (details s'))" by (simp add: empty_world_def)
qed

end
