(* ===== verification/Validation_Errors.thy ===== *)
theory Validation_Errors
  imports Neb_Prelude
begin

text \<open>
  The message of a request that fails validation: the \<open>exceptionFactory\<close> of the second
  \<open>ValidationPipe\<close> in \<open>main.ts\<close>. The errors come from \<open>class-validator\<close> as trees, one for each
  property that fails, with the constraints it breaks and the errors of its members; the
  factory walks them with a queue, skips an error it has seen before together with what is below
  it, and joins the texts of the constraints.
\<close>

section \<open>The factory\<close>

datatype validation_error = ValidationError
  (property: string) (constraints: "(string \<times> string) list option") (children: "validation_error list option")

fun join :: "string \<Rightarrow> string list \<Rightarrow> string" where
  "join sep [] = []"
| "join sep [x] = x"
| "join sep (x # xs) = x @ sep @ join sep xs"

fun or_empty :: "'a list option \<Rightarrow> 'a list" where
  "or_empty None = []"
| "or_empty (Some xs) = xs"

definition errorId :: "validation_error \<Rightarrow> string" where
  "errorId e = property e @ ''-'' @ join '','' (map fst (or_empty (constraints e)))"

definition with_constraints :: "validation_error \<Rightarrow> string \<Rightarrow> string" where
  "with_constraints e message =
     (case constraints e of
        None \<Rightarrow> message
      | Some cs \<Rightarrow> message @ join '', '' (map snd cs) @ '', '')"

lemma children_smaller: "size_list size (or_empty (children e)) < size e"
  by (cases e; cases "children e") simp_all

lemma size_list_append [simp]: "size_list f (xs @ ys) = size_list f xs + size_list f ys"
  by (induction xs) simp_all

function factory_loop :: "validation_error list \<Rightarrow> string list \<Rightarrow> string \<Rightarrow> string" where
  "factory_loop [] uniqueErrors message = message"
| "factory_loop (e # queue) uniqueErrors message =
     (if errorId e \<in> set uniqueErrors then factory_loop queue uniqueErrors message
      else factory_loop (queue @ or_empty (children e)) (errorId e # uniqueErrors) (with_constraints e message))"
  by pat_completeness auto

termination
proof (relation "measure (\<lambda>(queue, _, _). size_list size queue)")
  fix e queue uniqueErrors message
  show "((queue @ or_empty (children e), errorId e # uniqueErrors, with_constraints e message), e # queue, uniqueErrors, message)
      \<in> measure (\<lambda>(queue, _, _). size_list size queue)"
    using children_smaller [of e] by simp
qed simp_all

definition exceptionFactory :: "validation_error list \<Rightarrow> exn" where
  "exceptionFactory validationErrors =
     (let message = factory_loop validationErrors [] [];
          message = take (length message - 2) message
      in BadRequest (if message = [] then ''Validation failed'' else message))"

section \<open>What it reports\<close>

lemma level_smaller: "es \<noteq> [] \<Longrightarrow> size_list size (concat (map (or_empty \<circ> children) es)) < size_list size es"
proof (induction es)
  case (Cons e es)
  then show ?case using children_smaller [of e] by (cases "es = []") (auto simp: comp_def)
qed simp

text \<open>The errors level by level, and the order in which a queue meets them.\<close>

function level_order :: "validation_error list \<Rightarrow> validation_error list" where
  "level_order es = (if es = [] then [] else es @ level_order (concat (map (or_empty \<circ> children) es)))"
  by pat_completeness auto

termination
  by (relation "measure (size_list size)") (simp_all add: level_smaller del: map_map)

declare level_order.simps [simp del]

function queue_order :: "validation_error list \<Rightarrow> validation_error list" where
  "queue_order [] = []"
| "queue_order (e # queue) = e # queue_order (queue @ or_empty (children e))"
  by pat_completeness auto

termination
proof (relation "measure (size_list size)")
  fix e queue
  show "(queue @ or_empty (children e), e # queue) \<in> measure (size_list size)"
    using children_smaller [of e] by simp
qed simp

lemma queue_level: "queue_order (xs @ ys) = xs @ queue_order (ys @ concat (map (or_empty \<circ> children) xs))"
  by (induction xs arbitrary: ys) (simp_all add: comp_def)

lemma queue_is_level_order: "queue_order es = level_order es"
proof (induction es rule: level_order.induct)
  case (1 es)
  show ?case
  proof (cases "es = []")
    case False
    then show ?thesis using 1 queue_level [of es "[]"] by (simp add: level_order.simps [of es])
  qed (simp add: level_order.simps)
qed

lemma loop_of_new_errors:
  assumes "distinct (map errorId (queue_order es))" and "errorId ` set (queue_order es) \<inter> set seen = {}"
  shows "factory_loop es seen message = fold with_constraints (queue_order es) message"
  using assms
proof (induction es seen message rule: factory_loop.induct)
  case (2 e queue seen message)
  then show ?case by auto
qed simp

text \<open>The texts of an error, if it breaks constraints itself.\<close>

fun texts :: "validation_error \<Rightarrow> string list" where
  "texts (ValidationError p None cs) = []"
| "texts (ValidationError p (Some broken) cs) = [join '', '' (map snd broken)]"

lemma fold_texts: "fold with_constraints es message = message @ concat (map (\<lambda>t. t @ '', '') (concat (map texts es)))"
proof (induction es arbitrary: message)
  case (Cons e es)
  have "with_constraints e message = message @ concat (map (\<lambda>t. t @ '', '') (texts e))"
    by (cases e rule: texts.cases) (simp_all add: with_constraints_def)
  then show ?case using Cons by simp
qed simp

lemma drop_last_separator:
  "take (length (concat (map (\<lambda>t. t @ '', '') ts)) - 2) (concat (map (\<lambda>t. t @ '', '') ts)) = join '', '' ts"
proof (induction ts)
  case (Cons x ts)
  show ?case
  proof (cases ts)
    case (Cons y zs)
    let ?rest = "concat (map (\<lambda>t. t @ '', '') ts)"
    have "take (length (x @ '', '' @ ?rest) - 2) (x @ '', '' @ ?rest) = x @ '', '' @ take (length ?rest - 2) ?rest"
      by (simp add: Cons)
    then show ?thesis using Cons.IH Cons by simp
  qed simp
qed simp

text \<open>
  What an invalid request is told: if no two errors have the same property and constraints,
  the answer is a bad request whose message lists the broken constraints of every error at every
  depth, level by level, and says that the validation failed when there is none to list.
\<close>

theorem validation_message:
  assumes "distinct (map errorId (level_order es))"
  shows "exceptionFactory es =
    BadRequest (let message = join '', '' (concat (map texts (level_order es)))
      in if message = [] then ''Validation failed'' else message)"
proof -
  have "factory_loop es [] [] = fold with_constraints (level_order es) []"
    using loop_of_new_errors [of es "[]" "[]"] assms by (simp add: queue_is_level_order)
  then show ?thesis
    by (simp only: exceptionFactory_def Let_def fold_texts append_Nil drop_last_separator)
qed

text \<open>Two invalid coordinates of a ride request, and the same field in two places.\<close>

definition demo_errors :: "validation_error list" where
  "demo_errors =
     [ValidationError ''pickup'' None (Some [ValidationError ''longitude'' (Some [(''isLongitude'', ''bad longitude'')]) None]),
      ValidationError ''maxDrivers'' (Some [(''isInt'', ''no integer''), (''isPositive'', ''not positive'')]) None]"

theorem validation_message_witness:
  "exceptionFactory demo_errors = BadRequest ''no integer, not positive, bad longitude''"
proof -
  have "level_order demo_errors = demo_errors @ [ValidationError ''longitude'' (Some [(''isLongitude'', ''bad longitude'')]) None]"
    by (simp add: demo_errors_def level_order.simps)
  then show ?thesis using validation_message [of demo_errors]
    by (simp add: demo_errors_def errorId_def)
qed

lemma repeated_errors_skipped:
  "exceptionFactory [ValidationError ''pickup'' None (Some [ValidationError ''latitude'' (Some [(''isLatitude'', ''a'')]) None]),
      ValidationError ''dropoff'' None (Some [ValidationError ''latitude'' (Some [(''isLatitude'', ''b'')]) None])] =
     BadRequest ''a''"
  by (simp add: exceptionFactory_def errorId_def with_constraints_def)

end
