(* ===== verification/Migrations.thy ===== *)
theory Migrations
  imports Neb_Prelude
begin

text \<open>
  The migrations \<open>infrastructure/migrations/1733300000000-primary-keys-and-indexes.ts\<close> and
  \<open>1733400000001-align-foreign-key-types.ts\<close>, on a catalogue of tables with their rows. The
  statements are those of PostgreSQL that the migrations send, with what makes them fail: a
  missing table or column, a key or column something else depends on, a value that cannot be
  cast, a row that violates a key. TypeORM runs a migration in a transaction.

  The tables themselves are created outside the repository, so they are arbitrary. Of the
  database, the random uuids and the reading of a text as a bigint are the parameters \<open>pg_env\<close>.
\<close>

section \<open>Tables, keys and indexes\<close>

datatype column_type = Bigint | Varchar nat | Uuid_type | Other_type string

datatype cell = NULL | VInt int | VText string | VUuid string | VOther string

datatype id_kind = Bigserial | RandomUuid

record db_table =
  columns :: "string \<rightharpoonup> column_type"
  pkey :: "(string \<times> string) option"
  cells :: "(string \<Rightarrow> cell) list"

record foreign_key =
  fk_name :: string
  fk_table :: string
  fk_column :: string
  fk_refTable :: string
  fk_refColumn :: string

record db_index =
  ix_name :: string
  ix_table :: string
  ix_columns :: "string list"
  ix_include :: "string list"

record database =
  tables :: "string \<rightharpoonup> db_table"
  fkeys :: "foreign_key list"
  indexes :: "db_index list"
  drawn :: nat

record pg_env =
  random_uuid :: "nat \<Rightarrow> string"
  bigint_of_text :: "string \<Rightarrow> int option"

definition bigint_range :: "int \<Rightarrow> bool" where
  "bigint_range i \<longleftrightarrow> - (2 ^ 63) \<le> i \<and> i < 2 ^ 63"

definition show_bigint :: "int \<Rightarrow> string" where
  "show_bigint i = (if i < 0 then ''-'' @ show_nat (nat (- i)) else show_nat (nat i))"

text \<open>Two columns can be a foreign key and its target if their types compare.\<close>

fun comparable :: "column_type \<Rightarrow> column_type \<Rightarrow> bool" where
  "comparable (Varchar _) (Varchar _) = True"
| "comparable s t = (s = t)"

section \<open>Statements\<close>

datatype statement =
    DropConstraint string string
  | DropColumn string string
  | AddIdColumn string string id_kind
  | AlterType string string column_type
  | AddForeignKey string string string string string
  | CreateIndex string string "string list" "string list"
  | DropIndex string

definition no_table :: "string \<Rightarrow> exn + 'a" where
  "no_table t = Inl (JsError (''relation \"'' @ t @ ''\" does not exist''))"

definition no_column :: "string \<Rightarrow> exn + 'a" where
  "no_column c = Inl (JsError (''column \"'' @ c @ ''\" does not exist''))"

definition put_table :: "string \<Rightarrow> db_table \<Rightarrow> database \<Rightarrow> database" where
  "put_table t tb db = db\<lparr>tables := (tables db)(t \<mapsto> tb)\<rparr>"

definition key_values :: "db_table \<Rightarrow> string \<Rightarrow> cell list" where
  "key_values tb c = map (\<lambda>r. r c) (cells tb)"

text \<open>A primary key goes only when no foreign key rests on it.\<close>

definition drop_constraint :: "string \<Rightarrow> string \<Rightarrow> database \<Rightarrow> exn + database" where
  "drop_constraint t n db =
     (case tables db t of
        None \<Rightarrow> Inr db
      | Some tb \<Rightarrow>
          (case pkey tb of
             Some (m, c) \<Rightarrow>
               if m = n
               then if \<exists>fk \<in> set (fkeys db). fk_refTable fk = t \<and> fk_refColumn fk = c
                    then Inl (JsError (''cannot drop constraint '' @ n @ '' because other objects depend on it''))
                    else Inr (put_table t (tb\<lparr>pkey := None\<rparr>) db)
               else Inr (db\<lparr>fkeys := filter (\<lambda>fk. \<not> (fk_table fk = t \<and> fk_name fk = n)) (fkeys db)\<rparr>)
           | None \<Rightarrow> Inr (db\<lparr>fkeys := filter (\<lambda>fk. \<not> (fk_table fk = t \<and> fk_name fk = n)) (fkeys db)\<rparr>)))"

text \<open>With a column go the keys and the indexes that use it.\<close>

definition drop_column :: "string \<Rightarrow> string \<Rightarrow> database \<Rightarrow> exn + database" where
  "drop_column t c db =
     (case tables db t of
        None \<Rightarrow> Inr db
      | Some tb \<Rightarrow>
          if columns tb c = None then Inr db
          else if \<exists>fk \<in> set (fkeys db). fk_refTable fk = t \<and> fk_refColumn fk = c \<and> (fk_table fk, fk_column fk) \<noteq> (t, c)
          then Inl (JsError (''cannot drop column '' @ c @ '' because other objects depend on it''))
          else Inr ((put_table t
             \<lparr>columns = (columns tb)(c := None),
              pkey = (case pkey tb of Some (m, k) \<Rightarrow> if k = c then None else Some (m, k) | None \<Rightarrow> None),
              cells = map (\<lambda>r. r(c := NULL)) (cells tb)\<rparr> db)
             \<lparr>fkeys := filter (\<lambda>fk. \<not> (fk_table fk = t \<and> fk_column fk = c)) (fkeys db),
              indexes := filter (\<lambda>ix. \<not> (ix_table ix = t \<and> c \<in> set (ix_columns ix @ ix_include ix))) (indexes db)\<rparr>))"

text \<open>
  \<open>ADD COLUMN IF NOT EXISTS id BIGSERIAL PRIMARY KEY\<close> numbers the rows there are from 1;
  \<open>id uuid DEFAULT gen_random_uuid() PRIMARY KEY\<close> draws a uuid for each.
\<close>

fun id_type :: "id_kind \<Rightarrow> column_type" where
  "id_type Bigserial = Bigint"
| "id_type RandomUuid = Uuid_type"

fun new_ids :: "pg_env \<Rightarrow> id_kind \<Rightarrow> nat \<Rightarrow> nat \<Rightarrow> cell list" where
  "new_ids env Bigserial n d = map (\<lambda>i. VInt (int i)) [1..<Suc n]"
| "new_ids env RandomUuid n d = map (\<lambda>i. VUuid (random_uuid env i)) [d..<d + n]"

definition add_id_column :: "pg_env \<Rightarrow> string \<Rightarrow> string \<Rightarrow> id_kind \<Rightarrow> database \<Rightarrow> exn + database" where
  "add_id_column env t c kind db =
     (case tables db t of
        None \<Rightarrow> Inr db
      | Some tb \<Rightarrow>
          if columns tb c \<noteq> None then Inr db
          else if pkey tb \<noteq> None
          then Inl (JsError (''multiple primary keys for table \"'' @ t @ ''\" are not allowed''))
          else if kind = Bigserial \<and> 2 ^ 63 \<le> length (cells tb)
          then Inl (JsError (''nextval: reached maximum value of sequence''))
          else (let ids = new_ids env kind (length (cells tb)) (drawn db)
                in if \<not> distinct ids
                   then Inl (JsError (''could not create unique index \"'' @ t @ ''_pkey\"''))
                   else Inr ((put_table t
                      \<lparr>columns = (columns tb)(c \<mapsto> id_type kind), pkey = Some (t @ ''_pkey'', c),
                       cells = map2 (\<lambda>r v. r(c := v)) (cells tb) ids\<rparr> db)
                      \<lparr>drawn := (case kind of Bigserial \<Rightarrow> drawn db | RandomUuid \<Rightarrow> drawn db + length (cells tb))\<rparr>)))"

text \<open>\<open>v::bigint\<close>, \<open>v::varchar\<close> fitted to the length of the column; other casts are not used.\<close>

fun cast :: "pg_env \<Rightarrow> column_type \<Rightarrow> cell \<Rightarrow> cell option" where
  "cast env ty NULL = Some NULL"
| "cast env Bigint (VInt i) = (if bigint_range i then Some (VInt i) else None)"
| "cast env Bigint (VText t) =
     (case bigint_of_text env t of Some i \<Rightarrow> if bigint_range i then Some (VInt i) else None | None \<Rightarrow> None)"
| "cast env (Varchar n) (VInt i) = (let t = show_bigint i in if length t \<le> n then Some (VText t) else None)"
| "cast env (Varchar n) (VText t) = (if length t \<le> n then Some (VText t) else None)"
| "cast env ty v = None"

text \<open>A foreign key on the column is made again, which needs comparable types.\<close>

definition type_of_column :: "database \<Rightarrow> string \<Rightarrow> string \<Rightarrow> column_type option" where
  "type_of_column db t c = (case tables db t of None \<Rightarrow> None | Some tb \<Rightarrow> columns tb c)"

definition still_comparable :: "string \<Rightarrow> string \<Rightarrow> column_type \<Rightarrow> database \<Rightarrow> foreign_key \<Rightarrow> bool" where
  "still_comparable t c ty db fk =
     (let after = (\<lambda>u k. if (u, k) = (t, c) then Some ty else type_of_column db u k)
      in case (after (fk_table fk) (fk_column fk), after (fk_refTable fk) (fk_refColumn fk)) of
           (Some a, Some b) \<Rightarrow> comparable a b
         | _ \<Rightarrow> False)"

definition alter_type :: "pg_env \<Rightarrow> string \<Rightarrow> string \<Rightarrow> column_type \<Rightarrow> database \<Rightarrow> exn + database" where
  "alter_type env t c ty db =
     (case tables db t of
        None \<Rightarrow> Inr db
      | Some tb \<Rightarrow>
          if columns tb c = None then no_column c
          else if \<exists>fk \<in> set (fkeys db). \<not> still_comparable t c ty db fk
          then Inl (JsError (''foreign key constraint on \"'' @ c @ ''\" cannot be implemented''))
          else if \<exists>v \<in> set (key_values tb c). cast env ty v = None
          then Inl (JsError (''invalid value in column \"'' @ c @ ''\"''))
          else (let tb' = tb\<lparr>columns := (columns tb)(c \<mapsto> ty),
                            cells := map (\<lambda>r. r(c := the (cast env ty (r c)))) (cells tb)\<rparr>
                in if (case pkey tb of Some (m, k) \<Rightarrow> k = c | None \<Rightarrow> False) \<and> \<not> distinct (key_values tb' c)
                   then Inl (JsError ''could not create unique index'')
                   else Inr (put_table t tb' db)))"

definition add_foreign_key ::
  "string \<Rightarrow> string \<Rightarrow> string \<Rightarrow> string \<Rightarrow> string \<Rightarrow> database \<Rightarrow> exn + database" where
  "add_foreign_key t n c rt rc db =
     (case tables db t of
        None \<Rightarrow> Inr db
      | Some tb \<Rightarrow>
          (case (tables db rt, columns tb c) of
             (None, _) \<Rightarrow> no_table rt
           | (_, None) \<Rightarrow> no_column c
           | (Some rtb, Some ty) \<Rightarrow>
               (case columns rtb rc of
                  None \<Rightarrow> no_column rc
                | Some rty \<Rightarrow>
                    if (case pkey rtb of Some (m, k) \<Rightarrow> k \<noteq> rc | None \<Rightarrow> True)
                    then Inl (JsError (''there is no unique constraint matching given keys for referenced table \"'' @ rt @ ''\"''))
                    else if \<not> comparable ty rty
                    then Inl (JsError (''foreign key constraint \"'' @ n @ ''\" cannot be implemented''))
                    else if (\<exists>fk \<in> set (fkeys db). fk_table fk = t \<and> fk_name fk = n) \<or> map_option fst (pkey tb) = Some n
                    then Inl (JsError (''constraint \"'' @ n @ ''\" for relation \"'' @ t @ ''\" already exists''))
                    else if \<exists>v \<in> set (key_values tb c). v \<noteq> NULL \<and> v \<notin> set (key_values rtb rc)
                    then Inl (JsError (''insert or update on table \"'' @ t @ ''\" violates foreign key constraint \"'' @ n @ ''\"''))
                    else Inr (db\<lparr>fkeys := fkeys db @
                      [\<lparr>fk_name = n, fk_table = t, fk_column = c, fk_refTable = rt, fk_refColumn = rc\<rparr>]\<rparr>))))"

text \<open>\<open>IF NOT EXISTS\<close> asks for the name only: an index of that name stays as it is.\<close>

definition create_index :: "string \<Rightarrow> string \<Rightarrow> string list \<Rightarrow> string list \<Rightarrow> database \<Rightarrow> exn + database" where
  "create_index n t cs incl db =
     (case tables db t of
        None \<Rightarrow> no_table t
      | Some tb \<Rightarrow>
          (case List.find (\<lambda>c. columns tb c = None) (cs @ incl) of
             Some c \<Rightarrow> no_column c
           | None \<Rightarrow>
               if n \<in> ix_name ` set (indexes db) \<or> tables db n \<noteq> None then Inr db
               else Inr (db\<lparr>indexes := indexes db @
                 [\<lparr>ix_name = n, ix_table = t, ix_columns = cs, ix_include = incl\<rparr>]\<rparr>)))"

definition drop_index :: "string \<Rightarrow> database \<Rightarrow> exn + database" where
  "drop_index n db = Inr (db\<lparr>indexes := filter (\<lambda>ix. ix_name ix \<noteq> n) (indexes db)\<rparr>)"

fun execute :: "pg_env \<Rightarrow> statement \<Rightarrow> database \<Rightarrow> exn + database" where
  "execute env (DropConstraint t n) db = drop_constraint t n db"
| "execute env (DropColumn t c) db = drop_column t c db"
| "execute env (AddIdColumn t c kind) db = add_id_column env t c kind db"
| "execute env (AlterType t c ty) db = alter_type env t c ty db"
| "execute env (AddForeignKey t n c rt rc) db = add_foreign_key t n c rt rc db"
| "execute env (CreateIndex n t cs incl) db = create_index n t cs incl db"
| "execute env (DropIndex n) db = drop_index n db"

definition query :: "pg_env \<Rightarrow> statement \<Rightarrow> (database, unit) eff" where
  "query env st = (\<lambda>db. case execute env st db of Inl e \<Rightarrow> (Inl e, db) | Inr db' \<Rightarrow> (Inr (), db'))"

text \<open>The statements of a migration in the order they are awaited, in one transaction.\<close>

definition migrate :: "pg_env \<Rightarrow> statement list \<Rightarrow> (database, unit) eff" where
  "migrate env sts = transactE (forE (query env) sts)"

section \<open>The migrations\<close>

text \<open>\<open>PrimaryKeysAndIndexes1733300000000\<close>\<close>

definition primary_keys_up :: "statement list" where
  "primary_keys_up =
     [DropConstraint ''ride_payment_outbox'' ''ride_payment_outbox_pkey'',
      DropColumn ''ride_payment_outbox'' ''id'',
      AddIdColumn ''ride_payment_outbox'' ''id'' Bigserial,
      CreateIndex ''ix_driver_profile_msisdn_status'' ''driver_profile'' [''msisdn'', ''status''] [''id'', ''role''],
      CreateIndex ''ix_rider_profile_msisdn_status'' ''rider_profile'' [''msisdn'', ''status''] [''id'', ''role''],
      CreateIndex ''ix_ride_driver_candidates_ride_driver'' ''ride_driver_candidates'' [''ride_id'', ''driver_id'']
        [''status'', ''distance_meters'', ''reason'', ''responded_at'', ''created_at'', ''updated_at''],
      CreateIndex ''ix_ride_driver_candidates_ride_created'' ''ride_driver_candidates'' [''ride_id'', ''created_at'']
        [''driver_id'', ''status'', ''distance_meters''],
      CreateIndex ''ix_ride_payment_details_order_id'' ''ride_payment_details'' [''order_id'']
        [''id'', ''ride_id'', ''provider'', ''status'', ''token'', ''redirect_url''],
      CreateIndex ''ix_ride_payment_outbox_ride_status'' ''ride_payment_outbox'' [''ride_id'', ''status'']
        [''id'', ''payment_detail_id'', ''order_id''],
      CreateIndex ''ix_ride_status_history_ride'' ''ride_status_history'' [''ride_id''] [''from_status'', ''to_status'']]"

definition primary_keys_down :: "statement list" where
  "primary_keys_down =
     [DropIndex ''ix_ride_status_history_ride'',
      DropIndex ''ix_ride_payment_outbox_ride_status'',
      DropIndex ''ix_ride_payment_details_order_id'',
      DropIndex ''ix_ride_driver_candidates_ride_created'',
      DropIndex ''ix_ride_driver_candidates_ride_driver'',
      DropIndex ''ix_rider_profile_msisdn_status'',
      DropIndex ''ix_driver_profile_msisdn_status'',
      DropConstraint ''ride_payment_outbox'' ''ride_payment_outbox_pkey'',
      DropColumn ''ride_payment_outbox'' ''id'',
      AddIdColumn ''ride_payment_outbox'' ''id'' RandomUuid]"

text \<open>\<open>AlignForeignKeyTypes1733400000001\<close>\<close>

definition align_up :: "statement list" where
  "align_up =
     [DropConstraint ''rides'' ''fk_rides_rider'',
      DropConstraint ''rides'' ''fk_rides_driver'',
      DropConstraint ''ride_driver_candidates'' ''fk_ride_driver_candidates_driver'',
      DropConstraint ''ride_driver_candidates'' ''fk_ride_driver_candidates_ride'',
      AlterType ''rides'' ''rider_id'' Bigint,
      AlterType ''rides'' ''driver_id'' Bigint,
      AlterType ''ride_driver_candidates'' ''driver_id'' Bigint,
      AddForeignKey ''rides'' ''fk_rides_rider'' ''rider_id'' ''rider_profile'' ''id'',
      AddForeignKey ''rides'' ''fk_rides_driver'' ''driver_id'' ''driver_profile'' ''id'',
      AddForeignKey ''ride_driver_candidates'' ''fk_ride_driver_candidates_driver'' ''driver_id'' ''driver_profile'' ''id'',
      AddForeignKey ''ride_driver_candidates'' ''fk_ride_driver_candidates_ride'' ''ride_id'' ''rides'' ''id'']"

definition align_down :: "statement list" where
  "align_down =
     [DropConstraint ''ride_driver_candidates'' ''fk_ride_driver_candidates_ride'',
      DropConstraint ''ride_driver_candidates'' ''fk_ride_driver_candidates_driver'',
      DropConstraint ''rides'' ''fk_rides_driver'',
      DropConstraint ''rides'' ''fk_rides_rider'',
      AlterType ''ride_driver_candidates'' ''driver_id'' (Varchar 64),
      AlterType ''rides'' ''driver_id'' (Varchar 64),
      AlterType ''rides'' ''rider_id'' (Varchar 64)]"

section \<open>Integrity of a database\<close>

fun cell_ok :: "column_type \<Rightarrow> cell \<Rightarrow> bool" where
  "cell_ok ty NULL = True"
| "cell_ok Bigint (VInt i) = bigint_range i"
| "cell_ok (Varchar n) (VText t) = (length t \<le> n)"
| "cell_ok Uuid_type (VUuid u) = True"
| "cell_ok (Other_type n) (VOther v) = True"
| "cell_ok ty v = False"

definition table_ok :: "db_table \<Rightarrow> bool" where
  "table_ok tb \<longleftrightarrow>
     (\<forall>c ty. columns tb c = Some ty \<longrightarrow> (\<forall>v \<in> set (key_values tb c). cell_ok ty v)) \<and>
     (\<forall>m c. pkey tb = Some (m, c) \<longrightarrow>
        columns tb c \<noteq> None \<and> distinct (key_values tb c) \<and> NULL \<notin> set (key_values tb c))"

definition fkey_ok :: "database \<Rightarrow> foreign_key \<Rightarrow> bool" where
  "fkey_ok db fk \<longleftrightarrow> (\<exists>tb rtb a b m.
     tables db (fk_table fk) = Some tb \<and> tables db (fk_refTable fk) = Some rtb \<and>
     columns tb (fk_column fk) = Some a \<and> columns rtb (fk_refColumn fk) = Some b \<and> comparable a b \<and>
     pkey rtb = Some (m, fk_refColumn fk) \<and>
     (\<forall>v \<in> set (key_values tb (fk_column fk)). v = NULL \<or> v \<in> set (key_values rtb (fk_refColumn fk))))"

definition index_ok :: "database \<Rightarrow> db_index \<Rightarrow> bool" where
  "index_ok db ix \<longleftrightarrow> (\<exists>tb. tables db (ix_table ix) = Some tb \<and>
     (\<forall>c \<in> set (ix_columns ix @ ix_include ix). columns tb c \<noteq> None))"

definition integrity :: "database \<Rightarrow> bool" where
  "integrity db \<longleftrightarrow> (\<forall>t tb. tables db t = Some tb \<longrightarrow> table_ok tb) \<and> (\<forall>fk \<in> set (fkeys db). fkey_ok db fk) \<and>
     (\<forall>ix \<in> set (indexes db). index_ok db ix) \<and> distinct (map ix_name (indexes db))"

lemma key_values_simps [simp]:
  "key_values (tb\<lparr>pkey := p\<rparr>) c = key_values tb c" "key_values (tb\<lparr>columns := cs\<rparr>) c = key_values tb c"
  "key_values (tb\<lparr>cells := rs\<rparr>) c = map (\<lambda>r. r c) rs"
  "key_values \<lparr>columns = cs, pkey = p, cells = rs\<rparr> c = map (\<lambda>r. r c) rs"
  by (simp_all add: key_values_def)

lemma fkey_ok_tables: "tables db' = tables db \<Longrightarrow> fkey_ok db' fk = fkey_ok db fk"
  by (simp add: fkey_ok_def)

lemma index_ok_tables: "tables db' = tables db \<Longrightarrow> index_ok db' ix = index_ok db ix"
  by (simp add: index_ok_def)

lemma integrity_tables:
  assumes "integrity db" and "tables db' = tables db" and "set (fkeys db') \<subseteq> set (fkeys db)"
    and "set (indexes db') \<subseteq> set (indexes db)" and "distinct (map ix_name (indexes db'))"
  shows "integrity db'"
  using assms by (auto simp: integrity_def fkey_ok_tables [of db' db] index_ok_tables [of db' db])

lemma integrityD:
  assumes "integrity db" and "tables db t = Some tb"
  shows "table_ok tb"
  using assms by (simp add: integrity_def)

text \<open>A foreign key stays satisfied when both of its columns stay as they are.\<close>

definition column_kept :: "database \<Rightarrow> database \<Rightarrow> string \<Rightarrow> string \<Rightarrow> bool" where
  "column_kept db db' t c \<longleftrightarrow> (\<forall>tb. tables db t = Some tb \<longrightarrow> (\<exists>tb'. tables db' t = Some tb' \<and>
     columns tb' c = columns tb c \<and> key_values tb' c = key_values tb c \<and>
     (\<forall>m. pkey tb = Some (m, c) \<longrightarrow> pkey tb' = Some (m, c))))"

lemma fkey_ok_kept:
  assumes "fkey_ok db fk" and "column_kept db db' (fk_table fk) (fk_column fk)"
    and "column_kept db db' (fk_refTable fk) (fk_refColumn fk)"
  shows "fkey_ok db' fk"
proof -
  obtain tb rtb a b m where fk: "tables db (fk_table fk) = Some tb" "tables db (fk_refTable fk) = Some rtb"
      "columns tb (fk_column fk) = Some a" "columns rtb (fk_refColumn fk) = Some b" "comparable a b"
      "pkey rtb = Some (m, fk_refColumn fk)"
      "\<forall>v \<in> set (key_values tb (fk_column fk)). v = NULL \<or> v \<in> set (key_values rtb (fk_refColumn fk))"
    using assms(1) unfolding fkey_ok_def by blast
  obtain tb' where tb': "tables db' (fk_table fk) = Some tb'" "columns tb' (fk_column fk) = Some a"
      "key_values tb' (fk_column fk) = key_values tb (fk_column fk)"
    using assms(2) fk(1,3) unfolding column_kept_def by fastforce
  obtain rtb' where rtb': "tables db' (fk_refTable fk) = Some rtb'" "columns rtb' (fk_refColumn fk) = Some b"
      "key_values rtb' (fk_refColumn fk) = key_values rtb (fk_refColumn fk)" "pkey rtb' = Some (m, fk_refColumn fk)"
    using assms(3) fk(2,4,6) unfolding column_kept_def by fastforce
  show ?thesis unfolding fkey_ok_def
    by (intro exI [of _ tb'] exI [of _ rtb'] exI [of _ a] exI [of _ b] exI [of _ m]) (use fk tb' rtb' in simp)
qed

text \<open>Replacing one table.\<close>

lemma integrity_put:
  assumes ok: "integrity db" and t: "tables db t = Some tb" and new: "table_ok tb'"
    and db': "tables db' = (tables db)(t \<mapsto> tb')" "set (fkeys db') \<subseteq> set (fkeys db)"
      "set (indexes db') \<subseteq> set (indexes db)" "distinct (map ix_name (indexes db'))"
    and fks: "\<And>fk. fk \<in> set (fkeys db') \<Longrightarrow> fkey_ok db fk \<Longrightarrow> fkey_ok db' fk"
    and ixs: "\<And>ix c. ix \<in> set (indexes db') \<Longrightarrow> ix_table ix = t \<Longrightarrow> c \<in> set (ix_columns ix @ ix_include ix) \<Longrightarrow>
      columns tb c \<noteq> None \<Longrightarrow> columns tb' c \<noteq> None"
  shows "integrity db'"
proof -
  have "index_ok db' ix" if "ix \<in> set (indexes db')" for ix
  proof -
    have "index_ok db ix" using ok that db'(3) by (auto simp: integrity_def)
    then show ?thesis using t ixs [OF that] by (auto simp: index_ok_def db'(1))
  qed
  moreover have "fkey_ok db' fk" if "fk \<in> set (fkeys db')" for fk
    using fks [OF that] ok that db'(2) by (auto simp: integrity_def)
  moreover have "table_ok x" if "tables db' u = Some x" for u x
    using ok new that by (auto simp: integrity_def db'(1) split: if_splits)
  ultimately show ?thesis using db'(4) by (simp add: integrity_def)
qed

lemma drop_constraint_keeps:
  assumes "integrity db" and "drop_constraint t n db = Inr db'"
  shows "integrity db'"
proof -
  have drop: "integrity (db\<lparr>fkeys := filter P (fkeys db)\<rparr>)" for P
    using assms(1) by (rule integrity_tables) (use assms(1) in \<open>auto simp: integrity_def\<close>)
  show ?thesis
  proof (cases "tables db t")
    case (Some tb)
    show ?thesis
    proof (cases "\<exists>c. pkey tb = Some (n, c)")
      case True
      then obtain c where c: "pkey tb = Some (n, c)" by blast
      have none: "\<not> (\<exists>fk \<in> set (fkeys db). fk_refTable fk = t \<and> fk_refColumn fk = c)"
        and db': "db' = put_table t (tb\<lparr>pkey := None\<rparr>) db"
        using assms(2) Some c by (auto simp: drop_constraint_def split: if_splits)
      show ?thesis
      proof (rule integrity_put [OF assms(1) Some, of "tb\<lparr>pkey := None\<rparr>"])
        fix fk assume fk: "fk \<in> set (fkeys db')" and ok: "fkey_ok db fk"
        have "\<not> (fk_refTable fk = t \<and> pkey tb = Some (m, fk_refColumn fk))" for m
          using none fk c by (auto simp: db' put_table_def)
        then show "fkey_ok db' fk" using ok Some unfolding fkey_ok_def db' put_table_def by fastforce
      qed (use assms(1) integrityD [OF assms(1) Some] in \<open>auto simp: db' put_table_def integrity_def table_ok_def\<close>)
    next
      case False
      then show ?thesis using assms(2) Some drop by (auto simp: drop_constraint_def split: option.splits if_splits)
    qed
  qed (use assms in \<open>simp add: drop_constraint_def\<close>)
qed

lemma drop_column_keeps:
  assumes ok: "integrity db" and run: "drop_column t c db = Inr db'"
  shows "integrity db'"
proof (cases "tables db t")
  case (Some tb)
  show ?thesis
  proof (cases "columns tb c")
    case (Some ty)
    note t = \<open>tables db t = Some tb\<close>
    let ?key = "case pkey tb of Some (m, k) \<Rightarrow> if k = c then None else Some (m, k) | None \<Rightarrow> None"
    let ?tb = "\<lparr>columns = (columns tb)(c := None), pkey = ?key, cells = map (\<lambda>r. r(c := NULL)) (cells tb)\<rparr>"
    have alone: "\<forall>fk \<in> set (fkeys db). fk_refTable fk = t \<and> fk_refColumn fk = c \<longrightarrow> (fk_table fk, fk_column fk) = (t, c)"
      and db': "db' = (put_table t ?tb db)
             \<lparr>fkeys := filter (\<lambda>fk. \<not> (fk_table fk = t \<and> fk_column fk = c)) (fkeys db),
              indexes := filter (\<lambda>ix. \<not> (ix_table ix = t \<and> c \<in> set (ix_columns ix @ ix_include ix))) (indexes db)\<rparr>"
      using run t Some by (auto simp: drop_column_def split: if_splits)
    have other: "key_values ?tb k = key_values tb k" if "k \<noteq> c" for k using that by (simp add: key_values_def)
    have kept: "column_kept db db' u k" if "(u, k) \<noteq> (t, c)" for u k
      using that t other by (auto simp: column_kept_def db' put_table_def)
    show ?thesis
    proof (rule integrity_put [OF ok t, of ?tb])
      show "table_ok ?tb" using integrityD [OF ok t] other
        by (auto simp: table_ok_def key_values_def comp_def split: option.splits prod.splits if_splits)
      show "fkey_ok db' fk" if "fk \<in> set (fkeys db')" "fkey_ok db fk" for fk
      proof (rule fkey_ok_kept [OF that(2)])
        show "column_kept db db' (fk_table fk) (fk_column fk)"
          by (rule kept) (use that(1) in \<open>auto simp: db'\<close>)
        show "column_kept db db' (fk_refTable fk) (fk_refColumn fk)"
          by (rule kept) (use that(1) alone in \<open>auto simp: db'\<close>)
      qed
    qed (use ok in \<open>auto simp: db' put_table_def integrity_def distinct_map_filter\<close>)
  qed (use assms Some in \<open>simp add: drop_column_def\<close>)
qed (use assms in \<open>simp add: drop_column_def\<close>)

lemma new_ids_ok:
  "length (new_ids env kind n d) = n" "NULL \<notin> set (new_ids env kind n d)"
  "kind = RandomUuid \<or> n < 2 ^ 63 \<Longrightarrow> \<forall>v \<in> set (new_ids env kind n d). cell_ok (id_type kind) v"
  by (cases kind; auto simp: bigint_range_def simp del: upt_Suc)+

lemma add_id_column_keeps:
  assumes ok: "integrity db" and run: "add_id_column env t c kind db = Inr db'"
  shows "integrity db'"
proof (cases "tables db t")
  case (Some tb)
  note t = \<open>tables db t = Some tb\<close>
  show ?thesis
  proof (cases "columns tb c")
    case None
    let ?ids = "new_ids env kind (length (cells tb)) (drawn db)"
    let ?tb = "\<lparr>columns = (columns tb)(c \<mapsto> id_type kind), pkey = Some (t @ ''_pkey'', c),
      cells = map2 (\<lambda>r v. r(c := v)) (cells tb) ?ids\<rparr>"
    have fresh: "distinct ?ids" "kind = RandomUuid \<or> length (cells tb) < 2 ^ 63" "pkey tb = None"
      and db': "db' = (put_table t ?tb db)
        \<lparr>drawn := (case kind of Bigserial \<Rightarrow> drawn db | RandomUuid \<Rightarrow> drawn db + length (cells tb))\<rparr>"
      using run t None by (auto simp: add_id_column_def Let_def not_le simp del: new_ids.simps not_None_eq split: if_splits)
        (cases kind; simp)
    have "map (\<lambda>r. r c) (map2 (\<lambda>r v. r(c := v)) (cells tb) ?ids) = map snd (zip (cells tb) ?ids)"
      by (simp add: comp_def case_prod_beta)
    then have ids: "key_values ?tb c = ?ids" by (simp add: new_ids_ok(1))
    have "map (\<lambda>r. r k) (map2 (\<lambda>r v. r(c := v)) (cells tb) ?ids) = map (\<lambda>r. r k) (map fst (zip (cells tb) ?ids))"
      if "k \<noteq> c" for k using that by (simp add: comp_def case_prod_beta)
    then have other: "key_values ?tb k = key_values tb k" if "k \<noteq> c" for k
      using that by (simp add: new_ids_ok(1) key_values_def)
    have kept: "column_kept db db' u k" if "(u, k) \<noteq> (t, c)" for u k
      using that t other fresh(3) by (auto simp: column_kept_def db' put_table_def)
    have there: "(fk_table fk, fk_column fk) \<noteq> (t, c)" "(fk_refTable fk, fk_refColumn fk) \<noteq> (t, c)"
      if "fkey_ok db fk" for fk using that t None unfolding fkey_ok_def by auto
    show ?thesis
    proof (rule integrity_put [OF ok t, of ?tb])
      have "\<forall>v \<in> set (key_values ?tb k). cell_ok ty v" if "columns ?tb k = Some ty" for k ty
      proof (cases "k = c")
        case True
        then show ?thesis using new_ids_ok(3) [OF fresh(2), of env] that by (simp only: ids) simp
      next
        case False
        then show ?thesis using integrityD [OF ok t] that by (simp only: other [OF False]) (simp add: table_ok_def)
      qed
      then show "table_ok ?tb" unfolding table_ok_def using ids fresh(1) new_ids_ok(2) by (simp del: key_values_simps)
      show "fkey_ok db' fk" if "fkey_ok db fk" for fk by (rule fkey_ok_kept [OF that kept kept]) (rule there [OF that])+
    qed (use ok in \<open>auto simp: db' put_table_def integrity_def\<close>)
  qed (use assms Some in \<open>simp add: add_id_column_def\<close>)
qed (use assms in \<open>simp add: add_id_column_def\<close>)

text \<open>A cast to a comparable type changes no value, and a value that was cast fits.\<close>

lemma comparable_iff: "comparable a b \<longleftrightarrow> a = b \<or> ((\<exists>n. a = Varchar n) \<and> (\<exists>n. b = Varchar n))"
  by (cases a; cases b) auto

lemma cast_comparable: "cell_ok a v \<Longrightarrow> comparable a ty \<Longrightarrow> cast env ty v = Some w \<Longrightarrow> w = v"
  by (cases v; cases a; cases ty) (auto simp: comparable_iff split: if_splits)

lemma cast_ok: "cast env ty v = Some w \<Longrightarrow> cell_ok ty w"
  by (cases v; cases ty) (auto simp: Let_def split: if_splits option.splits)

lemma cast_NULL: "cast env ty v = Some NULL \<Longrightarrow> v = NULL"
  by (cases v; cases ty) (auto simp: Let_def split: if_splits option.splits)

definition altered :: "pg_env \<Rightarrow> string \<Rightarrow> column_type \<Rightarrow> db_table \<Rightarrow> db_table" where
  "altered env c ty tb = tb\<lparr>columns := (columns tb)(c \<mapsto> ty),
     cells := map (\<lambda>r. r(c := the (cast env ty (r c)))) (cells tb)\<rparr>"

lemma altered_values:
  "k \<noteq> c \<Longrightarrow> key_values (altered env c ty tb) k = key_values tb k"
  "key_values (altered env c ty tb) c = map (\<lambda>v. the (cast env ty v)) (key_values tb c)"
  by (simp_all add: altered_def key_values_def comp_def)

lemma altered_same:
  assumes "table_ok tb" and "columns tb c = Some old" and "comparable old ty"
    and "\<forall>v \<in> set (key_values tb c). cast env ty v \<noteq> None"
  shows "key_values (altered env c ty tb) k = key_values tb k"
proof (cases "k = c")
  case True
  have "the (cast env ty v) = v" if "v \<in> set (key_values tb c)" for v
    using assms that cast_comparable [OF _ assms(3), of v env] by (fastforce simp: table_ok_def)
  then show ?thesis by (simp only: True altered_values(2)) (simp add: map_idI)
qed (simp add: altered_values(1))

lemma alter_type_run:
  assumes "alter_type env t c ty db = Inr db'" and "tables db t = Some tb"
  obtains old where "columns tb c = Some old" and "\<forall>fk \<in> set (fkeys db). still_comparable t c ty db fk"
    and "\<forall>v \<in> set (key_values tb c). cast env ty v \<noteq> None"
    and "(\<exists>m. pkey tb = Some (m, c)) \<longrightarrow> distinct (key_values (altered env c ty tb) c)"
    and "db' = put_table t (altered env c ty tb) db"
  using assms by (auto simp: alter_type_def no_column_def Let_def altered_def [symmetric] simp del: not_None_eq
      split: if_splits option.splits)

lemma altered_fkey:
  assumes ok: "integrity db" and t: "tables db t = Some tb" and old: "columns tb c = Some old"
    and casts: "\<forall>v \<in> set (key_values tb c). cast env ty v \<noteq> None"
    and cmp: "still_comparable t c ty db fk" and fk: "fkey_ok db fk"
  shows "fkey_ok (put_table t (altered env c ty tb) db) fk"
proof -
  let ?new = "\<lambda>u x. if u = t then altered env c ty tb else x"
  let ?type = "\<lambda>u k a. if (u, k) = (t, c) then ty else a"
  obtain x y a b m where x: "tables db (fk_table fk) = Some x" "columns x (fk_column fk) = Some a"
    and y: "tables db (fk_refTable fk) = Some y" "columns y (fk_refColumn fk) = Some b" "pkey y = Some (m, fk_refColumn fk)"
    and ab: "comparable a b"
    and ref: "\<forall>v \<in> set (key_values x (fk_column fk)). v = NULL \<or> v \<in> set (key_values y (fk_refColumn fk))"
    using fk unfolding fkey_ok_def by blast
  have after: "comparable (?type (fk_table fk) (fk_column fk) a) (?type (fk_refTable fk) (fk_refColumn fk) b)"
    using cmp x y by (auto simp: still_comparable_def Let_def type_of_column_def split: if_splits)
  have same: "key_values (?new u z) k = key_values z k"
    if "tables db u = Some z" "columns z k = Some s" "(u, k) = (t, c) \<longrightarrow> comparable s ty" for u z k s
    using that t altered_values(1) altered_same [OF integrityD [OF ok t] old _ casts] old by (cases "k = c") auto
  have refs: "\<forall>v \<in> set (key_values (?new (fk_table fk) x) (fk_column fk)).
      v = NULL \<or> v \<in> set (key_values (?new (fk_refTable fk) y) (fk_refColumn fk))"
  proof (cases "(fk_table fk, fk_column fk) = (fk_refTable fk, fk_refColumn fk)")
    case False
    then have "(fk_table fk, fk_column fk) = (t, c) \<longrightarrow> comparable a ty" "(fk_refTable fk, fk_refColumn fk) = (t, c) \<longrightarrow> comparable b ty"
      using after ab by (auto simp: comparable_iff split: if_splits)
    then show ?thesis using same [OF x(1,2)] same [OF y(1,2)] ref by simp
  qed (use x y in auto)
  show ?thesis unfolding fkey_ok_def
  proof (intro exI conjI)
    show "tables (put_table t (altered env c ty tb) db) (fk_table fk) = Some (?new (fk_table fk) x)"
      "tables (put_table t (altered env c ty tb) db) (fk_refTable fk) = Some (?new (fk_refTable fk) y)"
      using x y by (simp_all add: put_table_def)
    show "columns (?new (fk_table fk) x) (fk_column fk) = Some (?type (fk_table fk) (fk_column fk) a)"
      "columns (?new (fk_refTable fk) y) (fk_refColumn fk) = Some (?type (fk_refTable fk) (fk_refColumn fk) b)"
      "pkey (?new (fk_refTable fk) y) = Some (m, fk_refColumn fk)"
      using x y t by (auto simp: altered_def)
  qed (use after refs in blast)+
qed

lemma alter_type_keeps:
  assumes ok: "integrity db" and run: "alter_type env t c ty db = Inr db'"
  shows "integrity db'"
proof (cases "tables db t")
  case (Some tb)
  obtain old where old: "columns tb c = Some old" and cmp: "\<forall>fk \<in> set (fkeys db). still_comparable t c ty db fk"
    and casts: "\<forall>v \<in> set (key_values tb c). cast env ty v \<noteq> None"
    and unique: "(\<exists>m. pkey tb = Some (m, c)) \<longrightarrow> distinct (key_values (altered env c ty tb) c)"
    and db': "db' = put_table t (altered env c ty tb) db"
    using alter_type_run [OF run Some] by blast
  let ?tb = "altered env c ty tb"
  have tb: "table_ok tb" by (rule integrityD [OF ok Some])
  have new: "cell_ok ty w \<and> (w = NULL \<longrightarrow> NULL \<in> set (key_values tb c))" if "w \<in> set (key_values ?tb c)" for w
    using that casts cast_ok cast_NULL unfolding altered_values(2) by fastforce
  show ?thesis
  proof (rule integrity_put [OF ok Some])
    show "table_ok ?tb" unfolding table_ok_def
    proof (intro conjI allI impI)
      fix k s assume s: "columns ?tb k = Some s"
      show "\<forall>v \<in> set (key_values ?tb k). cell_ok s v"
      proof (cases "k = c")
        case True
        then show ?thesis using s new by (auto simp: altered_def)
      next
        case False
        then show ?thesis using s tb by (simp add: altered_values) (simp add: altered_def table_ok_def)
      qed
    next
      fix m k assume key: "pkey ?tb = Some (m, k)"
      then have key: "pkey tb = Some (m, k)" by (simp add: altered_def)
      then have old_key: "columns tb k \<noteq> None" "distinct (key_values tb k)" "NULL \<notin> set (key_values tb k)"
        using tb by (simp_all add: table_ok_def)
      show "columns ?tb k \<noteq> None" using old_key by (simp add: altered_def)
      show "distinct (key_values ?tb k)" "NULL \<notin> set (key_values ?tb k)"
        using old_key key unique new by (cases "k = c"; simp add: altered_values(1); blast)+
    qed
    show "fkey_ok db' fk" if "fk \<in> set (fkeys db')" "fkey_ok db fk" for fk
      using altered_fkey [OF ok Some old casts _ that(2)] cmp that(1) by (simp add: db' put_table_def)
  qed (use ok in \<open>auto simp: db' put_table_def integrity_def altered_def\<close>)
qed (use assms in \<open>simp add: alter_type_def\<close>)

text \<open>What a successful \<open>ADD CONSTRAINT\<close> has checked.\<close>

definition new_fkey :: "string \<Rightarrow> string \<Rightarrow> string \<Rightarrow> string \<Rightarrow> string \<Rightarrow> foreign_key" where
  "new_fkey t n c rt rc = \<lparr>fk_name = n, fk_table = t, fk_column = c, fk_refTable = rt, fk_refColumn = rc\<rparr>"

lemma add_foreign_key_run:
  assumes "add_foreign_key t n c rt rc db = Inr db'" and "tables db t \<noteq> None"
  shows "db' = db\<lparr>fkeys := fkeys db @ [new_fkey t n c rt rc]\<rparr>" and "fkey_ok db (new_fkey t n c rt rc)"
  using assms
  by (force simp: add_foreign_key_def no_table_def no_column_def new_fkey_def fkey_ok_def
      split: option.splits if_splits prod.splits)+

lemma add_foreign_key_keeps:
  assumes ok: "integrity db" and run: "add_foreign_key t n c rt rc db = Inr db'"
  shows "integrity db'"
proof (cases "tables db t = None")
  case False
  note fk = add_foreign_key_run [OF run False]
  have "fkey_ok db' k = fkey_ok db k" for k by (rule fkey_ok_tables) (simp add: fk(1))
  moreover have "index_ok db' ix = index_ok db ix" for ix by (rule index_ok_tables) (simp add: fk(1))
  ultimately show ?thesis using ok fk(2) by (simp add: integrity_def fk(1))
qed (use assms in \<open>simp add: add_foreign_key_def\<close>)

lemma create_index_run:
  assumes "create_index n t cs incl db = Inr db'"
  obtains (skipped) "db' = db" "n \<in> ix_name ` set (indexes db) \<or> tables db n \<noteq> None"
  | (created) "db' = db\<lparr>indexes := indexes db @ [\<lparr>ix_name = n, ix_table = t, ix_columns = cs, ix_include = incl\<rparr>]\<rparr>"
      "n \<notin> ix_name ` set (indexes db)" "index_ok db \<lparr>ix_name = n, ix_table = t, ix_columns = cs, ix_include = incl\<rparr>"
proof -
  obtain tb where tb: "tables db t = Some tb" using assms by (auto simp: create_index_def no_table_def split: option.splits)
  have there: "List.find (\<lambda>c. columns tb c = None) (cs @ incl) = None"
    using assms tb by (simp add: create_index_def no_column_def split: option.splits)
  then have "\<forall>c \<in> set (cs @ incl). columns tb c \<noteq> None" unfolding find_None_iff by metis
  then have "index_ok db \<lparr>ix_name = n, ix_table = t, ix_columns = cs, ix_include = incl\<rparr>"
    using tb by (simp add: index_ok_def)
  then show ?thesis using that assms tb there by (auto simp: create_index_def split: if_splits)
qed

lemma create_index_keeps:
  assumes ok: "integrity db" and run: "create_index n t cs incl db = Inr db'"
  shows "integrity db'"
  using run
proof (cases rule: create_index_run)
  case created
  have "fkey_ok db' k = fkey_ok db k" for k by (rule fkey_ok_tables) (simp add: created(1))
  moreover have "index_ok db' ix = index_ok db ix" for ix by (rule index_ok_tables) (simp add: created(1))
  ultimately show ?thesis using ok created(2,3) by (auto simp: integrity_def created(1))
qed (use ok in simp)

lemma execute_keeps:
  assumes "integrity db" and "execute env st db = Inr db'"
  shows "integrity db'"
proof (cases st)
  case (DropIndex n)
  then have "db' = db\<lparr>indexes := filter (\<lambda>ix. ix_name ix \<noteq> n) (indexes db)\<rparr>" using assms by (simp add: drop_index_def)
  moreover have "integrity (db\<lparr>indexes := filter P (indexes db)\<rparr>)" for P
    using assms(1) by (rule integrity_tables) (use assms(1) in \<open>auto simp: integrity_def distinct_map_filter\<close>)
  ultimately show ?thesis by simp
next
  case (DropConstraint t n)
  then show ?thesis using assms drop_constraint_keeps by simp
next
  case (DropColumn t c)
  then show ?thesis using assms drop_column_keeps by simp
next
  case (AddIdColumn t c kind)
  then show ?thesis using assms add_id_column_keeps by simp
next
  case (AlterType t c ty)
  then show ?thesis using assms alter_type_keeps by simp
next
  case (AddForeignKey t n c rt rc)
  then show ?thesis using assms add_foreign_key_keeps by simp
next
  case (CreateIndex n t cs incl)
  then show ?thesis using assms create_index_keeps by simp
qed

lemma query_run:
  "query env st db = (Inr u, db') \<longleftrightarrow> execute env st db = Inr db'"
  "query env st db = (Inl e, db') \<longleftrightarrow> execute env st db = Inl e \<and> db' = db"
  by (auto simp: query_def split: sum.split)

text \<open>A migration that succeeds has executed its statements one after the other.\<close>

fun executes :: "pg_env \<Rightarrow> statement list \<Rightarrow> database \<Rightarrow> database \<Rightarrow> bool" where
  "executes env [] db db' = (db' = db)"
| "executes env (st # sts) db db' = (case execute env st db of Inl e \<Rightarrow> False | Inr db1 \<Rightarrow> executes env sts db1 db')"

lemma for_executes: "forE (query env) sts db = (Inr (), db') \<longleftrightarrow> executes env sts db db'"
  by (induction sts arbitrary: db) (auto simp: run_for_Nil run_for_Cons query_def split: sum.split)

lemma migrate_executes: "migrate env sts db = (Inr (), db') \<longleftrightarrow> executes env sts db db'"
  by (auto simp: migrate_def run_transact for_executes [symmetric] split: prod.splits sum.splits)

lemma executes_keeps: "executes env sts db db' \<Longrightarrow> integrity db \<Longrightarrow> integrity db'"
  by (induction sts arbitrary: db) (auto intro: execute_keeps split: sum.splits)

lemma migrate_fails: "migrate env sts db = (Inl e, db') \<Longrightarrow> db' = db"
  unfolding migrate_def by (rule transact_atomic)

lemma migrate_keeps:
  assumes "integrity db" and "migrate env sts db = (out, db')"
  shows "integrity db'" and "out = Inl e \<Longrightarrow> db' = db"
proof -
  show same: "out = Inl e \<Longrightarrow> db' = db" for e using assms(2) migrate_fails by simp
  show "integrity db'"
  proof (cases out)
    case (Inl e)
    then show ?thesis using assms(1) same by simp
  next
    case (Inr u)
    then show ?thesis using assms executes_keeps migrate_executes by (simp add: unit_eq)
  qed
qed


section \<open>The foreign keys after \<open>align_up\<close>\<close>

lemma executes_Cons: "executes env (st # sts) db db' \<longleftrightarrow> (\<exists>d. execute env st db = Inr d \<and> executes env sts d db')"
  by (auto split: sum.split)

lemma executes_append: "executes env (xs @ ys) db db' \<longleftrightarrow> (\<exists>d. executes env xs db d \<and> executes env ys d db')"
  by (induction xs arbitrary: db) (auto split: sum.splits)

lemma drop_constraint_types:
  assumes "drop_constraint t n db = Inr db'"
  shows "type_of_column db' = type_of_column db" and "dom (tables db') = dom (tables db)"
proof -
  have *: "type_of_column db' u k = type_of_column db u k \<and> (u \<in> dom (tables db') \<longleftrightarrow> u \<in> dom (tables db))" for u k
    using assms by (auto simp: drop_constraint_def put_table_def type_of_column_def split: option.splits if_splits)
  then show "type_of_column db' = type_of_column db" by (intro ext) blast
  show "dom (tables db') = dom (tables db)" using * by blast
qed

lemma alter_type_types:
  assumes "alter_type env t c ty db = Inr db'" and "t \<in> dom (tables db)"
  shows "type_of_column db' u k = (if (u, k) = (t, c) then Some ty else type_of_column db u k)"
    and "dom (tables db') = dom (tables db)"
proof -
  obtain tb where tb: "tables db t = Some tb" using assms(2) by blast
  from alter_type_run [OF assms(1) tb] have db': "db' = put_table t (altered env c ty tb) db" by blast
  show "type_of_column db' u k = (if (u, k) = (t, c) then Some ty else type_of_column db u k)"
    by (auto simp: db' tb put_table_def altered_def type_of_column_def)
  show "dom (tables db') = dom (tables db)" using tb by (auto simp: db' put_table_def)
qed

text \<open>The keys that \<open>align_up\<close> adds: name, table, column, target.\<close>

definition add_fkey :: "foreign_key \<Rightarrow> statement" where
  "add_fkey fk = AddForeignKey (fk_table fk) (fk_name fk) (fk_column fk) (fk_refTable fk) (fk_refColumn fk)"

lemma adds_run:
  assumes "executes env (map add_fkey fks) db db'" and "\<forall>fk \<in> set fks. fk_table fk \<in> dom (tables db)"
  shows "db' = db\<lparr>fkeys := fkeys db @ fks\<rparr>"
  using assms
proof (induction fks arbitrary: db)
  case (Cons fk fks)
  obtain d where d: "execute env (add_fkey fk) db = Inr d" and rest: "executes env (map add_fkey fks) d db'"
    using Cons.prems(1) by (auto simp only: executes_Cons list.map)
  have "d = db\<lparr>fkeys := fkeys db @ [fk]\<rparr>"
    using add_foreign_key_run(1) [of "fk_table fk" "fk_name fk" "fk_column fk" "fk_refTable fk" "fk_refColumn fk" db d] d Cons.prems(2)
    by (cases fk) (auto simp: add_fkey_def new_fkey_def)
  then show ?case using Cons.IH [OF rest] Cons.prems(2) by simp
qed simp

definition aligned_fkeys :: "foreign_key list" where
  "aligned_fkeys =
     [new_fkey ''rides'' ''fk_rides_rider'' ''rider_id'' ''rider_profile'' ''id'',
      new_fkey ''rides'' ''fk_rides_driver'' ''driver_id'' ''driver_profile'' ''id'',
      new_fkey ''ride_driver_candidates'' ''fk_ride_driver_candidates_driver'' ''driver_id'' ''driver_profile'' ''id'',
      new_fkey ''ride_driver_candidates'' ''fk_ride_driver_candidates_ride'' ''ride_id'' ''rides'' ''id'']"

definition drop_keys :: "(string \<times> string) list \<Rightarrow> statement list" where
  "drop_keys = map (\<lambda>(t, n). DropConstraint t n)"

definition old_keys :: "(string \<times> string) list" where
  "old_keys = [(''rides'', ''fk_rides_rider''), (''rides'', ''fk_rides_driver''),
     (''ride_driver_candidates'', ''fk_ride_driver_candidates_driver''),
     (''ride_driver_candidates'', ''fk_ride_driver_candidates_ride'')]"

lemma align_up_parts:
  "align_up = drop_keys old_keys @ [AlterType ''rides'' ''rider_id'' Bigint, AlterType ''rides'' ''driver_id'' Bigint,
     AlterType ''ride_driver_candidates'' ''driver_id'' Bigint] @ map add_fkey aligned_fkeys"
  by (simp add: align_up_def drop_keys_def old_keys_def aligned_fkeys_def add_fkey_def new_fkey_def)

lemma align_up_run:
  assumes "executes env align_up db db'"
  obtains d0 d1 d2 d3 where "executes env (drop_keys old_keys) db d0"
    and "alter_type env ''rides'' ''rider_id'' Bigint d0 = Inr d1"
    and "alter_type env ''rides'' ''driver_id'' Bigint d1 = Inr d2"
    and "alter_type env ''ride_driver_candidates'' ''driver_id'' Bigint d2 = Inr d3"
    and "executes env (map add_fkey aligned_fkeys) d3 db'"
  using assms unfolding align_up_parts by (auto simp only: executes_append executes_Cons append.simps execute.simps)

lemma drops_types: "executes env (drop_keys ks) db db' \<Longrightarrow> dom (tables db') = dom (tables db)"
proof (induction ks arbitrary: db)
  case (Cons k ks)
  then show ?case using drop_constraint_types(2) by (cases k) (fastforce simp: drop_keys_def split: sum.splits)
qed (simp add: drop_keys_def)

text \<open>A value of the column that is not NULL is a value of the target.\<close>

definition refers :: "database \<Rightarrow> string \<Rightarrow> string \<Rightarrow> string \<Rightarrow> string \<Rightarrow> bool" where
  "refers db t c rt rc =
     (case (tables db t, tables db rt) of
        (Some tb, Some rtb) \<Rightarrow> \<forall>v \<in> set (key_values tb c). v = NULL \<or> v \<in> set (key_values rtb rc)
      | _ \<Rightarrow> False)"

lemma fkey_refers: "fkey_ok db (new_fkey t n c rt rc) \<Longrightarrow> refers db t c rt rc"
  by (auto simp: fkey_ok_def new_fkey_def refers_def)

text \<open>
  After the second migration rides and candidates refer to clients that exist: when it
  succeeds on a database with the two tables, the riders and drivers of rides and candidates
  are bigints, each that is not NULL is the identifier of a stored profile, and each candidate
  belongs to a stored ride.
\<close>

theorem foreign_keys_aligned:
  assumes "integrity db" and "tables db ''rides'' \<noteq> None" and "tables db ''ride_driver_candidates'' \<noteq> None"
    and "migrate env align_up db = (Inr (), db')"
  shows "type_of_column db' ''rides'' ''rider_id'' = Some Bigint \<and> type_of_column db' ''rides'' ''driver_id'' = Some Bigint \<and>
    type_of_column db' ''ride_driver_candidates'' ''driver_id'' = Some Bigint \<and>
    refers db' ''rides'' ''rider_id'' ''rider_profile'' ''id'' \<and>
    refers db' ''rides'' ''driver_id'' ''driver_profile'' ''id'' \<and>
    refers db' ''ride_driver_candidates'' ''driver_id'' ''driver_profile'' ''id'' \<and>
    refers db' ''ride_driver_candidates'' ''ride_id'' ''rides'' ''id''"
proof -
  have run: "executes env align_up db db'" using assms(4) by (simp add: migrate_executes)
  obtain d0 d1 d2 d3 where drops: "executes env (drop_keys old_keys) db d0"
    and a1: "alter_type env ''rides'' ''rider_id'' Bigint d0 = Inr d1"
    and a2: "alter_type env ''rides'' ''driver_id'' Bigint d1 = Inr d2"
    and a3: "alter_type env ''ride_driver_candidates'' ''driver_id'' Bigint d2 = Inr d3"
    and adds: "executes env (map add_fkey aligned_fkeys) d3 db'"
    using align_up_run [OF run] by blast
  have there: "{''rides'', ''ride_driver_candidates''} \<subseteq> dom (tables d0)"
    using drops_types [OF drops] assms(2,3) by simp blast
  note t1 = alter_type_types [OF a1] and t2 = alter_type_types [OF a2] and t3 = alter_type_types [OF a3]
  have types: "type_of_column d3 ''rides'' ''rider_id'' = Some Bigint" "type_of_column d3 ''rides'' ''driver_id'' = Some Bigint"
    "type_of_column d3 ''ride_driver_candidates'' ''driver_id'' = Some Bigint" and doms: "dom (tables d3) = dom (tables d0)"
    using t1 t2 t3 there by simp_all
  have db': "db' = d3\<lparr>fkeys := fkeys d3 @ aligned_fkeys\<rparr>"
    by (rule adds_run [OF adds]) (use there doms in \<open>auto simp: aligned_fkeys_def new_fkey_def\<close>)
  have "\<forall>fk \<in> set aligned_fkeys. fkey_ok db' fk"
    using executes_keeps [OF run assms(1)] by (simp add: integrity_def db')
  then have "refers db' ''rides'' ''rider_id'' ''rider_profile'' ''id''" "refers db' ''rides'' ''driver_id'' ''driver_profile'' ''id''"
    "refers db' ''ride_driver_candidates'' ''driver_id'' ''driver_profile'' ''id''"
    "refers db' ''ride_driver_candidates'' ''ride_id'' ''rides'' ''id''"
    unfolding aligned_fkeys_def by (auto intro: fkey_refers)
  then show ?thesis using types by (simp add: db' type_of_column_def)
qed

section \<open>Down undoes up\<close>

definition untouched :: "database \<Rightarrow> string \<Rightarrow> string \<Rightarrow> bool" where
  "untouched db t c \<longleftrightarrow>
     (\<forall>fk \<in> set (fkeys db). (fk_table fk, fk_column fk) \<noteq> (t, c) \<and> (fk_refTable fk, fk_refColumn fk) \<noteq> (t, c))"

text \<open>A column of 64 characters that holds identifiers as the database writes a bigint.\<close>

fun plain_id :: "pg_env \<Rightarrow> cell \<Rightarrow> bool" where
  "plain_id env NULL = True"
| "plain_id env (VText t) = (case bigint_of_text env t of Some i \<Rightarrow> show_bigint i = t | None \<Rightarrow> False)"
| "plain_id env v = False"

definition canonical :: "pg_env \<Rightarrow> db_table \<Rightarrow> string \<Rightarrow> bool" where
  "canonical env tb c \<longleftrightarrow> columns tb c = Some (Varchar 64) \<and> (\<forall>v \<in> set (key_values tb c). plain_id env v)"

lemma untouched_comparable:
  assumes "untouched db t c" and "fk \<in> set (fkeys db)" and "fkey_ok db fk"
  shows "still_comparable t c ty db fk"
  using assms by (auto simp: untouched_def still_comparable_def Let_def type_of_column_def fkey_ok_def)

lemma cast_back:
  assumes "plain_id env v" and "cell_ok (Varchar n) v" and "cast env Bigint v = Some w"
  shows "cast env (Varchar n) w = Some v"
  using assms by (cases v) (auto simp: Let_def split: option.splits if_splits)

lemma altered_back:
  assumes "canonical env tb c" and "table_ok tb"
    and "\<forall>v \<in> set (key_values tb c). cast env Bigint v \<noteq> None"
  shows "altered env c (Varchar 64) (altered env c Bigint tb) = tb"
    and "\<forall>v \<in> set (key_values (altered env c Bigint tb) c). cast env (Varchar 64) v \<noteq> None"
proof -
  have restored: "cast env (Varchar 64) (the (cast env Bigint (r c))) = Some (r c)" if "r \<in> set (cells tb)" for r
  proof -
    have "r c \<in> set (key_values tb c)" using that by (simp add: key_values_def)
    moreover from this obtain w where "cast env Bigint (r c) = Some w" using assms(3) by blast
    ultimately show ?thesis using assms(1,2) cast_back [of env "r c" 64 w] by (auto simp: canonical_def table_ok_def)
  qed
  then have "map (\<lambda>r. r(c := the (cast env (Varchar 64) (r c)))) (map (\<lambda>r. r(c := the (cast env Bigint (r c)))) (cells tb)) = cells tb"
    using restored by (simp add: comp_def map_idI)
  moreover have "(columns tb)(c \<mapsto> Varchar 64) = columns tb" using assms(1) by (simp add: canonical_def fun_upd_idem)
  ultimately show "altered env c (Varchar 64) (altered env c Bigint tb) = tb" by (simp add: altered_def)
  show "\<forall>v \<in> set (key_values (altered env c Bigint tb) c). cast env (Varchar 64) v \<noteq> None"
    using restored by (auto simp: altered_def key_values_def)
qed

lemma alter_undone:
  assumes ok: "integrity db" and tb: "tables db t = Some tb" "canonical env tb c"
    and free: "untouched db t c" "\<forall>m. pkey tb \<noteq> Some (m, c)"
    and run: "alter_type env t c Bigint db = Inr d"
  shows "alter_type env t c (Varchar 64) d = Inr db" and "tables d = (tables db)(t \<mapsto> altered env c Bigint tb)"
    and "fkeys d = fkeys db" and "integrity d"
proof -
  obtain old where casts: "\<forall>v \<in> set (key_values tb c). cast env Bigint v \<noteq> None"
    and d: "d = put_table t (altered env c Bigint tb) db"
    using alter_type_run [OF run tb(1)] by blast
  note restored = altered_back [OF tb(2) integrityD [OF ok tb(1)] casts]
  show okd: "integrity d" by (rule alter_type_keeps [OF ok run])
  show td: "tables d = (tables db)(t \<mapsto> altered env c Bigint tb)" and fd: "fkeys d = fkeys db"
    by (simp_all add: d put_table_def)
  have "still_comparable t c (Varchar 64) d fk" if "fk \<in> set (fkeys d)" for fk
    using untouched_comparable [of d t c fk] free(1) okd that by (simp add: untouched_def fd integrity_def)
  moreover have "put_table t tb d = db" using tb(1) by (simp add: d put_table_def fun_upd_idem)
  moreover have "columns (altered env c Bigint tb) c \<noteq> None" "pkey (altered env c Bigint tb) = pkey tb"
    by (simp_all add: altered_def)
  ultimately show "alter_type env t c (Varchar 64) d = Inr db"
    using td restored free(2) by (auto simp: alter_type_def Let_def altered_def [symmetric] split: option.split)
qed

lemma drop_fkey:
  assumes "tables db t = Some tb" and "\<forall>c. pkey tb \<noteq> Some (n, c)"
  shows "drop_constraint t n db = Inr (db\<lparr>fkeys := filter (\<lambda>fk. \<not> (fk_table fk = t \<and> fk_name fk = n)) (fkeys db)\<rparr>)"
  using assms by (auto simp: drop_constraint_def split: option.split)

definition before_alignment :: "pg_env \<Rightarrow> database \<Rightarrow> bool" where
  "before_alignment env db =
     (case (tables db ''rides'', tables db ''ride_driver_candidates'') of
        (Some r, Some c) \<Rightarrow>
          canonical env r ''rider_id'' \<and> canonical env r ''driver_id'' \<and> canonical env c ''driver_id'' \<and>
          pkey r = Some (''rides_pkey'', ''id'') \<and> pkey c = Some (''ride_driver_candidates_pkey'', ''id'') \<and>
          untouched db ''rides'' ''rider_id'' \<and> untouched db ''rides'' ''driver_id'' \<and>
          untouched db ''ride_driver_candidates'' ''driver_id'' \<and>
          (\<forall>fk \<in> set (fkeys db). fk_name fk \<notin> set (map fk_name aligned_fkeys))
      | _ \<Rightarrow> False)"

lemma drops_run:
  assumes "\<forall>(t, n) \<in> set ks. \<exists>tb. tables db t = Some tb \<and> (\<forall>c. pkey tb \<noteq> Some (n, c))"
  shows "executes env (drop_keys ks) db db' \<longleftrightarrow>
    db' = db\<lparr>fkeys := filter (\<lambda>fk. (fk_table fk, fk_name fk) \<notin> set ks) (fkeys db)\<rparr>"
  using assms
proof (induction ks arbitrary: db)
  case (Cons k ks)
  obtain t n where k: "k = (t, n)" by (cases k)
  obtain tb where "tables db t = Some tb" "\<forall>c. pkey tb \<noteq> Some (n, c)" using Cons.prems k by auto
  note drop_fkey [OF this]
  then show ?case using Cons.IH [of "db\<lparr>fkeys := filter (\<lambda>fk. \<not> (fk_table fk = t \<and> fk_name fk = n)) (fkeys db)\<rparr>"] Cons.prems
    by (auto simp: k drop_keys_def conj_commute intro!: arg_cong [where f = "\<lambda>x. db\<lparr>fkeys := x\<rparr>"] filter_cong)
qed (simp add: drop_keys_def)

definition undo_alters :: "statement list" where
  "undo_alters = [AlterType ''ride_driver_candidates'' ''driver_id'' (Varchar 64),
     AlterType ''rides'' ''driver_id'' (Varchar 64), AlterType ''rides'' ''rider_id'' (Varchar 64)]"

lemma drop_none:
  assumes "\<forall>fk \<in> set fks. fk_name fk \<notin> set (map fk_name aligned_fkeys)" and "snd ` set ks \<subseteq> fk_name ` set aligned_fkeys"
  shows "filter (\<lambda>fk. (fk_table fk, fk_name fk) \<notin> set ks) fks = fks"
proof (rule filter_True, rule ballI)
  fix fk assume "fk \<in> set fks"
  then have "fk_name fk \<notin> fk_name ` set aligned_fkeys" using assms(1) by simp
  then show "(fk_table fk, fk_name fk) \<notin> set ks" using assms(2) by (metis image_eqI snd_conv subsetD)
qed

lemma align_up_effect:
  assumes ok: "integrity db" and before: "before_alignment env db" and up: "migrate env align_up db = (Inr (), db')"
  obtains d r c where "db' = d\<lparr>fkeys := fkeys db @ aligned_fkeys\<rparr>" and "executes env undo_alters d db"
    and "fkeys d = fkeys db" and "tables d ''rides'' = Some r" and "pkey r = Some (''rides_pkey'', ''id'')"
    and "tables d ''ride_driver_candidates'' = Some c" and "pkey c = Some (''ride_driver_candidates_pkey'', ''id'')"
proof -
  obtain r c where r: "tables db ''rides'' = Some r" "pkey r = Some (''rides_pkey'', ''id'')"
      "canonical env r ''rider_id''" "canonical env r ''driver_id''"
    and c: "tables db ''ride_driver_candidates'' = Some c" "pkey c = Some (''ride_driver_candidates_pkey'', ''id'')"
      "canonical env c ''driver_id''"
    and free: "untouched db ''rides'' ''rider_id''" "untouched db ''rides'' ''driver_id''"
      "untouched db ''ride_driver_candidates'' ''driver_id''"
    and names: "\<forall>fk \<in> set (fkeys db). fk_name fk \<notin> set (map fk_name aligned_fkeys)"
    using before by (auto simp: before_alignment_def split: option.splits)
  obtain d0 d1 d2 d3 where drops: "executes env (drop_keys old_keys) db d0"
    and a1: "alter_type env ''rides'' ''rider_id'' Bigint d0 = Inr d1"
    and a2: "alter_type env ''rides'' ''driver_id'' Bigint d1 = Inr d2"
    and a3: "alter_type env ''ride_driver_candidates'' ''driver_id'' Bigint d2 = Inr d3"
    and adds: "executes env (map add_fkey aligned_fkeys) d3 db'"
    using align_up_run [OF up [unfolded migrate_executes]] by blast
  have d0: "d0 = db" using drops drops_run [of old_keys db env d0] r c drop_none [OF names, of old_keys]
    by (simp add: old_keys_def aligned_fkeys_def new_fkey_def)
  note u1 = alter_undone [OF ok r(1,3) free(1) _ a1 [unfolded d0]]
  have r1: "tables d1 ''rides'' = Some (altered env ''rider_id'' Bigint r)" using u1(2) r by simp
  have can1: "canonical env (altered env ''rider_id'' Bigint r) ''driver_id''"
    using r(4) by (simp add: canonical_def altered_values(1)) (simp add: altered_def)
  have u1: "alter_type env ''rides'' ''rider_id'' (Varchar 64) d1 = Inr db" "fkeys d1 = fkeys db" "integrity d1"
      "tables d1 ''ride_driver_candidates'' = Some c" using u1 r c by simp_all
  note u2 = alter_undone [OF u1(3) r1 can1 _ _ a2]
  have u2: "alter_type env ''rides'' ''driver_id'' (Varchar 64) d2 = Inr d1" "fkeys d2 = fkeys db" "integrity d2"
      "tables d2 ''ride_driver_candidates'' = Some c" "\<exists>x. tables d2 ''rides'' = Some x \<and> pkey x = pkey r"
    using u2 u1 free r by (simp_all add: untouched_def altered_def)
  note u3 = alter_undone [OF u2(3,4) c(3) _ _ a3]
  have u3: "alter_type env ''ride_driver_candidates'' ''driver_id'' (Varchar 64) d3 = Inr d2" "fkeys d3 = fkeys db"
      "\<exists>x. tables d3 ''ride_driver_candidates'' = Some x \<and> pkey x = pkey c" "\<exists>x. tables d3 ''rides'' = Some x \<and> pkey x = pkey r"
    using u3 u2 free c by (simp_all add: untouched_def altered_def)
  have "db' = d3\<lparr>fkeys := fkeys db @ aligned_fkeys\<rparr>"
    using adds_run [OF adds] u3 by (auto simp: aligned_fkeys_def new_fkey_def)
  then show ?thesis using u1 u2 u3 r(2) c(2) that [of d3] by (auto simp: undo_alters_def)
qed


section \<open>The first migration\<close>

lemma id_assigned: "map2 (\<lambda>r v. r(c := v)) (map (\<lambda>r. r(c := w)) rs) vs = map2 (\<lambda>r v. r(c := v)) rs vs"
  by (induction rs vs rule: list_induct2') (simp_all add: fun_eq_iff)

lemma indexes_only:
  assumes "executes env sts db db'" and "\<forall>st \<in> set sts. \<exists>n t cs incl. st = CreateIndex n t cs incl"
  shows "tables db' = tables db \<and> fkeys db' = fkeys db \<and> set (indexes db) \<subseteq> set (indexes db') \<and>
    (\<forall>n t cs incl. CreateIndex n t cs incl \<in> set sts \<longrightarrow> n \<in> ix_name ` set (indexes db') \<or> tables db n \<noteq> None)"
  using assms
proof (induction sts arbitrary: db)
  case (Cons st sts)
  obtain n t cs incl where st: "st = CreateIndex n t cs incl" using Cons.prems(2) by auto
  obtain d where d: "create_index n t cs incl db = Inr d" and rest: "executes env sts d db'"
    using Cons.prems(1) by (auto simp: st executes_Cons simp del: executes.simps)
  have "tables d = tables db \<and> fkeys d = fkeys db \<and> set (indexes db) \<subseteq> set (indexes d) \<and>
      (n \<in> ix_name ` set (indexes d) \<or> tables db n \<noteq> None)"
    using d by (cases rule: create_index_run) auto
  then have step: "tables d = tables db" "fkeys d = fkeys db" "set (indexes db) \<subseteq> set (indexes d)"
      "n \<in> ix_name ` set (indexes d) \<or> tables db n \<noteq> None" by - (elim conjE, assumption)+
  have tail: "\<forall>st \<in> set sts. \<exists>n t cs incl. st = CreateIndex n t cs incl" using Cons.prems(2) by simp
  have rest: "tables db' = tables d" "fkeys db' = fkeys d" "set (indexes d) \<subseteq> set (indexes db')"
      "\<forall>n t cs incl. CreateIndex n t cs incl \<in> set sts \<longrightarrow> n \<in> ix_name ` set (indexes db') \<or> tables d n \<noteq> None"
    using Cons.IH [OF rest tail] by - (elim conjE, assumption)+
  have "m \<in> ix_name ` set (indexes db') \<or> tables db m \<noteq> None" if "CreateIndex m u ks ls \<in> set (st # sts)" for m u ks ls
  proof (cases "CreateIndex m u ks ls \<in> set sts")
    case True
    then show ?thesis using rest(4) step(1) by metis
  next
    case False
    then have "m = n" using that st by simp
    then show ?thesis using step(4) rest(3) by auto
  qed
  then have "\<forall>n t cs incl. CreateIndex n t cs incl \<in> set (st # sts) \<longrightarrow> n \<in> ix_name ` set (indexes db') \<or> tables db n \<noteq> None"
    by blast
  moreover have "set (indexes db) \<subseteq> set (indexes db')" using step(3) rest(3) by blast
  ultimately show ?case using step(1,2) rest(1,2) by (simp only: simp_thms)
qed simp

lemma rekey_run:
  assumes t: "tables db t = Some tb" "pkey tb = Some (k, c)" "columns tb c \<noteq> None"
    and runs: "executes env [DropConstraint t k, DropColumn t c, AddIdColumn t c kind] db db'"
  shows "tables db' = (tables db)(t \<mapsto>
      \<lparr>columns = (columns tb)(c \<mapsto> id_type kind), pkey = Some (t @ ''_pkey'', c),
       cells = map2 (\<lambda>r v. r(c := v)) (cells tb) (new_ids env kind (length (cells tb)) (drawn db))\<rparr>)"
    and "indexes db' = filter (\<lambda>ix. \<not> (ix_table ix = t \<and> c \<in> set (ix_columns ix @ ix_include ix))) (indexes db)"
proof -
  obtain d1 d2 where d1: "drop_constraint t k db = Inr d1" and d2: "drop_column t c d1 = Inr d2"
    and d3: "add_id_column env t c kind d2 = Inr db'"
    using runs by (auto simp: executes_Cons simp del: executes.simps(2))
  have d1: "d1 = put_table t (tb\<lparr>pkey := None\<rparr>) db"
    using d1 t by (auto simp: drop_constraint_def split: if_splits)
  let ?tb = "\<lparr>columns = (columns tb)(c := None), pkey = None, cells = map (\<lambda>r. r(c := NULL)) (cells tb)\<rparr>"
  have d2: "tables d2 = (tables db)(t \<mapsto> ?tb)" "drawn d2 = drawn db"
      "indexes d2 = filter (\<lambda>ix. \<not> (ix_table ix = t \<and> c \<in> set (ix_columns ix @ ix_include ix))) (indexes db)"
    using d2 t by (auto simp: d1 drop_column_def put_table_def split: if_splits)
  show "tables db' = (tables db)(t \<mapsto>
      \<lparr>columns = (columns tb)(c \<mapsto> id_type kind), pkey = Some (t @ ''_pkey'', c),
       cells = map2 (\<lambda>r v. r(c := v)) (cells tb) (new_ids env kind (length (cells tb)) (drawn db))\<rparr>)"
    using d3 d2 by (auto simp: add_id_column_def put_table_def Let_def id_assigned simp del: new_ids.simps split: if_splits)
  show "indexes db' = filter (\<lambda>ix. \<not> (ix_table ix = t \<and> c \<in> set (ix_columns ix @ ix_include ix))) (indexes db)"
    using d3 d2 by (auto simp: add_id_column_def put_table_def Let_def simp del: new_ids.simps split: if_splits)
qed

text \<open>
  After the first migration the outbox entries are numbered: when it succeeds, the entries
  are the ones there were, in their order, with the identifiers 1, 2, 3 and so on instead of the
  uuids; no other table has changed, and every index it names exists.
\<close>

theorem outbox_renumbered:
  assumes "tables db ''ride_payment_outbox'' = Some tb" and "pkey tb = Some (''ride_payment_outbox_pkey'', ''id'')"
    and "columns tb ''id'' \<noteq> None" and "migrate env primary_keys_up db = (Inr (), db')"
  shows "tables db' = (tables db)(''ride_payment_outbox'' \<mapsto>
      tb\<lparr>columns := (columns tb)(''id'' \<mapsto> Bigint),
         cells := map2 (\<lambda>r i. r(''id'' := VInt (int i))) (cells tb) [1..<Suc (length (cells tb))]\<rparr>) \<and>
    (\<forall>n t cs incl. CreateIndex n t cs incl \<in> set primary_keys_up \<longrightarrow>
       n \<in> ix_name ` set (indexes db') \<or> tables db' n \<noteq> None)"
proof -
  let ?rekey = "[DropConstraint ''ride_payment_outbox'' ''ride_payment_outbox_pkey'',
    DropColumn ''ride_payment_outbox'' ''id'', AddIdColumn ''ride_payment_outbox'' ''id'' Bigserial]"
  have split: "primary_keys_up = ?rekey @ drop 3 primary_keys_up" by (simp add: primary_keys_up_def)
  obtain d where d: "executes env ?rekey db d" and rest: "executes env (drop 3 primary_keys_up) d db'"
    using assms(4) unfolding migrate_executes by (subst (asm) split) (auto simp only: executes_append)
  have only: "\<forall>st \<in> set (drop 3 primary_keys_up). \<exists>n t cs incl. st = CreateIndex n t cs incl"
    by (simp add: primary_keys_up_def)
  have named: "CreateIndex n t cs incl \<in> set primary_keys_up \<longleftrightarrow> CreateIndex n t cs incl \<in> set (drop 3 primary_keys_up)"
    for n t cs incl by (subst split) simp
  note ixs = indexes_only [OF rest only] and key = rekey_run(1) [OF assms(1-3) d]
  have "map2 (\<lambda>r v. r(''id'' := v)) rs (map (\<lambda>i. VInt (int i)) is) = map2 (\<lambda>r i. r(''id'' := VInt (int i))) rs is"
    for rs :: "(string \<Rightarrow> cell) list" and "is" by (simp add: zip_map2 comp_def case_prod_beta)
  then have "tables db' = (tables db)(''ride_payment_outbox'' \<mapsto>
      tb\<lparr>columns := (columns tb)(''id'' \<mapsto> Bigint),
         cells := map2 (\<lambda>r i. r(''id'' := VInt (int i))) (cells tb) [1..<Suc (length (cells tb))]\<rparr>)"
    using ixs key assms(2) by (cases tb) (simp del: upt_Suc)
  then show ?thesis using ixs unfolding named by simp
qed

text \<open>
  An index of the right name is taken for the covering index: if the names are in use already,
  as after TypeORM has created the indexes of the entities, none is made or changed.
\<close>

lemma names_in_use:
  assumes "executes env sts db db'" and "\<forall>st \<in> set sts. \<exists>n t cs incl. st = CreateIndex n t cs incl \<and> n \<in> ix_name ` set (indexes db)"
  shows "indexes db' = indexes db"
  using assms
proof (induction sts arbitrary: db)
  case (Cons st sts)
  obtain n t cs incl where st: "st = CreateIndex n t cs incl" "n \<in> ix_name ` set (indexes db)" using Cons.prems(2) by auto
  obtain d where d: "create_index n t cs incl db = Inr d" and rest: "executes env sts d db'"
    using Cons.prems(1) by (auto simp: st(1) executes_Cons simp del: executes.simps)
  have "d = db" using d by (cases rule: create_index_run) (use st(2) in simp_all)
  then show ?case using Cons.IH rest Cons.prems(2) by simp
qed simp

lemma covering_indexes_skipped:
  assumes "tables db ''ride_payment_outbox'' = Some tb" and "pkey tb = Some (''ride_payment_outbox_pkey'', ''id'')"
    and "columns tb ''id'' \<noteq> None" and "migrate env primary_keys_up db = (Inr (), db')"
    and "\<forall>ix \<in> set (indexes db). ''id'' \<notin> set (ix_columns ix @ ix_include ix)"
    and "\<forall>n t cs incl. CreateIndex n t cs incl \<in> set primary_keys_up \<longrightarrow> n \<in> ix_name ` set (indexes db)"
  shows "indexes db' = indexes db"
proof -
  let ?rekey = "[DropConstraint ''ride_payment_outbox'' ''ride_payment_outbox_pkey'',
    DropColumn ''ride_payment_outbox'' ''id'', AddIdColumn ''ride_payment_outbox'' ''id'' Bigserial]"
  have split: "primary_keys_up = ?rekey @ drop 3 primary_keys_up" by (simp add: primary_keys_up_def)
  obtain d where d: "executes env ?rekey db d" and rest: "executes env (drop 3 primary_keys_up) d db'"
    using assms(4) unfolding migrate_executes by (subst (asm) split) (auto simp only: executes_append)
  have same: "indexes d = indexes db"
    using rekey_run(2) [OF assms(1-3) d] assms(5) by (simp add: filter_id_conv)
  have "\<forall>st \<in> set (drop 3 primary_keys_up). st \<in> set primary_keys_up \<and> (\<exists>n t cs incl. st = CreateIndex n t cs incl)"
    by (simp add: primary_keys_up_def)
  then have "indexes db' = indexes d" using assms(6) same by (intro names_in_use [OF rest]) metis
  then show ?thesis using same by simp
qed

section \<open>Examples\<close>

definition demo_pg :: pg_env where
  "demo_pg = \<lparr>random_uuid = show_nat, bigint_of_text = \<lambda>t. map_option int (read_nat t)\<rparr>"

text \<open>A ride of rider 7 with driver 11 before the second migration.\<close>

definition keyed_table :: "string \<Rightarrow> (string \<times> column_type) list \<Rightarrow> (string \<Rightarrow> cell) list \<Rightarrow> db_table" where
  "keyed_table k cs rs = \<lparr>columns = map_of ((''id'', Bigint) # cs), pkey = Some (k, ''id''), cells = rs\<rparr>"

definition demo_before :: database where
  "demo_before = \<lparr>tables =
     [''rides'' \<mapsto> keyed_table ''rides_pkey'' [(''rider_id'', Varchar 64), (''driver_id'', Varchar 64)]
        [(\<lambda>_. NULL)(''id'' := VInt 1, ''rider_id'' := VText ''7'', ''driver_id'' := VText ''11'')],
      ''ride_driver_candidates'' \<mapsto> keyed_table ''ride_driver_candidates_pkey''
        [(''ride_id'', Bigint), (''driver_id'', Varchar 64)]
        [(\<lambda>_. NULL)(''id'' := VInt 1, ''ride_id'' := VInt 1, ''driver_id'' := VText ''11'')],
      ''rider_profile'' \<mapsto> keyed_table ''rider_profile_pkey'' [] [(\<lambda>_. NULL)(''id'' := VInt 7)],
      ''driver_profile'' \<mapsto> keyed_table ''driver_profile_pkey'' [] [(\<lambda>_. NULL)(''id'' := VInt 11)]],
     fkeys = [], indexes = [], drawn = 0\<rparr>"

lemma demo_keyed:
  assumes "\<forall>r \<in> set rs. \<forall>(c, ty) \<in> set ((''id'', Bigint) # cs). cell_ok ty (r c)"
    and "distinct (map (\<lambda>r. r ''id'') rs)" and "NULL \<notin> set (map (\<lambda>r. r ''id'') rs)"
  shows "table_ok (keyed_table k cs rs)"
proof -
  have "cell_ok ty (r c)" if "map_of ((''id'', Bigint) # cs) c = Some ty" "r \<in> set rs" for c ty r
    using map_of_SomeD [OF that(1)] assms(1) that(2) by blast
  then show ?thesis using assms(2,3) by (auto simp: table_ok_def keyed_table_def split: if_splits)
qed

lemma demo_before_integrity: "integrity demo_before"
  unfolding integrity_def
proof (intro conjI allI impI)
  fix t tb assume "tables demo_before t = Some tb"
  then show "table_ok tb"
    by (auto simp: demo_before_def bigint_range_def intro!: demo_keyed split: if_splits)
qed (simp_all add: demo_before_def)

lemma demo_reads [simp]: "bigint_of_text demo_pg ''7'' = Some 7" "bigint_of_text demo_pg ''11'' = Some 11"
    "show_bigint 7 = ''7''" "show_bigint 11 = ''11''"
proof -
  have "show_nat 7 = ''7''" "show_nat 11 = ''11''" by (simp_all add: show_nat.simps digit_char_def)
  then show "bigint_of_text demo_pg ''7'' = Some 7" "bigint_of_text demo_pg ''11'' = Some 11"
    "show_bigint 7 = ''7''" "show_bigint 11 = ''11''"
    using read_show_nat [of 7] read_show_nat [of 11] by (simp_all add: demo_pg_def show_bigint_def)
qed

lemma demo_before_ready: "before_alignment demo_pg demo_before"
  by (simp add: before_alignment_def demo_before_def keyed_table_def canonical_def key_values_def untouched_def)

lemma demo_aligned: "\<exists>db'. migrate demo_pg align_up demo_before = (Inr (), db')"
  unfolding migrate_executes
  by (simp add: align_up_def demo_before_def keyed_table_def drop_constraint_def alter_type_def add_foreign_key_def
      put_table_def key_values_def bigint_range_def still_comparable_def)


theorem foreign_keys_aligned_witness:
  "\<exists>db'. migrate demo_pg align_up demo_before = (Inr (), db') \<and> refers db' ''rides'' ''rider_id'' ''rider_profile'' ''id''"
proof -
  obtain db' where up: "migrate demo_pg align_up demo_before = (Inr (), db')" using demo_aligned by blast
  then have "refers db' ''rides'' ''rider_id'' ''rider_profile'' ''id''"
    using foreign_keys_aligned [OF demo_before_integrity _ _ up] by (simp add: demo_before_def)
  then show ?thesis using up by blast
qed


text \<open>Two outbox entries with uuids before the first migration, and the tables it indexes.\<close>

definition bare_table :: "string list \<Rightarrow> db_table" where
  "bare_table cs = \<lparr>columns = map_of (map (\<lambda>c. (c, Other_type ''text'')) cs), pkey = None, cells = []\<rparr>"

definition demo_outbox :: db_table where
  "demo_outbox = \<lparr>columns = [''id'' \<mapsto> Uuid_type, ''ride_id'' \<mapsto> Bigint, ''status'' \<mapsto> Other_type ''status'',
       ''payment_detail_id'' \<mapsto> Bigint, ''order_id'' \<mapsto> Varchar 128],
     pkey = Some (''ride_payment_outbox_pkey'', ''id''),
     cells = [(\<lambda>_. NULL)(''id'' := VUuid ''a'', ''ride_id'' := VInt 5), (\<lambda>_. NULL)(''id'' := VUuid ''b'', ''ride_id'' := VInt 6)]\<rparr>"

definition demo_uuids :: database where
  "demo_uuids = \<lparr>tables = [''ride_payment_outbox'' \<mapsto> demo_outbox,
      ''driver_profile'' \<mapsto> bare_table [''id'', ''msisdn'', ''status'', ''role''],
      ''rider_profile'' \<mapsto> bare_table [''id'', ''msisdn'', ''status'', ''role''],
      ''ride_driver_candidates'' \<mapsto> bare_table [''ride_id'', ''driver_id'', ''status'', ''distance_meters'',
        ''reason'', ''responded_at'', ''created_at'', ''updated_at''],
      ''ride_payment_details'' \<mapsto> bare_table [''id'', ''ride_id'', ''provider'', ''status'', ''token'', ''redirect_url'', ''order_id''],
      ''ride_status_history'' \<mapsto> bare_table [''ride_id'', ''from_status'', ''to_status'']],
     fkeys = [], indexes = [], drawn = 0\<rparr>"

lemma demo_numbered: "\<exists>db'. migrate demo_pg primary_keys_up demo_uuids = (Inr (), db')"
  unfolding migrate_executes
  by (simp add: primary_keys_up_def demo_uuids_def demo_outbox_def bare_table_def drop_constraint_def drop_column_def
      add_id_column_def create_index_def put_table_def)

theorem outbox_renumbered_witness:
  "\<exists>db' tb. migrate demo_pg primary_keys_up demo_uuids = (Inr (), db') \<and> tables db' ''ride_payment_outbox'' = Some tb \<and>
     map (\<lambda>r. (r ''id'', r ''ride_id'')) (cells tb) = [(VInt 1, VInt 5), (VInt 2, VInt 6)]"
proof -
  obtain db' where up: "migrate demo_pg primary_keys_up demo_uuids = (Inr (), db')" using demo_numbered by blast
  have "tables demo_uuids ''ride_payment_outbox'' = Some demo_outbox" by (simp add: demo_uuids_def)
  from outbox_renumbered [OF this _ _ up] show ?thesis using up by (simp add: demo_outbox_def upt_rec)
qed

end
