(* ===== verification/Spec2Isabelle.thy ===== *)
theory Spec2Isabelle
  imports Trip_Guarantees Payment_Guarantees Data_Encryption Client_Guarantees Auth_Guarantees Location_Guarantees
    Stream_Guarantees Stranded_Trips Matching Row_Mapping Gateway_Signup Gateway_Guarantees Flush_Schedule Concurrent_Guarantees
    Concurrent_Payment_Guarantees Concurrent_Trip_Guarantees Concurrent_System_Guarantees
    Concurrent_Session_Guarantees Payment_Rows Validation_Errors Migrations
begin

text \<open>
  A model of the ride-hailing backend under \<open>src/src\<close> (NestJS on PostgreSQL, Redis and
  BullMQ) and the theorems that make it correct.

  \<^bold>\<open>The program.\<close> Riders and drivers sign up with a phone number and log in with a one-time
  code. Drivers send their locations. A rider asks for a ride: a queue worker asks
  OpenRouteService for the route, the fare engine estimates the fare, the nearest active
  drivers are invited. One driver accepts, the rider confirms, the driver starts the trip at
  the pickup point and completes it at the destination; the fare is charged on the tracked
  distance, and the rider pays through a payment provider whose notifications close the
  payment. Every change is pushed to the clients as a server-sent event.

  \<^bold>\<open>Theories and sources\<close> (paths below \<open>src/src\<close>).
  \<^item> \<open>Neb_Prelude\<close>: exceptions, methods as state transformers that may throw, tables of rows,
    decimal texts; the locale \<open>row_store_insert\<close> of the tables, interpreted for each of them.
    \<open>Js_Number\<close>: binary64 numbers on rationals, \<open>toFixed\<close>, \<open>Number(text)\<close>; the locale
    \<open>rounding\<close>, interpreted for \<open>fl64\<close>.
  \<^item> \<open>Fare_Engine\<close>: \<open>rides/domain/services/fare-engine.service.ts\<close>.
  \<^item> \<open>Ride_Types\<close>: the enumerations and entities of \<open>rides/domain\<close> and the record \<open>world\<close> of
    the tables, the Redis keys, the queues and the published notifications.
    \<open>Ride_Repositories\<close>, \<open>Payment_Repositories\<close>: \<open>rides/infrastructure/repositories\<close>, each
    method the SQL it sends. \<open>Row_Mapping\<close>, \<open>Payment_Rows\<close>: the rows of the driver under them.
  \<^item> \<open>Ride_Notification\<close>, \<open>Rides_Management\<close>, \<open>Route_Estimation\<close>, \<open>Trip_Tracking\<close>,
    \<open>Flush_Schedule\<close>, \<open>Rides_Tracking\<close>, \<open>Payment\<close>: the services and queue processors of the
    same names in \<open>rides/domain\<close>.
  \<^item> \<open>Ride_Protocol\<close> is the specification of a ride's life, \<open>Ride_Refinement\<close> proves that every
    operation implements it, \<open>Ride_System\<close> is the transition system of all operations, jobs,
    time and expiry with its reachable worlds. \<open>Ride_Guarantees\<close>, \<open>Stranded_Trips\<close>,
    \<open>Trip_Guarantees\<close>, \<open>Payment_Guarantees\<close>: what the services guarantee.
  \<^item> \<open>Interleaving\<close>: methods as programs with a step per awaited call, pools of them under a
    schedule, and the locale \<open>rely_guarantee\<close>. \<open>Concurrent_Rides\<close>, \<open>Concurrent_Answers\<close>,
    \<open>Concurrent_Guarantees\<close>: the methods of \<open>RidesManagementService\<close> as such programs, which
    alone are the methods of \<open>Rides_Management\<close>, and what holds of their interleavings.
    \<open>Concurrent_Payments\<close>, \<open>Concurrent_Payment_Guarantees\<close>: the same for the requests of payment
    links with the jobs they wait for, and for the provider's notifications.
    \<open>Concurrent_Trips\<close>, \<open>Concurrent_Trip_Guarantees\<close>: the same for the locations of a trip, the
    flushes of its queue, its start and its completion. \<open>Concurrent_System\<close>,
    \<open>Concurrent_System_Guarantees\<close>: all requests, jobs and notifications of the rides module in
    one pool, and what holds of it whatever interleaves.
  \<^item> \<open>Client_Signup\<close>, \<open>Client_Guarantees\<close>, \<open>Phone_Number\<close>, \<open>Data_Encryption\<close>: \<open>client/\<close>, the
    profile repositories of \<open>iam/\<close> and the phone validator.
  \<^item> \<open>Authentication\<close>, \<open>Auth_Guarantees\<close>: the services and guards of \<open>iam/\<close>;
    \<open>Concurrent_Sessions\<close>, \<open>Concurrent_Session_Guarantees\<close>: sign-ins, refreshes and logouts
    as interleaved programs.
  \<^item> \<open>Geolocation\<close>, \<open>Location_Guarantees\<close>: \<open>location/\<close>.
  \<^item> \<open>Notification_Stream\<close>, \<open>Stream_Guarantees\<close>:
    \<open>gateway/app/services/notification-stream.adapter.ts\<close>.
  \<^item> \<open>Responses\<close>, \<open>Gateway\<close>, \<open>Gateway_Signup\<close>, \<open>Gateway_Guarantees\<close>: the interceptor, the
    filter and \<open>gateway/app/controllers/gateway.controller.ts\<close>. \<open>Matching\<close> composes route,
    driver search and creation. \<open>Validation_Errors\<close>: the \<open>exceptionFactory\<close> of \<open>main.ts\<close>.
  \<^item> \<open>Migrations\<close>: the two migrations of \<open>infrastructure/migrations\<close>, each the list of its
    statements, run in a transaction on tables with arbitrary columns, keys and indexes; a
    statement does what PostgreSQL does, or fails where it does.

  \<^bold>\<open>How the code is rendered.\<close> A method is a function of the state that returns the exception
  thrown or the value, and the state left; a write made before an exception stays unless it is
  in a transaction. Definitions carry the names of the methods; helpers such as \<open>takeRide\<close>,
  \<open>cancelCandidates\<close>, \<open>finishRide\<close> or \<open>settled\<close> name blocks inside them. An optional value is
  an option, and \<open>truthy\<close> is written out where the code tests it; \<open>undefined\<close> and \<open>null\<close> are
  told apart where the code's behaviour depends on it. Identifiers are texts, and the casts to
  bigint are the identity on them. The members of a \<open>Promise.all\<close> run one after the other, and
  the operations of the rides one at a time unless said otherwise; the clock stands during an
  operation. Parts are modelled with their interleaving too: concurrent sign-ups are
  sessions with a step per awaited query; the requests, jobs and notifications of the rides
  module, and the sign-ins, refreshes and logouts, are pools of programs with a step per awaited query, transaction or command; the
  streams of a process are its sequence of events.

  \<^bold>\<open>Outside the repository\<close>, hence parameters (the records \<open>ride_env\<close>, \<open>trip_env\<close>, \<open>track_env\<close>,
  \<open>pay_env\<close>, \<open>auth_env\<close>, \<open>ors_env\<close>, \<open>gateway_env\<close>, \<open>pg_env\<close>, \<open>json_lib\<close> and arguments): the replies of Redis for
  distances and searches, of the payment provider and of OpenRouteService, the shape TypeORM
  gives the result of an UPDATE, failures of the database in a flush, its uuids and its reading of texts as numbers, the texts of JSON columns, bcrypt, JWT, random
  numbers and identifiers, the hash of an advisory lock, AES-GCM, the phone number parser, the
  answer of the framework to an exception it handles itself. The drivers a search returns and
  the outcome of a route job, parameters of the ride service, are supplied by the models of
  \<open>Geolocation\<close> and \<open>Route_Estimation\<close> in \<open>Matching\<close>. BullMQ is taken to ignore a job whose
  identifier it still has. Other queries succeed, and the publisher never throws.

  \<^bold>\<open>What is shown.\<close> Below: in every reachable world a ride follows its life cycle, a closed ride
  is final, driver and status agree, and a rider has one active ride. By \<open>Gateway_Guarantees\<close>
  these hold behind the public interface under all traffic. Each operation of the ride
  services refines the specification of its move, with its errors. The fare is exact in whole
  hundredths although computed on doubles. Locations are stored once or still queued, and
  reports that interleave are all queued; a completion charges the tracked distance. A payment
  job ends within its attempts; a provider notification counts only from the whitelist. A phone
  number text is never active twice under any interleaving of sign-ups, every one of which ends
  within eleven of its steps. Whatever requests, jobs and notifications of the rides interleave,
  no ride is lost, its order, its invitations and its history are kept, and each of them ends
  within fifty of its steps. However acceptances interleave, a ride has one driver. However
  payment requests and notifications interleave, a ride has one payment detail
  that its outbox entries belong to, and notifications never undo each other. A code opens
  one session, wrong codes none, however many are tried at once; tokens rotate and end with the
  logout. Streams deliver to their recipient
  only. The migrations keep types, keys and indexes, and the second can be taken back.

  Some theorems describe defects: two simultaneous requests give a rider two rides
  (\<open>double_ride\<close>), an acceptance undoes a simultaneous cancellation
  (\<open>cancellation_lost\<close>), a payment request undoes the payment that arrives meanwhile
  (\<open>payment_forgotten\<close>), two of them leave an order nobody can settle (\<open>double_order\<close>),
  the distance a driver covers is lost when the rider reports meanwhile (\<open>distance_lost\<close>), a
  location that arrives during a flush is never stored (\<open>location_lost\<close>), an index of the first
  migration is skipped where the entities have declared its name
  (\<open>covering_indexes_skipped\<close>),
  a started trip whose driver is turned down can never
  be ended (\<open>trip_stranded\<close>), a blank before a phone number evades its uniqueness
  (\<open>blank_evades_exclusivity\<close>), a failing flush loses events (\<open>flush_failure_loses_events\<close>), a
  failing distance lookup opens the proximity checks (\<open>proximity_fails_open\<close>), tokens pass as
  each other after a logout (\<open>logout_leaves_open\<close>), a second code is not sent
  (\<open>second_code_not_sent\<close>), a refresh that overlaps a logout signs in again
  (\<open>session_reopened\<close>), a code used twice at once opens two sessions (\<open>code_opens_two\<close>), a started trip is cancelled in name only (\<open>cancel_started_trip\<close>),
  the origin of a payment notification is what its sender claims
  (\<open>notification_origin_claimed\<close>).

  \<^bold>\<open>Bounds and fuel.\<close> There is no fuel: loops are structural or have a measure (the cleanup of
  idle drivers removes at least one per round). A payment job has the configured number of
  attempts. Amounts are exact below \<open>2\<^sup>5\<^sup>0\<close> hundredths, distances below \<open>2\<^sup>5\<^sup>0\<close> metres, far above
  the columns' twelve digits.

  \<^bold>\<open>Not modelled.\<close> Logging; the wiring of modules, connections and start-up in \<open>main.ts\<close>
  (but for its \<open>exceptionFactory\<close>),
  \<open>nebenglite.module.ts\<close> and the other modules; the DTO decorators of \<open>class-validator\<close> (the
  operations are proved for all inputs the DTO types allow; the phone validator is modelled);
  the rate limit of the framework's \<open>ThrottlerGuard\<close>;
  the two calls of bcrypt in \<open>bcrypt.service.ts\<close>; the tests, which are not part of the
  service. The operations on driver locations are not interleaved; the invariants
  of the reachable worlds speak of operations one at a time, which
  the code itself does not enforce (it locks the row of a ride only for the claim of a driver).
\<close>

section \<open>The life of a ride, in every reachable world\<close>

text \<open>
  C1. The life cycle of a ride: in every world the services can reach, a ride rests in
  CANDIDATES_COMPUTED, ACCEPTED, ENROUTE, TRIP_STARTED, COMPLETED or CANCELED, and its
  history table tells exactly how it got there: it starts with the request, each entry starts
  where the one before it ended, every entry is an allowed status change, and the last one
  ends in the status the ride has.
\<close>

theorem ride_lifecycle:
  assumes "reachable re te pe s" and "env_ok re" and "row_find ride_id k (rides s) = Some r"
  shows "resting (status r) \<and>
    trail_ok (map (\<lambda>h. (fromStatus h, toStatus h)) (filter (\<lambda>h. hist_rideId h = k) (history s))) (status r)"
proof -
  obtain a where a: "abs_ride k s = Some a" "life_inv a" "a_status a = status r"
    using reachable_ride [OF assms] by blast
  then have "a_trail a = map (\<lambda>h. (fromStatus h, toStatus h)) (filter (\<lambda>h. hist_rideId h = k) (history s))"
    by (auto simp: abs_ride_def)
  then show ?thesis using a by (simp add: life_inv_def)
qed

theorem ride_lifecycle_witness:
  "\<exists>r. row_find ride_id ''1'' (rides demo_enroute) = Some r \<and> resting (status r) \<and>
    trail_ok (map (\<lambda>h. (fromStatus h, toStatus h)) (filter (\<lambda>h. hist_rideId h = ''1'') (history demo_enroute)))
      (status r)"
proof -
  obtain r where "row_find ride_id ''1'' (rides demo_enroute) = Some r" using demo_enroute_row by blast
  then show ?thesis
    using ride_lifecycle [OF demo_worlds_reachable(2) [of demo_track undefined] demo_env_ok] by blast
qed

text \<open>
  C3. Who drives: a ride waiting for its candidates has no driver; an accepted, confirmed or
  completed one has; every candidate that has accepted or is confirmed is the ride's driver,
  so no two drivers ever hold the same ride; and a ride on its way belongs to a driver whose
  candidate the rider has confirmed.
\<close>

theorem driver_consistency:
  assumes "reachable re te pe s" and "env_ok re" and "row_find ride_id k (rides s) = Some r"
  shows "(status r = CANDIDATES_COMPUTED \<longrightarrow> driverId r = None) \<and>
    (status r = ACCEPTED \<or> status r = ENROUTE \<or> status r = COMPLETED \<longrightarrow> driverId r \<noteq> None) \<and>
    (\<forall>c \<in> set (candidates s). cand_rideId c = k \<longrightarrow>
       cand_status c = CAccepted \<or> cand_status c = CONFIRMED \<longrightarrow> driverId r = Some (cand_driverId c)) \<and>
    (status r = ENROUTE \<longrightarrow> (\<exists>c \<in> set (candidates s). cand_rideId c = k \<and>
       driverId r = Some (cand_driverId c) \<and> cand_status c = CONFIRMED))"
proof -
  obtain a where a: "abs_ride k s = Some a" "life_inv a" "a_status a = status r" "a_driver a = driverId r"
    using reachable_ride [OF assms] by blast
  then have cands: "a_cands a = map (\<lambda>c. (cand_driverId c, cand_status c)) (candidatesOfRide k (candidates s))"
    by (auto simp: abs_ride_def)
  have taken: "driverId r = Some (cand_driverId c)"
    if "c \<in> set (candidates s)" "cand_rideId c = k" "cand_status c = CAccepted \<or> cand_status c = CONFIRMED" for c
    using life_inv_taker [OF a(2), of "cand_driverId c" "cand_status c"] that a(4)
    by (force simp: cands candidatesOfRide_def)
  have way: "\<exists>c \<in> set (candidates s). cand_rideId c = k \<and> driverId r = Some (cand_driverId c) \<and>
      cand_status c = CONFIRMED" if en: "status r = ENROUTE"
  proof -
    obtain d where d: "driverId r = Some d" using a en by (auto simp: life_inv_def)
    then have "a_cand d a = Some CONFIRMED" using a en by (auto simp: life_inv_def)
    then show ?thesis using a_cand_in d by (fastforce simp: cands candidatesOfRide_def)
  qed
  show ?thesis using a taken way by (auto simp: life_inv_def)
qed

theorem driver_consistency_witness:
  "\<exists>r. row_find ride_id ''1'' (rides demo_enroute) = Some r \<and> driverId r = Some ''11'' \<and>
     (\<exists>c \<in> set (candidates demo_enroute). cand_rideId c = ''1'' \<and> cand_driverId c = ''11'' \<and>
        cand_status c = CONFIRMED)"
proof -
  obtain r where r: "row_find ride_id ''1'' (rides demo_enroute) = Some r" "driverId r = Some ''11''"
      "status r = ENROUTE"
    using demo_enroute_row by blast
  obtain c where "c \<in> set (candidates demo_enroute)" "cand_rideId c = ''1''"
      "driverId r = Some (cand_driverId c)" "cand_status c = CONFIRMED"
    using driver_consistency [OF demo_worlds_reachable(2) [of demo_track undefined] demo_env_ok r(1)] r(3)
    by blast
  then show ?thesis using r by (intro exI [of _ r] conjI bexI [of _ c]) simp_all
qed





end
